(* ===== verification/Op_Prelude.thy ===== *)
theory Op_Prelude
  imports
    Complex_Main
    "HOL-Library.State_Monad"
    "HOL-Library.Char_ord"
    "HOL-Library.List_Lexorder"
    "HOL-Library.Product_Lexorder"
    "HOL-Library.Multiset"
begin

text \<open>
  Shared vocabulary of the development: operations of the operator run in a state monad
  whose state is the list of calls made so far (newest last), so that an operation is a
  HOL function from the history to a result and a longer history.  What the outside
  world answers is a function of the history, a parameter of each model.  This theory
  holds the two logics the components use on such operations (\<open>emits\<close>: which calls an
  operation may append; \<open>wp\<close>: what holds of its result and of the final history), and
  generic lemmas on lists.
\<close>

named_theorems emits_rules "rules for the calls an operation appends to the history"

named_theorems wp_rules "weakest preconditions of operations"

section \<open>Operations that append calls to a history\<close>

type_synonym ('c, 'a) oper = "('c list, 'a) state"

text \<open>One call: log it and answer from the history before it.\<close>

definition invoke :: "'c \<Rightarrow> ('c list \<Rightarrow> 'a) \<Rightarrow> ('c, 'a) oper" where
  "invoke c f = State (\<lambda>l. (f l, l @ [c]))"

definition result :: "('c, 'a) oper \<Rightarrow> 'c list \<Rightarrow> 'a" where
  "result m l = fst (run_state m l)"

text \<open>The calls an operation adds when it starts from history \<open>l\<close>.\<close>

definition trace :: "('c, 'a) oper \<Rightarrow> 'c list \<Rightarrow> 'c list" where
  "trace m l = drop (length l) (snd (run_state m l))"

definition emits :: "('c \<Rightarrow> bool) \<Rightarrow> ('c, 'a) oper \<Rightarrow> bool" where
  "emits P m \<longleftrightarrow> (\<forall>l. \<exists>new. snd (run_state m l) = l @ new \<and> list_all P new)"

text \<open>No call that satisfies \<open>A\<close> comes after a call that satisfies \<open>B\<close>.\<close>

definition precede :: "('c \<Rightarrow> bool) \<Rightarrow> ('c \<Rightarrow> bool) \<Rightarrow> 'c list \<Rightarrow> bool" where
  "precede A B cs \<longleftrightarrow> sorted_wrt (\<lambda>x y. \<not> (B x \<and> A y)) cs"

definition emits_ordered :: "('c \<Rightarrow> bool) \<Rightarrow> ('c \<Rightarrow> bool) \<Rightarrow> ('c, 'a) oper \<Rightarrow> bool" where
  "emits_ordered A B m \<longleftrightarrow>
     (\<forall>l. \<exists>new. snd (run_state m l) = l @ new \<and> precede A B new)"

definition wp :: "('c, 'a) oper \<Rightarrow> ('a \<Rightarrow> 'c list \<Rightarrow> bool) \<Rightarrow> 'c list \<Rightarrow> bool" where
  "wp m Q l \<longleftrightarrow> (case run_state m l of (x, l') \<Rightarrow> Q x l')"

lemma run_state_invoke [simp]: "run_state (invoke c f) l = (f l, l @ [c])"
  by (simp add: invoke_def)

subsection \<open>Rules for \<open>emits\<close>\<close>

lemma emits_return [emits_rules, simp]: "emits P (State_Monad.return x)"
  by (simp add: emits_def)

lemma emits_invoke [emits_rules]: "P c \<Longrightarrow> emits P (invoke c f)"
  by (simp add: emits_def)

lemma emits_bind:
  assumes m: "emits P m" and f: "\<And>x. emits P (f x)"
  shows "emits P (State_Monad.bind m f)"
  unfolding emits_def
proof
  fix l
  obtain x l' where ml: "run_state m l = (x, l')" by fastforce
  from m ml obtain n1 where n1: "l' = l @ n1" "list_all P n1"
    unfolding emits_def by (metis snd_conv)
  from f [of x] obtain n2 where "snd (run_state (f x) l') = l' @ n2" "list_all P n2"
    unfolding emits_def by blast
  with ml n1 have "snd (run_state (State_Monad.bind m f) l) = l @ (n1 @ n2)" "list_all P (n1 @ n2)"
    by (simp_all add: list_all_append)
  then show "\<exists>new. snd (run_state (State_Monad.bind m f) l) = l @ new \<and> list_all P new" by blast
qed

declare emits_bind [emits_rules]

lemma emits_mono: "emits P m \<Longrightarrow> (\<And>c. P c \<Longrightarrow> Q c) \<Longrightarrow> emits Q m"
  unfolding emits_def by (metis list.pred_mono_strong)

lemma emits_True_if: "emits P m \<Longrightarrow> emits (\<lambda>_. True) m"
  by (erule emits_mono) simp

lemma emits_trace: "emits P m \<Longrightarrow> snd (run_state m l) = l @ trace m l \<and> list_all P (trace m l)"
  unfolding emits_def trace_def by (metis append_eq_conv_conj)

lemma emits_traceD: "emits P m \<Longrightarrow> c \<in> set (trace m l) \<Longrightarrow> P c"
  by (meson emits_trace list_all_iff)

lemma emits_if [emits_rules]: "(b \<Longrightarrow> emits P m) \<Longrightarrow> (\<not> b \<Longrightarrow> emits P n) \<Longrightarrow> emits P (if b then m else n)"
  by simp

lemma emits_case_sum [emits_rules]:
  "(\<And>e. x = Inl e \<Longrightarrow> emits P (f e)) \<Longrightarrow> (\<And>v. x = Inr v \<Longrightarrow> emits P (g v)) \<Longrightarrow>
   emits P (case x of Inl e \<Rightarrow> f e | Inr v \<Rightarrow> g v)"
  by (cases x) auto

lemma emits_case_option [emits_rules]:
  "(x = None \<Longrightarrow> emits P f) \<Longrightarrow> (\<And>v. x = Some v \<Longrightarrow> emits P (g v)) \<Longrightarrow>
   emits P (case x of None \<Rightarrow> f | Some v \<Rightarrow> g v)"
  by (cases x) auto

lemma emits_case_prod [emits_rules]:
  "(\<And>a b. x = (a, b) \<Longrightarrow> emits P (f a b)) \<Longrightarrow> emits P (case x of (a, b) \<Rightarrow> f a b)"
  by (cases x) auto

lemma emits_let [emits_rules]: "emits P (f x) \<Longrightarrow> emits P (let y = x in f y)"
  by simp

subsection \<open>Rules for the order of calls\<close>

lemma precede_Nil [simp]: "precede A B []"
  by (simp add: precede_def)

lemma precede_append:
  "precede A B (xs @ ys) \<longleftrightarrow>
     precede A B xs \<and> precede A B ys \<and> (\<forall>x\<in>set xs. \<forall>y\<in>set ys. \<not> (B x \<and> A y))"
  by (auto simp: precede_def sorted_wrt_append)

lemma precede_if_noB: "list_all (\<lambda>c. \<not> B c) cs \<Longrightarrow> precede A B cs"
  unfolding precede_def by (induction cs) auto

lemma precede_if_noA: "list_all (\<lambda>c. \<not> A c) cs \<Longrightarrow> precede A B cs"
  unfolding precede_def by (induction cs) (auto simp: list_all_iff)

lemma precedeD: "precede A B (xs @ b # ys) \<Longrightarrow> B b \<Longrightarrow> a \<in> set ys \<Longrightarrow> \<not> A a"
  by (auto simp: precede_def sorted_wrt_append)

lemma emits_ordered_if_noB: "emits (\<lambda>c. \<not> B c) m \<Longrightarrow> emits_ordered A B m"
  unfolding emits_def emits_ordered_def by (metis precede_if_noB)

lemma emits_ordered_if_noA: "emits (\<lambda>c. \<not> A c) m \<Longrightarrow> emits_ordered A B m"
  unfolding emits_def emits_ordered_def by (metis precede_if_noA)

lemma emits_ordered_bind1:
  assumes m: "emits (\<lambda>c. \<not> B c) m" and f: "\<And>x. emits_ordered A B (f x)"
  shows "emits_ordered A B (State_Monad.bind m f)"
  unfolding emits_ordered_def
proof
  fix l
  obtain x l' where ml: "run_state m l = (x, l')" by fastforce
  from m ml obtain n1 where n1: "l' = l @ n1" "list_all (\<lambda>c. \<not> B c) n1"
    unfolding emits_def by (metis snd_conv)
  from f [of x] obtain n2 where "snd (run_state (f x) l') = l' @ n2" "precede A B n2"
    unfolding emits_ordered_def by blast
  with ml n1 have "snd (run_state (State_Monad.bind m f) l) = l @ (n1 @ n2)" "precede A B (n1 @ n2)"
    by (auto simp: precede_append list_all_iff intro: precede_if_noB)
  then show "\<exists>new. snd (run_state (State_Monad.bind m f) l) = l @ new \<and> precede A B new" by blast
qed

lemma emits_ordered_traceD:
  assumes "emits_ordered A B m"
  shows "precede A B (trace m l)"
proof -
  from assms obtain new where "snd (run_state m l) = l @ new" "precede A B new"
    unfolding emits_ordered_def by blast
  then show ?thesis by (simp add: trace_def)
qed

subsection \<open>Rules for weakest preconditions\<close>

lemma wp_return [wp_rules]: "wp (State_Monad.return x) Q l \<longleftrightarrow> Q x l"
  by (simp add: wp_def)

lemma wp_bind [wp_rules]: "wp (State_Monad.bind m f) Q l \<longleftrightarrow> wp m (\<lambda>x. wp (f x) Q) l"
  by (simp add: wp_def split: prod.splits)

lemma wp_invoke [wp_rules]: "wp (invoke c f) Q l \<longleftrightarrow> Q (f l) (l @ [c])"
  by (simp add: wp_def)

lemma wp_if [wp_rules]: "wp (if b then m else n) Q l \<longleftrightarrow> (if b then wp m Q l else wp n Q l)"
  by simp

lemma wp_mono: "wp m Q l \<Longrightarrow> (\<And>x l'. Q x l' \<Longrightarrow> R x l') \<Longrightarrow> wp m R l"
  by (auto simp: wp_def split: prod.splits)

lemma wp_result: "wp m Q l \<longleftrightarrow> Q (result m l) (snd (run_state m l))"
  by (simp add: wp_def result_def split: prod.splits)

lemma wpD: "wp m Q l \<Longrightarrow> run_state m l = (x, l') \<Longrightarrow> Q x l'"
  by (simp add: wp_def)

lemma wp_trace:
  assumes "emits P m"
  shows "wp m Q l \<longleftrightarrow> Q (result m l) (l @ trace m l)"
  using emits_trace [OF assms, of l] by (simp add: wp_result)

section \<open>Results together with the calls they took\<close>

text \<open>\<open>gives R m\<close>: whatever the world answers, the result of \<open>m\<close> and the calls it appends are
  related by \<open>R\<close>.  The rules build such facts along the code.\<close>

definition gives :: "('a \<Rightarrow> 'c list \<Rightarrow> bool) \<Rightarrow> ('c, 'a) oper \<Rightarrow> bool" where
  "gives R m \<longleftrightarrow> (\<forall>l. \<exists>new. snd (run_state m l) = l @ new \<and> R (fst (run_state m l)) new)"

named_theorems gives_rules "rules that follow the code"

lemma givesI: "(\<And>l. \<exists>new. snd (run_state m l) = l @ new \<and> R (fst (run_state m l)) new) \<Longrightarrow> gives R m"
  by (simp add: gives_def)

lemma givesD: "gives R m \<Longrightarrow> snd (run_state m l) = l @ trace m l \<and> R (result m l) (trace m l)"
  unfolding gives_def trace_def result_def by (metis append_eq_conv_conj)

lemma gives_mono: "gives R m \<Longrightarrow> (\<And>x n. R x n \<Longrightarrow> S x n) \<Longrightarrow> gives S m"
  unfolding gives_def by blast

lemma gives_conj: "gives R m \<Longrightarrow> gives S m \<Longrightarrow> gives (\<lambda>x n. R x n \<and> S x n) m"
  unfolding gives_def by (metis same_append_eq)

lemma gives_emits: "gives (\<lambda>_. list_all P) m \<longleftrightarrow> emits P m"
  by (simp add: gives_def emits_def)

lemma gives_return [gives_rules]: "R x [] \<Longrightarrow> gives R (State_Monad.return x)"
  by (simp add: gives_def)

lemma gives_invoke: "(\<And>l. R (f l) [c]) \<Longrightarrow> gives R (invoke c f)"
  by (simp add: gives_def)

lemma gives_bind:
  assumes m: "gives R m" and f: "\<And>x n. R x n \<Longrightarrow> gives (\<lambda>y n'. S y (n @ n')) (f x)"
  shows "gives S (State_Monad.bind m f)"
proof (rule givesI)
  fix l
  obtain x l' where ml: "run_state m l = (x, l')" by fastforce
  with m obtain n where n: "l' = l @ n" "R x n" unfolding gives_def by (metis fst_conv snd_conv)
  from f [OF n(2)] obtain n' where "snd (run_state (f x) l') = l' @ n'" "S (fst (run_state (f x) l')) (n @ n')"
    unfolding gives_def by blast
  with ml n show "\<exists>new. snd (run_state (State_Monad.bind m f) l) = l @ new \<and>
      S (fst (run_state (State_Monad.bind m f) l)) new"
    by (intro exI [of _ "n @ n'"]) simp
qed

lemma gives_bind_call [gives_rules]:
  "(\<And>x. gives (\<lambda>y n. S y (c # n)) (f x)) \<Longrightarrow> gives S (State_Monad.bind (invoke c g) f)"
  by (rule gives_bind [of "\<lambda>_ n. n = [c]"]) (auto simp: gives_def)

lemma gives_bind_answer:
  "(\<And>l. gives (\<lambda>y n. S y (c # n)) (f (g l))) \<Longrightarrow> gives S (State_Monad.bind (invoke c g) f)"
  by (rule gives_bind [of "\<lambda>x n. n = [c] \<and> (\<exists>l. x = g l)"]) (auto simp: gives_def)

lemma gives_bind_return [gives_rules]:
  "gives S (f x) \<Longrightarrow> gives S (State_Monad.bind (State_Monad.return x) f)"
  by (simp add: gives_def)

lemma gives_if [gives_rules]: "(b \<Longrightarrow> gives R m) \<Longrightarrow> (\<not> b \<Longrightarrow> gives R n) \<Longrightarrow> gives R (if b then m else n)"
  by simp

lemma gives_case_sum [gives_rules]:
  "(\<And>e. x = Inl e \<Longrightarrow> gives R (f e)) \<Longrightarrow> (\<And>v. x = Inr v \<Longrightarrow> gives R (g v)) \<Longrightarrow>
   gives R (case x of Inl e \<Rightarrow> f e | Inr v \<Rightarrow> g v)"
  by (cases x) auto

lemma gives_case_option [gives_rules]:
  "(x = None \<Longrightarrow> gives R f) \<Longrightarrow> (\<And>v. x = Some v \<Longrightarrow> gives R (g v)) \<Longrightarrow>
   gives R (case x of None \<Rightarrow> f | Some v \<Rightarrow> g v)"
  by (cases x) auto

lemma gives_case_prod [gives_rules]:
  "(\<And>a b. x = (a, b) \<Longrightarrow> gives R (f a b)) \<Longrightarrow> gives R (case x of (a, b) \<Rightarrow> f a b)"
  by (cases x) auto

lemma gives_let [gives_rules]: "gives R (f x) \<Longrightarrow> gives R (let y = x in f y)"
  by simp

section \<open>Operations that may fail\<close>

text \<open>\<open>bindE m f\<close> is Go's \<open>x, err := m; if err != nil { return err }; f x\<close>; \<open>skipE\<close> is the
  same for a call that returns only an error.\<close>

definition bindE :: "('c, 'e + 'a) oper \<Rightarrow> ('a \<Rightarrow> ('c, 'e + 'b) oper) \<Rightarrow> ('c, 'e + 'b) oper" where
  "bindE m f = State_Monad.bind m (\<lambda>r. case r of Inl e \<Rightarrow> State_Monad.return (Inl e) | Inr x \<Rightarrow> f x)"

definition skipE :: "('c, 'e option) oper \<Rightarrow> ('c, 'e + 'b) oper \<Rightarrow> ('c, 'e + 'b) oper" where
  "skipE m k = State_Monad.bind m (\<lambda>r. case r of Some e \<Rightarrow> State_Monad.return (Inl e) | None \<Rightarrow> k)"

lemma emits_bindE [emits_rules]: "emits P m \<Longrightarrow> (\<And>x. emits P (f x)) \<Longrightarrow> emits P (bindE m f)"
  unfolding bindE_def by (intro emits_rules)

lemma emits_skipE [emits_rules]: "emits P m \<Longrightarrow> emits P k \<Longrightarrow> emits P (skipE m k)"
  unfolding skipE_def by (intro emits_rules)

lemma wp_bindE [wp_rules]:
  "wp (bindE m f) Q l \<longleftrightarrow> wp m (\<lambda>r l. case r of Inl e \<Rightarrow> Q (Inl e) l | Inr x \<Rightarrow> wp (f x) Q l) l"
  by (auto simp: bindE_def wp_bind wp_def wp_return split: sum.splits prod.splits)

lemma wp_skipE [wp_rules]:
  "wp (skipE m k) Q l \<longleftrightarrow> wp m (\<lambda>r l. case r of Some e \<Rightarrow> Q (Inl e) l | None \<Rightarrow> wp k Q l) l"
  by (auto simp: skipE_def wp_bind wp_def wp_return split: option.splits prod.splits)

lemma gives_bindE:
  assumes m: "gives R m" and e: "\<And>e n. R (Inl e) n \<Longrightarrow> S (Inl e) n"
    and f: "\<And>x n. R (Inr x) n \<Longrightarrow> gives (\<lambda>y n'. S y (n @ n')) (f x)"
  shows "gives S (bindE m f)"
  unfolding bindE_def by (rule gives_bind [OF m]) (auto intro!: gives_rules e f split: sum.split)

lemma gives_bindE_call [gives_rules]:
  "(\<And>e. S (Inl e) [c]) \<Longrightarrow> (\<And>x. gives (\<lambda>y n. S y (c # n)) (f x)) \<Longrightarrow> gives S (bindE (invoke c g) f)"
  by (rule gives_bindE [of "\<lambda>_ n. n = [c]"]) (auto simp: gives_def)

lemma gives_skipE_call [gives_rules]:
  "(\<And>e. S (Inl e) [c]) \<Longrightarrow> gives (\<lambda>y n. S y (c # n)) k \<Longrightarrow> gives S (skipE (invoke c g) k)"
  unfolding skipE_def by (auto intro!: gives_rules split: option.split)

lemma emits_ordered_bindE1:
  "emits (\<lambda>c. \<not> B c) m \<Longrightarrow> (\<And>x. emits_ordered A B (f x)) \<Longrightarrow> emits_ordered A B (bindE m f)"
  unfolding bindE_def
  by (rule emits_ordered_bind1) (auto intro: emits_ordered_if_noA emits_return split: sum.split)

text \<open>The most common relation: every call satisfies \<open>P\<close> and the result satisfies \<open>R\<close>.\<close>

definition safely :: "('c \<Rightarrow> bool) \<Rightarrow> ('a \<Rightarrow> bool) \<Rightarrow> 'a \<Rightarrow> 'c list \<Rightarrow> bool" where
  "safely P R x n \<longleftrightarrow> list_all P n \<and> R x"

lemma safely_simps [simp]:
  "safely P R x [] \<longleftrightarrow> R x"
  "safely P R x (c # n) \<longleftrightarrow> P c \<and> safely P R x n"
  "safely P R x (n @ n') \<longleftrightarrow> list_all P n \<and> safely P R x n'"
  by (auto simp: safely_def list_all_append)

lemma safelyD: "safely P R x n \<Longrightarrow> list_all P n \<and> R x"
  by (simp add: safely_def)

lemma gives_calls: "gives (safely P R) m \<Longrightarrow> emits P m"
  by (auto simp: gives_emits [symmetric] safely_def elim: gives_mono)

lemma gives_safely_mono:
  "gives (safely P Q) m \<Longrightarrow> (\<And>c. P c \<Longrightarrow> P' c) \<Longrightarrow> (\<And>x. Q x \<Longrightarrow> Q' x) \<Longrightarrow> gives (safely P' Q') m"
  by (rule gives_mono [of "safely P Q"]) (auto simp: safely_def elim: list.pred_mono_strong)

lemma gives_safely_bindE:
  assumes "gives (safely P R) m" "\<And>e. R (Inl e) \<Longrightarrow> Q (Inl e)" "\<And>x. R (Inr x) \<Longrightarrow> gives (safely P Q) (f x)"
  shows "gives (safely P Q) (bindE m f)"
  using assms(2,3) by (intro gives_bindE [OF assms(1)]) (auto simp: safely_def [abs_def] list_all_append)

lemma gives_safely_bind:
  assumes "gives (safely P R) m" "\<And>x. R x \<Longrightarrow> gives (safely P Q) (f x)"
  shows "gives (safely P Q) (State_Monad.bind m f)"
  using assms(2) by (intro gives_bind [OF assms(1)]) (auto simp: safely_def [abs_def] list_all_append)

lemma gives_safely_call [gives_rules]: "P c \<Longrightarrow> (\<And>l. R (f l)) \<Longrightarrow> gives (safely P R) (invoke c f)"
  by (auto simp: gives_def)

lemma gives_const_conj: "b \<Longrightarrow> gives R m \<Longrightarrow> gives (\<lambda>x n. b \<and> R x n) m"
  by simp

section \<open>Lists\<close>

text \<open>The source's grouping maps (\<open>groups[node] = append(groups[node], x)\<close>) are association
  lists with one entry per key, in the order of first insertion.\<close>

fun group_add :: "'k \<Rightarrow> 'v \<Rightarrow> ('k \<times> 'v list) list \<Rightarrow> ('k \<times> 'v list) list" where
  "group_add k v [] = [(k, [v])]"
| "group_add k v ((k', vs) # gs) = (if k' = k then (k', vs @ [v]) # gs else (k', vs) # group_add k v gs)"

definition group_get :: "('k \<times> 'v list) list \<Rightarrow> 'k \<Rightarrow> 'v list" where
  "group_get gs k = (case map_of gs k of None \<Rightarrow> [] | Some vs \<Rightarrow> vs)"

lemma group_add_keys: "fst ` set (group_add k v gs) = insert k (fst ` set gs)"
  by (induction k v gs rule: group_add.induct) auto

lemma group_add_distinct:
  "distinct (map fst gs) \<Longrightarrow> distinct (map fst (group_add k v gs))"
proof (induction k v gs rule: group_add.induct)
  case (2 k v k' vs gs)
  then show ?case
    using group_add_keys [of k v gs] by (auto simp: image_iff)
qed simp

lemma group_get_add:
  "group_get (group_add k v gs) k' = (if k' = k then group_get gs k @ [v] else group_get gs k')"
  by (induction k v gs rule: group_add.induct) (auto simp: group_get_def)

lemma sort_perm_eq: "mset xs = mset ys \<Longrightarrow> sort xs = sort ys"
  by (metis mset_sort properties_for_sort sorted_sort)

lemma sort_key_perm_eq:
  assumes "mset xs = mset ys" "inj_on f (set xs)"
  shows "sort_key f xs = sort_key f ys"
proof (rule properties_for_sort_key [symmetric])
  show "mset (sort_key f xs) = mset ys" using assms(1) by simp
  show "sorted (map f (sort_key f xs))" by simp
  fix k
  assume "k \<in> set (sort_key f xs)"
  then have k: "k \<in> set xs" by simp
  have "filter (\<lambda>x. f k = f x) zs = filter ((=) k) zs" if "set zs = set xs" for zs
    using that k assms(2) by (intro filter_cong) (auto dest: inj_onD)
  moreover have "filter ((=) k) zs = replicate (count (mset zs) k) k" for zs
    by (induction zs) auto
  ultimately show "filter (\<lambda>x. f k = f x) (sort_key f xs) = filter (\<lambda>x. f k = f x) ys"
    using assms(1) mset_eq_setD [OF assms(1)] by simp
qed

lemma hd_sort_least:
  assumes "x \<in> set xs"
  shows "hd (sort xs) \<in> set xs \<and> hd (sort xs) \<le> x"
proof -
  obtain y ys where "sort xs = y # ys"
    using assms by (metis list.exhaust list.set_cases list.distinct(1) set_sort)
  then show ?thesis
    using assms by (metis list.sel(1) list.set_intros(1) order_refl set_ConsD set_sort
        sorted_simps(2) sorted_sort)
qed

end
