(* ===== verification/Go_Strings.thy ===== *)
theory Go_Strings
  imports Op_Prelude "HOL-Library.Word"
begin

text \<open>
  The parts of Go's standard library the operator computes with: \<open>strings\<close>, \<open>strconv\<close>,
  \<open>fmt\<close> verbs, \<open>hash/fnv\<close>, the RFC 3339 layout of \<open>time\<close> and the string flags of
  \<open>flag\<close>.  A Go string is its list of bytes, so \<open>length\<close> is Go's \<open>len\<close> and the order
  on strings is the bytewise lexicographic one.  White space is the ASCII white space.
\<close>

unbundle bit_operations_syntax

section \<open>Package strings\<close>

definition HasPrefix :: "string \<Rightarrow> string \<Rightarrow> bool" where
  "HasPrefix s p \<longleftrightarrow> take (length p) s = p"

definition TrimPrefix :: "string \<Rightarrow> string \<Rightarrow> string" where
  "TrimPrefix s p = (if HasPrefix s p then drop (length p) s else s)"

text \<open>\<open>strings.TrimRight\<close> with a one-character cutset.\<close>

definition TrimRight :: "string \<Rightarrow> char \<Rightarrow> string" where
  "TrimRight s c = rev (dropWhile (\<lambda>x. x = c) (rev s))"

definition is_space :: "char \<Rightarrow> bool" where
  "is_space c \<longleftrightarrow> of_char c \<in> {9, 10, 11, 12, 13, 32 :: nat}"

definition TrimSpace :: "string \<Rightarrow> string" where
  "TrimSpace s = rev (dropWhile is_space (rev (dropWhile is_space s)))"

text \<open>\<open>strings.Split\<close> with a one-character separator: \<open>n\<close> separators give \<open>n + 1\<close> parts.\<close>

fun Split :: "char \<Rightarrow> string \<Rightarrow> string list" where
  "Split c [] = [[]]"
| "Split c (x # xs) = (if x = c then [] # Split c xs
     else (case Split c xs of [] \<Rightarrow> [[x]] | p # ps \<Rightarrow> (x # p) # ps))"

fun Join :: "string list \<Rightarrow> string \<Rightarrow> string" where
  "Join [] sep = []"
| "Join [x] sep = x"
| "Join (x # y # ys) sep = x @ sep @ Join (y # ys) sep"

fun Contains :: "string \<Rightarrow> string \<Rightarrow> bool" where
  "Contains [] p \<longleftrightarrow> p = []"
| "Contains (c # s) p \<longleftrightarrow> HasPrefix (c # s) p \<or> Contains s p"

definition ascii_upper :: "char \<Rightarrow> char" where
  "ascii_upper c = (let n = of_char c :: nat in if 97 \<le> n \<and> n \<le> 122 then char_of (n - 32) else c)"

definition ascii_lower :: "char \<Rightarrow> char" where
  "ascii_lower c = (let n = of_char c :: nat in if 65 \<le> n \<and> n \<le> 90 then char_of (n + 32) else c)"

definition ToUpper :: "string \<Rightarrow> string" where "ToUpper = map ascii_upper"

definition ToLower :: "string \<Rightarrow> string" where "ToLower = map ascii_lower"

lemma HasPrefix_append [simp]: "HasPrefix (p @ s) p"
  by (simp add: HasPrefix_def)

lemma HasPrefix_iff: "HasPrefix s p \<longleftrightarrow> (\<exists>t. s = p @ t)"
  by (metis HasPrefix_append HasPrefix_def append_take_drop_id)

lemma TrimPrefix_append [simp]: "TrimPrefix (p @ s) p = s"
  by (simp add: TrimPrefix_def)

lemma Split_neq_Nil [simp]: "Split c s \<noteq> []"
  by (cases s) (auto split: list.splits)

lemma Split_no_sep: "c \<notin> set s \<Longrightarrow> Split c s = [s]"
  by (induction s) auto

lemma Split_append: "c \<notin> set p \<Longrightarrow> Split c (p @ c # s) = p # Split c s"
  by (induction p) auto

lemma length_Split: "length (Split c s) = Suc (count_list s c)"
  by (induction s) (auto split: list.splits)

lemma Split_Join:
  "xs \<noteq> [] \<Longrightarrow> \<forall>x\<in>set xs. c \<notin> set x \<Longrightarrow> Split c (Join xs [c]) = xs"
  by (induction xs "[c]" rule: Join.induct) (auto simp: Split_no_sep Split_append)

lemma length_TrimRight: "length (TrimRight s c) \<le> length s"
  by (metis TrimRight_def length_dropWhile_le length_rev)

lemma TrimRight_last: "TrimRight s c = [] \<or> last (TrimRight s c) \<noteq> c"
  by (metis (full_types) TrimRight_def hd_dropWhile last_rev rev_is_Nil_conv)

lemma TrimRight_subset: "set (TrimRight s c) \<subseteq> set s"
  by (metis TrimRight_def set_dropWhileD set_rev subsetI)

lemma TrimRight_prefix: "\<exists>n. TrimRight s c = take n s"
proof -
  have "rev s = takeWhile (\<lambda>x. x = c) (rev s) @ dropWhile (\<lambda>x. x = c) (rev s)" by simp
  then have "s = TrimRight s c @ rev (takeWhile (\<lambda>x. x = c) (rev s))"
    by (metis TrimRight_def rev_append rev_rev_ident)
  then show ?thesis by (metis append_eq_conv_conj)
qed

lemma TrimSpace_id:
  assumes "s = [] \<or> \<not> is_space (hd s) \<and> \<not> is_space (last s)"
  shows "TrimSpace s = s"
proof (cases s)
  case (Cons a t)
  with assms have "dropWhile is_space s = s" by simp
  moreover have "dropWhile is_space (rev s) = rev s"
    using assms Cons by (metis dropWhile_eq_self_iff hd_rev list.distinct(1))
  ultimately show ?thesis by (simp add: TrimSpace_def)
qed (simp add: TrimSpace_def)

section \<open>Packages strconv, fmt and hash/fnv\<close>

definition digit_char :: "nat \<Rightarrow> char" where
  "digit_char n = ''0123456789abcdef'' ! n"

function dec_digits :: "int \<Rightarrow> string" where
  "dec_digits n = (if n < 10 then [digit_char (nat n)]
     else dec_digits (n div 10) @ [digit_char (nat (n mod 10))])"
  by pat_completeness auto
termination
  by (relation "measure nat") auto

declare dec_digits.simps [simp del]

text \<open>\<open>%d\<close> and \<open>strconv.Itoa\<close>.\<close>

definition Itoa :: "int \<Rightarrow> string" where
  "Itoa i = (if i < 0 then CHR ''-'' # dec_digits (- i) else dec_digits i)"

text \<open>\<open>%0wd\<close> for a non-negative number.\<close>

definition pad0 :: "nat \<Rightarrow> int \<Rightarrow> string" where
  "pad0 w i = (let d = Itoa i in replicate (w - length d) CHR ''0'' @ d)"

text \<open>\<open>%08x\<close> of a 32-bit value.\<close>

definition hex8 :: "32 word \<Rightarrow> string" where
  "hex8 w = map (\<lambda>k. digit_char (nat (uint w div 16 ^ k mod 16))) [7, 6, 5, 4, 3, 2, 1, 0]"

text \<open>\<open>fnv.New32a\<close>: xor the byte in, then multiply by the prime, modulo \<open>2 ^ 32\<close>.\<close>

definition fnv32a :: "string \<Rightarrow> 32 word" where
  "fnv32a s = fold (\<lambda>c h. (h XOR of_char c) * 16777619) s 2166136261"

text \<open>\<open>int64\<close> addition.\<close>

definition add64 :: "int \<Rightarrow> int \<Rightarrow> int" where
  "add64 a b = (a + b + 2 ^ 63) mod 2 ^ 64 - 2 ^ 63"

text \<open>\<open>strconv.Quote\<close> and \<open>%q\<close>: control characters and the delimiters are escaped; bytes from
  0x80 on are copied (printable UTF-8).\<close>

definition quote_char :: "char \<Rightarrow> string" where
  "quote_char c =
     (if c = CHR 0x22 \<or> c = CHR 0x5C then [CHR 0x5C, c]
      else if c = CHR 0x07 then [CHR 0x5C, CHR ''a'']
      else if c = CHR 0x08 then [CHR 0x5C, CHR ''b'']
      else if c = CHR 0x0C then [CHR 0x5C, CHR ''f'']
      else if c = CHR 0x0A then [CHR 0x5C, CHR ''n'']
      else if c = CHR 0x0D then [CHR 0x5C, CHR ''r'']
      else if c = CHR 0x09 then [CHR 0x5C, CHR ''t'']
      else if c = CHR 0x0B then [CHR 0x5C, CHR ''v'']
      else if (of_char c :: nat) < 32 \<or> c = CHR 0x7F
      then [CHR 0x5C, CHR ''x'', digit_char (of_char c div 16), digit_char (of_char c mod 16)]
      else [c])"

definition Quote :: "string \<Rightarrow> string" where
  "Quote s = [CHR 0x22] @ concat (map quote_char s) @ [CHR 0x22]"

lemma fnv32a_append:
  "fnv32a (s @ [c]) = (fnv32a s XOR of_char c) * 16777619"
  by (simp add: fnv32a_def)

lemma length_hex8 [simp]: "length (hex8 w) = 8"
  by (simp add: hex8_def)

lemma digit_char_hex: "n < 16 \<Longrightarrow> digit_char n \<in> set ''0123456789abcdef''"
  unfolding digit_char_def by (rule nth_mem) simp

lemma digit_char_dec: "n < 10 \<Longrightarrow> digit_char n \<in> set ''0123456789''"
proof -
  assume n: "n < 10"
  have "digit_char n = (''0123456789'' @ ''abcdef'') ! n" by (simp add: digit_char_def)
  also have "\<dots> = ''0123456789'' ! n" by (rule nth_append_left) (use n in simp)
  also have "\<dots> \<in> set ''0123456789''" by (rule nth_mem) (use n in simp)
  finally show ?thesis .
qed

lemma set_hex8: "set (hex8 w) \<subseteq> set ''0123456789abcdef''"
  unfolding hex8_def set_map by (intro image_subsetI digit_char_hex) simp

lemma dec_digits_set: "0 \<le> n \<Longrightarrow> set (dec_digits n) \<subseteq> set ''0123456789''"
proof (induction n rule: dec_digits.induct)
  case (1 n)
  define D where "D = set ''0123456789''"
  have d: "digit_char (nat k) \<in> D" if "0 \<le> k" "k < 10" for k
    using digit_char_dec [of "nat k"] that by (simp only: D_def nat_less_iff)
  have "set (dec_digits n) \<subseteq> D"
    using 1 d [of n] d [of "n mod 10"] unfolding D_def [symmetric] by (subst dec_digits.simps) auto
  then show ?case by (simp only: D_def)
qed

lemma dec_digits_neq_Nil [simp]: "dec_digits n \<noteq> []"
  by (subst dec_digits.simps) simp

lemma Itoa_neq_Nil [simp]: "Itoa i \<noteq> []"
  by (simp add: Itoa_def)

lemma Itoa_set: "set (Itoa i) \<subseteq> set ''-0123456789''"
proof -
  define D where "D = set ''-0123456789''"
  have "set ''0123456789'' \<subseteq> D" by (rule subsetI) (simp add: D_def)
  then have "set (dec_digits n) \<subseteq> D" if "0 \<le> n" for n
    using dec_digits_set [OF that] by (rule order_trans [rotated])
  moreover have "CHR ''-'' \<in> D" by (simp add: D_def)
  ultimately have "set (Itoa i) \<subseteq> D" by (simp add: Itoa_def)
  then show ?thesis by (simp only: D_def)
qed

lemma pad0_set: "set (pad0 w i) \<subseteq> set ''-0123456789''"
  using Itoa_set [of i] by (auto simp: pad0_def Let_def)

text \<open>\<open>strconv.Atoi\<close>: an optional sign and decimal digits, within 64 bits.\<close>

definition digits_value :: "string \<Rightarrow> int" where
  "digits_value s = foldl (\<lambda>a c. 10 * a + (of_char c - 48)) 0 s"

definition is_digit :: "char \<Rightarrow> bool" where
  "is_digit c \<longleftrightarrow> (let n = of_char c :: nat in 48 \<le> n \<and> n \<le> 57)"

definition Atoi :: "string \<Rightarrow> int option" where
  "Atoi s =
     (let (neg, ds) = (case s of [] \<Rightarrow> (False, [])
            | c # cs \<Rightarrow> if c = CHR ''-'' then (True, cs) else if c = CHR ''+'' then (False, cs) else (False, s));
          v = (if neg then - digits_value ds else digits_value ds)
      in if ds \<noteq> [] \<and> list_all is_digit ds \<and> - (2 ^ 63) \<le> v \<and> v < 2 ^ 63 then Some v else None)"

lemma digit_char_cases:
  assumes "n < 10"
  shows "of_char (digit_char n) - 48 = int n \<and> is_digit (digit_char n) \<and> digit_char n \<notin> {CHR ''-'', CHR ''+''}"
proof -
  have "n \<in> {0, 1, 2, 3, 4, 5, 6, 7, 8, 9}" using assms by auto
  then show ?thesis by (elim insertE emptyE) (simp_all add: digit_char_def is_digit_def)
qed

lemma dec_digits_small: "n < 10 \<Longrightarrow> dec_digits n = [digit_char (nat n)]"
  by (subst dec_digits.simps) simp

lemma dec_digits_big: "\<not> n < 10 \<Longrightarrow> dec_digits n = dec_digits (n div 10) @ [digit_char (nat (n mod 10))]"
  by (subst dec_digits.simps) simp

lemma digits_value_dec: "0 \<le> n \<Longrightarrow> digits_value (dec_digits n) = n \<and> list_all is_digit (dec_digits n)"
proof (induction n rule: dec_digits.induct)
  case (1 n)
  show ?case
  proof (cases "n < 10")
    case True
    with 1(2) digit_char_cases [of "nat n"] show ?thesis
      by (simp add: dec_digits_small digits_value_def nat_less_iff)
  next
    case False
    with 1 have "digits_value (dec_digits (n div 10)) = n div 10 \<and> list_all is_digit (dec_digits (n div 10))"
      by simp
    with False digit_char_cases [of "nat (n mod 10)"] show ?thesis
      by (simp add: dec_digits_big digits_value_def nat_less_iff)
  qed
qed

lemma dec_digits_hd: "0 \<le> n \<Longrightarrow> hd (dec_digits n) \<notin> {CHR ''-'', CHR ''+''}"
  using digits_value_dec [of n] dec_digits_neq_Nil [of n]
  by (cases "dec_digits n") (auto simp: is_digit_def)

lemma Atoi_dec:
  assumes "0 \<le> i" "i < 2 ^ 63"
  shows "Atoi (dec_digits i) = Some i"
proof -
  obtain c cs where d: "dec_digits i = c # cs" using dec_digits_neq_Nil [of i] by (cases "dec_digits i") auto
  with dec_digits_hd [OF assms(1)] digits_value_dec [OF assms(1)] assms show ?thesis
    by (simp add: Atoi_def)
qed

lemma Atoi_neg_dec:
  assumes "0 \<le> i" "i \<le> 2 ^ 63"
  shows "Atoi (CHR ''-'' # dec_digits i) = Some (- i)"
  using digits_value_dec [OF assms(1)] assms by (simp add: Atoi_def)

lemma Atoi_Itoa: "- (2 ^ 63) \<le> i \<Longrightarrow> i < 2 ^ 63 \<Longrightarrow> Atoi (Itoa i) = Some i"
  using Atoi_dec [of i] Atoi_neg_dec [of "- i"] by (simp add: Itoa_def)

lemma Itoa_inj:
  assumes "Itoa i = Itoa j"
  shows "i = j"
proof -
  have v: "(i < 0 \<longleftrightarrow> hd (Itoa i) = CHR ''-'') \<and>
    i = (if i < 0 then - digits_value (tl (Itoa i)) else digits_value (Itoa i))" for i
    using digits_value_dec [of i] digits_value_dec [of "- i"] dec_digits_hd [of i] by (simp add: Itoa_def)
  have "i < 0 \<longleftrightarrow> j < 0" using v [of i] v [of j] assms by metis
  then show ?thesis using v [of i] v [of j] assms by metis
qed

section \<open>Package time\<close>

text \<open>
  Instants are nanoseconds since the Unix epoch.  \<open>Unix()\<close> is the whole seconds (floor),
  and Go's zero \<open>time.Time\<close> is the first second of year 1.
\<close>

type_synonym time = int

definition second :: int where "second = 1000000000"

definition minute :: int where "minute = 60 * second"

definition Unix :: "time \<Rightarrow> int" where "Unix t = t div second"

definition zero_time :: time where "zero_time = - 62135596800 * second"

text \<open>The proleptic Gregorian date of a day number (day 0 is 1970-01-01).\<close>

definition civil_date :: "int \<Rightarrow> int \<times> int \<times> int" where
  "civil_date d =
     (let z = d + 719468; era = z div 146097; doe = z - era * 146097;
          yoe = (doe - doe div 1460 + doe div 36524 - doe div 146096) div 365;
          doy = doe - (365 * yoe + yoe div 4 - yoe div 100);
          mp = (5 * doy + 2) div 153;
          dd = doy - (153 * mp + 2) div 5 + 1;
          mm = (if mp < 10 then mp + 3 else mp - 9)
      in (yoe + era * 400 + (if mm \<le> 2 then 1 else 0), mm, dd))"

text \<open>\<open>time.Unix(sec, 0).UTC().Format(time.RFC3339)\<close>.\<close>

definition RFC3339 :: "int \<Rightarrow> string" where
  "RFC3339 sec =
     (let (y, m, d) = civil_date (sec div 86400); s = sec mod 86400
      in pad0 4 y @ ''-'' @ pad0 2 m @ ''-'' @ pad0 2 d @ ''T'' @
         pad0 2 (s div 3600) @ '':'' @ pad0 2 (s div 60 mod 60) @ '':'' @ pad0 2 (s mod 60) @ ''Z'')"

lemma RFC3339_set: "set (RFC3339 sec) \<subseteq> set ''-0123456789:TZ''"
proof -
  have *: "set (pad0 w i) \<subseteq> set ''-0123456789:TZ''" for w i
    using pad0_set [of w i] by (rule order_trans) auto
  show ?thesis
    unfolding RFC3339_def Let_def by (auto split: prod.splits dest!: subsetD [OF *])
qed

lemma RFC3339_no_slash: "CHR ''/'' \<notin> set (RFC3339 sec)"
  using RFC3339_set [of sec] by auto

section \<open>Package flag\<close>

text \<open>
  \<open>FlagSet.Parse\<close> for a set of string-valued flags: the settings in argument order and the
  arguments left over, or the error.  A value is the rest after \<open>=\<close> or the whole next
  argument, whatever it looks like.
\<close>

fun flag_parse :: "string list \<Rightarrow> string list \<Rightarrow> string + (string \<times> string) list \<times> string list" where
  "flag_parse fs [] = Inr ([], [])"
| "flag_parse fs (s # args) =
     (if length s < 2 \<or> hd s \<noteq> CHR ''-'' then Inr ([], s # args)
      else if s = ''--'' then Inr ([], args)
      else
        let name = (if s ! 1 = CHR ''-'' then drop 2 s else drop 1 s);
            n = takeWhile (\<lambda>c. c \<noteq> CHR ''='') name;
            v = dropWhile (\<lambda>c. c \<noteq> CHR ''='') name
        in if name = [] \<or> hd name = CHR ''-'' \<or> hd name = CHR ''=''
           then Inl (''bad flag syntax: '' @ s)
           else if n \<notin> set fs
           then Inl (if n = ''help'' \<or> n = ''h'' then ''flag: help requested''
                     else ''flag provided but not defined: -'' @ n)
           else if v \<noteq> []
           then (case flag_parse fs args of Inl e \<Rightarrow> Inl e | Inr (st, r) \<Rightarrow> Inr ((n, tl v) # st, r))
           else (case args of
                   [] \<Rightarrow> Inl (''flag needs an argument: -'' @ n)
                 | a # args' \<Rightarrow>
                     (case flag_parse fs args' of Inl e \<Rightarrow> Inl e
                      | Inr (st, r) \<Rightarrow> Inr ((n, a) # st, r))))"

text \<open>The value of a \<open>StringVar\<close> flag (last setting wins) and of a repeatable flag.\<close>

definition flag_string :: "(string \<times> string) list \<Rightarrow> string \<Rightarrow> string \<Rightarrow> string" where
  "flag_string st n dflt = (case map_of (rev st) n of None \<Rightarrow> dflt | Some v \<Rightarrow> v)"

definition flag_multi :: "(string \<times> string) list \<Rightarrow> string \<Rightarrow> string list" where
  "flag_multi st n = map snd (filter (\<lambda>p. fst p = n) st)"

text \<open>A well-formed flag name: what is written after \<open>--\<close> is the name itself.\<close>

definition flag_name :: "string \<Rightarrow> bool" where
  "flag_name n \<longleftrightarrow> n \<noteq> [] \<and> hd n \<noteq> CHR ''-'' \<and> CHR ''='' \<notin> set n"

lemma flag_parse_pair:
  assumes "flag_name n" "n \<in> set fs"
  shows "flag_parse fs ((''--'' @ n) # v # args) =
    (case flag_parse fs args of Inl e \<Rightarrow> Inl e | Inr (st, r) \<Rightarrow> Inr ((n, v) # st, r))"
proof -
  have "takeWhile (\<lambda>c. c \<noteq> CHR ''='') n = n" "dropWhile (\<lambda>c. c \<noteq> CHR ''='') n = []"
    using assms(1) by (auto simp: flag_name_def takeWhile_eq_all_conv dropWhile_eq_Nil_conv)
  moreover have "hd n \<noteq> CHR ''=''" "hd n \<noteq> CHR ''-''" "n \<noteq> []"
    using assms(1) by (auto simp: flag_name_def) (metis list.set_sel(1))
  ultimately show ?thesis
    using assms(2) by (simp add: Let_def del: takeWhile_eq_all_conv dropWhile_eq_Nil_conv
        split: sum.split)
qed

text \<open>Flags written as \<open>--name value\<close> pairs come back as the pairs.\<close>

definition flag_args :: "(string \<times> string) list \<Rightarrow> string list" where
  "flag_args st = concat (map (\<lambda>(n, v). [''--'' @ n, v]) st)"

lemma flag_parse_args:
  assumes "\<forall>(n, v)\<in>set st. flag_name n \<and> n \<in> set fs"
  shows "flag_parse fs (flag_args st) = Inr (st, [])"
  using assms
proof (induction st)
  case (Cons p st)
  obtain n v where p: "p = (n, v)" by fastforce
  with Cons have "flag_parse fs (flag_args st) = Inr (st, [])" "flag_name n" "n \<in> set fs" by auto
  then show ?case
    using flag_parse_pair [of n fs v "flag_args st"] p by (simp add: flag_args_def)
qed (simp add: flag_args_def)

end
