(* ===== verification/Kube_Objects.thy ===== *)
theory Kube_Objects
  imports Go_Strings
begin

text \<open>
  The Kubernetes objects the operator reads and writes, with the fields it uses, and the
  operator's own API types (\<open>api/v1\<close>).  Label and data maps are partial functions from
  strings; an absent optional struct is \<open>None\<close>.  A phase field that the API server has not
  defaulted yet is the empty string in Go and the \<open>Unset\<close> constructor here.
\<close>

section \<open>Kubernetes types\<close>

record owner_ref =
  or_kind :: string
  or_name :: string
  or_uid :: string
  or_controller :: bool

record object_meta =
  om_name :: string
  om_namespace :: string
  om_uid :: string
  om_generation :: int
  om_creation :: time
  om_deletion :: "time option"
  om_labels :: "string \<rightharpoonup> string"
  om_annotations :: "string \<rightharpoonup> string"
  om_owners :: "owner_ref list"

text \<open>An object literal's metadata: name, namespace and labels given, the rest zero.\<close>

definition new_meta :: "string \<Rightarrow> string \<Rightarrow> (string \<rightharpoonup> string) \<Rightarrow> object_meta" where
  "new_meta name ns labels = \<lparr>om_name = name, om_namespace = ns, om_uid = '''', om_generation = 0,
     om_creation = zero_time, om_deletion = None, om_labels = labels,
     om_annotations = Map.empty, om_owners = []\<rparr>"

text \<open>Reading a Go map: an absent key gives the empty string.\<close>

definition label :: "(string \<rightharpoonup> string) \<Rightarrow> string \<Rightarrow> string" where
  "label m k = (case m k of None \<Rightarrow> '''' | Some v \<Rightarrow> v)"

datatype cond_status = CondTrue | CondFalse | CondUnknown

record condition =
  cond_type :: string
  cond_status :: cond_status
  cond_reason :: string
  cond_message :: string
  cond_generation :: int
  cond_transition :: time

record label_selector =
  matchLabels :: "(string \<times> string) list"
  matchExpressions :: "(string \<times> string \<times> string list) list"

datatype node_operator = OpIn | OpNotIn | OpExists | OpDoesNotExist | OpGt | OpLt

record node_requirement =
  nr_key :: string
  nr_operator :: node_operator
  nr_values :: "string list"

record node_term =
  matchExprs :: "node_requirement list"
  matchFields :: "node_requirement list"

datatype volume_source =
    PVCSource (claimName: string) (claimReadOnly: bool)
  | ConfigMapSource string
  | EmptyDirSource string
  | OtherSource

record volume =
  v_name :: string
  v_source :: volume_source

record volume_mount =
  vm_name :: string
  vm_path :: string
  vm_readOnly :: bool

datatype env_value = EnvValue string | EnvSecretKey (secretName: string) (secretKey: string)

record env_var =
  ev_name :: string
  ev_value :: env_value

record container =
  ct_name :: string
  ct_image :: string
  ct_command :: "string list"
  ct_env :: "env_var list"
  ct_mounts :: "volume_mount list"
  ct_pullPolicy :: string

text \<open>A required node affinity is its list of terms.\<close>

record pod_spec =
  ps_hostname :: string
  ps_nodeName :: string
  ps_restartPolicy :: string
  ps_serviceAccount :: string
  ps_affinity :: "node_term list option"
  ps_containers :: "container list"
  ps_volumes :: "volume list"

text \<open>A container status: the messages of the current and the last termination, if any.\<close>

record container_status =
  cs_terminated :: "string option"
  cs_lastTerminated :: "string option"

record pod =
  pod_meta :: object_meta
  pod_spec :: pod_spec
  pod_statuses :: "container_status list"

datatype job_condition_type = JobComplete | JobFailed | JobOther string

record job =
  job_meta :: object_meta
  job_backoffLimit :: "int option"
  job_ttl :: "int option"
  job_podLabels :: "string \<rightharpoonup> string"
  job_podSpec :: pod_spec
  job_conditions :: "(job_condition_type \<times> cond_status) list"

record secret =
  sec_meta :: object_meta
  sec_data :: "string \<rightharpoonup> string"

record config_map =
  cm_meta :: object_meta
  cm_data :: "string \<rightharpoonup> string"

record pvc =
  pvc_meta :: object_meta
  pvc_volumeName :: string

record persistent_volume =
  pv_name :: string
  pv_affinity :: "node_term list option"

record role_binding =
  rb_meta :: object_meta
  rb_subject :: "string \<times> string"
  rb_role :: string

abbreviation "job_name j \<equiv> om_name (job_meta j)"
abbreviation "pod_name p \<equiv> om_name (pod_meta p)"
abbreviation "pvc_name p \<equiv> om_name (pvc_meta p)"

section \<open>The operator's API types\<close>

datatype backup_phase =
    BackupPhaseUnset | BackupPhaseNew | BackupPhaseScheduled | BackupPhaseRunning
  | BackupPhaseCompleted | BackupPhaseFailed

datatype restore_phase =
    RestorePhaseUnset | RestorePhaseNew | RestorePhaseStagingAPI | RestorePhaseRestoringVolumes
  | RestorePhaseApplyingWorkloads | RestorePhaseCompleted | RestorePhaseFailed

text \<open>The phases are ordered by the life cycle.\<close>

fun backup_rank :: "backup_phase \<Rightarrow> nat" where
  "backup_rank BackupPhaseUnset = 0"
| "backup_rank BackupPhaseNew = 1"
| "backup_rank BackupPhaseScheduled = 2"
| "backup_rank BackupPhaseRunning = 3"
| "backup_rank BackupPhaseCompleted = 4"
| "backup_rank BackupPhaseFailed = 5"

instantiation backup_phase :: linorder
begin
definition less_eq_backup_phase :: "backup_phase \<Rightarrow> backup_phase \<Rightarrow> bool" where
  "less_eq_backup_phase p q \<longleftrightarrow> backup_rank p \<le> backup_rank q"
definition less_backup_phase :: "backup_phase \<Rightarrow> backup_phase \<Rightarrow> bool" where
  "less_backup_phase p q \<longleftrightarrow> backup_rank p < backup_rank q"
instance
proof
  fix p q r :: backup_phase
  show "p \<le> q \<Longrightarrow> q \<le> p \<Longrightarrow> p = q"
    by (cases p; cases q) (simp_all add: less_eq_backup_phase_def)
qed (auto simp: less_eq_backup_phase_def less_backup_phase_def)
end

record PBSBackupSpec =
  bs_repoRef :: string
  bs_pvcs :: "string list"
  bs_selector :: "label_selector option"
  bs_notes :: string

record BackupJobStatus =
  bj_node :: string
  bj_job :: string
  bj_state :: string

record PBSBackupStatus =
  bst_phase :: backup_phase
  bst_snapshotRef :: string
  bst_jobs :: "BackupJobStatus list"
  bst_startedAt :: "time option"
  bst_completedAt :: "time option"
  bst_bytes :: int
  bst_conditions :: "condition list"

record PBSBackup =
  b_meta :: object_meta
  b_spec :: PBSBackupSpec
  b_status :: PBSBackupStatus

text \<open>A freshly created object has a zero status.\<close>

definition empty_backup_status :: PBSBackupStatus where
  "empty_backup_status = \<lparr>bst_phase = BackupPhaseUnset, bst_snapshotRef = '''', bst_jobs = [],
     bst_startedAt = None, bst_completedAt = None, bst_bytes = 0, bst_conditions = []\<rparr>"

record secret_ref =
  ref_name :: string
  ref_namespace :: string

record PBSRepoSpec =
  rp_host :: string
  rp_port :: int
  rp_datastore :: string
  rp_namespace :: string
  rp_fingerprint :: string
  rp_secretRef :: secret_ref
  rp_bootstrapRef :: secret_ref

record PBSRepoStatus =
  rps_conditions :: "condition list"
  rps_lastProbe :: "time option"

record PBSRepo =
  repo_meta :: object_meta
  repo_spec :: PBSRepoSpec
  repo_status :: PBSRepoStatus

record PBSBackupTemplate =
  bt_pvcs :: "string list"
  bt_selector :: "label_selector option"
  bt_notes :: string

record PBSScheduleSpec =
  sch_repoRef :: string
  sch_schedule :: string
  sch_template :: PBSBackupTemplate
  sch_suspend :: bool

record PBSScheduleStatus =
  scs_lastSchedule :: "time option"
  scs_nextSchedule :: "time option"
  scs_active :: "string list"
  scs_conditions :: "condition list"

record PBSSchedule =
  s_meta :: object_meta
  s_spec :: PBSScheduleSpec
  s_status :: PBSScheduleStatus

record PBSRestoreSpec =
  rs_repoRef :: string
  rs_snapshotRef :: string
  rs_targetNamespace :: string
  rs_dropKinds :: "string list"
  rs_keepKinds :: "string list"

record RestoreJobStatus =
  rj_phase :: restore_phase
  rj_job :: string
  rj_state :: string

record PBSRestoreStatus =
  rst_phase :: restore_phase
  rst_conditions :: "condition list"
  rst_startedAt :: "time option"
  rst_completedAt :: "time option"
  rst_jobs :: "RestoreJobStatus list"

record PBSRestore =
  r_meta :: object_meta
  r_spec :: PBSRestoreSpec
  r_status :: PBSRestoreStatus

abbreviation "b_name b \<equiv> om_name (b_meta b)"
abbreviation "b_ns b \<equiv> om_namespace (b_meta b)"
abbreviation "r_name r \<equiv> om_name (r_meta r)"
abbreviation "r_ns r \<equiv> om_namespace (r_meta r)"
abbreviation "r_target r \<equiv> rs_targetNamespace (r_spec r)"

lemma new_meta_simps [simp]:
  "om_name (new_meta n ns ls) = n" "om_namespace (new_meta n ns ls) = ns"
  "om_labels (new_meta n ns ls) = ls" "om_owners (new_meta n ns ls) = []"
  by (simp_all add: new_meta_def)

section \<open>The constants shared by the components\<close>

definition ManagedLabel :: string where
  "ManagedLabel = ''pbs.sharifmind.ir/managed''"

definition hostnameKey :: string where
  "hostnameKey = ''kubernetes.io/hostname''"

definition condReady :: string where
  "condReady = ''Ready''"

end
