(* ===== verification/Kube_Env.thy ===== *)
theory Kube_Env
  imports Kube_Objects
begin

text \<open>
  The outside world of the controllers.  Every call a controller makes through its
  interfaces (API client, event recorder, hook executor, PBS server, metrics, clock) is a
  constructor of \<open>kcall\<close>; the record \<open>kube\<close> holds, per interface, the function that
  answers from the history of calls so far.  The record is a parameter of every operation,
  so a theorem about an operation holds for every behaviour of the API server, of the
  manager's (possibly stale) cache, of the hooks and of the PBS server.
\<close>

section \<open>Errors\<close>

text \<open>The API error classes the code distinguishes; any other error is \<open>OtherError\<close>.\<close>

datatype gerr =
    NotFound
  | AlreadyExists
  | Forbidden
  | MethodNotSupported
  | ServiceUnavailable
  | OtherError string
  | Wrapped string gerr

section \<open>Calls\<close>

datatype event_type = EventNormal | EventWarning

record http_request =
  hr_baseURL :: string
  hr_auth :: string
  hr_fingerprint :: string
  hr_method :: string
  hr_path :: string
  hr_body :: "string option"

text \<open>What becomes of a request: it cannot be built (its URL does not parse; nothing is sent), the
  exchange fails, the body cannot be read, or a response with a status and a body.\<close>

datatype http_response =
    BuildError string
  | TransportError string
  | ReadError string
  | Response (hr_status: int) (hr_text: string)

datatype kread =
    GetBackup string string | GetRepo string | GetSchedule string string | GetRestore string string
  | GetSecret string string | GetConfigMap string string | GetPVC string string | GetPV string
  | GetJob string string | GetNamespace string | GetServiceAccount string string
  | GetRoleBinding string string | GetClusterRoleBinding string
  | ListPVCs string "label_selector option"
  | ListPods string "(string \<times> string) option"
  | ListNodes
  | ListJobs string "string \<times> string"
  | ListBackups string "string \<times> string"
  | Discover | ListResource string string string string

datatype kwrite =
    CreateJob job | CreateSecret secret | UpdateSecret secret
  | CreateConfigMap config_map | UpdateConfigMap config_map | PatchConfigMap config_map
  | CreateNamespace string | CreateServiceAccount object_meta
  | CreateRoleBinding role_binding | CreateClusterRoleBinding role_binding
  | CreateBackup PBSBackup
  | PatchBackupStatus string string PBSBackupStatus
  | PatchRepoStatus string PBSRepoStatus
  | PatchScheduleStatus string string PBSScheduleStatus
  | PatchRestoreStatus string string PBSRestoreStatus

datatype kcall =
    Clock
  | Read kread
  | Write kwrite
  | ExecHook string string string "string list" int
  | Event string string event_type string string string
  | SetGauge string string rat
  | IncCounter string string
  | Http http_request

text \<open>Discovery and dynamic objects (\<open>k8s.io/client-go\<close>), for the serializer.\<close>

record api_resource =
  ar_kind :: string
  ar_name :: string
  ar_namespaced :: bool
  ar_verbs :: "string list"

record api_resource_list =
  arl_groupVersion :: string
  arl_resources :: "api_resource list"

text \<open>A JSON value as \<open>sigs.k8s.io/yaml\<close> and \<open>encoding/json\<close> decode it into \<open>any\<close>:
  an object is an association list.\<close>

datatype json =
    JNull | JBool bool | JNum rat | JStr string | JArr "json list" | JObj "(string \<times> json) list"

type_synonym jobject = "(string \<times> json) list"

record kube =
  k_now :: "kcall list \<Rightarrow> time"
  k_backup :: "kcall list \<Rightarrow> string \<Rightarrow> string \<Rightarrow> gerr + PBSBackup"
  k_repo :: "kcall list \<Rightarrow> string \<Rightarrow> gerr + PBSRepo"
  k_schedule :: "kcall list \<Rightarrow> string \<Rightarrow> string \<Rightarrow> gerr + PBSSchedule"
  k_restore :: "kcall list \<Rightarrow> string \<Rightarrow> string \<Rightarrow> gerr + PBSRestore"
  k_secret :: "kcall list \<Rightarrow> string \<Rightarrow> string \<Rightarrow> gerr + secret"
  k_configMap :: "kcall list \<Rightarrow> string \<Rightarrow> string \<Rightarrow> gerr + config_map"
  k_pvc :: "kcall list \<Rightarrow> string \<Rightarrow> string \<Rightarrow> gerr + pvc"
  k_pv :: "kcall list \<Rightarrow> string \<Rightarrow> gerr + persistent_volume"
  k_job :: "kcall list \<Rightarrow> string \<Rightarrow> string \<Rightarrow> gerr + job"
  k_namespace :: "kcall list \<Rightarrow> string \<Rightarrow> gerr + object_meta"
  k_serviceAccount :: "kcall list \<Rightarrow> string \<Rightarrow> string \<Rightarrow> gerr + object_meta"
  k_roleBinding :: "kcall list \<Rightarrow> string \<Rightarrow> string \<Rightarrow> gerr + role_binding"
  k_clusterRoleBinding :: "kcall list \<Rightarrow> string \<Rightarrow> gerr + role_binding"
  k_pvcs :: "kcall list \<Rightarrow> string \<Rightarrow> label_selector option \<Rightarrow> gerr + pvc list"
  k_pods :: "kcall list \<Rightarrow> string \<Rightarrow> (string \<times> string) option \<Rightarrow> gerr + pod list"
  k_nodes :: "kcall list \<Rightarrow> gerr + string list"
  k_jobs :: "kcall list \<Rightarrow> string \<Rightarrow> string \<times> string \<Rightarrow> gerr + job list"
  k_backups :: "kcall list \<Rightarrow> string \<Rightarrow> string \<times> string \<Rightarrow> gerr + PBSBackup list"
  k_write :: "kcall list \<Rightarrow> kwrite \<Rightarrow> gerr option"
  k_exec :: "kcall list \<Rightarrow> string \<Rightarrow> string \<Rightarrow> string \<Rightarrow> string list \<Rightarrow> int \<Rightarrow> string option"
  k_http :: "kcall list \<Rightarrow> http_request \<Rightarrow> http_response"
  k_discover :: "kcall list \<Rightarrow> api_resource_list list \<times> (bool \<times> gerr) option"
  k_resources :: "kcall list \<Rightarrow> string \<Rightarrow> string \<Rightarrow> string \<Rightarrow> string \<Rightarrow> gerr + jobject list"
  k_setCondition :: "kcall list \<Rightarrow> condition list \<Rightarrow> condition \<Rightarrow> condition list \<times> bool"
  k_conditionTrue :: "condition list \<Rightarrow> string \<Rightarrow> bool"
  k_setOwner :: "string \<Rightarrow> object_meta \<Rightarrow> object_meta \<Rightarrow> gerr + owner_ref list"
  k_selector :: "label_selector \<Rightarrow> string + label_selector"
  k_jsonError :: "string \<Rightarrow> string"
  k_podNamespace :: string

type_synonym 'a kop = "(kcall, 'a) oper"

text \<open>Classes of calls.\<close>

definition is_write :: "kcall \<Rightarrow> bool" where
  "is_write c = (case c of Write _ \<Rightarrow> True | _ \<Rightarrow> False)"

definition is_createJob :: "kcall \<Rightarrow> bool" where
  "is_createJob c = (case c of Write (CreateJob _) \<Rightarrow> True | _ \<Rightarrow> False)"

definition is_exec :: "kcall \<Rightarrow> bool" where
  "is_exec c = (case c of ExecHook _ _ _ _ _ \<Rightarrow> True | _ \<Rightarrow> False)"

fun is_read :: "kcall \<Rightarrow> bool" where
  "is_read (Read _) \<longleftrightarrow> True"
| "is_read _ \<longleftrightarrow> False"

lemma is_read_iff: "is_read c \<longleftrightarrow> (\<exists>r. c = Read r)"
  by (cases c) auto

text \<open>These classes of calls are decided by unfolding.\<close>

lemmas call_class_defs = is_write_def is_createJob_def is_exec_def

section \<open>The client operations\<close>

text \<open>A write: the call itself is what the world answers with an error or nothing.\<close>

definition do_write :: "kube \<Rightarrow> kwrite \<Rightarrow> gerr option kop" where
  "do_write K w = invoke (Write w) (\<lambda>l. k_write K l w)"

text \<open>A look at the world without a call of the operator's interfaces (library functions that
  read the clock themselves).\<close>

definition observe :: "(kcall list \<Rightarrow> 'a) \<Rightarrow> 'a kop" where
  "observe f = State (\<lambda>l. (f l, l))"

definition get_backup where "get_backup K ns n = invoke (Read (GetBackup ns n)) (\<lambda>l. k_backup K l ns n)"
definition get_repo where "get_repo K n = invoke (Read (GetRepo n)) (\<lambda>l. k_repo K l n)"
definition get_schedule where "get_schedule K ns n = invoke (Read (GetSchedule ns n)) (\<lambda>l. k_schedule K l ns n)"
definition get_restore where "get_restore K ns n = invoke (Read (GetRestore ns n)) (\<lambda>l. k_restore K l ns n)"
definition get_secret where "get_secret K ns n = invoke (Read (GetSecret ns n)) (\<lambda>l. k_secret K l ns n)"
definition get_configMap where
  "get_configMap K ns n = invoke (Read (GetConfigMap ns n)) (\<lambda>l. k_configMap K l ns n)"
definition get_pvc where "get_pvc K ns n = invoke (Read (GetPVC ns n)) (\<lambda>l. k_pvc K l ns n)"
definition get_pv where "get_pv K n = invoke (Read (GetPV n)) (\<lambda>l. k_pv K l n)"
definition get_job where "get_job K ns n = invoke (Read (GetJob ns n)) (\<lambda>l. k_job K l ns n)"
definition get_namespace where "get_namespace K n = invoke (Read (GetNamespace n)) (\<lambda>l. k_namespace K l n)"
definition get_serviceAccount where
  "get_serviceAccount K ns n = invoke (Read (GetServiceAccount ns n)) (\<lambda>l. k_serviceAccount K l ns n)"
definition get_roleBinding where
  "get_roleBinding K ns n = invoke (Read (GetRoleBinding ns n)) (\<lambda>l. k_roleBinding K l ns n)"
definition get_clusterRoleBinding where
  "get_clusterRoleBinding K n = invoke (Read (GetClusterRoleBinding n)) (\<lambda>l. k_clusterRoleBinding K l n)"
definition list_pvcs where "list_pvcs K ns s = invoke (Read (ListPVCs ns s)) (\<lambda>l. k_pvcs K l ns s)"
definition list_pods where "list_pods K ns s = invoke (Read (ListPods ns s)) (\<lambda>l. k_pods K l ns s)"
definition list_nodes where "list_nodes K = invoke (Read ListNodes) (k_nodes K)"
definition list_jobs where "list_jobs K ns s = invoke (Read (ListJobs ns s)) (\<lambda>l. k_jobs K l ns s)"
definition list_backups where "list_backups K ns s = invoke (Read (ListBackups ns s)) (\<lambda>l. k_backups K l ns s)"
definition read_clock where "read_clock K = invoke Clock (k_now K)"
definition exec_hook where
  "exec_hook K ns p ct cmd t = invoke (ExecHook ns p ct cmd t) (\<lambda>l. k_exec K l ns p ct cmd t)"
definition http_do where "http_do K r = invoke (Http r) (\<lambda>l. k_http K l r)"
definition discover where "discover K = invoke (Read Discover) (k_discover K)"
definition list_resource where
  "list_resource K g v r ns = invoke (Read (ListResource g v r ns)) (\<lambda>l. k_resources K l g v r ns)"

text \<open>Fire-and-forget interfaces: the event recorder and the metrics.\<close>

definition emit :: "kcall \<Rightarrow> unit kop" where
  "emit c = invoke c (\<lambda>_. ())"

lemmas client_defs =
  get_backup_def get_repo_def get_schedule_def get_restore_def get_secret_def get_configMap_def
  get_pvc_def get_pv_def get_job_def get_namespace_def get_serviceAccount_def get_roleBinding_def
  get_clusterRoleBinding_def list_pvcs_def list_pods_def list_nodes_def list_jobs_def
  list_backups_def read_clock_def exec_hook_def http_do_def discover_def list_resource_def
  do_write_def emit_def

lemma run_state_observe [simp]: "run_state (observe f) l = (f l, l)"
  by (simp add: observe_def)

lemma emits_observe [emits_rules, simp]: "emits P (observe f)"
  by (simp add: emits_def)

lemma wp_observe [wp_rules]: "wp (observe f) Q l \<longleftrightarrow> Q (f l) l"
  by (simp add: wp_def)

text \<open>One rule per client operation, for both logics.\<close>

lemma emits_client [emits_rules]:
  "P (Read (GetBackup ns n)) \<Longrightarrow> emits P (get_backup K ns n)"
  "P (Read (GetRepo n)) \<Longrightarrow> emits P (get_repo K n)"
  "P (Read (GetSchedule ns n)) \<Longrightarrow> emits P (get_schedule K ns n)"
  "P (Read (GetRestore ns n)) \<Longrightarrow> emits P (get_restore K ns n)"
  "P (Read (GetSecret ns n)) \<Longrightarrow> emits P (get_secret K ns n)"
  "P (Read (GetConfigMap ns n)) \<Longrightarrow> emits P (get_configMap K ns n)"
  "P (Read (GetPVC ns n)) \<Longrightarrow> emits P (get_pvc K ns n)"
  "P (Read (GetPV n)) \<Longrightarrow> emits P (get_pv K n)"
  "P (Read (GetJob ns n)) \<Longrightarrow> emits P (get_job K ns n)"
  "P (Read (GetNamespace n)) \<Longrightarrow> emits P (get_namespace K n)"
  "P (Read (GetServiceAccount ns n)) \<Longrightarrow> emits P (get_serviceAccount K ns n)"
  "P (Read (GetRoleBinding ns n)) \<Longrightarrow> emits P (get_roleBinding K ns n)"
  "P (Read (GetClusterRoleBinding n)) \<Longrightarrow> emits P (get_clusterRoleBinding K n)"
  "P (Read (ListPVCs ns sel)) \<Longrightarrow> emits P (list_pvcs K ns sel)"
  "P (Read (ListPods ns lb)) \<Longrightarrow> emits P (list_pods K ns lb)"
  "P (Read ListNodes) \<Longrightarrow> emits P (list_nodes K)"
  "P (Read (ListJobs ns lb')) \<Longrightarrow> emits P (list_jobs K ns lb')"
  "P (Read (ListBackups ns lb')) \<Longrightarrow> emits P (list_backups K ns lb')"
  "P Clock \<Longrightarrow> emits P (read_clock K)"
  "P (ExecHook ns p ct cmd t) \<Longrightarrow> emits P (exec_hook K ns p ct cmd t)"
  "P (Http r) \<Longrightarrow> emits P (http_do K r)"
  "P (Read Discover) \<Longrightarrow> emits P (discover K)"
  "P (Read (ListResource g v rs ns)) \<Longrightarrow> emits P (list_resource K g v rs ns)"
  "P (Write w) \<Longrightarrow> emits P (do_write K w)"
  "P c \<Longrightarrow> emits P (emit c)"
  by (simp_all add: client_defs emits_invoke)

lemma wp_client [wp_rules]:
  "wp (get_backup K ns n) Q l \<longleftrightarrow> Q (k_backup K l ns n) (l @ [Read (GetBackup ns n)])"
  "wp (get_repo K n) Q2 l \<longleftrightarrow> Q2 (k_repo K l n) (l @ [Read (GetRepo n)])"
  "wp (get_schedule K ns n) Q3 l \<longleftrightarrow> Q3 (k_schedule K l ns n) (l @ [Read (GetSchedule ns n)])"
  "wp (get_restore K ns n) Q4 l \<longleftrightarrow> Q4 (k_restore K l ns n) (l @ [Read (GetRestore ns n)])"
  "wp (get_secret K ns n) Q5 l \<longleftrightarrow> Q5 (k_secret K l ns n) (l @ [Read (GetSecret ns n)])"
  "wp (get_configMap K ns n) Q6 l \<longleftrightarrow> Q6 (k_configMap K l ns n) (l @ [Read (GetConfigMap ns n)])"
  "wp (get_pvc K ns n) Q7 l \<longleftrightarrow> Q7 (k_pvc K l ns n) (l @ [Read (GetPVC ns n)])"
  "wp (get_pv K n) Q8 l \<longleftrightarrow> Q8 (k_pv K l n) (l @ [Read (GetPV n)])"
  "wp (get_job K ns n) Q9 l \<longleftrightarrow> Q9 (k_job K l ns n) (l @ [Read (GetJob ns n)])"
  "wp (get_namespace K n) Q10 l \<longleftrightarrow> Q10 (k_namespace K l n) (l @ [Read (GetNamespace n)])"
  "wp (list_pvcs K ns sel) Q11 l \<longleftrightarrow> Q11 (k_pvcs K l ns sel) (l @ [Read (ListPVCs ns sel)])"
  "wp (list_pods K ns lb) Q12 l \<longleftrightarrow> Q12 (k_pods K l ns lb) (l @ [Read (ListPods ns lb)])"
  "wp (list_nodes K) Q13 l \<longleftrightarrow> Q13 (k_nodes K l) (l @ [Read (ListNodes)])"
  "wp (list_jobs K ns lb') Q14 l \<longleftrightarrow> Q14 (k_jobs K l ns lb') (l @ [Read (ListJobs ns lb')])"
  "wp (list_backups K ns lb') Q15 l \<longleftrightarrow> Q15 (k_backups K l ns lb') (l @ [Read (ListBackups ns lb')])"
  "wp (read_clock K) Q16 l \<longleftrightarrow> Q16 (k_now K l) (l @ [Clock])"
  "wp (exec_hook K ns p ct cmd t) Q17 l \<longleftrightarrow>
     Q17 (k_exec K l ns p ct cmd t) (l @ [ExecHook ns p ct cmd t])"
  "wp (http_do K r) Q18 l \<longleftrightarrow> Q18 (k_http K l r) (l @ [Http r])"
  "wp (do_write K w) Q19 l \<longleftrightarrow> Q19 (k_write K l w) (l @ [Write w])"
  "wp (emit c) Q20 l \<longleftrightarrow> Q20 () (l @ [c])"
  by (simp_all add: client_defs wp_invoke)

lemma gives_bind_observe [gives_rules]:
  "(\<And>l. gives S (f (g l))) \<Longrightarrow> gives S (State_Monad.bind (observe g) f)"
  by (rule gives_bind [of "\<lambda>x n. n = [] \<and> (\<exists>l. x = g l)"]) (auto simp: gives_def)

section \<open>A reconcile result\<close>

text \<open>\<open>ctrl.Result\<close>: requeue after a delay, or no requeue.  An operation returns an error or
  a result.\<close>

datatype requeue = NoRequeue | RequeueAfter int

type_synonym outcome = "gerr + requeue"

text \<open>\<open>client.IgnoreNotFound\<close> on the error of the first Get.\<close>

definition IgnoreNotFound :: "gerr \<Rightarrow> outcome" where
  "IgnoreNotFound e = (if e = NotFound then Inr NoRequeue else Inl e)"

text \<open>The documented behaviour of \<open>meta.SetStatusCondition\<close> and \<open>meta.IsStatusConditionTrue\<close>:
  the set condition is the one of its type, and setting content that is already there changes
  nothing.\<close>

definition same_content :: "condition \<Rightarrow> condition \<Rightarrow> bool" where
  "same_content c d \<longleftrightarrow> cond_type c = cond_type d \<and> cond_status c = cond_status d \<and>
     cond_reason c = cond_reason d \<and> cond_message c = cond_message d \<and>
     cond_generation c = cond_generation d"

definition condition_laws :: "kube \<Rightarrow> bool" where
  "condition_laws K \<longleftrightarrow>
     (\<forall>l cs c. k_conditionTrue K (fst (k_setCondition K l cs c)) (cond_type c) \<longleftrightarrow>
        cond_status c = CondTrue) \<and>
     (\<forall>l l' cs c d. same_content c d \<longrightarrow>
        k_setCondition K l' (fst (k_setCondition K l cs c)) d = (fst (k_setCondition K l cs c), False))"

end
