(* ===== verification/Job_Builder.thy ===== *)
theory Job_Builder
  imports Kube_Env
begin

text \<open>
  The Job builders of \<open>internal/backup/job.go\<close>: the backup Job of one node and the restore
  Jobs (fetch, apply, volume).  A built Job is a complete object, so the lemmas say what its
  volumes, mounts, environment, labels and node affinity are.
\<close>

record BackupJobSpec =
  bjs_Name :: string
  bjs_Namespace :: string
  bjs_Node :: string
  bjs_RepoSecret :: string
  bjs_PVCs :: "string list"
  bjs_StagingConfigMap :: string
  bjs_Notes :: string
  bjs_Image :: string
  bjs_ServiceAccount :: string

record RestoreJobSpec =
  rjs_Name :: string
  rjs_Restore :: string
  rjs_Namespace :: string
  rjs_RepoSecret :: string
  rjs_Ref :: string
  rjs_Image :: string
  rjs_ServiceAccount :: string

definition envContract :: "(string \<times> string) list" where
  "envContract = [(''PBS_HOST'', ''host''), (''PBS_PORT'', ''port''), (''PBS_DATASTORE'', ''datastore''),
     (''PBS_NS'', ''namespace''), (''PBS_TOKEN_ID'', ''tokenID''), (''PBS_TOKEN_SECRET'', ''tokenSecret''),
     (''PBS_FINGERPRINT'', ''fingerprint''), (''PBS_KEYFILE'', ''keyfile'')]"

definition contractEnv :: "string \<Rightarrow> env_var list" where
  "contractEnv sec = map (\<lambda>(e, k). \<lparr>ev_name = e, ev_value = EnvSecretKey sec k\<rparr>) envContract"

text \<open>The affinity every pinned Job carries: one term, host name in a one-element list.\<close>

definition nodePin :: "string \<Rightarrow> node_term list" where
  "nodePin node = [\<lparr>matchExprs = [\<lparr>nr_key = hostnameKey, nr_operator = OpIn, nr_values = [node]\<rparr>],
                   matchFields = []\<rparr>]"

definition pvc_vol_name :: "nat \<Rightarrow> string" where
  "pvc_vol_name i = ''pvc-'' @ Itoa (int i)"

text \<open>The loop over the PVCs: volume, mount and command arguments of the i-th.\<close>

fun backup_pvcs :: "nat \<Rightarrow> string list \<Rightarrow> volume list \<times> volume_mount list \<times> string list" where
  "backup_pvcs i [] = ([], [], [])"
| "backup_pvcs i (p # ps) =
     (let (vs, ms, cs) = backup_pvcs (Suc i) ps
      in (\<lparr>v_name = pvc_vol_name i, v_source = PVCSource p True\<rparr> # vs,
          \<lparr>vm_name = pvc_vol_name i, vm_path = ''/backup/'' @ p, vm_readOnly = True\<rparr> # ms,
          ''--pvc'' # p # cs))"

definition jobLabels :: "string \<Rightarrow> string \<Rightarrow> string \<rightharpoonup> string" where
  "jobLabels key name = [''app.kubernetes.io/managed-by'' \<mapsto> ''pbs-operator'', key \<mapsto> name,
     ManagedLabel \<mapsto> ''true'']"

definition backupCommand :: "BackupJobSpec \<Rightarrow> string list" where
  "backupCommand spec = [''pbs-agent'', ''backup''] @ snd (snd (backup_pvcs 0 (bjs_PVCs spec))) @
     (if bjs_StagingConfigMap spec \<noteq> '''' then [''--api'', ''/staging/api''] else []) @
     (if bjs_Notes spec \<noteq> '''' then [''--notes'', bjs_Notes spec] else [])"

definition BuildBackupJob :: "BackupJobSpec \<Rightarrow> job" where
  "BuildBackupJob spec =
     (let (vols, mounts, _) = backup_pvcs 0 (bjs_PVCs spec);
          staged = bjs_StagingConfigMap spec \<noteq> '''';
          volumes = vols @ (if staged then [\<lparr>v_name = ''api-staging'',
             v_source = ConfigMapSource (bjs_StagingConfigMap spec)\<rparr>] else []);
          vmounts = mounts @ (if staged then [\<lparr>vm_name = ''api-staging'', vm_path = ''/staging/api'',
             vm_readOnly = True\<rparr>] else []);
          labels = jobLabels ''pbsbackup'' (bjs_Name spec)
      in \<lparr>job_meta = new_meta (bjs_Name spec) (bjs_Namespace spec) labels,
          job_backoffLimit = Some 0, job_ttl = Some 3600, job_podLabels = labels,
          job_podSpec = \<lparr>ps_hostname = bjs_Name spec, ps_nodeName = '''', ps_restartPolicy = ''Never'',
            ps_serviceAccount = bjs_ServiceAccount spec, ps_affinity = Some (nodePin (bjs_Node spec)),
            ps_containers = [\<lparr>ct_name = ''backup'', ct_image = bjs_Image spec,
               ct_command = backupCommand spec, ct_env = contractEnv (bjs_RepoSecret spec),
               ct_mounts = vmounts, ct_pullPolicy = ''IfNotPresent''\<rparr>],
            ps_volumes = volumes\<rparr>,
          job_conditions = []\<rparr>)"

definition restoreJobBase :: "RestoreJobSpec \<Rightarrow> string list \<Rightarrow> job" where
  "restoreJobBase spec command =
     (let labels = jobLabels ''pbsrestore'' (rjs_Restore spec)
      in \<lparr>job_meta = new_meta (rjs_Name spec) (rjs_Namespace spec) labels,
          job_backoffLimit = Some 0, job_ttl = Some 3600, job_podLabels = labels,
          job_podSpec = \<lparr>ps_hostname = '''', ps_nodeName = '''', ps_restartPolicy = ''Never'',
            ps_serviceAccount = rjs_ServiceAccount spec, ps_affinity = None,
            ps_containers = [\<lparr>ct_name = ''restore'', ct_image = rjs_Image spec, ct_command = command,
               ct_env = contractEnv (rjs_RepoSecret spec), ct_mounts = [],
               ct_pullPolicy = ''IfNotPresent''\<rparr>],
            ps_volumes = []\<rparr>,
          job_conditions = []\<rparr>)"

definition cacheVolume :: volume where
  "cacheVolume = \<lparr>v_name = ''client-cache'', v_source = EmptyDirSource ''Memory''\<rparr>"

definition cacheMount :: volume_mount where
  "cacheMount = \<lparr>vm_name = ''client-cache'', vm_path = ''/cache'', vm_readOnly = False\<rparr>"

text \<open>Updating the pod's first container in place.\<close>

definition map_first :: "(container \<Rightarrow> container) \<Rightarrow> pod_spec \<Rightarrow> pod_spec" where
  "map_first f p = p\<lparr>ps_containers := (case ps_containers p of [] \<Rightarrow> [] | c # cs \<Rightarrow> f c # cs)\<rparr>"

definition addCacheEnv :: "pod_spec \<Rightarrow> pod_spec" where
  "addCacheEnv = map_first (\<lambda>c. c\<lparr>ct_env := ct_env c @
     [\<lparr>ev_name = ''XDG_CACHE_HOME'', ev_value = EnvValue ''/cache''\<rparr>,
      \<lparr>ev_name = ''TMPDIR'', ev_value = EnvValue ''/cache''\<rparr>]\<rparr>)"

definition set_mounts :: "volume_mount list \<Rightarrow> pod_spec \<Rightarrow> pod_spec" where
  "set_mounts ms = map_first (\<lambda>c. c\<lparr>ct_mounts := ms\<rparr>)"

definition fetchCommand :: "RestoreJobSpec \<Rightarrow> string \<Rightarrow> string list" where
  "fetchCommand spec configMap = [''pbs-agent'', ''restore-volume'', ''--ref'', rjs_Ref spec,
     ''--archive'', ''api.pxar.didx'', ''--target'', ''/staging/api'', ''--configmap'', configMap]"

definition BuildAPIFetchJob :: "RestoreJobSpec \<Rightarrow> string \<Rightarrow> job" where
  "BuildAPIFetchJob spec configMap =
     (let job = restoreJobBase spec (fetchCommand spec configMap);
          pod = (job_podSpec job)\<lparr>ps_volumes :=
            [\<lparr>v_name = ''api-staging'', v_source = EmptyDirSource ''''\<rparr>, cacheVolume]\<rparr>;
          pod = set_mounts [\<lparr>vm_name = ''api-staging'', vm_path = ''/staging/api'', vm_readOnly = False\<rparr>,
            cacheMount] pod
      in job\<lparr>job_podSpec := addCacheEnv pod\<rparr>)"

definition applyCommand :: "string \<Rightarrow> string list \<Rightarrow> string list \<Rightarrow> string list" where
  "applyCommand phase drops keeps = [''pbs-agent'', ''apply-manifests'', ''--phase'', phase,
     ''--file'', ''/staging/api/api.yaml''] @
     (if length drops > 0 then [''--drop'', Join drops '','' ] else []) @
     (if length keeps > 0 then [''--keep'', Join keeps '','' ] else [])"

definition BuildApplyJob :: "RestoreJobSpec \<Rightarrow> string \<Rightarrow> string \<Rightarrow> string list \<Rightarrow> string list \<Rightarrow> job" where
  "BuildApplyJob spec phase configMap drops keeps =
     (let job = restoreJobBase spec (applyCommand phase drops keeps);
          pod = (job_podSpec job)\<lparr>ps_volumes :=
            [\<lparr>v_name = ''api-staging'', v_source = ConfigMapSource configMap\<rparr>]\<rparr>;
          pod = set_mounts [\<lparr>vm_name = ''api-staging'', vm_path = ''/staging/api'', vm_readOnly = True\<rparr>] pod
      in job\<lparr>job_podSpec := pod\<rparr>)"

fun restore_pvcs :: "nat \<Rightarrow> string list \<Rightarrow> volume list \<times> volume_mount list \<times> string list" where
  "restore_pvcs i [] = ([], [], [])"
| "restore_pvcs i (p # ps) =
     (let (vs, ms, cs) = restore_pvcs (Suc i) ps
      in (\<lparr>v_name = pvc_vol_name i, v_source = PVCSource p False\<rparr> # vs,
          \<lparr>vm_name = pvc_vol_name i, vm_path = ''/backup/'' @ p, vm_readOnly = False\<rparr> # ms,
          [''--archive'', ''pvc-'' @ p @ ''.pxar.didx'', ''--target'', ''/backup/'' @ p] @ cs))"

definition volumeCommand :: "RestoreJobSpec \<Rightarrow> string list \<Rightarrow> string list" where
  "volumeCommand spec pvcs = [''pbs-agent'', ''restore-volume'', ''--ref'', rjs_Ref spec] @
     snd (snd (restore_pvcs 0 pvcs))"

definition BuildRestoreVolumeJob :: "RestoreJobSpec \<Rightarrow> string \<Rightarrow> string list \<Rightarrow> job" where
  "BuildRestoreVolumeJob spec node pvcs =
     (let (vols, mounts, _) = restore_pvcs 0 pvcs;
          job = restoreJobBase spec (volumeCommand spec pvcs);
          pod = (job_podSpec job)\<lparr>ps_volumes := vols @ [cacheVolume]\<rparr>;
          pod = addCacheEnv (set_mounts (mounts @ [cacheMount]) pod)
      in job\<lparr>job_podSpec := pod\<lparr>ps_affinity := Some (nodePin node)\<rparr>\<rparr>)"

section \<open>What the builders promise\<close>

lemmas restore_builder_defs =
  BuildAPIFetchJob_def BuildApplyJob_def BuildRestoreVolumeJob_def restoreJobBase_def
  set_mounts_def addCacheEnv_def map_first_def Let_def

lemma backup_pvcs_command: "snd (snd (backup_pvcs i ps)) = flag_args (map (\<lambda>p. (''pvc'', p)) ps)"
  by (induction ps arbitrary: i) (simp_all add: flag_args_def case_prod_unfold Let_def)

lemma restore_pvcs_command:
  "snd (snd (restore_pvcs i ps)) = flag_args (concat (map (\<lambda>p.
     [(''archive'', ''pvc-'' @ p @ ''.pxar.didx''), (''target'', ''/backup/'' @ p)]) ps))"
  by (induction ps arbitrary: i) (simp_all add: flag_args_def case_prod_unfold Let_def)

text \<open>Volumes and mounts run in step with the PVC list.\<close>

lemma backup_pvcs_volumes:
  "map v_source (fst (backup_pvcs i ps)) = map (\<lambda>p. PVCSource p True) ps \<and>
   map v_name (fst (backup_pvcs i ps)) = map pvc_vol_name [i..<i + length ps] \<and>
   map vm_name (fst (snd (backup_pvcs i ps))) = map pvc_vol_name [i..<i + length ps] \<and>
   map vm_path (fst (snd (backup_pvcs i ps))) = map (\<lambda>p. ''/backup/'' @ p) ps \<and>
   list_all vm_readOnly (fst (snd (backup_pvcs i ps)))"
  by (induction ps arbitrary: i) (simp_all add: case_prod_unfold Let_def upt_conv_Cons del: upt_Suc)

lemma restore_pvcs_volumes:
  "map v_source (fst (restore_pvcs i ps)) = map (\<lambda>p. PVCSource p False) ps \<and>
   map v_name (fst (restore_pvcs i ps)) = map pvc_vol_name [i..<i + length ps] \<and>
   map vm_name (fst (snd (restore_pvcs i ps))) = map pvc_vol_name [i..<i + length ps] \<and>
   map vm_path (fst (snd (restore_pvcs i ps))) = map (\<lambda>p. ''/backup/'' @ p) ps"
  by (induction ps arbitrary: i) (simp_all add: case_prod_unfold Let_def upt_conv_Cons del: upt_Suc)

lemma BuildBackupJob_simps [simp]:
  "job_name (BuildBackupJob s) = bjs_Name s"
  "om_namespace (job_meta (BuildBackupJob s)) = bjs_Namespace s"
  "om_labels (job_meta (BuildBackupJob s)) = jobLabels ''pbsbackup'' (bjs_Name s)"
  "job_podLabels (BuildBackupJob s) = jobLabels ''pbsbackup'' (bjs_Name s)"
  "ps_hostname (job_podSpec (BuildBackupJob s)) = bjs_Name s"
  "ps_affinity (job_podSpec (BuildBackupJob s)) = Some (nodePin (bjs_Node s))"
  "job_conditions (BuildBackupJob s) = []"
  by (simp_all add: BuildBackupJob_def Let_def split: prod.splits)

lemma job_labels_managed [simp]:
  "jobLabels key n ManagedLabel = Some ''true''"
  "key \<noteq> ManagedLabel \<Longrightarrow> jobLabels key n key = Some n"
  by (auto simp: jobLabels_def)

text \<open>What a container sees at its mount points: the volume a mount names, its path and
  whether it is read-only.\<close>

definition find_volume :: "volume list \<Rightarrow> string \<Rightarrow> volume_source option" where
  "find_volume vs n = map_option v_source (List.find (\<lambda>v. v_name v = n) vs)"

definition see_mounts :: "volume list \<Rightarrow> volume_mount list \<Rightarrow> (volume_source option \<times> string \<times> bool) list" where
  "see_mounts vs ms = map (\<lambda>m. (find_volume vs (vm_name m), vm_path m, vm_readOnly m)) ms"

definition mounted :: "job \<Rightarrow> (volume_source option \<times> string \<times> bool) list" where
  "mounted j = concat (map (\<lambda>c. see_mounts (ps_volumes (job_podSpec j)) (ct_mounts c))
     (ps_containers (job_podSpec j)))"

lemma find_volume_unique:
  assumes "distinct (map v_name vs)" "v \<in> set vs"
  shows "find_volume vs (v_name v) = Some (v_source v)"
  using assms by (induction vs) (auto simp: find_volume_def)

lemma find_volumes:
  assumes "distinct (map v_name vs)" "map v_name vs = map vm_name ms"
  shows "map (\<lambda>m. find_volume vs (vm_name m)) ms = map (\<lambda>v. Some (v_source v)) vs"
proof -
  have "map (\<lambda>m. find_volume vs (vm_name m)) ms = map (find_volume vs) (map vm_name ms)" by simp
  also have "\<dots> = map (find_volume vs \<circ> v_name) vs" using assms(2) by (metis map_map)
  also have "\<dots> = map (\<lambda>v. Some (v_source v)) vs"
    using find_volume_unique [OF assms(1)] by simp
  finally show ?thesis .
qed

lemma pvc_vol_name_inj: "inj pvc_vol_name"
  by (rule injI) (auto simp: pvc_vol_name_def dest: Itoa_inj)

lemma pvc_vol_names_distinct: "distinct (map pvc_vol_name [i..<j])"
  by (simp add: distinct_map inj_on_subset [OF pvc_vol_name_inj])

lemma pvc_vol_name_other: "n \<in> pvc_vol_name ` A \<Longrightarrow> hd n = CHR ''p''"
  by (auto simp: pvc_vol_name_def)

text \<open>Volumes and mounts that run in step are seen pairwise.\<close>

lemma see_mounts_in_step:
  assumes "map v_name vs = map vm_name ms" "distinct (map v_name vs)"
  shows "see_mounts vs ms =
    zip (map (\<lambda>v. Some (v_source v)) vs) (map (\<lambda>m. (vm_path m, vm_readOnly m)) ms)"
proof -
  have "see_mounts vs ms =
    zip (map (\<lambda>m. find_volume vs (vm_name m)) ms) (map (\<lambda>m. (vm_path m, vm_readOnly m)) ms)"
    unfolding see_mounts_def by (induction ms) auto
  then show ?thesis using find_volumes [OF assms(2,1)] by simp
qed

lemma zip_maps: "zip (map f ps) (map g ps) = map (\<lambda>p. (f p, g p)) ps"
  by (induction ps) auto

text \<open>The volumes of the PVC loop followed by further ones: the i-th claim is seen at its
  path.\<close>

lemma see_mounts_pvcs:
  assumes names: "map v_name vs = map pvc_vol_name [0..<length ps]"
      "map vm_name ms = map pvc_vol_name [0..<length ps]"
    and srcs: "map v_source vs = map (\<lambda>p. PVCSource p ro) ps"
    and flags: "map (\<lambda>m. (vm_path m, vm_readOnly m)) ms = map (\<lambda>p. (''/backup/'' @ p, ro)) ps"
    and more: "map v_name vs' = map vm_name ms'" "distinct (map v_name vs')"
      "\<forall>v\<in>set vs'. hd (v_name v) \<noteq> CHR ''p''"
  shows "see_mounts (vs @ vs') (ms @ ms') =
    map (\<lambda>p. (Some (PVCSource p ro), ''/backup/'' @ p, ro)) ps @
    zip (map (\<lambda>v. Some (v_source v)) vs') (map (\<lambda>m. (vm_path m, vm_readOnly m)) ms')"
proof -
  have "v_name ` set vs = pvc_vol_name ` {0..<length ps}"
    using arg_cong [OF names(1), of set] by simp
  then have "hd (v_name v) = CHR ''p''" if "v \<in> set vs" for v using that pvc_vol_name_other by blast
  then have "v_name ` set vs \<inter> v_name ` set vs' = {}" using more(3) by force
  moreover have "distinct (map v_name vs)" unfolding names(1) by (rule pvc_vol_names_distinct)
  ultimately have dist: "distinct (map v_name (vs @ vs'))" using more(2) by simp
  have some: "map (\<lambda>v. Some (v_source v)) vs = map (\<lambda>p. Some (PVCSource p ro)) ps"
    using arg_cong [OF srcs, of "map Some"] by (simp add: comp_def)
  have "see_mounts (vs @ vs') (ms @ ms') = zip (map (\<lambda>v. Some (v_source v)) (vs @ vs'))
      (map (\<lambda>m. (vm_path m, vm_readOnly m)) (ms @ ms'))"
    using names more(1) dist by (intro see_mounts_in_step) simp_all
  also have "\<dots> = zip (map (\<lambda>p. Some (PVCSource p ro)) ps) (map (\<lambda>p. (''/backup/'' @ p, ro)) ps) @
      zip (map (\<lambda>v. Some (v_source v)) vs') (map (\<lambda>m. (vm_path m, vm_readOnly m)) ms')"
    unfolding map_append some flags by (rule zip_append) simp
  finally show ?thesis by (simp only: zip_maps)
qed

lemma backup_mount_flags:
  "map (\<lambda>m. (vm_path m, vm_readOnly m)) (fst (snd (backup_pvcs i ps))) = map (\<lambda>p. (''/backup/'' @ p, True)) ps"
  by (induction ps arbitrary: i) (simp_all add: case_prod_unfold Let_def)

lemma restore_mount_flags:
  "map (\<lambda>m. (vm_path m, vm_readOnly m)) (fst (snd (restore_pvcs i ps))) = map (\<lambda>p. (''/backup/'' @ p, False)) ps"
  by (induction ps arbitrary: i) (simp_all add: case_prod_unfold Let_def)

text \<open>The backup container sees exactly the claims of the spec, each read-only at
  \<open>/backup/<pvc>\<close>, and the staging ConfigMap read-only at \<open>/staging/api\<close> when there is one;
  nothing else is mounted.\<close>

theorem BuildBackupJob_mounts:
  "mounted (BuildBackupJob s) =
     map (\<lambda>p. (Some (PVCSource p True), ''/backup/'' @ p, True)) (bjs_PVCs s) @
     (if bjs_StagingConfigMap s = '''' then []
      else [(Some (ConfigMapSource (bjs_StagingConfigMap s)), ''/staging/api'', True)])"
proof -
  define sv where "sv = (if bjs_StagingConfigMap s = '''' then [] else
    [\<lparr>v_name = ''api-staging'', v_source = ConfigMapSource (bjs_StagingConfigMap s)\<rparr>])"
  define sm where "sm = (if bjs_StagingConfigMap s = '''' then [] else
    [\<lparr>vm_name = ''api-staging'', vm_path = ''/staging/api'', vm_readOnly = True\<rparr>])"
  let ?b = "backup_pvcs 0 (bjs_PVCs s)"
  have "mounted (BuildBackupJob s) = see_mounts (fst ?b @ sv) (fst (snd ?b) @ sm)"
    by (simp add: mounted_def BuildBackupJob_def Let_def sv_def sm_def case_prod_unfold)
  also have "\<dots> = map (\<lambda>p. (Some (PVCSource p True), ''/backup/'' @ p, True)) (bjs_PVCs s) @
      zip (map (\<lambda>v. Some (v_source v)) sv) (map (\<lambda>m. (vm_path m, vm_readOnly m)) sm)"
    using backup_pvcs_volumes [of 0 "bjs_PVCs s"] backup_mount_flags [of 0 "bjs_PVCs s"]
    by (intro see_mounts_pvcs) (auto simp: sv_def sm_def)
  finally show ?thesis by (simp add: sv_def sm_def)
qed

text \<open>The volume restore Job mounts each claim read-write at \<open>/backup/<pvc>\<close> and the
  memory-backed client cache at \<open>/cache\<close>.\<close>

theorem BuildRestoreVolumeJob_mounts:
  "mounted (BuildRestoreVolumeJob s node ps) =
     map (\<lambda>p. (Some (PVCSource p False), ''/backup/'' @ p, False)) ps @
     [(Some (EmptyDirSource ''Memory''), ''/cache'', False)]"
proof -
  let ?b = "restore_pvcs 0 ps"
  have "mounted (BuildRestoreVolumeJob s node ps) =
      see_mounts (fst ?b @ [cacheVolume]) (fst (snd ?b) @ [cacheMount])"
    by (simp add: mounted_def restore_builder_defs case_prod_unfold)
  also have "\<dots> = map (\<lambda>p. (Some (PVCSource p False), ''/backup/'' @ p, False)) ps @
      zip (map (\<lambda>v. Some (v_source v)) [cacheVolume]) (map (\<lambda>m. (vm_path m, vm_readOnly m)) [cacheMount])"
    using restore_pvcs_volumes [of 0 ps] restore_mount_flags [of 0 ps]
    by (intro see_mounts_pvcs) (auto simp: cacheVolume_def cacheMount_def)
  finally show ?thesis by (simp add: cacheVolume_def cacheMount_def)
qed

end
