(* ===== verification/Agent_Args.thy ===== *)
theory Agent_Args
  imports Job_Builder
begin

text \<open>
  The agent's command line: \<open>ParseBackupArgs\<close> (\<open>internal/agent/backup.go\<close>),
  \<open>ParseRestoreVolumeArgs\<close>, \<open>ParseApplyArgs\<close> and \<open>csv\<close> (\<open>internal/agent/restore.go\<close>) and the
  dispatch of \<open>cmd/agent/main.go\<close>.  The locale \<open>agent_command\<close> is the contract between a Job
  builder of the controllers and the subcommand of the agent that runs in the Job; each
  builder is an interpretation.
\<close>

definition default_termlog :: "(string \<Rightarrow> string) \<Rightarrow> string" where
  "default_termlog getenv =
     (let t = TrimSpace (getenv ''TERMLOG'') in if t = '''' then ''/dev/termination-log'' else t)"

record backup_args =
  ba_pvcs :: "string list"
  ba_apiDir :: string
  ba_notes :: string
  ba_termlog :: string

text \<open>Each parser is its checks on the outcome of \<open>fs.Parse(args)\<close>.\<close>

definition finish_backup :: "(string \<Rightarrow> string) \<Rightarrow> string + (string \<times> string) list \<times> string list \<Rightarrow>
    string + backup_args" where
  "finish_backup getenv parsed =
     (case parsed of
        Inl e \<Rightarrow> Inl e
      | Inr (st, rest) \<Rightarrow>
          let pvcs = flag_multi st ''pvc''; apiDir = flag_string st ''api'' ''''
          in if length pvcs = 0 \<and> apiDir = ''''
             then Inl ''backup: at least one --pvc or --api is required''
             else if length rest > 0
             then Inl (''backup: unexpected arguments: '' @ Join rest '' '')
             else Inr \<lparr>ba_pvcs = pvcs, ba_apiDir = apiDir, ba_notes = flag_string st ''notes'' '''',
                       ba_termlog = flag_string st ''termlog'' (default_termlog getenv)\<rparr>)"

definition ParseBackupArgs :: "string list \<Rightarrow> (string \<Rightarrow> string) \<Rightarrow> string + backup_args" where
  "ParseBackupArgs args getenv =
     finish_backup getenv (flag_parse [''pvc'', ''api'', ''notes'', ''termlog''] args)"

record RestorePair =
  rp_archive :: string
  rp_target :: string

record volume_args =
  va_ref :: string
  va_pairs :: "RestorePair list"
  va_configMap :: string
  va_termlog :: string

definition finish_volume :: "(string \<Rightarrow> string) \<Rightarrow> string + (string \<times> string) list \<times> string list \<Rightarrow>
    string + volume_args" where
  "finish_volume getenv parsed =
     (case parsed of
        Inl e \<Rightarrow> Inl e
      | Inr (st, rest) \<Rightarrow>
          let ref = flag_string st ''ref'' ''''; archives = flag_multi st ''archive'';
              targets = flag_multi st ''target''
          in if ref = '''' then Inl ''restore-volume: --ref is required''
             else if length archives = 0
             then Inl ''restore-volume: at least one --archive/--target pair is required''
             else if length archives \<noteq> length targets
             then Inl (''restore-volume: '' @ Itoa (int (length archives)) @ '' --archive flags but '' @
                       Itoa (int (length targets)) @ '' --targets'')
             else if length rest > 0
             then Inl (''restore-volume: unexpected arguments: '' @ Join rest '' '')
             else Inr \<lparr>va_ref = ref,
                       va_pairs = map (\<lambda>(a, t). \<lparr>rp_archive = a, rp_target = t\<rparr>) (zip archives targets),
                       va_configMap = flag_string st ''configmap'' '''',
                       va_termlog = flag_string st ''termlog'' (default_termlog getenv)\<rparr>)"

definition ParseRestoreVolumeArgs :: "string list \<Rightarrow> (string \<Rightarrow> string) \<Rightarrow> string + volume_args" where
  "ParseRestoreVolumeArgs args getenv =
     finish_volume getenv (flag_parse [''ref'', ''archive'', ''target'', ''configmap'', ''termlog''] args)"

definition csv :: "string \<Rightarrow> string list" where
  "csv l = (if TrimSpace l = '''' then []
     else filter (\<lambda>f. f \<noteq> '''') (map TrimSpace (Split CHR '','' l)))"

record apply_args =
  aa_phase :: string
  aa_file :: string
  aa_drop :: "string list"
  aa_keep :: "string list"
  aa_termlog :: string

definition finish_apply :: "(string \<Rightarrow> string) \<Rightarrow>
    string + (string \<times> string) list \<times> string list \<Rightarrow> string + apply_args" where
  "finish_apply getenv parsed =
     (case parsed of
        Inl e \<Rightarrow> Inl e
      | Inr (st, rest) \<Rightarrow>
          let phase = flag_string st ''phase'' ''''; file = flag_string st ''file'' ''''
          in if phase \<noteq> ''pre'' \<and> phase \<noteq> ''workload''
             then Inl (''apply-manifests: --phase must be pre or workload, got '' @ Quote phase)
             else if file = '''' then Inl ''apply-manifests: --file is required''
             else if length rest > 0
             then Inl (''apply-manifests: unexpected arguments: '' @ Join rest '' '')
             else Inr \<lparr>aa_phase = phase, aa_file = file,
                       aa_drop = csv (flag_string st ''drop'' ''''),
                       aa_keep = csv (flag_string st ''keep'' ''''),
                       aa_termlog = flag_string st ''termlog'' (default_termlog getenv)\<rparr>)"

definition ParseApplyArgs ::
  "string list \<Rightarrow> (string \<Rightarrow> string) \<Rightarrow> string + apply_args" where
  "ParseApplyArgs args getenv =
     finish_apply getenv (flag_parse [''phase'', ''file'', ''drop'', ''keep'', ''termlog''] args)"

text \<open>\<open>main\<close> of \<open>cmd/agent\<close>: what \<open>os.Args\<close> makes the agent do; the three errors exit with 2.\<close>

datatype agent_action =
    Usage
  | BadArgs string
  | UnknownSubcommand string
  | DoBackup backup_args
  | DoRestoreVolume volume_args
  | DoApplyManifests apply_args

definition agent_main :: "(string \<Rightarrow> string) \<Rightarrow> string list \<Rightarrow> agent_action" where
  "agent_main getenv os_args =
     (if length os_args < 2 then Usage
      else let sub = os_args ! 1; args = drop 2 os_args
        in if sub = ''backup'' then
             (case ParseBackupArgs args getenv of Inl e \<Rightarrow> BadArgs e | Inr a \<Rightarrow> DoBackup a)
           else if sub = ''restore-volume'' then
             (case ParseRestoreVolumeArgs args getenv of Inl e \<Rightarrow> BadArgs e | Inr a \<Rightarrow> DoRestoreVolume a)
           else if sub = ''apply-manifests'' then
             (case ParseApplyArgs args getenv of Inl e \<Rightarrow> BadArgs e | Inr a \<Rightarrow> DoApplyManifests a)
           else UnknownSubcommand sub)"

section \<open>The contract between Job builders and the agent\<close>

text \<open>
  A command builder for one subcommand: on a well-formed request its command is the agent's
  binary, the subcommand and flags \<open>--name value\<close> known to that subcommand's flag set, and
  the subcommand makes of those settings what the request means.
\<close>

locale agent_command =
  fixes command :: "'s \<Rightarrow> string list"
    and wf :: "'s \<Rightarrow> bool"
    and sub :: string
    and flags :: "string list"
    and settings :: "'s \<Rightarrow> (string \<times> string) list"
    and decode :: "(string \<Rightarrow> string) \<Rightarrow> string + (string \<times> string) list \<times> string list \<Rightarrow> agent_action"
    and meaning :: "(string \<Rightarrow> string) \<Rightarrow> 's \<Rightarrow> agent_action"
  assumes command_shape: "command s = ''pbs-agent'' # sub # flag_args (settings s)"
    and settings_known: "(n, v) \<in> set (settings s) \<Longrightarrow> flag_name n \<and> n \<in> set flags"
    and dispatch: "agent_main getenv (prog # sub # args) = decode getenv (flag_parse flags args)"
    and decode_settings: "wf s \<Longrightarrow> decode getenv (Inr (settings s, [])) = meaning getenv s"
begin

lemma command_parses: "flag_parse flags (drop 2 (command s)) = Inr (settings s, [])"
  using settings_known [of _ _ s] by (auto simp: command_shape intro!: flag_parse_args)

lemma agent_runs_command: "wf s \<Longrightarrow> agent_main getenv (command s) = meaning getenv s"
  using command_parses [of s] decode_settings [of s]
  by (simp add: command_shape dispatch)

end

lemma flag_multi_Nil [simp]: "flag_multi [] n = []"
  by (simp add: flag_multi_def)

lemma flag_multi_append: "flag_multi (st @ st') n = flag_multi st n @ flag_multi st' n"
  by (simp add: flag_multi_def)

lemma flag_multi_Cons: "flag_multi ((m, v) # st) n = (if m = n then v # flag_multi st n else flag_multi st n)"
  by (simp add: flag_multi_def)

lemma flag_string_absent: "n \<notin> fst ` set st \<Longrightarrow> flag_string st n d = d"
  by (simp add: flag_string_def map_of_eq_None_iff image_iff split: option.split)
    (metis fst_conv map_of_SomeD set_rev)

lemma flag_string_append:
  "flag_string (st @ st') n d = flag_string st' n (flag_string st n d)"
  by (simp add: flag_string_def map_add_def split: option.split)

lemma flag_string_Cons: "flag_string ((m, v) # st) n d = flag_string st n (if m = n then v else d)"
  by (simp add: flag_string_def map_add_def split: option.split)

lemma flag_string_Nil [simp]: "flag_string [] n d = d"
  by (simp add: flag_string_def)

lemmas flag_lookup = flag_multi_append flag_multi_Cons flag_string_append flag_string_Cons

lemma flag_args_append: "flag_args (a @ b) = flag_args a @ flag_args b"
  by (simp add: flag_args_def)

lemma flag_args_Nil [simp]: "flag_args [] = []"
  by (simp add: flag_args_def)

lemma flag_args_Cons: "flag_args ((n, v) # st) = (''--'' @ n) # v # flag_args st"
  by (simp add: flag_args_def)

subsection \<open>The backup command\<close>

definition backup_settings :: "BackupJobSpec \<Rightarrow> (string \<times> string) list" where
  "backup_settings s = map (\<lambda>p. (''pvc'', p)) (bjs_PVCs s) @
     (if bjs_StagingConfigMap s = '''' then [] else [(''api'', ''/staging/api'')]) @
     (if bjs_Notes s = '''' then [] else [(''notes'', bjs_Notes s)])"

definition backup_meaning :: "(string \<Rightarrow> string) \<Rightarrow> BackupJobSpec \<Rightarrow> agent_action" where
  "backup_meaning getenv s = DoBackup \<lparr>ba_pvcs = bjs_PVCs s,
     ba_apiDir = (if bjs_StagingConfigMap s = '''' then '''' else ''/staging/api''),
     ba_notes = bjs_Notes s, ba_termlog = default_termlog getenv\<rparr>"

definition nonempty_backup :: "BackupJobSpec \<Rightarrow> bool" where
  "nonempty_backup s \<longleftrightarrow> bjs_PVCs s \<noteq> [] \<or> bjs_StagingConfigMap s \<noteq> ''''"

lemma flag_multi_pvcs: "flag_multi (map (\<lambda>p. (m, p)) ps) n = (if m = n then ps else [])"
  by (induction ps) (auto simp: flag_multi_Cons)

lemma flag_string_pvcs: "m \<noteq> n \<Longrightarrow> flag_string (map (\<lambda>p. (m, f p)) ps) n d = d"
  by (rule flag_string_absent) auto

interpretation backup_cmd: agent_command backupCommand nonempty_backup "''backup''"
  "[''pvc'', ''api'', ''notes'', ''termlog'']" backup_settings
  "\<lambda>getenv r. case finish_backup getenv r of Inl e \<Rightarrow> BadArgs e | Inr a \<Rightarrow> DoBackup a"
  backup_meaning
proof (unfold_locales, goal_cases)
  case (1 s)
  show ?case
    by (simp add: backupCommand_def backup_settings_def backup_pvcs_command flag_args_append flag_args_Cons)
next
  case (2 n v s)
  then show ?case by (auto simp: backup_settings_def flag_name_def split: if_splits)
next
  case (3 getenv prog args)
  show ?case by (simp add: agent_main_def ParseBackupArgs_def)
next
  case (4 s getenv)
  then show ?case
    by (auto simp: finish_backup_def backup_settings_def backup_meaning_def nonempty_backup_def
        flag_lookup flag_multi_pvcs flag_string_pvcs)
qed

subsection \<open>The restore commands\<close>

definition pair_settings :: "(string \<times> string) list \<Rightarrow> (string \<times> string) list" where
  "pair_settings ps = concat (map (\<lambda>(a, t). [(''archive'', a), (''target'', t)]) ps)"

text \<open>A request to restore archives of a snapshot into targets, optionally with an upload.\<close>

record volume_request =
  vr_ref :: string
  vr_pairs :: "(string \<times> string) list"
  vr_configMap :: string

definition volume_settings :: "volume_request \<Rightarrow> (string \<times> string) list" where
  "volume_settings q = (''ref'', vr_ref q) # pair_settings (vr_pairs q) @
     (if vr_configMap q = '''' then [] else [(''configmap'', vr_configMap q)])"

definition volume_meaning :: "(string \<Rightarrow> string) \<Rightarrow> volume_request \<Rightarrow> agent_action" where
  "volume_meaning getenv q = DoRestoreVolume \<lparr>va_ref = vr_ref q,
     va_pairs = map (\<lambda>(a, t). \<lparr>rp_archive = a, rp_target = t\<rparr>) (vr_pairs q),
     va_configMap = vr_configMap q, va_termlog = default_termlog getenv\<rparr>"

definition valid_volume_request :: "volume_request \<Rightarrow> bool" where
  "valid_volume_request q \<longleftrightarrow> vr_ref q \<noteq> '''' \<and> vr_pairs q \<noteq> []"

lemma pair_settings_multi:
  "flag_multi (pair_settings ps) ''archive'' = map fst ps"
  "flag_multi (pair_settings ps) ''target'' = map snd ps"
  by (induction ps) (auto simp: pair_settings_def flag_multi_Cons)

lemma pair_settings_string: "n \<notin> {''archive'', ''target''} \<Longrightarrow> flag_string (pair_settings ps) n d = d"
  by (rule flag_string_absent) (auto simp: pair_settings_def)

interpretation volume_cmd: agent_command
  "\<lambda>q. ''pbs-agent'' # ''restore-volume'' # flag_args (volume_settings q)"
  valid_volume_request "''restore-volume''"
  "[''ref'', ''archive'', ''target'', ''configmap'', ''termlog'']" volume_settings
  "\<lambda>getenv r. case finish_volume getenv r of Inl e \<Rightarrow> BadArgs e | Inr a \<Rightarrow> DoRestoreVolume a"
  volume_meaning
proof (unfold_locales, goal_cases)
  case (1 s)
  show ?case by simp
next
  case (2 n v s)
  then show ?case by (auto simp: volume_settings_def pair_settings_def flag_name_def split: if_splits)
next
  case (3 getenv prog args)
  show ?case by (simp add: agent_main_def ParseRestoreVolumeArgs_def)
next
  case (4 s getenv)
  then show ?case
    by (auto simp: finish_volume_def volume_settings_def volume_meaning_def valid_volume_request_def
        flag_lookup pair_settings_multi pair_settings_string zip_map_fst_snd)
qed

definition fetch_request :: "RestoreJobSpec \<Rightarrow> string \<Rightarrow> volume_request" where
  "fetch_request s cm = \<lparr>vr_ref = rjs_Ref s, vr_pairs = [(''api.pxar.didx'', ''/staging/api'')],
     vr_configMap = cm\<rparr>"

definition pvc_request :: "RestoreJobSpec \<Rightarrow> string list \<Rightarrow> volume_request" where
  "pvc_request s ps = \<lparr>vr_ref = rjs_Ref s,
     vr_pairs = map (\<lambda>p. (''pvc-'' @ p @ ''.pxar.didx'', ''/backup/'' @ p)) ps, vr_configMap = ''''\<rparr>"

lemma fetchCommand_request:
  "cm \<noteq> '''' \<Longrightarrow> fetchCommand s cm = ''pbs-agent'' # ''restore-volume'' # flag_args (volume_settings (fetch_request s cm))"
  by (simp add: fetchCommand_def volume_settings_def fetch_request_def pair_settings_def flag_args_Cons)

lemma volumeCommand_request:
  "volumeCommand s ps = ''pbs-agent'' # ''restore-volume'' # flag_args (volume_settings (pvc_request s ps))"
  by (simp add: volumeCommand_def volume_settings_def pvc_request_def pair_settings_def flag_args_Cons
      restore_pvcs_command comp_def)

subsection \<open>The apply command\<close>

record apply_request =
  ar_phase :: string
  ar_drops :: "string list"
  ar_keeps :: "string list"

definition apply_settings :: "apply_request \<Rightarrow> (string \<times> string) list" where
  "apply_settings q = [(''phase'', ar_phase q), (''file'', ''/staging/api/api.yaml'')] @
     (if ar_drops q = [] then [] else [(''drop'', Join (ar_drops q) '','')]) @
     (if ar_keeps q = [] then [] else [(''keep'', Join (ar_keeps q) '','')])"

definition apply_meaning :: "(string \<Rightarrow> string) \<Rightarrow> apply_request \<Rightarrow> agent_action" where
  "apply_meaning getenv q = DoApplyManifests \<lparr>aa_phase = ar_phase q,
     aa_file = ''/staging/api/api.yaml'', aa_drop = ar_drops q, aa_keep = ar_keeps q,
     aa_termlog = default_termlog getenv\<rparr>"

text \<open>A Kind name that survives the comma list: not empty, no comma, no space at its ends.\<close>

definition clean_kind :: "string \<Rightarrow> bool" where
  "clean_kind k \<longleftrightarrow> k \<noteq> '''' \<and> CHR '','' \<notin> set k \<and> \<not> is_space (hd k) \<and> \<not> is_space (last k)"

definition valid_apply_request :: "apply_request \<Rightarrow> bool" where
  "valid_apply_request q \<longleftrightarrow> ar_phase q \<in> {''pre'', ''workload''} \<and>
     list_all clean_kind (ar_drops q) \<and> list_all clean_kind (ar_keeps q)"

lemma TrimSpace_Nil_iff: "TrimSpace s = [] \<longleftrightarrow> (\<forall>c\<in>set s. is_space c)"
proof -
  have "TrimSpace s = [] \<longleftrightarrow> (\<forall>c\<in>set (dropWhile is_space s). is_space c)"
    by (simp add: TrimSpace_def)
  also have "\<dots> \<longleftrightarrow> (\<forall>c\<in>set s. is_space c)"
    by (induction s) auto
  finally show ?thesis .
qed

lemma csv_Nil [simp]: "csv '''' = []"
  by (simp add: csv_def TrimSpace_def)

lemma csv_Join:
  assumes "list_all clean_kind ks"
  shows "csv (Join ks '','') = ks"
proof (cases ks)
  case (Cons k ks')
  have "hd k \<in> set (Join ks '','') \<and> \<not> is_space (hd k)"
    using assms Cons by (cases ks'; cases k) (auto simp: clean_kind_def)
  then have "TrimSpace (Join ks '','') \<noteq> ''''" by (auto simp: TrimSpace_Nil_iff)
  moreover have "Split CHR '','' (Join ks '','') = ks"
    using assms Cons by (intro Split_Join) (auto simp: list_all_iff clean_kind_def)
  moreover have "map TrimSpace ks = ks"
    using assms by (intro map_idI TrimSpace_id) (auto simp: list_all_iff clean_kind_def)
  moreover have "filter (\<lambda>f. f \<noteq> '''') ks = ks"
    using assms by (auto simp: filter_id_conv list_all_iff clean_kind_def)
  ultimately show ?thesis by (simp add: csv_def)
qed simp

interpretation apply_cmd: agent_command
  "\<lambda>q. applyCommand (ar_phase q) (ar_drops q) (ar_keeps q)"
  valid_apply_request "''apply-manifests''"
  "[''phase'', ''file'', ''drop'', ''keep'', ''termlog'']" apply_settings
  "\<lambda>getenv r. case finish_apply getenv r of Inl e \<Rightarrow> BadArgs e | Inr a \<Rightarrow> DoApplyManifests a"
  apply_meaning
proof (unfold_locales, goal_cases)
  case (1 s)
  show ?case by (simp add: applyCommand_def apply_settings_def flag_args_Cons)
next
  case (2 n v s)
  then show ?case by (auto simp: apply_settings_def flag_name_def split: if_splits)
next
  case (3 getenv prog args)
  show ?case by (simp add: agent_main_def ParseApplyArgs_def)
next
  case (4 s getenv)
  then show ?case
    by (auto simp: finish_apply_def apply_settings_def apply_meaning_def valid_apply_request_def
        flag_lookup csv_Join)
qed

section \<open>Every built Job runs the action it was built for\<close>

definition job_command :: "job \<Rightarrow> string list" where
  "job_command j = ct_command (ps_containers (job_podSpec j) ! 0)"

lemma job_command_builders [simp]:
  "job_command (BuildBackupJob s) = backupCommand s"
  "job_command (BuildAPIFetchJob r cm) = fetchCommand r cm"
  "job_command (BuildRestoreVolumeJob r node ps) = volumeCommand r ps"
  "job_command (BuildApplyJob r phase cm drops keeps) = applyCommand phase drops keeps"
  by (simp_all add: job_command_def BuildBackupJob_def restore_builder_defs split: prod.splits)

text \<open>The command of a backup Job, run by the agent, backs up exactly the PVCs, staging
  directory and notes of the spec it was built from, provided there is something to back up.\<close>

theorem backup_job_runs:
  assumes "bjs_PVCs s \<noteq> [] \<or> bjs_StagingConfigMap s \<noteq> ''''"
  shows "agent_main getenv (job_command (BuildBackupJob s)) =
    DoBackup \<lparr>ba_pvcs = bjs_PVCs s,
      ba_apiDir = (if bjs_StagingConfigMap s = '''' then '''' else ''/staging/api''),
      ba_notes = bjs_Notes s, ba_termlog = default_termlog getenv\<rparr>"
  using backup_cmd.agent_runs_command [of s getenv] assms
  by (simp add: nonempty_backup_def backup_meaning_def)

lemma backup_job_runs_witness:
  "agent_main (\<lambda>_. '''') (job_command (BuildBackupJob \<lparr>bjs_Name = ''b-n1'', bjs_Namespace = ''app'',
     bjs_Node = ''n1'', bjs_RepoSecret = ''pbsrepo-r'', bjs_PVCs = [''data''], bjs_StagingConfigMap = '''',
     bjs_Notes = '''', bjs_Image = ''img'', bjs_ServiceAccount = ''''\<rparr>)) =
   DoBackup \<lparr>ba_pvcs = [''data''], ba_apiDir = '''', ba_notes = '''',
     ba_termlog = default_termlog (\<lambda>_. '''')\<rparr>"
  by (subst backup_job_runs) simp_all

text \<open>The command of a volume restore Job restores each claim's archive into the directory
  the claim is mounted at, pair by pair and in order, from the Job's snapshot.\<close>

theorem volume_job_runs:
  assumes "rjs_Ref s \<noteq> ''''" "ps \<noteq> []"
  shows "agent_main getenv (job_command (BuildRestoreVolumeJob s node ps)) =
    DoRestoreVolume \<lparr>va_ref = rjs_Ref s,
      va_pairs = map (\<lambda>p. \<lparr>rp_archive = ''pvc-'' @ p @ ''.pxar.didx'', rp_target = ''/backup/'' @ p\<rparr>) ps,
      va_configMap = '''', va_termlog = default_termlog getenv\<rparr>"
  using volume_cmd.agent_runs_command [of "pvc_request s ps" getenv] assms
  by (simp add: volumeCommand_request valid_volume_request_def volume_meaning_def pvc_request_def comp_def)

lemma volume_job_runs_witness:
  "agent_main (\<lambda>_. '''') (job_command (BuildRestoreVolumeJob \<lparr>rjs_Name = ''r-vol-n1'',
     rjs_Restore = ''r'', rjs_Namespace = ''app'', rjs_RepoSecret = ''pbsrepo-r'',
     rjs_Ref = ''host/b-n1/2024-01-01T00:00:00Z'', rjs_Image = ''img'', rjs_ServiceAccount = ''''\<rparr>
     ''n1'' [''data''])) =
   DoRestoreVolume \<lparr>va_ref = ''host/b-n1/2024-01-01T00:00:00Z'',
     va_pairs = [\<lparr>rp_archive = ''pvc-data.pxar.didx'', rp_target = ''/backup/data''\<rparr>],
     va_configMap = '''', va_termlog = default_termlog (\<lambda>_. '''')\<rparr>"
  by (subst volume_job_runs) simp_all

lemma fetch_job_runs:
  assumes "rjs_Ref s \<noteq> ''''" "cm \<noteq> ''''"
  shows "agent_main getenv (job_command (BuildAPIFetchJob s cm)) =
    DoRestoreVolume \<lparr>va_ref = rjs_Ref s,
      va_pairs = [\<lparr>rp_archive = ''api.pxar.didx'', rp_target = ''/staging/api''\<rparr>],
      va_configMap = cm, va_termlog = default_termlog getenv\<rparr>"
  using volume_cmd.agent_runs_command [of "fetch_request s cm" getenv] assms
  by (simp add: fetchCommand_request valid_volume_request_def volume_meaning_def fetch_request_def)

lemma apply_command_runs:
  assumes "phase \<in> {''pre'', ''workload''}" "\<forall>k\<in>set drops. clean_kind k" "\<forall>k\<in>set keeps. clean_kind k"
  shows "agent_main getenv (job_command (BuildApplyJob s phase cm drops keeps)) =
    DoApplyManifests \<lparr>aa_phase = phase, aa_file = ''/staging/api/api.yaml'', aa_drop = drops,
      aa_keep = keeps, aa_termlog = default_termlog getenv\<rparr>"
  using apply_cmd.agent_runs_command
      [of "\<lparr>ar_phase = phase, ar_drops = drops, ar_keeps = keeps\<rparr>" getenv] assms
  by (simp add: valid_apply_request_def apply_meaning_def list_all_iff)

text \<open>The drop and keep filters of a restore survive the round trip through the apply Job's
  comma-separated flags: the agent filters on exactly the kinds of the spec.\<close>

theorem apply_job_runs:
  assumes "phase \<in> {''pre'', ''workload''}" "\<forall>k\<in>set drops. clean_kind k" "\<forall>k\<in>set keeps. clean_kind k"
  shows "agent_main getenv (job_command (BuildApplyJob s phase cm drops keeps)) =
    DoApplyManifests \<lparr>aa_phase = phase, aa_file = ''/staging/api/api.yaml'', aa_drop = drops,
      aa_keep = keeps, aa_termlog = default_termlog getenv\<rparr>"
  using apply_command_runs [OF assms] .

lemma apply_job_runs_witness:
  "agent_main (\<lambda>_. '''') (job_command (BuildApplyJob \<lparr>rjs_Name = ''r-pre'',
     rjs_Restore = ''r'', rjs_Namespace = ''app'', rjs_RepoSecret = ''pbsrepo-r'',
     rjs_Ref = ''host/b-n1/2024-01-01T00:00:00Z'', rjs_Image = ''img'', rjs_ServiceAccount = ''''\<rparr>
     ''pre'' ''r-api'' [''Secret'', ''Ingress''] [''Secret''])) =
   DoApplyManifests \<lparr>aa_phase = ''pre'', aa_file = ''/staging/api/api.yaml'',
     aa_drop = [''Secret'', ''Ingress''], aa_keep = [''Secret''], aa_termlog = default_termlog (\<lambda>_. '''')\<rparr>"
  by (subst apply_job_runs) (simp_all add: clean_kind_def is_space_def)

end
