(* ===== verification/Snapshot_Ref.thy ===== *)
theory Snapshot_Ref
  imports Kube_Env
begin

text \<open>
  Snapshot references (\<open>internal/backup/snapshotref.go\<close>) over the snapshot record of
  \<open>internal/pbs/snapshots.go\<close>.  A backup time is a finite JSON number, kept exactly as a
  rational; converting it to \<open>int64\<close> truncates towards zero.
\<close>

record Snapshot =
  BackupType :: string
  BackupID :: string
  BackupTime :: rat
  Size :: int

definition truncate_rat :: "rat \<Rightarrow> int" where
  "truncate_rat x = (if 0 \<le> x then \<lfloor>x\<rfloor> else \<lceil>x\<rceil>)"

definition ComposeSnapshotRef :: "string \<Rightarrow> string \<Rightarrow> rat \<Rightarrow> string" where
  "ComposeSnapshotRef backupType backupID backupTime =
     backupType @ ''/'' @ backupID @ ''/'' @ RFC3339 (truncate_rat backupTime)"

text \<open>The loop's state is \<open>best\<close>, absent while \<open>found\<close> is false.\<close>

fun latest_loop :: "Snapshot list \<Rightarrow> string \<Rightarrow> string \<Rightarrow> Snapshot option \<Rightarrow> Snapshot option" where
  "latest_loop [] t i best = best"
| "latest_loop (s # ss) t i best =
     (if BackupType s \<noteq> t \<or> BackupID s \<noteq> i then latest_loop ss t i best
      else (case best of None \<Rightarrow> latest_loop ss t i (Some s)
            | Some b \<Rightarrow> if BackupTime s > BackupTime b then latest_loop ss t i (Some s)
                        else latest_loop ss t i best))"

definition LatestSnapshot :: "Snapshot list \<Rightarrow> string \<Rightarrow> string \<Rightarrow> string + Snapshot" where
  "LatestSnapshot snaps t i =
     (case latest_loop snaps t i None of
        None \<Rightarrow> Inl (''backup: no snapshots in group '' @ t @ ''/'' @ i)
      | Some s \<Rightarrow> Inr s)"

definition in_group :: "string \<Rightarrow> string \<Rightarrow> Snapshot \<Rightarrow> bool" where
  "in_group t i s \<longleftrightarrow> BackupType s = t \<and> BackupID s = i"

lemma latest_loop_skip: "\<not> in_group t i s \<Longrightarrow> latest_loop (s # ss) t i best = latest_loop ss t i best"
  by (auto simp: in_group_def)

lemma latest_loop_take:
  "in_group t i s \<Longrightarrow> latest_loop (s # ss) t i best =
     latest_loop ss t i (Some (case best of None \<Rightarrow> s
       | Some b \<Rightarrow> if BackupTime s > BackupTime b then s else b))"
  by (auto simp: in_group_def split: option.splits)

declare latest_loop.simps(2) [simp del]

lemma latest_loop_best:
  "latest_loop ss t i best = Some s \<Longrightarrow>
   (s \<in> set ss \<and> in_group t i s \<or> best = Some s) \<and>
   (\<forall>x\<in>set ss. in_group t i x \<longrightarrow> BackupTime x \<le> BackupTime s) \<and>
   (\<forall>b. best = Some b \<longrightarrow> BackupTime b \<le> BackupTime s)"
proof (induction ss arbitrary: best)
  case (Cons a ss)
  show ?case
  proof (cases "in_group t i a")
    case False
    with Cons.prems have "latest_loop ss t i best = Some s" by (simp add: latest_loop_skip)
    from Cons.IH [OF this] False show ?thesis by auto
  next
    case True
    define c where "c = (case best of None \<Rightarrow> a
       | Some b \<Rightarrow> if BackupTime a > BackupTime b then a else b)"
    from Cons.prems True have "latest_loop ss t i (Some c) = Some s"
      by (simp add: latest_loop_take c_def)
    note IH = Cons.IH [OF this]
    have "BackupTime a \<le> BackupTime c \<and> (\<forall>b. best = Some b \<longrightarrow> BackupTime b \<le> BackupTime c)"
      "c = a \<or> best = Some c"
      by (auto simp: c_def split: option.splits)
    with IH True show ?thesis by (auto intro: order_trans)
  qed
qed simp

lemma latest_loop_None:
  "latest_loop ss t i best = None \<longleftrightarrow> best = None \<and> (\<forall>x\<in>set ss. \<not> in_group t i x)"
proof (induction ss arbitrary: best)
  case (Cons a ss)
  then show ?case
    by (cases "in_group t i a") (auto simp: latest_loop_skip latest_loop_take)
qed simp

text \<open>\<open>LatestSnapshot\<close> returns a snapshot of the asked group that no other snapshot of the
  group is newer than, and fails exactly when the group is empty.\<close>

theorem LatestSnapshot_newest:
  "case LatestSnapshot ss t i of
     Inl e \<Rightarrow> (\<forall>s\<in>set ss. \<not> in_group t i s) \<and> e = ''backup: no snapshots in group '' @ t @ ''/'' @ i
   | Inr s \<Rightarrow> s \<in> set ss \<and> in_group t i s \<and>
       (\<forall>x\<in>set ss. in_group t i x \<longrightarrow> BackupTime x \<le> BackupTime s)"
proof (cases "latest_loop ss t i None")
  case None
  then show ?thesis using latest_loop_None [of ss t i None] by (simp add: LatestSnapshot_def)
next
  case (Some s)
  then show ?thesis using latest_loop_best [OF Some] by (simp add: LatestSnapshot_def)
qed

lemma LatestSnapshot_newest_witness:
  "LatestSnapshot [\<lparr>BackupType = ''host'', BackupID = ''a'', BackupTime = 5, Size = 0\<rparr>,
     \<lparr>BackupType = ''host'', BackupID = ''a'', BackupTime = 7, Size = 1\<rparr>] ''host'' ''a'' =
   Inr \<lparr>BackupType = ''host'', BackupID = ''a'', BackupTime = 7, Size = 1\<rparr>"
  using LatestSnapshot_newest [of "[\<lparr>BackupType = ''host'', BackupID = ''a'', BackupTime = 5, Size = 0\<rparr>,
     \<lparr>BackupType = ''host'', BackupID = ''a'', BackupTime = 7, Size = 1\<rparr>]" "''host''" "''a''"]
  by (simp add: in_group_def split: sum.splits) auto

lemma LatestSnapshot_group:
  "LatestSnapshot ss t i = Inr s \<Longrightarrow> BackupType s = t \<and> BackupID s = i"
  using latest_loop_best [of ss t i None s]
  by (auto simp: LatestSnapshot_def in_group_def split: option.splits)

text \<open>A reference has exactly the three parts a restore splits it into.\<close>

lemma Split_ComposeSnapshotRef:
  "CHR ''/'' \<notin> set t \<Longrightarrow> CHR ''/'' \<notin> set i \<Longrightarrow>
   Split CHR ''/'' (ComposeSnapshotRef t i x) = [t, i, RFC3339 (truncate_rat x)]"
  by (simp add: ComposeSnapshotRef_def Split_append Split_no_sep RFC3339_no_slash)

end
