(* ===== verification/Go_Json.thy ===== *)
theory Go_Json
  imports Kube_Env
begin

text \<open>
  The parts of Go's \<open>encoding/json\<close> the operator and its agent exchange results with: the
  string encoder of \<open>json.Marshal\<close>, a parser for \<open>json.Unmarshal\<close>, and the decoding of a
  parsed value into Go strings, \<open>int64\<close>, \<open>float64\<close>, string slices and struct fields.  Bytes
  from 0x80 on are copied (valid UTF-8); a \<open>float64\<close> is kept exactly as a rational.
\<close>

datatype jval =
    JvNull | JvBool bool | JvNum string | JvStr string
  | JvArr "jval list" | JvObj "(string \<times> jval) list"

abbreviation dquote :: char where "dquote \<equiv> CHR 0x22"
abbreviation bslash :: char where "bslash \<equiv> CHR 0x5C"

section \<open>Encoding\<close>

text \<open>Go escapes the quote, the backslash, control characters and the HTML characters.\<close>

definition enc_char :: "char \<Rightarrow> string" where
  "enc_char c =
     (if c = dquote \<or> c = bslash then [bslash, c]
      else if c = CHR 0x08 then [bslash, CHR ''b'']
      else if c = CHR 0x0C then [bslash, CHR ''f'']
      else if c = CHR 0x0A then [bslash, CHR ''n'']
      else if c = CHR 0x0D then [bslash, CHR ''r'']
      else if c = CHR 0x09 then [bslash, CHR ''t'']
      else if (of_char c :: nat) < 32 \<or> c = CHR ''<'' \<or> c = CHR ''>'' \<or> c = CHR ''&''
      then [bslash, CHR ''u'', CHR ''0'', CHR ''0'', digit_char (of_char c div 16), digit_char (of_char c mod 16)]
      else [c])"

definition enc_string :: "string \<Rightarrow> string" where
  "enc_string s = [dquote] @ concat (map enc_char s) @ [dquote]"

text \<open>\<open>json.Marshal\<close> of a value built from structs, slices, strings and integers.\<close>

fun enc_val :: "jval \<Rightarrow> string" where
  "enc_val JvNull = ''null''"
| "enc_val (JvBool b) = (if b then ''true'' else ''false'')"
| "enc_val (JvNum n) = n"
| "enc_val (JvStr s) = enc_string s"
| "enc_val (JvArr vs) = ''['' @ Join (map enc_val vs) '','' @ '']''"
| "enc_val (JvObj ms) = ''{'' @ Join (map (\<lambda>m. enc_string (fst m) @ '':'' @ enc_val (snd m)) ms) '','' @ ''}''"

section \<open>Parsing\<close>

definition is_ws :: "char \<Rightarrow> bool" where
  "is_ws c \<longleftrightarrow> c = CHR '' '' \<or> c = CHR 0x09 \<or> c = CHR 0x0A \<or> c = CHR 0x0D"

definition skip_ws :: "string \<Rightarrow> string" where
  "skip_ws = dropWhile is_ws"

definition hex_val :: "char \<Rightarrow> int option" where
  "hex_val c = (let n = of_char c :: int in
     if 48 \<le> n \<and> n \<le> 57 then Some (n - 48) else if 97 \<le> n \<and> n \<le> 102 then Some (n - 87)
     else if 65 \<le> n \<and> n \<le> 70 then Some (n - 55) else None)"

definition hex4 :: "string \<Rightarrow> (int \<times> string) option" where
  "hex4 s = (case s of
     a # b # c # d # r \<Rightarrow>
       (case (hex_val a, hex_val b, hex_val c, hex_val d) of
          (Some w, Some x, Some y, Some z) \<Rightarrow> Some (((w * 16 + x) * 16 + y) * 16 + z, r)
        | _ \<Rightarrow> None)
   | _ \<Rightarrow> None)"

text \<open>UTF-8 bytes of a code point, and a decoded \<open>\u\<close> escape: a high surrogate joins the low
  surrogate after it, a lone surrogate is the replacement character.\<close>

definition utf8 :: "int \<Rightarrow> string" where
  "utf8 n = map char_of
     (if n < 0x80 then [n]
      else if n < 0x800 then [0xC0 + n div 64, 0x80 + n mod 64]
      else if n < 0x10000 then [0xE0 + n div 4096, 0x80 + n div 64 mod 64, 0x80 + n mod 64]
      else [0xF0 + n div 262144, 0x80 + n div 4096 mod 64, 0x80 + n div 64 mod 64, 0x80 + n mod 64])"

definition unescape_u :: "string \<Rightarrow> (string \<times> string) option" where
  "unescape_u s = (case hex4 s of
     None \<Rightarrow> None
   | Some (n, r) \<Rightarrow>
       if 0xD800 \<le> n \<and> n < 0xE000 then
         (case (if take 2 r = [bslash, CHR ''u''] then hex4 (drop 2 r) else None) of
            Some (m, r') \<Rightarrow> if n < 0xDC00 \<and> 0xDC00 \<le> m \<and> m < 0xE000
              then Some (utf8 (0x10000 + (n - 0xD800) * 1024 + (m - 0xDC00)), r')
              else Some (utf8 0xFFFD, r)
          | None \<Rightarrow> Some (utf8 0xFFFD, r))
       else Some (utf8 n, r))"

definition simple_escape :: "char \<Rightarrow> char option" where
  "simple_escape c = (if c = dquote \<or> c = bslash \<or> c = CHR ''/'' then Some c
     else if c = CHR ''b'' then Some (CHR 0x08) else if c = CHR ''f'' then Some (CHR 0x0C)
     else if c = CHR ''n'' then Some (CHR 0x0A) else if c = CHR ''r'' then Some (CHR 0x0D)
     else if c = CHR ''t'' then Some (CHR 0x09) else None)"

text \<open>The rest of a string literal after its opening quote.\<close>

function pstr :: "string \<Rightarrow> string \<Rightarrow> (string \<times> string) option" where
  "pstr acc s = (case s of
     [] \<Rightarrow> None
   | c # cs \<Rightarrow>
       if c = dquote then Some (acc, cs)
       else if c = bslash then
         (case cs of
            [] \<Rightarrow> None
          | e # es \<Rightarrow>
              if e = CHR ''u'' then
                (case unescape_u es of None \<Rightarrow> None
                 | Some (bs, r) \<Rightarrow> if length r < length s then pstr (acc @ bs) r else None)
              else (case simple_escape e of None \<Rightarrow> None | Some x \<Rightarrow> pstr (acc @ [x]) es))
       else if (of_char c :: nat) < 32 then None
       else pstr (acc @ [c]) cs)"
  by pat_completeness auto
termination by (relation "measure (length \<circ> snd)") auto

declare pstr.simps [simp del]

definition pdigits :: "string \<Rightarrow> (string \<times> string) option" where
  "pdigits s = (let ds = takeWhile is_digit s in
     if ds = [] then None else Some (ds, drop (length ds) s))"

definition pfrac :: "string \<Rightarrow> (string \<times> string) option" where
  "pfrac s = (if s \<noteq> [] \<and> hd s = CHR ''.'' then map_option (\<lambda>(d, r). (CHR ''.'' # d, r)) (pdigits (tl s))
     else Some ([], s))"

definition pexp :: "string \<Rightarrow> (string \<times> string) option" where
  "pexp s = (if s \<noteq> [] \<and> (hd s = CHR ''e'' \<or> hd s = CHR ''E'') then
       (if tl s \<noteq> [] \<and> (hd (tl s) = CHR ''+'' \<or> hd (tl s) = CHR ''-'')
        then map_option (\<lambda>(d, r). (take 2 s @ d, r)) (pdigits (drop 2 s))
        else map_option (\<lambda>(d, r). (take 1 s @ d, r)) (pdigits (tl s)))
     else Some ([], s))"

text \<open>A number literal: sign, integer part without a leading zero, fraction, exponent.\<close>

definition pnum :: "string \<Rightarrow> (string \<times> string) option" where
  "pnum s =
     (let (sg, s1) = (if s \<noteq> [] \<and> hd s = CHR ''-'' then (''-'', tl s) else ([], s))
      in case pdigits s1 of None \<Rightarrow> None
       | Some (ds, s2) \<Rightarrow>
           if hd ds = CHR ''0'' \<and> tl ds \<noteq> [] then None
           else (case pfrac s2 of None \<Rightarrow> None
            | Some (f, s3) \<Rightarrow> (case pexp s3 of None \<Rightarrow> None | Some (e, s4) \<Rightarrow> Some (sg @ ds @ f @ e, s4))))"

definition pconst :: "string \<Rightarrow> (jval \<times> string) option" where
  "pconst s = (if HasPrefix s ''null'' then Some (JvNull, drop 4 s)
     else if HasPrefix s ''true'' then Some (JvBool True, drop 4 s)
     else if HasPrefix s ''false'' then Some (JvBool False, drop 5 s)
     else map_option (\<lambda>(n, r). (JvNum n, r)) (pnum s))"

text \<open>Values, the elements of an array and the members of an object.  Each recursive call is on
  a shorter text; the length tests only serve the termination proof (\<open>pval_shorter\<close>).\<close>

function pval :: "string \<Rightarrow> (jval \<times> string) option"
  and parr :: "string \<Rightarrow> (jval list \<times> string) option"
  and pobj :: "string \<Rightarrow> ((string \<times> jval) list \<times> string) option" where
  "pval s = (case skip_ws s of
     [] \<Rightarrow> None
   | c # cs \<Rightarrow>
       if c = dquote then map_option (\<lambda>(t, r). (JvStr t, r)) (pstr [] cs)
       else if c = CHR ''['' then
         (if skip_ws cs \<noteq> [] \<and> hd (skip_ws cs) = CHR '']'' then Some (JvArr [], tl (skip_ws cs))
          else if length cs < length s then map_option (\<lambda>(vs, r). (JvArr vs, r)) (parr cs) else None)
       else if c = CHR ''{'' then
         (if skip_ws cs \<noteq> [] \<and> hd (skip_ws cs) = CHR ''}'' then Some (JvObj [], tl (skip_ws cs))
          else if length cs < length s then map_option (\<lambda>(ms, r). (JvObj ms, r)) (pobj cs) else None)
       else pconst (c # cs))"
| "parr s = (case pval s of
     None \<Rightarrow> None
   | Some (v, r) \<Rightarrow>
       (case skip_ws r of
          [] \<Rightarrow> None
        | c # cs \<Rightarrow>
            if c = CHR '']'' then Some ([v], cs)
            else if c = CHR '','' \<and> length cs < length s then map_option (\<lambda>(vs, r). (v # vs, r)) (parr cs)
            else None))"
| "pobj s = (case skip_ws s of
     [] \<Rightarrow> None
   | q # qs \<Rightarrow>
       if q \<noteq> dquote then None
       else (case pstr [] qs of
          None \<Rightarrow> None
        | Some (k, r) \<Rightarrow>
            (case skip_ws r of
               [] \<Rightarrow> None
             | c # cs \<Rightarrow>
                 if c \<noteq> CHR '':'' \<or> \<not> length cs < length s then None
                 else (case pval cs of
                    None \<Rightarrow> None
                  | Some (v, r') \<Rightarrow>
                      (case skip_ws r' of
                         [] \<Rightarrow> None
                       | d # ds \<Rightarrow>
                           if d = CHR ''}'' then Some ([(k, v)], ds)
                           else if d = CHR '','' \<and> length ds < length s
                           then map_option (\<lambda>(ms, r). ((k, v) # ms, r)) (pobj ds)
                           else None)))))"
  by pat_completeness auto
termination
  by (relation "measure (\<lambda>x. case x of Inl s \<Rightarrow> 2 * length s
        | Inr (Inl s) \<Rightarrow> 2 * length s + 1 | Inr (Inr s) \<Rightarrow> 2 * length s + 1)") auto

declare pval.simps [simp del] parr.simps [simp del] pobj.simps [simp del]

definition parse_json :: "string \<Rightarrow> jval option" where
  "parse_json s = (case pval s of None \<Rightarrow> None | Some (v, r) \<Rightarrow> if skip_ws r = [] then Some v else None)"

section \<open>Decoding into Go values\<close>

text \<open>Decoding a value into a variable that holds \<open>old\<close>; \<open>None\<close> is a decode error.\<close>

definition un_string :: "jval \<Rightarrow> string \<Rightarrow> string option" where
  "un_string v old = (case v of JvNull \<Rightarrow> Some old | JvStr s \<Rightarrow> Some s | _ \<Rightarrow> None)"

definition un_int64 :: "jval \<Rightarrow> int \<Rightarrow> int option" where
  "un_int64 v old = (case v of
     JvNull \<Rightarrow> Some old
   | JvNum n \<Rightarrow> Atoi n
   | _ \<Rightarrow> None)"

text \<open>The value of a number literal, exactly: mantissa digits times a power of ten.\<close>

definition literal_value :: "string \<Rightarrow> rat" where
  "literal_value s =
     (let neg = (s \<noteq> [] \<and> hd s = CHR ''-''); m = (if neg then tl s else s);
          mant = takeWhile (\<lambda>c. c \<noteq> CHR ''e'' \<and> c \<noteq> CHR ''E'') m;
          e = (case Atoi (drop (Suc (length mant)) m) of None \<Rightarrow> 0 | Some k \<Rightarrow> k);
          ip = takeWhile (\<lambda>c. c \<noteq> CHR ''.'') mant; fp = drop (Suc (length ip)) mant;
          k = e - int (length fp);
          v = of_int (digits_value (ip @ fp)) *
              (if 0 \<le> k then 10 ^ nat k else 1 / 10 ^ nat (- k))
      in if neg then - v else v)"

definition un_float64 :: "jval \<Rightarrow> rat \<Rightarrow> rat option" where
  "un_float64 v old = (case v of JvNull \<Rightarrow> Some old | JvNum n \<Rightarrow> Some (literal_value n) | _ \<Rightarrow> None)"

definition un_strings :: "jval \<Rightarrow> string list option" where
  "un_strings v = (case v of JvNull \<Rightarrow> Some []
     | JvArr vs \<Rightarrow> those (map (\<lambda>x. un_string x '''') vs) | _ \<Rightarrow> None)"

text \<open>A struct field: every member whose key folds to the field's name is decoded in turn.\<close>

fun un_field :: "(jval \<Rightarrow> 'a \<Rightarrow> 'a option) \<Rightarrow> string \<Rightarrow> (string \<times> jval) list \<Rightarrow> 'a \<Rightarrow> 'a option" where
  "un_field f name [] old = Some old"
| "un_field f name ((k, v) # ms) old =
     (if ToLower k = ToLower name then (case f v old of None \<Rightarrow> None | Some x \<Rightarrow> un_field f name ms x)
      else un_field f name ms old)"

text \<open>The members a struct is decoded from: \<open>null\<close> leaves it as it is.\<close>

definition un_members :: "jval \<Rightarrow> (string \<times> jval) list option" where
  "un_members v = (case v of JvNull \<Rightarrow> Some [] | JvObj ms \<Rightarrow> Some ms | _ \<Rightarrow> None)"

section \<open>What is encoded is read back\<close>

lemma hex_val_digit: "n < 16 \<Longrightarrow> hex_val (digit_char n) = Some (int n)"
proof -
  assume "n < 16"
  then have "n \<in> {0, 1, 2, 3, 4, 5, 6, 7, 8, 9, 10, 11, 12, 13, 14, 15}" by (simp, presburger)
  then show ?thesis
    by (elim insertE emptyE) (simp_all add: digit_char_def hex_val_def)
qed

lemma pstr_Cons_quote: "pstr acc (dquote # r) = Some (acc, r)"
  by (subst pstr.simps) simp

lemma pstr_plain:
  "c \<noteq> dquote \<Longrightarrow> c \<noteq> bslash \<Longrightarrow> \<not> (of_char c :: nat) < 32 \<Longrightarrow> pstr acc (c # r) = pstr (acc @ [c]) r"
  by (subst pstr.simps) simp

lemma pstr_simple:
  "simple_escape e = Some x \<Longrightarrow> e \<noteq> CHR ''u'' \<Longrightarrow> pstr acc (bslash # e # r) = pstr (acc @ [x]) r"
  by (subst pstr.simps) simp

lemma utf8_ascii: "(of_char c :: nat) < 128 \<Longrightarrow> utf8 (of_char c) = [c]"
proof -
  assume "(of_char c :: nat) < 128"
  then have "(of_char c :: int) < 128" by (metis of_nat_less_numeral_iff of_nat_of_char)
  then show ?thesis by (simp add: utf8_def)
qed

lemma pstr_u00:
  assumes "(of_char c :: nat) < 128"
  shows "pstr acc (bslash # CHR ''u'' # CHR ''0'' # CHR ''0'' # digit_char (of_char c div 16) #
    digit_char (of_char c mod 16) # r) = pstr (acc @ [c]) r"
proof -
  let ?n = "of_char c :: nat"
  have z: "hex_val (CHR ''0'') = Some 0" by (simp add: hex_val_def)
  have "?n div 16 * 16 + ?n mod 16 = ?n" by simp
  then have n: "int (?n div 16) * 16 + int (?n mod 16) = of_char c"
    by (metis of_nat_add of_nat_mult of_nat_numeral of_nat_of_char)
  have "hex4 (CHR ''0'' # CHR ''0'' # digit_char (?n div 16) # digit_char (?n mod 16) # r) = Some (of_char c, r)"
    unfolding hex4_def using assms n by (simp add: z hex_val_digit)
  moreover have "(of_char c :: int) < 128" using assms by (metis of_nat_less_numeral_iff of_nat_of_char)
  ultimately have "unescape_u (CHR ''0'' # CHR ''0'' # digit_char (?n div 16) # digit_char (?n mod 16) # r) = Some ([c], r)"
    by (simp add: unescape_u_def utf8_ascii assms)
  then show ?thesis by (subst pstr.simps) simp
qed

lemma pstr_enc_char: "pstr acc (enc_char c @ r) = pstr (acc @ [c]) r"
proof (cases "c \<in> {dquote, bslash, CHR 0x08, CHR 0x0C, CHR 0x0A, CHR 0x0D, CHR 0x09}")
  case True
  then show ?thesis
    by (elim insertE emptyE; hypsubst) (simp_all add: enc_char_def pstr_simple simple_escape_def)
next
  case False
  show ?thesis
  proof (cases "(of_char c :: nat) < 32 \<or> c = CHR ''<'' \<or> c = CHR ''>'' \<or> c = CHR ''&''")
    case True
    then have "(of_char c :: nat) < 128" by auto
    with True False show ?thesis by (simp add: enc_char_def pstr_u00)
  next
    case no: False
    with False show ?thesis by (simp add: enc_char_def pstr_plain)
  qed
qed

lemma pstr_enc: "pstr acc (concat (map enc_char s) @ dquote # r) = Some (acc @ s, r)"
  by (induction s arbitrary: acc) (simp_all add: pstr_Cons_quote pstr_enc_char)

text \<open>A number the encoder writes for an \<open>int64\<close>, and the values built from such numbers.\<close>

definition int_text :: "string \<Rightarrow> bool" where
  "int_text n \<longleftrightarrow> (case Atoi n of None \<Rightarrow> False | Some i \<Rightarrow> Itoa i = n)"

fun wf_jval :: "jval \<Rightarrow> bool" where
  "wf_jval (JvNum n) = int_text n"
| "wf_jval (JvArr vs) = list_all wf_jval vs"
| "wf_jval (JvObj ms) = list_all (\<lambda>m. wf_jval (snd m)) ms"
| "wf_jval _ = True"

text \<open>What may follow a value inside an array, an object or a document: a delimiter or space.\<close>

definition stops :: "string \<Rightarrow> bool" where
  "stops r \<longleftrightarrow> r = [] \<or> hd r = CHR '','' \<or> hd r = CHR '']'' \<or> hd r = CHR ''}'' \<or> is_ws (hd r)"

lemma dec_digits_hd0: "0 < n \<Longrightarrow> hd (dec_digits n) \<noteq> CHR ''0''"
proof (induction n rule: dec_digits.induct)
  case (1 n)
  show ?case
  proof (cases "n < 10")
    case True
    with 1(2) have "n = 1 \<or> n = 2 \<or> n = 3 \<or> n = 4 \<or> n = 5 \<or> n = 6 \<or> n = 7 \<or> n = 8 \<or> n = 9"
      by presburger
    then show ?thesis
      by (elim disjE) (simp_all add: dec_digits_small digit_char_def)
  next
    case False
    then have "0 < n div 10" by linarith
    with 1(1) [OF False] False show ?thesis
      by (subst dec_digits.simps) (simp add: dec_digits_neq_Nil)
  qed
qed

lemma pdigits_dec: "0 \<le> n \<Longrightarrow> stops r \<Longrightarrow> pdigits (dec_digits n @ r) = Some (dec_digits n, r)"
proof -
  assume n: "0 \<le> n" and r: "stops r"
  have "takeWhile is_digit (dec_digits n @ r) = dec_digits n @ takeWhile is_digit r"
    using digits_value_dec [OF n] by (intro takeWhile_append2) (simp add: list_all_iff)
  moreover have "takeWhile is_digit r = []"
    using r by (cases r) (auto simp: stops_def is_digit_def is_ws_def)
  ultimately show ?thesis by (simp add: pdigits_def dec_digits_neq_Nil)
qed

lemma pfrac_stops: "stops r \<Longrightarrow> pfrac r = Some ([], r)" and pexp_stops: "stops r \<Longrightarrow> pexp r = Some ([], r)"
  by (auto simp: stops_def pfrac_def pexp_def is_ws_def)

lemma dec_digits_leading: "0 \<le> n \<Longrightarrow> hd (dec_digits n) = CHR ''0'' \<Longrightarrow> tl (dec_digits n) = []"
  using dec_digits_hd0 [of n] by (cases "n = 0") (auto simp: dec_digits.simps)

lemma dec_digits_first: "0 \<le> n \<Longrightarrow> \<exists>c cs. dec_digits n = c # cs \<and> is_digit c"
  using digits_value_dec [of n] dec_digits_neq_Nil [of n] by (cases "dec_digits n") auto

lemma digit_no_minus: "is_digit c \<Longrightarrow> c \<noteq> CHR ''-''"
  by (auto simp: is_digit_def)

lemma pnum_Itoa: "stops r \<Longrightarrow> pnum (Itoa i @ r) = Some (Itoa i, r)"
proof (cases "i < 0")
  case True
  assume "stops r"
  with True show ?thesis
    using dec_digits_leading [of "- i"]
    by (auto simp: pnum_def Itoa_def pdigits_dec pfrac_stops pexp_stops)
next
  case False
  assume "stops r"
  moreover from False obtain c cs where "dec_digits i = c # cs" "is_digit c"
    using dec_digits_first [of i] by auto
  ultimately show ?thesis
    using False dec_digits_leading [of i] pdigits_dec [of i r] digit_no_minus [of c]
    by (auto simp: pnum_def Itoa_def pfrac_stops pexp_stops)
qed

lemma skip_ws_id: "s = [] \<or> \<not> is_ws (hd s) \<Longrightarrow> skip_ws s = s"
  by (cases s) (auto simp: skip_ws_def)

lemma skip_ws_Cons [simp]: "\<not> is_ws c \<Longrightarrow> skip_ws (c # s) = c # s"
  by (simp add: skip_ws_def)



lemma no_ws [simp]: "\<not> is_ws dquote" "\<not> is_ws (CHR ''['')" "\<not> is_ws (CHR '']'')" "\<not> is_ws (CHR ''{'')"
  "\<not> is_ws (CHR ''}'')" "\<not> is_ws (CHR '','')" "\<not> is_ws (CHR '':'')"
  by (simp_all add: is_ws_def)

lemma Itoa_first: "\<exists>c cs. Itoa i = c # cs \<and> (c = CHR ''-'' \<or> is_digit c)"
  using dec_digits_first [of i] by (auto simp: Itoa_def)

lemma number_first:
  "c = CHR ''-'' \<or> is_digit c \<Longrightarrow> \<not> is_ws c \<and> c \<noteq> dquote \<and> c \<notin> {CHR ''['', CHR '']'', CHR ''{'', CHR ''}'',
     CHR ''n'', CHR ''t'', CHR ''f''}"
  by (auto simp: is_digit_def is_ws_def)

lemma int_textD: "int_text n \<Longrightarrow> \<exists>i. n = Itoa i"
  by (auto simp: int_text_def split: option.splits)

lemma enc_first: "wf_jval v \<Longrightarrow> \<exists>c cs. enc_val v = c # cs \<and> \<not> is_ws c \<and> c \<noteq> CHR '']'' \<and> c \<noteq> CHR ''}''"
proof (cases v)
  case (JvNum n)
  assume "wf_jval v"
  with JvNum obtain i where "n = Itoa i" using int_textD by auto
  moreover obtain c cs where "Itoa i = c # cs" "c = CHR ''-'' \<or> is_digit c" using Itoa_first by blast
  ultimately show ?thesis using number_first [of c] JvNum by simp
qed (simp_all add: enc_string_def is_ws_def)

lemma pval_str: "pval (enc_string s @ r) = Some (JvStr s, r)"
  by (subst pval.simps) (simp add: enc_string_def pstr_enc)

lemma pval_num: "stops r \<Longrightarrow> pval (Itoa i @ r) = Some (JvNum (Itoa i), r)"
proof -
  assume r: "stops r"
  obtain c cs where c: "Itoa i = c # cs" "c = CHR ''-'' \<or> is_digit c" using Itoa_first by blast
  with pnum_Itoa [OF r, of i] number_first [of c] show ?thesis
    by (subst pval.simps) (auto simp: pconst_def HasPrefix_def)
qed

lemma pval_word:
  "pval (''null'' @ r) = Some (JvNull, r)" "pval (''true'' @ r) = Some (JvBool True, r)"
  "pval (''false'' @ r) = Some (JvBool False, r)"
  by (subst pval.simps, simp add: pconst_def HasPrefix_def is_ws_def)+

lemma parr_enc:
  assumes "\<forall>v\<in>set vs. \<forall>r. stops r \<longrightarrow> pval (enc_val v @ r) = Some (v, r)" "vs \<noteq> []"
  shows "parr (Join (map enc_val vs) '','' @ CHR '']'' # r) = Some (vs, r)"
  using assms(2,1)
proof (induction vs rule: list_nonempty_induct)
  case (single v)
  then show ?case by (subst parr.simps) (simp add: stops_def)
next
  case (cons v vs)
  obtain w ws where vs: "vs = w # ws" using cons.hyps by (cases vs) auto
  let ?t = "Join (map enc_val vs) '','' @ CHR '']'' # r"
  have "pval (enc_val v @ CHR '','' # ?t) = Some (v, CHR '','' # ?t)"
    using cons.prems by (simp add: stops_def)
  with cons.IH cons.prems have "parr (enc_val v @ CHR '','' # ?t) = Some (v # vs, r)"
    by (subst parr.simps) simp
  then show ?case by (simp add: vs)
qed

definition enc_member :: "string \<times> jval \<Rightarrow> string" where
  "enc_member m = enc_string (fst m) @ '':'' @ enc_val (snd m)"

lemma enc_member_text:
  "enc_member m @ s = dquote # concat (map enc_char (fst m)) @ dquote # CHR '':'' # enc_val (snd m) @ s"
  by (simp add: enc_member_def enc_string_def)

lemma pobj_enc:
  assumes "\<forall>m\<in>set ms. \<forall>r. stops r \<longrightarrow> pval (enc_val (snd m) @ r) = Some (snd m, r)" "ms \<noteq> []"
  shows "pobj (Join (map enc_member ms) '','' @ CHR ''}'' # r) = Some (ms, r)"
  using assms(2,1)
proof (induction ms rule: list_nonempty_induct)
  case (single m)
  then show ?case
    by (subst pobj.simps) (simp add: enc_member_def enc_string_def pstr_enc stops_def)
next
  case (cons m ms)
  obtain w ws where ms: "ms = w # ws" using cons.hyps by (cases ms) auto
  let ?t = "Join (map enc_member ms) '','' @ CHR ''}'' # r"
  have "pval (enc_val (snd m) @ CHR '','' # ?t) = Some (snd m, CHR '','' # ?t)"
    using cons.prems by (simp add: stops_def)
  moreover have "pobj ?t = Some (ms, r)" using cons.IH cons.prems by simp
  ultimately have "pobj (enc_member m @ CHR '','' # ?t) = Some (m # ms, r)"
    by (subst pobj.simps) (simp add: enc_member_text pstr_enc)
  then show ?case by (simp add: ms)
qed

lemma enc_member_fun: "(\<lambda>m. enc_string (fst m) @ CHR '':'' # enc_val (snd m)) = enc_member"
  by (simp add: enc_member_def fun_eq_iff)

lemma pval_enc: "wf_jval v \<Longrightarrow> stops r \<Longrightarrow> pval (enc_val v @ r) = Some (v, r)"
proof (induction v arbitrary: r rule: enc_val.induct)
  case (5 vs)
  show ?case
  proof (cases vs)
    case Nil
    then show ?thesis by (subst pval.simps) simp
  next
    case (Cons w ws)
    obtain c cs where c: "enc_val w = c # cs" "\<not> is_ws c" "c \<noteq> CHR '']''"
      using enc_first [of w] 5(2) Cons by auto
    let ?t = "Join (map enc_val vs) '','' @ CHR '']'' # r"
    obtain t where t: "?t = c # t" using c Cons by (cases ws) simp_all
    have "parr ?t = Some (vs, r)" using 5 Cons by (intro parr_enc) (auto simp: list_all_iff)
    then have "pval (CHR ''['' # c # t) = Some (JvArr vs, r)"
      unfolding t by (subst pval.simps) (simp add: c)
    then show ?thesis by (simp flip: t)
  qed
next
  case (6 ms)
  show ?case
  proof (cases ms)
    case Nil
    then show ?thesis by (subst pval.simps) simp
  next
    case (Cons w ws)
    let ?t = "Join (map enc_member ms) '','' @ CHR ''}'' # r"
    obtain t where t: "?t = dquote # t"
      using Cons by (cases ws) (simp_all add: enc_member_def enc_string_def)
    have "pobj ?t = Some (ms, r)" using 6 Cons by (intro pobj_enc) (auto simp: list_all_iff)
    then have "pval (CHR ''{'' # dquote # t) = Some (JvObj ms, r)"
      unfolding t by (subst pval.simps) simp
    then show ?thesis by (simp add: enc_member_fun flip: t)
  qed
next
  case (3 n)
  then obtain i where "n = Itoa i" using int_textD by auto
  with 3 show ?case by (simp add: pval_num)
qed (simp_all add: pval_str pval_word [simplified])

text \<open>Reading back what \<open>json.Marshal\<close> wrote.\<close>

lemma parse_json_enc_ws:
  assumes "wf_jval v" "\<forall>c\<in>set w. is_ws c"
  shows "parse_json (enc_val v @ w) = Some v"
proof -
  have "stops w" using assms(2) by (cases w) (auto simp: stops_def)
  moreover have "skip_ws w = []" using assms(2) by (simp add: skip_ws_def)
  ultimately show ?thesis using pval_enc [OF assms(1)] by (simp add: parse_json_def)
qed

lemma parse_json_enc: "wf_jval v \<Longrightarrow> parse_json (enc_val v) = Some v"
  using parse_json_enc_ws [of v "[]"] by simp

section \<open>The length tests of the parser never bite\<close>

lemma hex4_shorter: "hex4 s = Some (n, r) \<Longrightarrow> length r < length s"
  by (auto simp: hex4_def split: list.splits option.splits)

lemma unescape_u_shorter: "unescape_u s = Some (b, r) \<Longrightarrow> length r < length s"
  by (auto simp: unescape_u_def dest!: hex4_shorter split: option.splits if_splits)

lemma pstr_shorter: "pstr acc s = Some (t, r) \<Longrightarrow> length r < length s"
proof (induction acc s rule: pstr.induct)
  case (1 acc s)
  note eq = 1(4) [unfolded pstr.simps [of acc s]]
  then obtain c cs where s: "s = c # cs" by (cases s) auto
  consider "c = dquote" | "c = bslash" | "c \<noteq> dquote" "c \<noteq> bslash" by blast
  then show ?case
  proof cases
    case 1
    with eq s show ?thesis by simp
  next
    case 2
    with eq s obtain e es where es: "cs = e # es" by (cases cs) auto
    show ?thesis
    proof (cases "e = CHR ''u''")
      case True
      with eq s 2 es obtain bs q where q: "unescape_u es = Some (bs, q)" "length q < length s"
          "pstr (acc @ bs) q = Some (t, r)"
        by (auto split: option.splits if_splits)
      with "1.IH"(1) [OF s] 2 es True show ?thesis by fastforce
    next
      case False
      with eq s 2 es obtain x where "simple_escape e = Some x" "pstr (acc @ [x]) es = Some (t, r)"
        by (auto split: option.splits)
      with "1.IH"(2) [OF s] 2 es False s show ?thesis by fastforce
    qed
  next
    case 3
    with eq s have "\<not> (of_char c :: nat) < 32" "pstr (acc @ [c]) cs = Some (t, r)"
      by (auto split: if_splits)
    with "1.IH"(3) [OF s] 3 s show ?thesis by fastforce
  qed
qed

lemma skip_ws_shorter: "length (skip_ws s) \<le> length s"
  by (simp add: skip_ws_def length_dropWhile_le)

lemma pdigits_shorter: "pdigits s = Some (d, r) \<Longrightarrow> length r < length s"
  by (cases s) (auto simp: pdigits_def Let_def split: if_splits)

lemma pfrac_shorter: "pfrac s = Some (d, r) \<Longrightarrow> length r \<le> length s"
  by (cases s) (auto simp: pfrac_def dest!: pdigits_shorter split: if_splits)

lemma pexp_shorter: "pexp s = Some (d, r) \<Longrightarrow> length r \<le> length s"
  by (cases s) (auto simp: pexp_def dest!: pdigits_shorter split: if_splits)

lemma pnum_shorter: "pnum s = Some (n, r) \<Longrightarrow> length r < length s"
  by (cases s) (fastforce simp: pnum_def Let_def dest!: pdigits_shorter pfrac_shorter pexp_shorter
      split: if_splits option.splits prod.splits)+

lemma pconst_shorter: "s \<noteq> [] \<Longrightarrow> pconst s = Some (v, r) \<Longrightarrow> length r < length s"
  by (auto simp: pconst_def dest!: pnum_shorter split: if_splits)

lemma pval_shorter: "pval s = Some (v, r) \<Longrightarrow> length r < length s"
  and parr_shorter: "parr s = Some (vs, r) \<Longrightarrow> length r < length s"
  and pobj_shorter: "pobj s = Some (ms, r) \<Longrightarrow> length r < length s"
proof (induction s and s and s arbitrary: v r and vs r and ms r rule: pval_parr_pobj.induct)
  case (1 s)
  note eq = 1(3) [unfolded pval.simps [of s]]
  then obtain c cs where s: "skip_ws s = c # cs" by (cases "skip_ws s") auto
  have le: "length cs < length s" using skip_ws_shorter [of s] s by simp
  consider (str) t where "pstr [] cs = Some (t, r)"
    | (empty) "r = tl (skip_ws cs)"
    | (arr) vs where "parr cs = Some (vs, r)" "c = CHR ''[''"
        "\<not> (skip_ws cs \<noteq> [] \<and> hd (skip_ws cs) = CHR '']'')"
    | (obj) ms where "pobj cs = Some (ms, r)" "c = CHR ''{''"
        "\<not> (skip_ws cs \<noteq> [] \<and> hd (skip_ws cs) = CHR ''}'')"
    | (const) "pconst (c # cs) = Some (v, r)"
    using eq s by (auto split: if_splits)
  then show ?case
  proof cases
    case str
    with le show ?thesis using pstr_shorter by fastforce
  next
    case empty
    with le skip_ws_shorter [of cs] show ?thesis by (cases "skip_ws cs") auto
  next
    case arr
    with 1(1) [OF s _ arr(2,3) le arr(1)] le show ?thesis by simp
  next
    case obj
    with 1(2) [OF s _ _ obj(2,3) le obj(1)] le show ?thesis by simp
  next
    case const
    with pconst_shorter [of "c # cs" v r] s skip_ws_shorter [of s] show ?thesis by simp
  qed
next
  case (2 s)
  note eq = 2(3) [unfolded parr.simps [of s]]
  then obtain x r' where x: "pval s = Some (x, r')" by (auto split: option.splits)
  then have "length r' < length s" using 2(1) by blast
  with eq x skip_ws_shorter [of r'] 2(2) [OF x refl] show ?case
    by (auto split: list.splits if_splits)
next
  case (3 s)
  note eq = 3(3) [unfolded pobj.simps [of s]]
  then obtain qs k q c cs x r' d ds where p: "skip_ws s = dquote # qs" "pstr [] qs = Some (k, q)"
      "skip_ws q = c # cs" "length cs < length s" "pval cs = Some (x, r')" "skip_ws r' = d # ds" "c = CHR '':''"
    by (auto split: list.splits if_splits option.splits)
  have "length r' < length cs" using 3(1) p by auto
  with p(4,6) skip_ws_shorter [of r'] have "length ds < length s" by simp
  moreover have "r = ds \<or> (\<exists>ms. pobj ds = Some (ms, r) \<and> d = CHR '','')"
    using eq p by (auto split: if_splits)
  ultimately show ?case using 3(2) [OF p(1) _ p(2) refl p(3) _ p(5) refl p(6)] p by fastforce
qed

end
