(* ===== verification/Agent_Env.thy ===== *)
theory Agent_Env
  imports Agent_Args Snapshot_Ref Go_Json
begin

text \<open>
  The agent's process environment (\<open>internal/agent\<close>): every effect of the agent is a call of
  \<open>acall\<close>, answered from the history by the record \<open>proc\<close>, a parameter of the runs.  A child
  process gives its output, its error output and an error, which may carry an exit code.
\<close>

datatype acall =
    Run "string list" "string list option"
  | WriteTemp string
  | RemoveTemp string
  | EmptyDir string
  | DirSize string
  | ReadFile string
  | Termlog string string
  | Out string
  | Err string

datatype client_error = ExitError int string | StartError string

record run_result =
  rr_stdout :: string
  rr_stderr :: string
  rr_error :: "client_error option"

record proc =
  p_getenv :: "string \<Rightarrow> string"
  p_hostname :: "string + string"
  p_environ :: "string list"
  p_run :: "acall list \<Rightarrow> string list \<Rightarrow> string list option \<Rightarrow> run_result"
  p_temp :: "acall list \<Rightarrow> string \<Rightarrow> string + string"
  p_emptyDir :: "acall list \<Rightarrow> string \<Rightarrow> string option"
  p_dirSize :: "acall list \<Rightarrow> string \<Rightarrow> int"
  p_readFile :: "acall list \<Rightarrow> string \<Rightarrow> string + string"
  p_termlog :: "acall list \<Rightarrow> string \<Rightarrow> string \<Rightarrow> string option"
  p_podNS :: "string + string"
  p_jsonError :: "string \<Rightarrow> string"

type_synonym 'a aop = "(acall, 'a) oper"

definition run :: "proc \<Rightarrow> string list \<Rightarrow> string list option \<Rightarrow> run_result aop" where
  "run P argv env = invoke (Run argv env) (\<lambda>l. p_run P l argv env)"

definition write_temp :: "proc \<Rightarrow> string \<Rightarrow> (string + string) aop" where
  "write_temp P content = invoke (WriteTemp content) (\<lambda>l. p_temp P l content)"

definition remove_temp :: "string \<Rightarrow> unit aop" where
  "remove_temp path = invoke (RemoveTemp path) (\<lambda>_. ())"

definition emptyDir :: "proc \<Rightarrow> string \<Rightarrow> string option aop" where
  "emptyDir P dir = invoke (EmptyDir dir) (\<lambda>l. p_emptyDir P l dir)"

definition dirSize :: "proc \<Rightarrow> string \<Rightarrow> int aop" where
  "dirSize P dir = invoke (DirSize dir) (\<lambda>l. p_dirSize P l dir)"

definition read_file :: "proc \<Rightarrow> string \<Rightarrow> (string + string) aop" where
  "read_file P path = invoke (ReadFile path) (\<lambda>l. p_readFile P l path)"

definition print_out :: "string \<Rightarrow> unit aop" where
  "print_out s = invoke (Out s) (\<lambda>_. ())"

definition print_err :: "string \<Rightarrow> unit aop" where
  "print_err s = invoke (Err s) (\<lambda>_. ())"

section \<open>What the subcommands share\<close>

text \<open>A failed termination log write is reported and otherwise ignored.\<close>

definition writeTermlog :: "proc \<Rightarrow> string \<Rightarrow> string \<Rightarrow> unit aop" where
  "writeTermlog P path jsonLine = do {
     e \<leftarrow> invoke (Termlog path (jsonLine @ [CHR 0x0A])) (\<lambda>l. p_termlog P l path (jsonLine @ [CHR 0x0A]));
     case e of None \<Rightarrow> State_Monad.return ()
     | Some err \<Rightarrow> print_err (''pbs-agent: write termination log: '' @ err)
   }"

definition errorJSON :: "string \<Rightarrow> string" where
  "errorJSON msg = enc_val (JvObj [(''error'', JvStr msg)])"

definition exitCode :: "client_error \<Rightarrow> int" where
  "exitCode e = (case e of ExitError code _ \<Rightarrow> if code \<ge> 0 then code else 1 | StartError _ \<Rightarrow> 1)"

definition error_text :: "client_error \<Rightarrow> string" where
  "error_text e = (case e of ExitError _ m \<Rightarrow> m | StartError m \<Rightarrow> m)"

definition firstLine :: "string \<Rightarrow> string" where
  "firstLine s = takeWhile (\<lambda>c. c \<noteq> CHR 0x0A) (TrimSpace s)"

text \<open>The \<open>fail\<close> closure of every subcommand.\<close>

definition fail :: "proc \<Rightarrow> string \<Rightarrow> int \<Rightarrow> string \<Rightarrow> int aop" where
  "fail P termlog code msg = do {
     writeTermlog P termlog (errorJSON msg);
     print_err (''pbs-agent: '' @ msg);
     State_Monad.return code
   }"

section \<open>Configuration\<close>

definition envKeys :: "string list" where
  "envKeys = [''PBS_HOST'', ''PBS_PORT'', ''PBS_DATASTORE'', ''PBS_NS'',
     ''PBS_TOKEN_ID'', ''PBS_TOKEN_SECRET'', ''PBS_FINGERPRINT'', ''PBS_KEYFILE'']"

record config =
  c_Host :: string
  c_Port :: string
  c_Datastore :: string
  c_NS :: string
  c_TokenID :: string
  c_TokenSecret :: string
  c_Fingerprint :: string
  c_Keyfile :: string

definition loadConfig :: "(string \<Rightarrow> string) \<Rightarrow> config \<times> string list" where
  "loadConfig getenv =
     (let v = (\<lambda>k. TrimSpace (getenv k))
      in (\<lparr>c_Host = v ''PBS_HOST'', c_Port = v ''PBS_PORT'', c_Datastore = v ''PBS_DATASTORE'',
           c_NS = v ''PBS_NS'', c_TokenID = v ''PBS_TOKEN_ID'', c_TokenSecret = v ''PBS_TOKEN_SECRET'',
           c_Fingerprint = v ''PBS_FINGERPRINT'', c_Keyfile = v ''PBS_KEYFILE''\<rparr>,
          filter (\<lambda>k. v k = '''') envKeys))"

definition clientEnv :: "config \<Rightarrow> string list" where
  "clientEnv c = [''PBS_REPOSITORY='' @ c_TokenID c @ ''@'' @ c_Host c @ '':'' @ c_Port c @ '':'' @ c_Datastore c,
     ''PBS_PASSWORD='' @ c_TokenSecret c, ''PBS_FINGERPRINT='' @ c_Fingerprint c]"

lemma envContract_envKeys: "map fst envContract = envKeys"
  by (simp add: envContract_def envKeys_def)

lemma loadConfig_complete: "snd (loadConfig getenv) = [] \<longleftrightarrow> (\<forall>k\<in>set envKeys. TrimSpace (getenv k) \<noteq> '''')"
  by (simp add: loadConfig_def filter_empty_conv)

end
