(* ===== verification/Pbs_Client.thy ===== *)
theory Pbs_Client
  imports Kube_Env Go_Json Snapshot_Ref
begin

text \<open>
  The REST client of the Proxmox Backup Server (\<open>internal/pbs\<close>): certificate pinning, one REST
  call with its envelope, the namespace and snapshot operations and the task poll.  The exchange
  itself is the \<open>http_do\<close> call of the environment, which carries the pinned fingerprint.
\<close>

section \<open>Escaping (package net/url)\<close>

definition unreserved :: "char \<Rightarrow> bool" where
  "unreserved c = (let n = of_char c :: nat
     in 48 \<le> n \<and> n \<le> 57 \<or> 65 \<le> n \<and> n \<le> 90 \<or> 97 \<le> n \<and> n \<le> 122 \<or> n \<in> {45, 95, 46, 126})"

definition percent :: "char \<Rightarrow> string" where
  "percent c = CHR ''%'' # ToUpper [digit_char (of_char c div 16), digit_char (of_char c mod 16)]"

text \<open>\<open>url.PathEscape\<close> leaves the unreserved characters and dollar, ampersand, plus, colon, equals, at.\<close>

definition PathEscape :: "string \<Rightarrow> string" where
  "PathEscape s = concat (map (\<lambda>c. if unreserved c \<or> (of_char c :: nat) \<in> {36, 38, 43, 58, 61, 64} then [c] else percent c) s)"

definition QueryEscape :: "string \<Rightarrow> string" where
  "QueryEscape s = concat (map (\<lambda>c. if unreserved c then [c] else if c = CHR 0x20 then ''+'' else percent c) s)"

section \<open>Certificate pinning\<close>

text \<open>The certificates and their digest are byte strings; the hash function is a parameter.\<close>

definition hex_byte :: "char \<Rightarrow> string" where
  "hex_byte c = [digit_char (of_char c div 16), digit_char (of_char c mod 16)]"

definition colonHex :: "string \<Rightarrow> string" where
  "colonHex b = Join (map (\<lambda>c. ToUpper (hex_byte c)) b) '':''"

definition fingerprintKey :: "string \<Rightarrow> string" where
  "fingerprintKey fp = filter (\<lambda>c. c \<noteq> CHR '':'' \<and> c \<noteq> CHR '' '') (ToUpper fp)"

definition verifyFingerprint :: "(string \<Rightarrow> string) \<Rightarrow> string list \<Rightarrow> string \<Rightarrow> string option" where
  "verifyFingerprint sha256 rawCerts want =
     (if length rawCerts = 0 then Some ''pbs: server presented no certificate''
      else
        let got = colonHex (sha256 (rawCerts ! 0))
        in if fingerprintKey got \<noteq> fingerprintKey want
           then Some (''pbs: certificate fingerprint mismatch: server cert is '' @ got @
             '', configured fingerprint is '' @ want)
           else None)"

section \<open>The client\<close>

record pbs_client =
  pc_baseURL :: string
  pc_authToken :: string
  pc_fingerprint :: string

definition NewClient :: "string \<Rightarrow> int \<Rightarrow> string \<Rightarrow> string \<Rightarrow> string \<Rightarrow> pbs_client" where
  "NewClient host port tokenID tokenSecret fingerprint =
     \<lparr>pc_baseURL = ''https://'' @ host @ '':'' @ Itoa port,
      pc_authToken = ''PBSAPIToken='' @ tokenID @ '':'' @ tokenSecret, pc_fingerprint = fingerprint\<rparr>"

text \<open>A response with an error status, or any other error as its text.\<close>

datatype pbs_error = ApiError int string | ClientError string

definition pbs_error_text :: "pbs_error \<Rightarrow> string" where
  "pbs_error_text e = (case e of ApiError status body \<Rightarrow> ''pbs: HTTP '' @ Itoa status @ '': '' @ body | ClientError m \<Rightarrow> m)"

definition pbs_request :: "pbs_client \<Rightarrow> string \<Rightarrow> string \<Rightarrow> jval option \<Rightarrow> http_request" where
  "pbs_request c method path body =
     \<lparr>hr_baseURL = pc_baseURL c, hr_auth = pc_authToken c, hr_fingerprint = pc_fingerprint c,
      hr_method = method, hr_path = path, hr_body = map_option enc_val body\<rparr>"

text \<open>The raw \<open>data\<close> member of the envelope: the last one, when there are several.\<close>

definition envelope_data :: "jval \<Rightarrow> jval option option" where
  "envelope_data v = (case un_members v of None \<Rightarrow> None
     | Some ms \<Rightarrow> un_field (\<lambda>x _. Some (Some x)) ''data'' ms None)"

definition unwrap :: "(string \<Rightarrow> string) \<Rightarrow> (jval \<Rightarrow> 'a option) \<Rightarrow> string \<Rightarrow> pbs_error + 'a" where
  "unwrap json_error decode buf =
     (case (case parse_json buf of None \<Rightarrow> None | Some v \<Rightarrow> envelope_data v) of
        None \<Rightarrow> Inl (ClientError (''pbs: decode response envelope: '' @ json_error buf))
      | Some None \<Rightarrow> Inl (ClientError (''pbs: decode response data: '' @ json_error ''''))
      | Some (Some v) \<Rightarrow>
          (case decode v of
             None \<Rightarrow> Inl (ClientError (''pbs: decode response data: '' @ json_error (enc_val v)))
           | Some x \<Rightarrow> Inr x))"

text \<open>\<open>do\<close>: one REST call; without an \<open>out\<close> argument the body of a success is not looked at.\<close>

definition pbs_do :: "kube \<Rightarrow> pbs_client \<Rightarrow> string \<Rightarrow> string \<Rightarrow> jval option \<Rightarrow> (jval \<Rightarrow> 'a option) option \<Rightarrow>
    (pbs_error + 'a option) kop" where
  "pbs_do K c method path body out = do {
     r \<leftarrow> http_do K (pbs_request c method path body);
     State_Monad.return (case r of
       BuildError e \<Rightarrow> Inl (ClientError (''pbs: build request: '' @ e))
     | TransportError e \<Rightarrow> Inl (ClientError (''pbs: '' @ method @ '' '' @ path @ '': '' @ e))
     | ReadError e \<Rightarrow> Inl (ClientError (''pbs: read response: '' @ e))
     | Response status buf \<Rightarrow>
         if status \<ge> 400 then Inl (ApiError status buf)
         else (case out of None \<Rightarrow> Inr None
           | Some decode \<Rightarrow> (case unwrap (k_jsonError K) decode buf of Inl e \<Rightarrow> Inl e | Inr x \<Rightarrow> Inr (Some x))))
   }"

section \<open>Namespaces and snapshots\<close>

definition namespace_path :: "string \<Rightarrow> string" where
  "namespace_path store = ''/api2/json/admin/datastore/'' @ PathEscape store @ ''/namespace''"

definition already_exists :: "pbs_error \<Rightarrow> bool" where
  "already_exists e = (case e of ApiError status body \<Rightarrow> status = 400 \<and> Contains (ToLower body) ''already exist''
     | ClientError _ \<Rightarrow> False)"

text \<open>An error is its text; \<open>None\<close> is success.\<close>

definition EnsureNamespace :: "kube \<Rightarrow> pbs_client \<Rightarrow> string \<Rightarrow> string \<Rightarrow> string option kop" where
  "EnsureNamespace K c store ns = do {
     r \<leftarrow> (pbs_do K c ''POST'' (namespace_path store) (Some (JvObj [(''name'', JvStr ns)])) None
            :: (pbs_error + unit option) kop);
     State_Monad.return (case r of
       Inr _ \<Rightarrow> None
     | Inl e \<Rightarrow> if already_exists e then None
                else Some (''pbs: ensure namespace '' @ Quote ns @ '' in store '' @ Quote store @ '': '' @ pbs_error_text e))
   }"

definition snapshots_path :: "string \<Rightarrow> string \<Rightarrow> string" where
  "snapshots_path store ns = ''/api2/json/admin/datastore/'' @ PathEscape store @ ''/snapshots?ns='' @ QueryEscape ns"

text \<open>Decoding a snapshot and a list of them.\<close>

definition un_snapshot :: "jval \<Rightarrow> Snapshot option" where
  "un_snapshot v =
     (case un_members v of None \<Rightarrow> None
      | Some ms \<Rightarrow>
          (case (un_field un_string ''backup-type'' ms '''', un_field un_string ''backup-id'' ms '''',
                 un_field un_float64 ''backup-time'' ms 0, un_field un_int64 ''size'' ms 0) of
             (Some t, Some i, Some x, Some n) \<Rightarrow>
               Some \<lparr>BackupType = t, BackupID = i, BackupTime = x, Size = n\<rparr>
           | _ \<Rightarrow> None))"

definition un_snapshots :: "jval \<Rightarrow> Snapshot list \<Rightarrow> Snapshot list option" where
  "un_snapshots v old = (case v of JvNull \<Rightarrow> Some [] | JvArr vs \<Rightarrow> those (map un_snapshot vs) | _ \<Rightarrow> None)"

definition ListSnapshots :: "kube \<Rightarrow> pbs_client \<Rightarrow> string \<Rightarrow> string \<Rightarrow> (string + Snapshot list) kop" where
  "ListSnapshots K c store ns = do {
     r \<leftarrow> pbs_do K c ''GET'' (snapshots_path store ns) None (Some (\<lambda>v. un_snapshots v []));
     State_Monad.return (case r of
       Inl e \<Rightarrow> Inl (''pbs: list snapshots in '' @ Quote store @ '' ns '' @ Quote ns @ '': '' @ pbs_error_text e)
     | Inr snaps \<Rightarrow> Inr (case snaps of None \<Rightarrow> [] | Some ss \<Rightarrow> ss))
   }"

section \<open>Tasks\<close>

record taskStatus =
  ts_Status :: string
  ts_ExitStatus :: string

definition un_taskStatus :: "jval \<Rightarrow> taskStatus option" where
  "un_taskStatus v =
     (case un_members v of None \<Rightarrow> None
      | Some ms \<Rightarrow>
          (case (un_field un_string ''status'' ms '''', un_field un_string ''exitstatus'' ms '''') of
             (Some s, Some e) \<Rightarrow> Some \<lparr>ts_Status = s, ts_ExitStatus = e\<rparr>
           | _ \<Rightarrow> None))"

definition task_path :: "string \<Rightarrow> string" where
  "task_path upid = ''/api2/json/nodes/localhost/tasks/'' @ PathEscape upid @ ''/status''"

definition poll_task :: "kube \<Rightarrow> pbs_client \<Rightarrow> string \<Rightarrow> (pbs_error + taskStatus option) kop" where
  "poll_task K c upid = pbs_do K c ''GET'' (task_path upid) None (Some un_taskStatus)"

text \<open>What one poll decides; \<open>None\<close> is a task still running.\<close>

definition task_outcome :: "string \<Rightarrow> pbs_error + taskStatus option \<Rightarrow> (string \<times> string option) option" where
  "task_outcome upid r =
     (case r of
        Inl e \<Rightarrow> Some ('''', Some (pbs_error_text e))
      | Inr t \<Rightarrow>
          (let ts = (case t of None \<Rightarrow> \<lparr>ts_Status = '''', ts_ExitStatus = ''''\<rparr> | Some ts \<Rightarrow> ts)
           in if ts_Status ts = ''running'' then None
              else if ts_ExitStatus ts = ''OK'' then Some (''OK'', None)
              else Some (ts_ExitStatus ts, Some (''pbs: task '' @ upid @ '' failed: '' @ ts_ExitStatus ts))))"

text \<open>The poll loop: between two polls the caller's context may have ended, with an error; \<open>None\<close> is
  a wait that never ends.  The result carries the history of calls.\<close>

partial_function (option) WaitTask ::
    "kube \<Rightarrow> pbs_client \<Rightarrow> (kcall list \<Rightarrow> string option) \<Rightarrow> string \<Rightarrow> kcall list \<Rightarrow>
     ((string \<times> string option) \<times> kcall list) option" where
  "WaitTask K c ctx_err upid l =
     (case run_state (poll_task K c upid) l of (r, l') \<Rightarrow>
        (case task_outcome upid r of
           Some out \<Rightarrow> Some (out, l')
         | None \<Rightarrow> (case ctx_err l' of
             Some e \<Rightarrow> Some (('''', Some e), l')
           | None \<Rightarrow> WaitTask K c ctx_err upid l')))"

end
