(* ===== verification/Agent_Backup.thy ===== *)
theory Agent_Backup
  imports Agent_Env Pbs_Client
begin

text \<open>
  The backup subcommand (\<open>RunBackup\<close> in \<open>internal/agent/backup.go\<close>): upload, look the fresh
  snapshot up, attach the notes (best effort) and report the result as JSON on the termination
  log.
\<close>

definition clientBinary :: string where
  "clientBinary = ''proxmox-backup-client''"

definition backupArgv :: "string \<Rightarrow> string \<Rightarrow> string list \<Rightarrow> string \<Rightarrow> string list" where
  "backupArgv ns keyfilePath pvcs apiDir =
     [clientBinary, ''backup'', ''--ns'', ns, ''--keyfile'', keyfilePath] @
     map (\<lambda>p. ''pvc-'' @ p @ ''.pxar:/backup/'' @ p) pvcs @
     (if apiDir \<noteq> '''' then [''api.pxar:'' @ apiDir] else [])"

definition notesArgv :: "string \<Rightarrow> string \<Rightarrow> string \<Rightarrow> string list" where
  "notesArgv ns ref notes = [clientBinary, ''snapshot'', ''notes'', ''update'', ''--ns'', ns, ref, notes]"

definition listArgv :: "string \<Rightarrow> string list" where
  "listArgv ns = [clientBinary, ''snapshot'', ''list'', ''--ns'', ns, ''--output-format'', ''json'']"

text \<open>The client's list in either shape.\<close>

definition un_envelope :: "jval \<Rightarrow> Snapshot list option" where
  "un_envelope v = (case un_members v of None \<Rightarrow> None | Some ms \<Rightarrow> un_field un_snapshots ''data'' ms [])"

definition parseSnapshotList :: "(string \<Rightarrow> string) \<Rightarrow> string \<Rightarrow> string + Snapshot list" where
  "parseSnapshotList json_error data =
     (let bad = Inl (''decode: not an envelope or bare array: '' @ json_error data)
      in case parse_json data of
           None \<Rightarrow> bad
         | Some v \<Rightarrow> (case un_envelope v of
             Some snaps \<Rightarrow> Inr snaps
           | None \<Rightarrow> (case un_snapshots v [] of Some snaps \<Rightarrow> Inr snaps | None \<Rightarrow> bad)))"

definition latestHostSnapshot :: "Snapshot list \<Rightarrow> string \<Rightarrow> string + Snapshot" where
  "latestHostSnapshot snaps backupID = LatestSnapshot snaps ''host'' backupID"

definition snapshotRef :: "Snapshot \<Rightarrow> string" where
  "snapshotRef snap = ComposeSnapshotRef (BackupType snap) (BackupID snap) (BackupTime snap)"

definition successJSON :: "Snapshot \<Rightarrow> string" where
  "successJSON snap = enc_val (JvObj [(''snapshotRef'', JvStr (snapshotRef snap)), (''bytes'', JvNum (Itoa (Size snap)))])"

text \<open>Step 5.5: a notes failure warns, and that is all.\<close>

definition set_notes :: "proc \<Rightarrow> string \<Rightarrow> Snapshot \<Rightarrow> string \<Rightarrow> string list \<Rightarrow> unit aop" where
  "set_notes P ns snap notes env =
     (if notes = '''' then State_Monad.return ()
      else do {
        r \<leftarrow> run P (notesArgv ns (snapshotRef snap) notes) (Some env);
        case rr_error r of
          None \<Rightarrow> State_Monad.return ()
        | Some _ \<Rightarrow> print_err (''pbs-agent: WARNING: snapshot '' @ snapshotRef snap @
            '' uploaded, but setting notes failed: '' @ firstLine (rr_stderr r))
      })"

text \<open>Steps 4 to 6, with the keyfile in place.\<close>

definition backup_with_key :: "proc \<Rightarrow> config \<Rightarrow> string \<Rightarrow> string \<Rightarrow> backup_args \<Rightarrow> int aop" where
  "backup_with_key P c host keyPath a =
     (let env = p_environ P @ clientEnv c; fl = fail P (ba_termlog a)
      in do {
        r \<leftarrow> run P (backupArgv (c_NS c) keyPath (ba_pvcs a) (ba_apiDir a)) (Some env);
        case rr_error r of
          Some e \<Rightarrow> fl (exitCode e) (firstLine (rr_stderr r))
        | None \<Rightarrow> do {
            r \<leftarrow> run P (listArgv (c_NS c)) (Some env);
            case rr_error r of
              Some e \<Rightarrow> fl (exitCode e) (firstLine (rr_stderr r))
            | None \<Rightarrow>
                (case parseSnapshotList (p_jsonError P) (rr_stdout r) of
                   Inl err \<Rightarrow> fl 1 (''snapshot list: '' @ err)
                 | Inr snaps \<Rightarrow>
                     (case latestHostSnapshot snaps host of
                        Inl err \<Rightarrow> fl 1 (''snapshot list: '' @ err)
                      | Inr snap \<Rightarrow> do {
                          set_notes P (c_NS c) snap (ba_notes a) env;
                          writeTermlog P (ba_termlog a) (successJSON snap);
                          print_out (successJSON snap);
                          State_Monad.return 0
                        }))
          }
      })"

text \<open>\<open>defer cleanup()\<close>: the keyfile is removed on every way out.\<close>

definition RunBackup :: "proc \<Rightarrow> backup_args \<Rightarrow> int aop" where
  "RunBackup P a =
     (let (c, missing) = loadConfig (p_getenv P)
      in if length missing > 0
         then fail P (ba_termlog a) 2 (''missing required env: '' @ Join missing '', '')
         else (case p_hostname P of
           Inl err \<Rightarrow> fail P (ba_termlog a) 1 (''hostname: '' @ err)
         | Inr host \<Rightarrow> do {
             k \<leftarrow> write_temp P (c_Keyfile c);
             case k of
               Inl err \<Rightarrow> fail P (ba_termlog a) 1 (''keyfile: '' @ err)
             | Inr keyPath \<Rightarrow> do {
                 code \<leftarrow> backup_with_key P c host keyPath a;
                 remove_temp keyPath;
                 State_Monad.return code
               }
           }))"

section \<open>The result line\<close>

text \<open>The sizes a decoded list can hold are \<open>int64\<close> values.\<close>

definition int64 :: "int \<Rightarrow> bool" where
  "int64 n \<longleftrightarrow> - (2 ^ 63) \<le> n \<and> n < 2 ^ 63"

lemma Atoi_range: "Atoi s = Some n \<Longrightarrow> int64 n"
  by (auto simp: Atoi_def Let_def int64_def split: prod.splits if_splits)

lemma un_int64_range: "un_int64 v old = Some n \<Longrightarrow> int64 old \<Longrightarrow> int64 n"
  by (auto simp: un_int64_def Atoi_range split: jval.splits)

lemma un_field_keeps:
  "un_field f name ms old = Some x \<Longrightarrow> R old \<Longrightarrow> (\<And>v y z. f v y = Some z \<Longrightarrow> R y \<Longrightarrow> R z) \<Longrightarrow> R x"
  by (induction f name ms old rule: un_field.induct) (auto split: if_splits option.splits)

lemma those_set: "those xs = Some ys \<Longrightarrow> y \<in> set ys \<Longrightarrow> Some y \<in> set xs"
  by (induction xs arbitrary: ys) (auto split: option.splits)

lemma un_field_int64: "un_field un_int64 name ms 0 = Some x \<Longrightarrow> int64 x"
  by (erule un_field_keeps [where R = int64]) (simp add: int64_def, rule un_int64_range)

lemma un_snapshot_range: "un_snapshot v = Some s \<Longrightarrow> int64 (Size s)"
  by (auto simp: un_snapshot_def un_field_int64 split: option.splits)

lemma un_snapshots_range: "un_snapshots v old = Some ss \<Longrightarrow> s \<in> set ss \<Longrightarrow> int64 (Size s)"
  using un_snapshot_range by (fastforce simp: un_snapshots_def dest: those_set split: jval.splits)

lemma parseSnapshotList_range:
  assumes "parseSnapshotList err d = Inr ss" "s \<in> set ss"
  shows "int64 (Size s)"
proof -
  obtain v where "un_envelope v = Some ss \<or> un_snapshots v [] = Some ss"
    using assms(1) by (auto simp: parseSnapshotList_def Let_def split: option.splits)
  then show ?thesis
  proof
    assume "un_envelope v = Some ss"
    then obtain ms where "un_field un_snapshots ''data'' ms [] = Some ss"
      by (auto simp: un_envelope_def split: option.splits)
    from un_field_keeps [OF this, of "\<lambda>xs. \<forall>x\<in>set xs. int64 (Size x)"] assms(2)
    show ?thesis by (auto dest: un_snapshots_range)
  next
    assume "un_snapshots v [] = Some ss"
    with assms(2) show ?thesis by (auto dest: un_snapshots_range)
  qed
qed

section \<open>What a run of the agent does\<close>

fun is_run :: "acall \<Rightarrow> bool" where
  "is_run (Run _ _) = True"
| "is_run _ = False"

fun termlogs :: "acall list \<Rightarrow> (string \<times> string) list" where
  "termlogs [] = []"
| "termlogs (Termlog path line # cs) = (path, line) # termlogs cs"
| "termlogs (_ # cs) = termlogs cs"

lemma termlogs_append [simp]: "termlogs (xs @ ys) = termlogs xs @ termlogs ys"
  by (induction xs rule: termlogs.induct) simp_all

text \<open>What \<open>writeTermlog\<close> and \<open>fail\<close> leave.\<close>

lemma writeTermlog_gives:
  "gives (\<lambda>_ n. termlogs n = [(path, line @ [CHR 0x0A])] \<and> list_all (\<lambda>c. \<not> is_run c) n) (writeTermlog P path line)"
  unfolding writeTermlog_def print_err_def
  by (auto intro!: gives_rules gives_invoke)

lemma fail_gives:
  "gives (\<lambda>x n. x = code \<and> termlogs n = [(path, errorJSON msg @ [CHR 0x0A])] \<and> list_all (\<lambda>c. \<not> is_run c) n)
     (fail P path code msg)"
  unfolding fail_def
  by (rule gives_bind [OF writeTermlog_gives]) (auto simp: print_err_def intro!: gives_rules gives_invoke)

text \<open>How a run ends: the outcome reported on the termination log, and the exit code.\<close>

definition fresh_snapshot :: "proc \<Rightarrow> string \<Rightarrow> Snapshot \<Rightarrow> bool" where
  "fresh_snapshot P h snap \<longleftrightarrow>
     (\<exists>hist argv env snaps. parseSnapshotList (p_jsonError P) (rr_stdout (p_run P hist argv env)) = Inr snaps \<and>
        argv = listArgv (c_NS (fst (loadConfig (p_getenv P)))) \<and> latestHostSnapshot snaps h = Inr snap)"

definition reports :: "proc \<Rightarrow> string \<Rightarrow> int \<Rightarrow> acall list \<Rightarrow> bool" where
  "reports P path code calls \<longleftrightarrow>
     (\<exists>line. termlogs calls = [(path, line @ [CHR 0x0A])] \<and>
        (if code = 0 then \<exists>h snap. p_hostname P = Inr h \<and> fresh_snapshot P h snap \<and> line = successJSON snap
         else \<exists>msg. line = errorJSON msg))"

text \<open>A failed child process never has exit code 0.\<close>

definition failing_exits :: "proc \<Rightarrow> bool" where
  "failing_exits P \<longleftrightarrow> (\<forall>hist argv env m. rr_error (p_run P hist argv env) \<noteq> Some (ExitError 0 m))"

lemma failing_exitsD: "failing_exits P \<Longrightarrow> rr_error (p_run P hist argv env) = Some e \<Longrightarrow> exitCode e \<noteq> 0"
  by (cases e) (auto simp: failing_exits_def exitCode_def)

lemma reports_add [simp]:
  "termlogs n = [] \<Longrightarrow> reports P path code (n @ m) = reports P path code m"
  "termlogs n = [] \<Longrightarrow> reports P path code (m @ n) = reports P path code m"
  by (simp_all add: reports_def)

lemma reports_Cons [simp]:
  "reports P path code (Run argv env # m) = reports P path code m"
  "reports P path code (WriteTemp s # m) = reports P path code m"
  by (simp_all add: reports_def)

lemma fail_reports: "code \<noteq> 0 \<Longrightarrow> gives (reports P path) (fail P path code msg)"
  by (rule gives_mono [OF fail_gives]) (auto simp: reports_def)

lemma set_notes_silent: "gives (\<lambda>_ n. termlogs n = []) (set_notes P ns snap notes env)"
  unfolding set_notes_def run_def print_err_def
  by (auto intro!: gives_rules gives_invoke)

lemma success_reports:
  assumes "p_hostname P = Inr h" "fresh_snapshot P h snap"
  shows "gives (reports P path)
    (do { set_notes P ns snap notes env; writeTermlog P path (successJSON snap);
          print_out (successJSON snap); State_Monad.return 0 })"
proof (rule gives_bind [OF set_notes_silent])
  fix n assume n: "termlogs n = []"
  show "gives (\<lambda>y n'. reports P path y (n @ n'))
    (do { writeTermlog P path (successJSON snap); print_out (successJSON snap); State_Monad.return 0 })"
    by (rule gives_bind [OF writeTermlog_gives])
      (use n assms in \<open>auto simp: print_out_def reports_def intro!: gives_rules\<close>)
qed

lemma backup_with_key_reports:
  assumes ex: "failing_exits P" and h: "p_hostname P = Inr h" and c: "c = fst (loadConfig (p_getenv P))"
  shows "gives (reports P (ba_termlog a)) (backup_with_key P c h keyPath a)"
proof -
  note step = failing_exitsD [OF ex] fail_reports
  have list: "gives (reports P (ba_termlog a))
      (case parseSnapshotList (p_jsonError P) (rr_stdout (p_run P hist (listArgv (c_NS c)) env)) of
         Inl err \<Rightarrow> fail P (ba_termlog a) 1 (''snapshot list: '' @ err)
       | Inr snaps \<Rightarrow> (case latestHostSnapshot snaps h of
           Inl err \<Rightarrow> fail P (ba_termlog a) 1 (''snapshot list: '' @ err)
         | Inr snap \<Rightarrow> do { set_notes P (c_NS c) snap (ba_notes a) e; writeTermlog P (ba_termlog a) (successJSON snap);
             print_out (successJSON snap); State_Monad.return 0 }))" for hist env e
    by (auto simp: fresh_snapshot_def c split: sum.split intro!: fail_reports success_reports [OF h] exI)
  show ?thesis
    unfolding backup_with_key_def Let_def run_def
    by (rule gives_bind_answer, rule gives_case_option; (rule gives_bind_answer, rule gives_case_option)?)
      (simp_all add: step list)
qed

lemma RunBackup_gives:
  assumes "failing_exits P"
  shows "gives (reports P (ba_termlog a)) (RunBackup P a)"
proof (cases "snd (loadConfig (p_getenv P)) = []")
  case False
  then show ?thesis by (simp add: RunBackup_def split_beta fail_reports)
next
  case True
  show ?thesis
  proof (cases "p_hostname P")
    case (Inl e)
    with True show ?thesis by (simp add: RunBackup_def split_beta fail_reports)
  next
    case (Inr h)
    have "gives (\<lambda>y n. reports P (ba_termlog a) y (WriteTemp k # n))
        (do { code \<leftarrow> backup_with_key P (fst (loadConfig (p_getenv P))) h path a;
              remove_temp path; State_Monad.return code })" for k path
      by (rule gives_bind [OF backup_with_key_reports [OF assms Inr refl]])
        (auto simp: remove_temp_def reports_def intro!: gives_rules)
    with True Inr show ?thesis
      by (auto simp: RunBackup_def split_beta write_temp_def fail_reports
          intro!: gives_bind_answer split: sum.split)
  qed
qed

lemma backup_with_key_calls: "emits (\<lambda>_. True) (backup_with_key P c h path a)"
  unfolding backup_with_key_def set_notes_def fail_def writeTermlog_def run_def print_err_def print_out_def Let_def
  by (intro emits_bind emits_rules | simp)+

lemma trace_after:
  "emits (\<lambda>_. True) (f (g l)) \<Longrightarrow>
   trace (State_Monad.bind (invoke c g) f) l = c # trace (f (g l)) (l @ [c])"
  unfolding emits_def by (drule spec [of _ "l @ [c]"]) (auto simp: trace_def)

lemma fail_calls: "emits (\<lambda>_. True) (fail P path code msg)"
  unfolding fail_def writeTermlog_def print_err_def by (intro emits_bind emits_rules | simp)+

text \<open>Every run of the backup agent, whatever the client, the host and the file system do,
  writes the termination log exactly once; it exits 0 only with the success line of a newest
  snapshot of its own host group in the client's list, and every other exit comes with an error
  line (a failed child never having exit code 0).\<close>

theorem RunBackup_reports:
  assumes "failing_exits P"
  shows "reports P (ba_termlog a) (result (RunBackup P a) l) (trace (RunBackup P a) l)"
  using givesD [OF RunBackup_gives [OF assms]] by blast

text \<open>The client is started only while the keyfile exists, and every run that wrote the
  keyfile removes it as its last action, on success and on every failure.\<close>

theorem RunBackup_removes_keyfile:
  "list_all (\<lambda>c. \<not> is_run c) (trace (RunBackup P a) l) \<or>
   (\<exists>key mid path. p_temp P l key = Inr path \<and>
      trace (RunBackup P a) l = WriteTemp key # mid @ [RemoveTemp path])"
proof -
  have fail: "list_all (\<lambda>c. \<not> is_run c) (trace (fail P path code msg) l')" for path code msg l'
    using givesD [OF fail_gives] by blast
  show ?thesis
  proof (cases "snd (loadConfig (p_getenv P)) = [] \<and> (\<exists>h. p_hostname P = Inr h)")
    case False
    then show ?thesis by (auto simp: RunBackup_def split_beta fail split: sum.split)
  next
    case True
    then obtain h where h: "snd (loadConfig (p_getenv P)) = []" "p_hostname P = Inr h" by blast
    define c where "c = fst (loadConfig (p_getenv P))"
    show ?thesis
    proof (cases "p_temp P l (c_Keyfile c)")
      case (Inl e)
      with h fail show ?thesis
        by (simp add: RunBackup_def split_beta write_temp_def c_def [symmetric] trace_after fail_calls)
    next
      case (Inr path)
      let ?m = "backup_with_key P c h path a" and ?l = "l @ [WriteTemp (c_Keyfile c)]"
      obtain mid where "snd (run_state ?m ?l) = ?l @ mid"
        using backup_with_key_calls unfolding emits_def by blast
      with h Inr have "trace (RunBackup P a) l = WriteTemp (c_Keyfile c) # mid @ [RemoveTemp path]"
        by (simp add: RunBackup_def split_beta write_temp_def remove_temp_def c_def [symmetric] trace_def)
      with Inr show ?thesis by blast
    qed
  qed
qed

end
