(* ===== verification/Json_Object.thy ===== *)
theory Json_Object
  imports Kube_Env "HOL-Library.AList"
begin

text \<open>
  Decoded manifests (\<open>map[string]any\<close>) and the operations the code performs on them.  A
  failed type assertion \<open>m, _ := v.(map[string]any)\<close> gives the nil map: reading it gives
  nothing and deleting from it does nothing.  Deleting a key inside a nested map through an
  alias is an update of the outer object.  The record \<open>apimachinery\<close> holds the functions of
  \<open>k8s.io/apimachinery\<close> and \<open>sigs.k8s.io/yaml\<close> the code calls, as parameters.
\<close>

record apimachinery =
  am_docs :: "string \<Rightarrow> string list \<times> string option"
  am_unmarshal :: "string \<Rightarrow> string + jobject"
  am_marshal :: "jobject \<Rightarrow> string option"
  am_parseGV :: "string \<Rightarrow> string + string \<times> string"
  am_gkString :: "string \<Rightarrow> string \<Rightarrow> string"
  am_label :: "jobject \<Rightarrow> string \<Rightarrow> string"
  am_name :: "jobject \<Rightarrow> string"

fun as_obj :: "json option \<Rightarrow> jobject" where
  "as_obj (Some (JObj m)) = m"
| "as_obj _ = []"

fun as_arr :: "json option \<Rightarrow> json list" where
  "as_arr (Some (JArr xs)) = xs"
| "as_arr _ = []"

fun as_str :: "json option \<Rightarrow> string" where
  "as_str (Some (JStr s)) = s"
| "as_str _ = ''''"

definition sub_obj :: "jobject \<Rightarrow> string \<Rightarrow> jobject" where
  "sub_obj m k = as_obj (map_of m k)"

definition sub_arr :: "jobject \<Rightarrow> string \<Rightarrow> json list" where
  "sub_arr m k = as_arr (map_of m k)"

definition sub_str :: "jobject \<Rightarrow> string \<Rightarrow> string" where
  "sub_str m k = as_str (map_of m k)"

definition put :: "string \<Rightarrow> json \<Rightarrow> jobject \<Rightarrow> jobject" where
  "put k v m = AList.update k v m"

definition del :: "string \<Rightarrow> jobject \<Rightarrow> jobject" where
  "del k m = AList.delete k m"

definition del_all :: "string list \<Rightarrow> jobject \<Rightarrow> jobject" where
  "del_all ks m = fold del ks m"

text \<open>Mutating the map stored under a key, when there is one.\<close>

definition map_sub :: "string \<Rightarrow> (jobject \<Rightarrow> jobject) \<Rightarrow> jobject \<Rightarrow> jobject" where
  "map_sub k f m = (case map_of m k of Some (JObj s) \<Rightarrow> put k (JObj (f s)) m | _ \<Rightarrow> m)"

lemma map_of_put [simp]: "map_of (put k v m) = (map_of m)(k \<mapsto> v)"
  by (simp add: put_def update_conv')

lemma map_of_del [simp]: "map_of (del k m) = (map_of m)(k := None)"
  by (simp add: del_def delete_conv')

lemma map_of_del_all: "map_of (del_all ks m) x = (if x \<in> set ks then None else map_of m x)"
  by (induction ks arbitrary: m) (auto simp: del_all_def)

lemma map_of_map_sub:
  "map_of (map_sub k f m) x = (case map_of m k of
     Some (JObj s) \<Rightarrow> (if x = k then Some (JObj (f s)) else map_of m x) | _ \<Rightarrow> map_of m x)"
  by (auto simp: map_sub_def split: option.splits json.splits)

lemma map_of_map_sub_other: "x \<noteq> k \<Longrightarrow> map_of (map_sub k f m) x = map_of m x"
  by (simp add: map_of_map_sub split: option.split json.split)

lemma sub_obj_map_sub: "f [] = [] \<Longrightarrow> sub_obj (map_sub k f m) k = f (sub_obj m k)"
  by (auto simp: sub_obj_def map_of_map_sub split: option.splits json.splits)

lemma sub_obj_map_sub_other [simp]: "x \<noteq> k \<Longrightarrow> sub_obj (map_sub k f m) x = sub_obj m x"
  by (simp add: sub_obj_def map_of_map_sub_other)

lemma sub_str_map_sub_other [simp]: "x \<noteq> k \<Longrightarrow> sub_str (map_sub k f m) x = sub_str m x"
  by (simp add: sub_str_def map_of_map_sub_other)

lemma sub_put [simp]:
  "sub_obj (put k v m) x = (if x = k then as_obj (Some v) else sub_obj m x)"
  "sub_str (put k v m) x = (if x = k then as_str (Some v) else sub_str m x)"
  by (simp_all add: sub_obj_def sub_str_def)

lemma sub_del [simp]:
  "sub_obj (del k m) x = (if x = k then [] else sub_obj m x)"
  "sub_str (del k m) x = (if x = k then '''' else sub_str m x)"
  by (simp_all add: sub_obj_def sub_str_def)

lemma del_Nil [simp]: "del k [] = []" and del_all_Nil [simp]: "del_all ks [] = []"
proof -
  show *: "del k [] = []" for k by (simp add: del_def)
  show "del_all ks [] = []" by (induction ks) (simp_all add: del_all_def *)
qed

end
