(* ===== verification/Restore_Plan.thy ===== *)
theory Restore_Plan
  imports Json_Object
begin

text \<open>
  The restore plan (\<open>internal/backup/restore_plan.go\<close>): decoding the multi-document
  \<open>api.yaml\<close> for a target namespace, sorting its documents into apply buckets, the PVCs to
  fill and the node each PVC's workload is pinned to.
\<close>

record PlannedDoc =
  pl_Kind :: string
  pl_Name :: string
  pl_YAML :: string

record ParsedDoc =
  pd_Kind :: string
  pd_Namespace :: string
  pd_Name :: string
  pd_Obj :: jobject

definition clusterScopedKinds :: "string set" where
  "clusterScopedKinds = {''Namespace'', ''CustomResourceDefinition''}"

definition workloadKinds :: "string set" where
  "workloadKinds = {''Deployment'', ''StatefulSet'', ''DaemonSet'', ''Job'', ''CronJob'', ''ReplicaSet''}"

definition droppedKinds :: "string set" where
  "droppedKinds = {''Pod'', ''Endpoints'', ''EndpointSlice'', ''PodMetrics'', ''ControllerRevision''}"

definition pvcBindAnnotations :: "string list" where
  "pvcBindAnnotations = [''pv.kubernetes.io/bind-completed'', ''pv.kubernetes.io/bound-by-controller'',
     ''volume.kubernetes.io/selected-node'']"

section \<open>Stripping source state\<close>

definition strip_annotations :: "jobject \<Rightarrow> jobject" where
  "strip_annotations meta =
     (let anns = del_all pvcBindAnnotations (sub_obj meta ''annotations'')
      in if anns = [] then del ''annotations'' meta
         else put ''annotations'' (JObj anns) meta)"

definition stripPVCBinding :: "jobject \<Rightarrow> jobject" where
  "stripPVCBinding obj = map_sub ''metadata'' strip_annotations (map_sub ''spec'' (del ''volumeName'') obj)"

fun strip_port :: "json \<Rightarrow> json" where
  "strip_port (JObj pm) = JObj (del ''nodePort'' pm)"
| "strip_port p = p"

definition strip_service_spec :: "jobject \<Rightarrow> jobject" where
  "strip_service_spec spec =
     (let s = del_all [''clusterIP'', ''clusterIPs'', ''loadBalancerIP'', ''healthCheckNodePort''] spec
      in (case map_of s ''ports'' of Some (JArr ps) \<Rightarrow> put ''ports'' (JArr (map strip_port ps)) s | _ \<Rightarrow> s))"

definition stripServiceAllocations :: "jobject \<Rightarrow> jobject" where
  "stripServiceAllocations obj = map_sub ''spec'' strip_service_spec obj"

section \<open>Decoding\<close>

definition isBlankDoc :: "string \<Rightarrow> bool" where
  "isBlankDoc raw = list_all (\<lambda>line. let l = TrimSpace line in
     length l = 0 \<or> HasPrefix l ''---'' \<or> HasPrefix l ''#'') (Split (CHR 0x0A) raw)"

definition firstSnippet :: "string \<Rightarrow> string" where
  "firstSnippet raw =
     (let s = TrimSpace raw; s = takeWhile (\<lambda>c. c \<noteq> CHR 0x0A) s
      in if length s > 60 then take 60 s @ ''...'' else s)"

definition doc_err :: "int \<Rightarrow> string \<Rightarrow> string \<Rightarrow> string" where
  "doc_err i raw msg = ''manifest doc '' @ Itoa i @ '' ('' @ firstSnippet raw @ '')'' @ msg"

definition set_namespace :: "string \<Rightarrow> jobject \<Rightarrow> jobject" where
  "set_namespace ns obj =
     (case map_of obj ''metadata'' of
        Some (JObj meta) \<Rightarrow> put ''metadata'' (JObj (put ''namespace'' (JStr ns) meta)) obj
      | _ \<Rightarrow> put ''metadata'' (JObj [(''namespace'', JStr ns)]) obj)"

text \<open>One document after decoding: the error, or the rewritten document.\<close>

definition parse_obj :: "string \<Rightarrow> int \<Rightarrow> string \<Rightarrow> jobject \<Rightarrow> string + ParsedDoc" where
  "parse_obj targetNS i raw obj =
     (let kind = sub_str obj ''kind''; name = sub_str (sub_obj obj ''metadata'') ''name''
      in if kind = '''' \<or> name = '''' then Inl (doc_err i raw '': missing kind or metadata.name'')
         else
           let obj = (if targetNS \<noteq> '''' \<and> kind \<notin> clusterScopedKinds then set_namespace targetNS obj else obj);
               obj = (if kind = ''Service'' then stripServiceAllocations obj
                      else if kind = ''PersistentVolumeClaim'' then stripPVCBinding obj else obj)
           in Inr \<lparr>pd_Kind = kind, pd_Namespace = sub_str (sub_obj obj ''metadata'') ''namespace'',
                   pd_Name = name, pd_Obj = obj\<rparr>)"

fun parse_docs :: "apimachinery \<Rightarrow> string \<Rightarrow> int \<Rightarrow> string list \<Rightarrow> string option \<Rightarrow> string + ParsedDoc list" where
  "parse_docs A ns i [] None = Inr []"
| "parse_docs A ns i [] (Some e) = Inl (''manifest doc '' @ Itoa i @ '': '' @ e)"
| "parse_docs A ns i (raw # raws) e =
     (if isBlankDoc raw then parse_docs A ns (i + 1) raws e
      else (case am_unmarshal A raw of
              Inl err \<Rightarrow> Inl (doc_err i raw ('': '' @ err))
            | Inr obj \<Rightarrow>
                (case parse_obj ns i raw obj of
                   Inl err \<Rightarrow> Inl err
                 | Inr d \<Rightarrow> (case parse_docs A ns (i + 1) raws e of Inl err \<Rightarrow> Inl err | Inr ds \<Rightarrow> Inr (d # ds)))))"

definition ParseAPIManifests :: "apimachinery \<Rightarrow> string \<Rightarrow> string \<Rightarrow> string + ParsedDoc list" where
  "ParseAPIManifests A data targetNS =
     (let (raws, e) = am_docs A data in parse_docs A targetNS 0 raws e)"

section \<open>Buckets\<close>

text \<open>A marshal failure renders the empty document.\<close>

definition renderDoc :: "apimachinery \<Rightarrow> jobject \<Rightarrow> string" where
  "renderDoc A obj = (case am_marshal A obj of None \<Rightarrow> '''' | Some y \<Rightarrow> y)"

definition plan :: "apimachinery \<Rightarrow> ParsedDoc \<Rightarrow> PlannedDoc" where
  "plan A d = \<lparr>pl_Kind = pd_Kind d, pl_Name = pd_Name d, pl_YAML = renderDoc A (pd_Obj d)\<rparr>"

type_synonym buckets = "PlannedDoc list \<times> PlannedDoc list \<times> PlannedDoc list \<times> PlannedDoc list"

fun BucketDocs :: "apimachinery \<Rightarrow> ParsedDoc list \<Rightarrow> string list \<Rightarrow> string list \<Rightarrow> buckets" where
  "BucketDocs A [] drops keeps = ([], [], [], [])"
| "BucketDocs A (d # ds) drops keeps =
     (let (ns, crds, pre, work) = BucketDocs A ds drops keeps
      in if pd_Kind d \<in> droppedKinds \<or> (pd_Kind d \<in> set drops \<and> pd_Kind d \<notin> set keeps)
         then (ns, crds, pre, work)
         else if pd_Kind d = ''Namespace'' then (plan A d # ns, crds, pre, work)
         else if pd_Kind d = ''CustomResourceDefinition'' then (ns, plan A d # crds, pre, work)
         else if pd_Kind d \<in> workloadKinds then (ns, crds, pre, plan A d # work)
         else (ns, crds, plan A d # pre, work))"

fun PVCsFromDocs :: "PlannedDoc list \<Rightarrow> string list" where
  "PVCsFromDocs [] = []"
| "PVCsFromDocs (d # ds) = (if pl_Kind d = ''PersistentVolumeClaim'' then pl_Name d # PVCsFromDocs ds
     else PVCsFromDocs ds)"

section \<open>Node pins\<close>

definition claimsPodVolume :: "jobject \<Rightarrow> string \<Rightarrow> bool" where
  "claimsPodVolume podSpec pvc = list_ex (\<lambda>v.
     sub_str (sub_obj (as_obj (Some v)) ''persistentVolumeClaim'') ''claimName'' = pvc)
     (sub_arr podSpec ''volumes'')"

definition stsClaimTemplate :: "jobject \<Rightarrow> string \<Rightarrow> string \<Rightarrow> bool" where
  "stsClaimTemplate spec stsName pvc = list_ex (\<lambda>t.
     let tname = sub_str (sub_obj (as_obj (Some t)) ''metadata'') ''name''
     in tname \<noteq> '''' \<and> HasPrefix pvc (tname @ ''-'' @ stsName @ ''-''))
     (sub_arr spec ''volumeClaimTemplates'')"

definition hostnameSelector :: "jobject \<Rightarrow> string" where
  "hostnameSelector podSpec = sub_str (sub_obj podSpec ''nodeSelector'') ''kubernetes.io/hostname''"

definition doc_podSpec :: "ParsedDoc \<Rightarrow> jobject" where
  "doc_podSpec d = sub_obj (sub_obj (sub_obj (pd_Obj d) ''spec'') ''template'') ''spec''"

fun NodeForPVC :: "ParsedDoc list \<Rightarrow> string \<Rightarrow> string" where
  "NodeForPVC [] pvc = ''''"
| "NodeForPVC (d # ds) pvc =
     (if pd_Kind d \<notin> workloadKinds then NodeForPVC ds pvc
      else if (claimsPodVolume (doc_podSpec d) pvc \<or>
               stsClaimTemplate (sub_obj (pd_Obj d) ''spec'') (pd_Name d) pvc) \<and>
              hostnameSelector (doc_podSpec d) \<noteq> ''''
      then hostnameSelector (doc_podSpec d)
      else NodeForPVC ds pvc)"

section \<open>What the plan promises\<close>

subsection \<open>Buckets are filters\<close>

text \<open>The kinds a restore applies: not one of the derived kinds, and not dropped unless kept.\<close>

definition restored :: "string list \<Rightarrow> string list \<Rightarrow> string \<Rightarrow> bool" where
  "restored drops keeps k \<longleftrightarrow> k \<notin> droppedKinds \<and> (k \<in> set drops \<longrightarrow> k \<in> set keeps)"

datatype bucket = BNamespace | BCRD | BPre | BWork

definition bucket_of :: "string \<Rightarrow> bucket" where
  "bucket_of k = (if k = ''Namespace'' then BNamespace else if k = ''CustomResourceDefinition'' then BCRD
     else if k \<in> workloadKinds then BWork else BPre)"

definition in_bucket :: "apimachinery \<Rightarrow> ParsedDoc list \<Rightarrow> string list \<Rightarrow> string list \<Rightarrow> bucket \<Rightarrow> PlannedDoc list" where
  "in_bucket A ds drops keeps b =
     map (plan A) (filter (\<lambda>d. restored drops keeps (pd_Kind d) \<and> bucket_of (pd_Kind d) = b) ds)"

lemma BucketDocs_eq:
  "BucketDocs A ds drops keeps =
     (in_bucket A ds drops keeps BNamespace, in_bucket A ds drops keeps BCRD,
      in_bucket A ds drops keeps BPre, in_bucket A ds drops keeps BWork)"
proof (induction ds)
  case (Cons d ds)
  show ?case
    unfolding BucketDocs.simps Cons.IH Let_def prod.case
    by (auto simp: in_bucket_def restored_def bucket_of_def workloadKinds_def)
qed (simp add: in_bucket_def)

text \<open>Each apply bucket is, in source order, exactly the documents of its class that the
  filters let through: a derived kind never passes, a kept kind is not dropped, and keeping a
  kind drops no other.\<close>

theorem BucketDocs_filters:
  "BucketDocs A ds drops keeps =
     (in_bucket A ds drops keeps BNamespace, in_bucket A ds drops keeps BCRD,
      in_bucket A ds drops keeps BPre, in_bucket A ds drops keeps BWork)"
  by (rule BucketDocs_eq)

text \<open>No restored document is lost or duplicated.\<close>

lemma buckets_partition:
  "(case BucketDocs A ds drops keeps of (ns, crds, pre, work) \<Rightarrow> mset ns + mset crds + mset pre + mset work) =
     mset (map (plan A) (filter (\<lambda>d. restored drops keeps (pd_Kind d)) ds))"
proof (induction ds)
  case (Cons d ds)
  have "bucket_of (pd_Kind d) \<in> {BNamespace, BCRD, BPre, BWork}" by (cases "bucket_of (pd_Kind d)") auto
  with Cons show ?case unfolding BucketDocs_eq in_bucket_def by auto
qed simp

lemma PVCsFromDocs_filter:
  "PVCsFromDocs pds = map pl_Name (filter (\<lambda>d. pl_Kind d = ''PersistentVolumeClaim'') pds)"
  by (induction pds) auto

lemma bucket_of_claim: "bucket_of ''PersistentVolumeClaim'' = BPre"
  by (simp add: bucket_of_def workloadKinds_def)

text \<open>The PVCs the volume phase fills are exactly the claims the pre phase applies.\<close>

lemma PVCs_of_plan:
  "PVCsFromDocs (fst (snd (snd (BucketDocs A ds drops keeps)))) =
     map pd_Name (filter (\<lambda>d. restored drops keeps (pd_Kind d) \<and> pd_Kind d = ''PersistentVolumeClaim'') ds)"
proof -
  have pl: "pl_Kind (plan A d) = pd_Kind d" "pl_Name (plan A d) = pd_Name d" for d
    by (simp_all add: plan_def)
  have "filter (\<lambda>d. pd_Kind d = ''PersistentVolumeClaim'' \<and>
        restored drops keeps (pd_Kind d) \<and> bucket_of (pd_Kind d) = BPre) ds =
      filter (\<lambda>d. restored drops keeps (pd_Kind d) \<and> pd_Kind d = ''PersistentVolumeClaim'') ds"
    using bucket_of_claim by (intro filter_cong) metis+
  then show ?thesis
    unfolding BucketDocs_eq PVCsFromDocs_filter in_bucket_def
    by (simp add: filter_map comp_def pl conj_commute conj_left_commute)
qed

subsection \<open>Documents of a parsed plan\<close>

definition fresh_claim :: "jobject \<Rightarrow> bool" where
  "fresh_claim obj \<longleftrightarrow> map_of (sub_obj obj ''spec'') ''volumeName'' = None \<and>
     (\<forall>k\<in>set pvcBindAnnotations. map_of (sub_obj (sub_obj obj ''metadata'') ''annotations'') k = None)"

definition fresh_service :: "jobject \<Rightarrow> bool" where
  "fresh_service obj \<longleftrightarrow>
     (\<forall>k\<in>{''clusterIP'', ''clusterIPs'', ''loadBalancerIP'', ''healthCheckNodePort''}.
        map_of (sub_obj obj ''spec'') k = None) \<and>
     (\<forall>p\<in>set (sub_arr (sub_obj obj ''spec'') ''ports''). map_of (as_obj (Some p)) ''nodePort'' = None)"

definition planned_for :: "string \<Rightarrow> ParsedDoc \<Rightarrow> bool" where
  "planned_for ns d \<longleftrightarrow> pd_Kind d \<noteq> '''' \<and> pd_Name d \<noteq> '''' \<and>
     sub_str (pd_Obj d) ''kind'' = pd_Kind d \<and>
     sub_str (sub_obj (pd_Obj d) ''metadata'') ''name'' = pd_Name d \<and>
     sub_str (sub_obj (pd_Obj d) ''metadata'') ''namespace'' = pd_Namespace d \<and>
     (ns \<noteq> '''' \<longrightarrow> pd_Kind d \<notin> clusterScopedKinds \<longrightarrow> pd_Namespace d = ns) \<and>
     (pd_Kind d = ''PersistentVolumeClaim'' \<longrightarrow> fresh_claim (pd_Obj d)) \<and>
     (pd_Kind d = ''Service'' \<longrightarrow> fresh_service (pd_Obj d))"

lemma strip_annotations_none:
  "k \<in> set pvcBindAnnotations \<Longrightarrow> map_of (sub_obj (strip_annotations meta) ''annotations'') k = None"
  by (auto simp: strip_annotations_def Let_def map_of_del_all)

lemma strip_annotations_str: "k \<noteq> ''annotations'' \<Longrightarrow> sub_str (strip_annotations meta) k = sub_str meta k"
  by (auto simp: strip_annotations_def Let_def)

lemma strip_annotations_Nil: "strip_annotations [] = []"
  by (simp add: strip_annotations_def sub_obj_def)

lemma stripPVCBinding_fresh: "fresh_claim (stripPVCBinding obj)"
  by (simp add: fresh_claim_def stripPVCBinding_def sub_obj_map_sub strip_annotations_Nil strip_annotations_none)

lemma strip_port_no_nodePort: "map_of (as_obj (Some (strip_port p))) ''nodePort'' = None"
  by (cases p) simp_all

lemma strip_service_spec_Nil: "strip_service_spec [] = []"
  by (simp add: strip_service_spec_def)

lemma strip_service_spec_fresh:
  "k \<in> {''clusterIP'', ''clusterIPs'', ''loadBalancerIP'', ''healthCheckNodePort''} \<Longrightarrow>
     map_of (strip_service_spec spec) k = None"
  "p \<in> set (sub_arr (strip_service_spec spec) ''ports'') \<Longrightarrow> map_of (as_obj (Some p)) ''nodePort'' = None"
  by (auto simp: strip_service_spec_def Let_def map_of_del_all sub_arr_def strip_port_no_nodePort
      split: option.splits json.splits)

lemma stripServiceAllocations_fresh: "fresh_service (stripServiceAllocations obj)"
  using strip_service_spec_fresh
  by (auto simp: fresh_service_def stripServiceAllocations_def sub_obj_map_sub strip_service_spec_Nil)

lemma set_namespace_fields:
  "sub_str (sub_obj (set_namespace ns obj) ''metadata'') ''namespace'' = ns"
  "k \<noteq> ''metadata'' \<Longrightarrow> sub_str (set_namespace ns obj) k = sub_str obj k"
  "sub_str (sub_obj obj ''metadata'') ''name'' \<noteq> '''' \<Longrightarrow>
     sub_str (sub_obj (set_namespace ns obj) ''metadata'') ''name'' = sub_str (sub_obj obj ''metadata'') ''name''"
  by (auto simp: set_namespace_def sub_obj_def sub_str_def split: option.splits json.splits)

lemma stripPVCBinding_fields:
  "sub_str (stripPVCBinding obj) ''kind'' = sub_str obj ''kind''"
  "k \<noteq> ''annotations'' \<Longrightarrow>
     sub_str (sub_obj (stripPVCBinding obj) ''metadata'') k = sub_str (sub_obj obj ''metadata'') k"
  by (simp_all add: stripPVCBinding_def sub_obj_map_sub strip_annotations_Nil strip_annotations_str)

lemma stripServiceAllocations_fields:
  "sub_str (stripServiceAllocations obj) ''kind'' = sub_str obj ''kind''"
  "sub_obj (stripServiceAllocations obj) ''metadata'' = sub_obj obj ''metadata''"
  by (simp_all add: stripServiceAllocations_def)

lemma parse_obj_planned: "parse_obj ns i raw obj = Inr d \<Longrightarrow> planned_for ns d"
  by (auto simp: parse_obj_def Let_def planned_for_def set_namespace_fields stripPVCBinding_fields
      stripServiceAllocations_fields stripPVCBinding_fresh stripServiceAllocations_fresh
      split: if_splits)

lemma parse_docs_planned:
  "parse_docs A ns i raws e = Inr ds \<Longrightarrow>
     (\<forall>d\<in>set ds. planned_for ns d) \<and> length ds = length (filter (Not \<circ> isBlankDoc) raws) \<and> e = None"
proof (induction A ns i raws e arbitrary: ds rule: parse_docs.induct)
  case (3 A ns i raw raws e)
  show ?case
  proof (cases "isBlankDoc raw")
    case True
    with 3 show ?thesis by simp
  next
    case False
    with 3(3) obtain obj d ds' where "am_unmarshal A raw = Inr obj" "parse_obj ns i raw obj = Inr d"
      "parse_docs A ns (i + 1) raws e = Inr ds'" "ds = d # ds'"
      by (auto split: sum.splits)
    with 3(2) False parse_obj_planned show ?thesis by auto
  qed
qed auto

text \<open>C35: decoding for a target namespace either fails or returns one document per non-blank
  document of the payload, in which every namespaced document is rewritten to the target, every
  claim is unbound (no volume name, no binding annotation) and every Service carries none of the
  source's allocations; kind and name are those of the document itself.\<close>

theorem ParseAPIManifests_planned:
  assumes "ParseAPIManifests A data ns = Inr ds"
  shows "(\<forall>d\<in>set ds. planned_for ns d) \<and>
    length ds = length (filter (Not \<circ> isBlankDoc) (fst (am_docs A data))) \<and> snd (am_docs A data) = None"
  using assms parse_docs_planned unfolding ParseAPIManifests_def by (auto split: prod.splits)

text \<open>A YAML library that knows one Service document.\<close>

definition sample_service :: jobject where
  "sample_service = [(''kind'', JStr ''Service''),
     (''metadata'', JObj [(''name'', JStr ''web''), (''namespace'', JStr ''prod'')]),
     (''spec'', JObj [(''clusterIP'', JStr ''10.0.0.7''),
        (''ports'', JArr [JObj [(''port'', JNum 80), (''nodePort'', JNum 30080)]])])]"

definition sample_machinery :: apimachinery where
  "sample_machinery = \<lparr>am_docs = (\<lambda>d. ([d], None)), am_unmarshal = (\<lambda>_. Inr sample_service),
     am_marshal = (\<lambda>_. Some ''yaml''), am_parseGV = (\<lambda>gv. Inr ('''', gv)), am_gkString = (\<lambda>g k. k),
     am_label = (\<lambda>_ _. ''''), am_name = (\<lambda>m. sub_str (sub_obj m ''metadata'') ''name'')\<rparr>"

lemma sample_parse:
  "ParseAPIManifests sample_machinery ''kind: Service'' ''copy'' =
   Inr [\<lparr>pd_Kind = ''Service'', pd_Namespace = ''copy'', pd_Name = ''web'',
     pd_Obj = [(''kind'', JStr ''Service''),
       (''metadata'', JObj [(''name'', JStr ''web''), (''namespace'', JStr ''copy'')]),
       (''spec'', JObj [(''ports'', JArr [JObj [(''port'', JNum 80)]])])]\<rparr>]"
  by code_simp

lemma ParseAPIManifests_planned_witness:
  "planned_for ''copy'' (hd (projr (ParseAPIManifests sample_machinery ''kind: Service'' ''copy'')))"
  using ParseAPIManifests_planned [OF sample_parse] by (simp add: sample_parse)

subsection \<open>Node pins\<close>

definition pins :: "string \<Rightarrow> ParsedDoc \<Rightarrow> bool" where
  "pins pvc d \<longleftrightarrow> pd_Kind d \<in> workloadKinds \<and>
     (claimsPodVolume (doc_podSpec d) pvc \<or> stsClaimTemplate (sub_obj (pd_Obj d) ''spec'') (pd_Name d) pvc) \<and>
     hostnameSelector (doc_podSpec d) \<noteq> ''''"

text \<open>The node of a claim is the host name selector of the first workload document that
  both consumes the claim and has one, and empty when there is none.\<close>

theorem NodeForPVC_first:
  "NodeForPVC ds pvc = (case List.find (pins pvc) ds of None \<Rightarrow> '''' | Some d \<Rightarrow> hostnameSelector (doc_podSpec d))"
  by (induction ds) (auto simp: pins_def)

text \<open>A claim template only matches by prefix: for every StatefulSet name \<open>sts\<close> and every
  longer name \<open>sts-x\<close>, the claims of the longer one (\<open>t-sts-x-<ordinal>\<close>) are taken for claims of
  the shorter one, so a claim of \<open>db-replica\<close> can be sent to the node of \<open>db\<close>.\<close>

theorem stsClaimTemplate_prefix_only:
  assumes "map_of spec ''volumeClaimTemplates'' =
      Some (JArr [JObj [(''metadata'', JObj [(''name'', JStr t)])]])" "t \<noteq> ''''"
  shows "stsClaimTemplate spec sts (t @ ''-'' @ sts @ ''-'' @ x @ ''-'' @ ordinal)"
proof -
  have "HasPrefix ((t @ ''-'' @ sts @ ''-'') @ x @ ''-'' @ ordinal) (t @ ''-'' @ sts @ ''-'')"
    by (rule HasPrefix_append)
  with assms show ?thesis
    by (simp add: stsClaimTemplate_def sub_arr_def sub_obj_def sub_str_def)
qed

lemma stsClaimTemplate_prefix_only_witness:
  "stsClaimTemplate [(''volumeClaimTemplates'', JArr [JObj [(''metadata'', JObj [(''name'', JStr ''data'')])]])]
     ''db'' ''data-db-replica-0''"
  using stsClaimTemplate_prefix_only [of "[(''volumeClaimTemplates'',
      JArr [JObj [(''metadata'', JObj [(''name'', JStr ''data'')])]])]" "''data''" "''db''" "''replica''" "''0''"]
  by simp

text \<open>A CronJob's pod template lies under \<open>spec.jobTemplate\<close>, where the search does not
  look: a CronJob without a \<open>spec.template\<close> never pins a claim, whatever its pod template says.\<close>

theorem NodeForPVC_ignores_CronJob:
  assumes "pd_Kind d = ''CronJob''" "map_of (sub_obj (pd_Obj d) ''spec'') ''template'' = None"
  shows "NodeForPVC (d # ds) pvc = NodeForPVC ds pvc"
  using assms by (simp add: doc_podSpec_def sub_obj_def hostnameSelector_def sub_str_def)

lemma NodeForPVC_ignores_CronJob_witness:
  "NodeForPVC [\<lparr>pd_Kind = ''CronJob'', pd_Namespace = ''app'', pd_Name = ''dump'',
     pd_Obj = [(''spec'', JObj [(''jobTemplate'', JObj [(''spec'', JObj [(''template'',
       JObj [(''spec'', JObj [(''nodeSelector'', JObj [(''kubernetes.io/hostname'', JStr ''n1'')])])])])])])]\<rparr>]
     ''data'' = ''''"
  by (subst NodeForPVC_ignores_CronJob) (simp_all add: sub_obj_def)

end
