(* ===== verification/Agent_Restore.thy ===== *)
theory Agent_Restore
  imports Agent_Backup Restore_Plan
begin

text \<open>
  The restore subcommands of the agent (\<open>internal/agent/restore.go\<close>): restoring archives into
  their targets with the optional upload of the manifest, and applying the manifest in two
  phases.  Emptying a directory and summing its files are calls of the environment; a failed write
  of a temporary file is one answer, whatever step of it failed.
\<close>

section \<open>Paths\<close>

text \<open>\<open>filepath.Clean\<close> on slash-separated paths: the components kept so far, last first.\<close>

fun clean_path :: "bool \<Rightarrow> string list \<Rightarrow> string list \<Rightarrow> string list" where
  "clean_path rooted kept [] = rev kept"
| "clean_path rooted kept (c # cs) =
     (if c = '''' \<or> c = ''.'' then clean_path rooted kept cs
      else if c = ''..'' then
        (case kept of
           [] \<Rightarrow> if rooted then clean_path rooted [] cs else clean_path rooted [''..''] cs
         | k # ks \<Rightarrow> if k = ''..'' then clean_path rooted (''..'' # kept) cs else clean_path rooted ks cs)
      else clean_path rooted (c # kept) cs)"

definition Clean :: "string \<Rightarrow> string" where
  "Clean path =
     (let rooted = HasPrefix path ''/'';
          body = Join (clean_path rooted [] (Split (CHR ''/'') path)) ''/''
      in if rooted then ''/'' @ body else if body = '''' then ''.'' else body)"

text \<open>\<open>filepath.Join\<close> of two elements.\<close>

definition path_join :: "string \<Rightarrow> string \<Rightarrow> string" where
  "path_join a b = (if a = '''' then (if b = '''' then '''' else Clean b)
     else if b = '''' then Clean a else Clean (a @ ''/'' @ b))"

section \<open>Restoring volumes\<close>

definition restoreArgv :: "string \<Rightarrow> string \<Rightarrow> string \<Rightarrow> string \<Rightarrow> string \<Rightarrow> string list" where
  "restoreArgv ns keyfilePath ref archive target =
     [clientBinary, ''restore'', ref, archive, target, ''--ns'', ns, ''--keyfile'', keyfilePath, ''--overwrite'']"

definition kubectl :: string where
  "kubectl = ''kubectl''"

definition renderRestoreJSON :: "string list \<Rightarrow> int \<Rightarrow> string" where
  "renderRestoreJSON names bytes =
     ''{'' @ enc_string ''restored'' @ '':'' @ Quote (Join names '','') @ '','' @ enc_string ''bytes'' @ '':'' @
     Itoa bytes @ ''}''"

text \<open>The loop over the pairs: the exit code and message of the first failure, or the archives and
  the bytes restored.\<close>

fun restore_pairs :: "proc \<Rightarrow> config \<Rightarrow> string \<Rightarrow> string \<Rightarrow> RestorePair list \<Rightarrow> string list \<Rightarrow> int \<Rightarrow>
    (int \<times> string + string list \<times> int) aop" where
  "restore_pairs P c keyPath ref [] names bytes = State_Monad.return (Inr (names, bytes))"
| "restore_pairs P c keyPath ref (p # ps) names bytes = do {
     e \<leftarrow> emptyDir P (rp_target p);
     case e of
       Some err \<Rightarrow> State_Monad.return (Inl (1, ''empty '' @ rp_target p @ '': '' @ err))
     | None \<Rightarrow> do {
         r \<leftarrow> run P (restoreArgv (c_NS c) keyPath ref (rp_archive p) (rp_target p)) (Some (p_environ P @ clientEnv c));
         case rr_error r of
           Some err \<Rightarrow> State_Monad.return (Inl (exitCode err, firstLine (rr_stderr r)))
         | None \<Rightarrow> do {
             size \<leftarrow> dirSize P (rp_target p);
             restore_pairs P c keyPath ref ps (names @ [rp_archive p]) (add64 bytes size)
           }
       }
   }"

definition createArgv :: "string \<Rightarrow> string \<Rightarrow> string list" where
  "createArgv name src = [kubectl, ''create'', ''configmap'', name, ''--from-file=api.yaml='' @ src,
     ''--dry-run=client'', ''-o'', ''yaml'']"

definition applyArgv :: "string \<Rightarrow> string list" where
  "applyArgv path = [kubectl, ''apply'', ''-f'', path]"

definition uploadConfigMap :: "proc \<Rightarrow> string \<Rightarrow> string \<Rightarrow> client_error option aop" where
  "uploadConfigMap P name src = do {
     r \<leftarrow> run P (createArgv name src) (Some (p_environ P));
     case rr_error r of
       Some err \<Rightarrow> State_Monad.return (Some err)
     | None \<Rightarrow> do {
         t \<leftarrow> write_temp P (rr_stdout r);
         case t of
           Inl err \<Rightarrow> State_Monad.return (Some (StartError err))
         | Inr path \<Rightarrow> do {
             r \<leftarrow> run P (applyArgv path) (Some (p_environ P));
             remove_temp path;
             State_Monad.return (rr_error r)
           }
       }
   }"

definition restore_success :: "proc \<Rightarrow> string \<Rightarrow> string list \<Rightarrow> int \<Rightarrow> int aop" where
  "restore_success P termlog names bytes = do {
     writeTermlog P termlog (renderRestoreJSON names bytes);
     print_out (renderRestoreJSON names bytes);
     State_Monad.return 0
   }"

definition volume_with_key :: "proc \<Rightarrow> config \<Rightarrow> string \<Rightarrow> volume_args \<Rightarrow> int aop" where
  "volume_with_key P c keyPath a =
     (let fl = fail P (va_termlog a)
      in do {
        r \<leftarrow> restore_pairs P c keyPath (va_ref a) (va_pairs a) [] 0;
        case r of
          Inl (code, msg) \<Rightarrow> fl code msg
        | Inr (names, bytes) \<Rightarrow>
            if va_configMap a \<noteq> '''' then
              (if length (va_pairs a) \<noteq> 1
               then fl 2 (''configmap upload needs exactly one archive/target pair, got '' @
                      Itoa (int (length (va_pairs a))))
               else do {
                 e \<leftarrow> uploadConfigMap P (va_configMap a) (path_join (rp_target (va_pairs a ! 0)) ''api.yaml'');
                 case e of
                   Some err \<Rightarrow> fl (exitCode err) (''configmap upload: '' @ error_text err)
                 | None \<Rightarrow> restore_success P (va_termlog a) names bytes
               })
            else restore_success P (va_termlog a) names bytes
      })"

definition RunRestoreVolume :: "proc \<Rightarrow> volume_args \<Rightarrow> int aop" where
  "RunRestoreVolume P a =
     (let (c, missing) = loadConfig (p_getenv P)
      in if length missing > 0
         then fail P (va_termlog a) 2 (''missing required env: '' @ Join missing '', '')
         else do {
           k \<leftarrow> write_temp P (c_Keyfile c);
           case k of
             Inl err \<Rightarrow> fail P (va_termlog a) 1 (''keyfile: '' @ err)
           | Inr keyPath \<Rightarrow> do {
               code \<leftarrow> volume_with_key P c keyPath a;
               remove_temp keyPath;
               State_Monad.return code
             }
         })"

section \<open>Applying manifests\<close>

definition bucket_text :: "PlannedDoc list \<Rightarrow> string" where
  "bucket_text docs = concat (map (\<lambda>d. pl_YAML d @ ''---'' @ [CHR 0x0A]) docs)"

text \<open>The error of an apply, with its exit code and kubectl's first line.\<close>

definition kubectlApply :: "proc \<Rightarrow> PlannedDoc list \<Rightarrow> (int \<times> string) option aop" where
  "kubectlApply P docs = do {
     t \<leftarrow> write_temp P (bucket_text docs);
     case t of
       Inl err \<Rightarrow> State_Monad.return (Some (1, err))
     | Inr path \<Rightarrow> do {
         r \<leftarrow> run P (applyArgv path) None;
         remove_temp path;
         State_Monad.return (map_option (\<lambda>e. (exitCode e, error_text e @ '': '' @ firstLine (rr_stderr r))) (rr_error r))
       }
   }"

text \<open>The steps give \<open>None\<close> after reporting a failure, else the documents applied.\<close>

definition apply_bucket :: "proc \<Rightarrow> string \<Rightarrow> PlannedDoc list \<Rightarrow> nat option aop" where
  "apply_bucket P termlog bucket =
     (if length bucket = 0 then State_Monad.return (Some 0)
      else do {
        e \<leftarrow> kubectlApply P bucket;
        case e of
          Some (code, err) \<Rightarrow> do { fail P termlog code (''kubectl apply: '' @ err); State_Monad.return None }
        | None \<Rightarrow> State_Monad.return (Some (length bucket))
      })"

definition waitArgv :: "string \<Rightarrow> string list" where
  "waitArgv name = [kubectl, ''wait'', ''--for=condition=Established'', ''crd/'' @ name, ''--timeout=60s'']"

definition waitCRD :: "proc \<Rightarrow> string \<Rightarrow> PlannedDoc \<Rightarrow> bool aop" where
  "waitCRD P termlog doc = do {
     r \<leftarrow> run P (waitArgv (pl_Name doc)) None;
     case rr_error r of
       Some err \<Rightarrow> do {
         fail P termlog (exitCode err) (''crd '' @ pl_Name doc @ '' not Established: '' @ error_text err);
         State_Monad.return False
       }
     | None \<Rightarrow> State_Monad.return True
   }"

fun wait_crds :: "proc \<Rightarrow> string \<Rightarrow> PlannedDoc list \<Rightarrow> bool aop" where
  "wait_crds P termlog [] = State_Monad.return True"
| "wait_crds P termlog (d # ds) = do {
     ok \<leftarrow> waitCRD P termlog d;
     if ok then wait_crds P termlog ds else State_Monad.return False
   }"

definition appliedJSON :: "nat \<Rightarrow> string" where
  "appliedJSON n = ''{'' @ enc_string ''applied'' @ '':'' @ Itoa (int n) @ ''}''"

definition apply_success :: "proc \<Rightarrow> string \<Rightarrow> nat \<Rightarrow> int aop" where
  "apply_success P termlog n = do {
     writeTermlog P termlog (appliedJSON n);
     print_out (appliedJSON n);
     State_Monad.return 0
   }"

definition apply_phase_pre :: "proc \<Rightarrow> string \<Rightarrow> PlannedDoc list \<Rightarrow> PlannedDoc list \<Rightarrow> PlannedDoc list \<Rightarrow> int aop" where
  "apply_phase_pre P termlog nsDocs crds pre = do {
     a \<leftarrow> apply_bucket P termlog nsDocs;
     case a of
       None \<Rightarrow> State_Monad.return 1
     | Some n1 \<Rightarrow> do {
         a \<leftarrow> apply_bucket P termlog crds;
         case a of
           None \<Rightarrow> State_Monad.return 1
         | Some n2 \<Rightarrow> do {
             ok \<leftarrow> wait_crds P termlog crds;
             if \<not> ok then State_Monad.return 1
             else do {
               a \<leftarrow> apply_bucket P termlog pre;
               case a of
                 None \<Rightarrow> State_Monad.return 1
               | Some n3 \<Rightarrow> apply_success P termlog (n1 + n2 + n3)
             }
           }
       }
   }"

definition apply_phase_workload :: "proc \<Rightarrow> string \<Rightarrow> PlannedDoc list \<Rightarrow> int aop" where
  "apply_phase_workload P termlog work = do {
     a \<leftarrow> apply_bucket P termlog work;
     case a of None \<Rightarrow> State_Monad.return 1 | Some n \<Rightarrow> apply_success P termlog n
   }"

definition RunApplyManifests :: "apimachinery \<Rightarrow> proc \<Rightarrow> apply_args \<Rightarrow> int aop" where
  "RunApplyManifests A P a =
     (let fl = fail P (aa_termlog a)
      in case p_podNS P of
           Inl err \<Rightarrow> fl 1 (''target namespace: '' @ err)
         | Inr ns \<Rightarrow> do {
             r \<leftarrow> read_file P (aa_file a);
             case r of
               Inl err \<Rightarrow> fl 1 (''read '' @ aa_file a @ '': '' @ err)
             | Inr data \<Rightarrow>
                 (case ParseAPIManifests A data ns of
                    Inl err \<Rightarrow> fl 1 (''parse '' @ aa_file a @ '': '' @ err)
                  | Inr docs \<Rightarrow>
                      (let (nsDocs, crds, pre, work) = BucketDocs A docs (aa_drop a) (aa_keep a)
                       in if aa_phase a = ''pre'' then apply_phase_pre P (aa_termlog a) nsDocs crds pre
                          else if aa_phase a = ''workload'' then apply_phase_workload P (aa_termlog a) work
                          else fl 2 (''unknown phase '' @ Quote (aa_phase a))))
           })"

end
