(* ===== verification/Job_Name.thy ===== *)
theory Job_Name
  imports Kube_Env
begin

text \<open>
  Deterministic Job names (\<open>jobName\<close> in \<open>internal/controller/pbsbackup_controller.go\<close>),
  shared by the backup and the restore controllers: the name is also the pod's host name, so
  it is cut to 63 characters, with a hash of the full name as suffix when it is cut.
\<close>

definition jobName :: "string \<Rightarrow> string \<Rightarrow> string" where
  "jobName backup node =
     (let full = backup @ ''-'' @ node
      in if length full \<le> 63 then full
         else (let suffix = ''-'' @ hex8 (fnv32a full)
               in TrimRight (take (63 - length suffix) full) CHR ''-'' @ suffix))"

definition alnum :: "char \<Rightarrow> bool" where
  "alnum c \<longleftrightarrow> c \<in> set ''abcdefghijklmnopqrstuvwxyz0123456789''"

text \<open>The shape of a DNS-1123 label but for its length, and the label itself.\<close>

definition dns_name :: "string \<Rightarrow> bool" where
  "dns_name s \<longleftrightarrow> s \<noteq> [] \<and> (\<forall>c\<in>set s. alnum c \<or> c = CHR ''-'') \<and> alnum (hd s) \<and> alnum (last s)"

definition dns_label :: "string \<Rightarrow> bool" where
  "dns_label s \<longleftrightarrow> dns_name s \<and> length s \<le> 63"

definition jobName_cut :: "string \<Rightarrow> string" where
  "jobName_cut full = TrimRight (take 54 full) CHR ''-''"

lemma jobName_short: "length (b @ ''-'' @ n) \<le> 63 \<Longrightarrow> jobName b n = b @ ''-'' @ n"
  by (simp add: jobName_def Let_def)

lemma jobName_long:
  "\<not> length (b @ ''-'' @ n) \<le> 63 \<Longrightarrow>
   jobName b n = jobName_cut (b @ ''-'' @ n) @ ''-'' @ hex8 (fnv32a (b @ ''-'' @ n))"
  by (simp add: jobName_def jobName_cut_def Let_def)

lemma length_jobName_cut: "length (jobName_cut s) \<le> 54"
  using length_TrimRight [of "take 54 s" "CHR ''-''"] by (simp add: jobName_cut_def)

lemma TrimRight_hd:
  assumes "s \<noteq> []" "hd s \<noteq> c"
  shows "TrimRight s c \<noteq> [] \<and> hd (TrimRight s c) = hd s"
proof -
  have ne: "TrimRight s c \<noteq> []"
    using assms by (auto simp: TrimRight_def dropWhile_eq_Nil_conv intro: list.set_sel(1))
  obtain k where "TrimRight s c = take k s" using TrimRight_prefix by blast
  with ne show ?thesis by (cases k; cases s) auto
qed

lemma alnum_not_dash: "alnum c \<Longrightarrow> c \<noteq> CHR ''-''"
  by (auto simp: alnum_def)

lemma alnum_hex: "c \<in> set (hex8 w) \<Longrightarrow> alnum c"
proof -
  assume "c \<in> set (hex8 w)"
  then have "c \<in> set ''0123456789abcdef''" using set_hex8 by blast
  then show ?thesis unfolding alnum_def by (simp, elim disjE; simp)
qed

lemma hex8_neq_Nil [simp]: "hex8 w \<noteq> []"
  using length_hex8 [of w] by (metis list.size(3) zero_neq_numeral)

lemma dns_name_append:
  assumes "dns_name a" "dns_name b"
  shows "dns_name (a @ ''-'' @ b)"
  using assms by (auto simp: dns_name_def)

lemma dns_name_cut:
  assumes "dns_name s"
  shows "dns_name (jobName_cut s)"
proof -
  let ?c = "jobName_cut s"
  from assms have s: "s \<noteq> []" "\<forall>c\<in>set s. alnum c \<or> c = CHR ''-''" "alnum (hd s)"
    by (auto simp: dns_name_def)
  then have "?c \<noteq> [] \<and> hd ?c = hd (take 54 s)"
    unfolding jobName_cut_def by (intro TrimRight_hd) (auto simp: alnum_not_dash)
  moreover have "set ?c \<subseteq> set s"
    unfolding jobName_cut_def using TrimRight_subset set_take_subset by (rule order_trans)
  moreover have "?c = [] \<or> last ?c \<noteq> CHR ''-''"
    unfolding jobName_cut_def by (rule TrimRight_last)
  ultimately show ?thesis
    using s by (auto simp: dns_name_def) (meson last_in_set subsetD)
qed

lemma dns_name_suffix: "dns_name a \<Longrightarrow> dns_name (a @ ''-'' @ hex8 w)"
  by (rule dns_name_append) (auto simp: dns_name_def intro!: alnum_hex [of _ w])

lemma length_jobName: "length (jobName b n) \<le> 63"
proof (cases "length (b @ ''-'' @ n) \<le> 63")
  case True
  then show ?thesis by (simp only: jobName_short)
next
  case False
  then show ?thesis
    using length_jobName_cut [of "b @ ''-'' @ n"] unfolding jobName_long [OF False] by simp
qed

text \<open>A Job name always fits a DNS label: at most 63 characters, whatever the lengths of
  the backup's and the node's names.\<close>

theorem jobName_length: "length (jobName b n) \<le> 63"
  by (rule length_jobName)

text \<open>C40: with a backup name and a node name made of lower-case letters, digits and inner
  dashes, the Job name is a DNS-1123 label: no cut leaves a leading or trailing dash, and the
  hash suffix keeps it a label.\<close>

theorem jobName_label:
  assumes "dns_name b" "dns_name n"
  shows "dns_label (jobName b n)"
proof (cases "length (b @ ''-'' @ n) \<le> 63")
  case True
  then show ?thesis
    using dns_name_append [OF assms] by (simp only: jobName_short dns_label_def)
next
  case False
  have "dns_name (jobName b n)"
    unfolding jobName_long [OF False]
    by (intro dns_name_suffix dns_name_cut dns_name_append assms)
  then show ?thesis by (simp add: dns_label_def length_jobName)
qed

lemma jobName_label_witness: "dns_label (jobName ''nightly'' ''node-1'')"
  by (rule jobName_label) (simp_all add: dns_name_def alnum_def)

text \<open>Two nodes of one backup share a Job name only through a cut: never when both full names
  fit, and when both are cut only if their hashes collide.\<close>

lemma jobName_inj:
  assumes "jobName b n = jobName b m" "n \<noteq> m"
  shows "63 < length (b @ ''-'' @ n) \<or> 63 < length (b @ ''-'' @ m)"
  using assms jobName_short [of b n] jobName_short [of b m] by (metis append_same_eq linorder_not_le same_append_eq)

lemma jobName_hash_collision:
  assumes "jobName b n = jobName b m" "63 < length (b @ ''-'' @ n)" "63 < length (b @ ''-'' @ m)"
  shows "hex8 (fnv32a (b @ ''-'' @ n)) = hex8 (fnv32a (b @ ''-'' @ m))"
  using assms by (simp add: jobName_long)

text \<open>The dash that joins the two names does not separate them: the names of two backups can give
  one Job name for two nodes.\<close>

lemma jobName_ambiguous: "jobName (a @ ''-'' @ b) n = jobName a (b @ ''-'' @ n)"
  by (simp add: jobName_def)

text \<open>Only the length is enforced: a node name with a dot gives a name that is not a label.\<close>

lemma jobName_dot: "\<not> dns_label (jobName ''nightly'' ''node.example'')"
  by (simp add: jobName_def dns_label_def dns_name_def alnum_def)

end
