(* ===== verification/Placement.thy ===== *)
theory Placement
  imports Kube_Env
begin

text \<open>
  PVC placement (\<open>internal/backup/placement.go\<close>): the node whose disk holds a volume, from
  the PV's \<open>kubernetes.io/hostname\<close> affinity or from a scheduled pod that mounts the claim.
\<close>

definition hostname_req :: "node_requirement \<Rightarrow> bool" where
  "hostname_req r \<longleftrightarrow> nr_key r = hostnameKey \<and> nr_operator r = OpIn \<and> length (nr_values r) > 0"

fun node_of_reqs :: "node_requirement list \<Rightarrow> string option" where
  "node_of_reqs [] = None"
| "node_of_reqs (r # rs) = (if hostname_req r then Some (nr_values r ! 0) else node_of_reqs rs)"

fun node_of_terms :: "node_term list \<Rightarrow> string option" where
  "node_of_terms [] = None"
| "node_of_terms (t # ts) =
     (case node_of_reqs (matchExprs t) of Some n \<Rightarrow> Some n
      | None \<Rightarrow> (case node_of_reqs (matchFields t) of Some n \<Rightarrow> Some n | None \<Rightarrow> node_of_terms ts))"

text \<open>An absent PV, affinity or required selector gives no match.\<close>

definition nodeFromAffinity :: "persistent_volume option \<Rightarrow> string option" where
  "nodeFromAffinity pv =
     (case pv of None \<Rightarrow> None
      | Some v \<Rightarrow> (case pv_affinity v of None \<Rightarrow> None | Some terms \<Rightarrow> node_of_terms terms))"

fun mounts_claim :: "string \<Rightarrow> volume list \<Rightarrow> bool" where
  "mounts_claim claim [] = False"
| "mounts_claim claim (v # vs) =
     ((case v_source v of PVCSource c ro \<Rightarrow> c = claim | _ \<Rightarrow> False) \<or> mounts_claim claim vs)"

fun node_of_pods :: "string \<Rightarrow> pod list \<Rightarrow> string option" where
  "node_of_pods claim [] = None"
| "node_of_pods claim (p # ps) =
     (if mounts_claim claim (ps_volumes (pod_spec p)) \<and> ps_nodeName (pod_spec p) \<noteq> ''''
      then Some (ps_nodeName (pod_spec p)) else node_of_pods claim ps)"

definition unplaceable_msg :: "pvc \<Rightarrow> string" where
  "unplaceable_msg c = ''backup: cannot resolve node for PVC '' @ om_namespace (pvc_meta c) @ ''/'' @
     pvc_name c @ '': PV has no kubernetes.io/hostname node affinity and no scheduled pod mounts it''"

definition ResolveNode :: "pvc \<Rightarrow> persistent_volume option \<Rightarrow> pod list \<Rightarrow> string + string" where
  "ResolveNode c pv pods =
     (case nodeFromAffinity pv of Some n \<Rightarrow> Inr n
      | None \<Rightarrow> (case node_of_pods (pvc_name c) pods of Some n \<Rightarrow> Inr n
                 | None \<Rightarrow> Inl (unplaceable_msg c)))"

section \<open>What placement promises\<close>

text \<open>The requirements of an affinity in the order the loops visit them.\<close>

definition affinity_reqs :: "node_term list \<Rightarrow> node_requirement list" where
  "affinity_reqs terms = concat (map (\<lambda>t. matchExprs t @ matchFields t) terms)"

definition pod_holds :: "string \<Rightarrow> pod \<Rightarrow> bool" where
  "pod_holds claim p \<longleftrightarrow>
     (\<exists>v\<in>set (ps_volumes (pod_spec p)). \<exists>ro. v_source v = PVCSource claim ro) \<and>
     ps_nodeName (pod_spec p) \<noteq> ''''"

lemma node_of_reqs_append:
  "node_of_reqs (xs @ ys) = (case node_of_reqs xs of Some n \<Rightarrow> Some n | None \<Rightarrow> node_of_reqs ys)"
  by (induction xs) auto

lemma node_of_terms_reqs: "node_of_terms ts = node_of_reqs (affinity_reqs ts)"
  by (induction ts) (auto simp: affinity_reqs_def node_of_reqs_append split: option.splits)

lemma node_of_reqs_find: "node_of_reqs rs = map_option (\<lambda>r. nr_values r ! 0) (List.find hostname_req rs)"
  by (induction rs) auto

lemma mounts_claim_iff: "mounts_claim claim vs \<longleftrightarrow> (\<exists>v\<in>set vs. \<exists>ro. v_source v = PVCSource claim ro)"
  by (induction vs) (auto split: volume_source.splits)

lemma node_of_pods_find:
  "node_of_pods claim ps = map_option (\<lambda>p. ps_nodeName (pod_spec p)) (List.find (pod_holds claim) ps)"
  by (induction ps) (auto simp: pod_holds_def mounts_claim_iff)

text \<open>The specification the loops refine: the first hostname requirement wins, then the first
  scheduled pod that mounts the claim, else the error that names the PVC.\<close>

definition resolve_spec :: "pvc \<Rightarrow> persistent_volume option \<Rightarrow> pod list \<Rightarrow> string + string" where
  "resolve_spec c pv pods =
     (case List.find hostname_req (affinity_reqs (case pv of None \<Rightarrow> [] | Some v \<Rightarrow>
             (case pv_affinity v of None \<Rightarrow> [] | Some ts \<Rightarrow> ts))) of
        Some r \<Rightarrow> Inr (nr_values r ! 0)
      | None \<Rightarrow> (case List.find (pod_holds (pvc_name c)) pods of
                   Some p \<Rightarrow> Inr (ps_nodeName (pod_spec p)) | None \<Rightarrow> Inl (unplaceable_msg c)))"

lemma nodeFromAffinity_find:
  "nodeFromAffinity pv = map_option (\<lambda>r. nr_values r ! 0)
     (List.find hostname_req (affinity_reqs (case pv of None \<Rightarrow> [] | Some v \<Rightarrow>
        (case pv_affinity v of None \<Rightarrow> [] | Some ts \<Rightarrow> ts))))"
  by (auto simp: nodeFromAffinity_def node_of_terms_reqs node_of_reqs_find affinity_reqs_def
      split: option.splits)

text \<open>\<open>ResolveNode\<close> is first-match over the PV's hostname requirements (match expressions
  before match fields, term by term), then over the scheduled pods mounting the claim; the only
  failure is the one where neither exists, and its message names namespace and PVC.\<close>

theorem ResolveNode_refines: "ResolveNode c pv pods = resolve_spec c pv pods"
  by (simp add: ResolveNode_def resolve_spec_def nodeFromAffinity_find node_of_pods_find
      split: option.split)

end
