(* ===== verification/Sample_World.thy ===== *)
theory Sample_World
  imports Kube_Env
begin

text \<open>
  A concrete world, the base of the examples that show the hypotheses of the properties can
  hold: an empty cluster whose writes succeed, with conditions kept as the documented behaviour
  of \<open>meta.SetStatusCondition\<close> asks.  The examples update the answers they need.
\<close>

text \<open>Replacing the condition of a type, unless it already has the content.\<close>

fun set_condition :: "condition list \<Rightarrow> condition \<Rightarrow> condition list \<times> bool" where
  "set_condition [] c = ([c], True)"
| "set_condition (d # ds) c =
     (if cond_type d = cond_type c
      then (if same_content d c then (d # ds, False) else (c # ds, True))
      else (let (ds', b) = set_condition ds c in (d # ds', b)))"

definition condition_true :: "condition list \<Rightarrow> string \<Rightarrow> bool" where
  "condition_true cs t = (case List.find (\<lambda>c. cond_type c = t) cs of
     None \<Rightarrow> False | Some c \<Rightarrow> cond_status c = CondTrue)"

definition empty_world :: kube where
  "empty_world = \<lparr>
     k_now = (\<lambda>l. int (length l) * second), k_backup = (\<lambda>_ _ _. Inl NotFound), k_repo = (\<lambda>_ _. Inl NotFound),
     k_schedule = (\<lambda>_ _ _. Inl NotFound), k_restore = (\<lambda>_ _ _. Inl NotFound),
     k_secret = (\<lambda>_ _ _. Inl NotFound), k_configMap = (\<lambda>_ _ _. Inl NotFound),
     k_pvc = (\<lambda>_ _ _. Inl NotFound), k_pv = (\<lambda>_ _. Inl NotFound), k_job = (\<lambda>_ _ _. Inl NotFound),
     k_namespace = (\<lambda>_ _. Inl NotFound), k_serviceAccount = (\<lambda>_ _ _. Inl NotFound),
     k_roleBinding = (\<lambda>_ _ _. Inl NotFound), k_clusterRoleBinding = (\<lambda>_ _. Inl NotFound),
     k_pvcs = (\<lambda>_ _ _. Inr []), k_pods = (\<lambda>_ _ _. Inr []), k_nodes = (\<lambda>_. Inr []),
     k_jobs = (\<lambda>_ _ _. Inr []), k_backups = (\<lambda>_ _ _. Inr []), k_write = (\<lambda>_ _. None),
     k_exec = (\<lambda>_ _ _ _ _ _. None), k_http = (\<lambda>_ _. TransportError ''connection refused''),
     k_discover = (\<lambda>_. ([], None)), k_resources = (\<lambda>_ _ _ _ _. Inr []),
     k_setCondition = (\<lambda>_. set_condition), k_conditionTrue = condition_true,
     k_setOwner = (\<lambda>kind o1 o2. Inr [\<lparr>or_kind = kind, or_name = om_name o1, or_uid = om_uid o1, or_controller = True\<rparr>]),
     k_selector = Inr, k_jsonError = (\<lambda>_. ''invalid character''), k_podNamespace = ''pbs-system''\<rparr>"

lemma same_content_refl [simp]: "same_content c c"
  by (simp add: same_content_def)

lemma same_content_type: "same_content c d \<Longrightarrow> cond_type c = cond_type d"
  by (simp add: same_content_def)

lemma same_content_sym: "same_content c d \<Longrightarrow> same_content d c"
  by (simp add: same_content_def)

lemma same_content_trans: "same_content c d \<Longrightarrow> same_content d e \<Longrightarrow> same_content c e"
  by (simp add: same_content_def)

lemma set_condition_again:
  "same_content c d \<Longrightarrow> set_condition (fst (set_condition cs c)) d = (fst (set_condition cs c), False)"
  by (induction cs c rule: set_condition.induct)
    (auto simp: case_prod_unfold Let_def same_content_type dest: same_content_trans)

lemma condition_true_set:
  "condition_true (fst (set_condition cs c)) (cond_type c) \<longleftrightarrow> cond_status c = CondTrue"
  by (induction cs c rule: set_condition.induct)
    (auto simp: condition_true_def same_content_def case_prod_unfold Let_def)

text \<open>The documented behaviour of the condition library is consistent: this world has it.\<close>

lemma empty_world_conditions: "condition_laws empty_world"
  by (simp add: condition_laws_def empty_world_def condition_true_set set_condition_again)

end
