(* ===== verification/Controller_Common.thy ===== *)
theory Controller_Common
  imports Job_Name Placement Job_Builder Sample_World
begin

text \<open>
  What the controllers share: cadences and reasons, the operator's namespace, the contract keys
  of the credentials secret and their copy, the first node, and the state of a Job
  (\<open>pbsbackup_controller.go\<close>, \<open>pbsrepo_controller.go\<close>).
\<close>

section \<open>Constants\<close>

definition requeueWait :: int where "requeueWait = minute"
definition requeueWaitSlow :: int where "requeueWaitSlow = 5 * minute"

definition reasonRepoNotReady :: string where "reasonRepoNotReady = ''RepoNotReady''"
definition reasonNoPVCs :: string where "reasonNoPVCs = ''NoPVCsSelected''"
definition reasonUnplaceable :: string where "reasonUnplaceable = ''PlacementFailed''"
definition reasonSecretCopy :: string where "reasonSecretCopy = ''SecretCopyFailed''"
definition reasonHookInvalid :: string where "reasonHookInvalid = ''HookInvalid''"
definition reasonHookFailed :: string where "reasonHookFailed = ''HookFailed''"
definition reasonJobDeleted :: string where "reasonJobDeleted = ''JobDeleted''"
definition reasonBadResult :: string where "reasonBadResult = ''ResultUnreadable''"
definition reasonRunning :: string where "reasonRunning = ''Running''"
definition reasonCompleted :: string where "reasonCompleted = ''Completed''"
definition reasonFailed :: string where "reasonFailed = ''Failed''"

definition agentImage :: "string \<Rightarrow> string" where
  "agentImage img = (if img = '''' then ''pbs-agent:dev'' else img)"

definition operatorNamespace :: "kube \<Rightarrow> string" where
  "operatorNamespace K = (if k_podNamespace K \<noteq> '''' then k_podNamespace K else ''pbs-operator-system'')"

text \<open>A condition before the library stamps its transition time.\<close>

definition new_condition :: "cond_status \<Rightarrow> string \<Rightarrow> string \<Rightarrow> condition" where
  "new_condition st reason message = \<lparr>cond_type = condReady, cond_status = st, cond_reason = reason,
     cond_message = message, cond_generation = 0, cond_transition = zero_time\<rparr>"

text \<open>A stored time has whole seconds (the JSON form of \<open>metav1.Time\<close>).\<close>

definition stored_time :: "time option \<Rightarrow> time option" where
  "stored_time t = map_option (\<lambda>x. x - x mod second) t"

section \<open>The credentials contract\<close>

definition repoSecretKeys :: "string list" where
  "repoSecretKeys = [''host'', ''port'', ''datastore'', ''namespace'',
     ''tokenID'', ''tokenSecret'', ''fingerprint'', ''keyfile'']"

definition contract_data :: "(string \<rightharpoonup> string) \<Rightarrow> string \<rightharpoonup> string" where
  "contract_data src = (\<lambda>k. if k \<in> set repoSecretKeys then src k else None)"

text \<open>\<open>bytes.Equal\<close> does not tell an absent key from an empty value.\<close>

definition contractEqual :: "(string \<rightharpoonup> string) \<Rightarrow> (string \<rightharpoonup> string) \<Rightarrow> bool" where
  "contractEqual a b = list_all (\<lambda>k. label a k = label b k) repoSecretKeys"

definition copy_secret :: "string \<Rightarrow> string \<Rightarrow> (string \<rightharpoonup> string) \<Rightarrow> secret" where
  "copy_secret name ns data = \<lparr>sec_meta = new_meta name ns [ManagedLabel \<mapsto> ''true''], sec_data = data\<rparr>"

section \<open>Nodes and Jobs\<close>

definition first_name :: "string list \<Rightarrow> string" where
  "first_name names = (if length names = 0 then '''' else sort names ! 0)"

definition firstNode :: "kube \<Rightarrow> (gerr + string) kop" where
  "firstNode K = bindE (list_nodes K) (\<lambda>names. State_Monad.return (Inr (first_name names)))"

definition jobCondition :: "job \<Rightarrow> job_condition_type \<Rightarrow> bool" where
  "jobCondition j c = list_ex (\<lambda>(t, s). t = c \<and> s = CondTrue) (job_conditions j)"

definition jobState :: "job \<Rightarrow> string" where
  "jobState j = (if jobCondition j JobFailed then ''failed''
     else if jobCondition j JobComplete then ''complete'' else ''active'')"

text \<open>A created object: the reconciler's error handling of a lost create race.\<close>

definition create_ok :: "gerr option \<Rightarrow> bool" where
  "create_ok e \<longleftrightarrow> e = None \<or> e = Some AlreadyExists"

text \<open>\<open>ctrl.SetControllerReference(owner, object)\<close> as an update of the object's metadata.\<close>

definition set_owner :: "kube \<Rightarrow> string \<Rightarrow> object_meta \<Rightarrow> object_meta \<Rightarrow> gerr + object_meta" where
  "set_owner K kind owner m =
     (case k_setOwner K kind owner m of Inl e \<Rightarrow> Inl e | Inr refs \<Rightarrow> Inr (m\<lparr>om_owners := refs\<rparr>))"

lemma set_owner_fields:
  "set_owner K kind owner m = Inr m' \<Longrightarrow> om_name m' = om_name m \<and> om_namespace m' = om_namespace m \<and>
     om_labels m' = om_labels m \<and> om_annotations m' = om_annotations m"
  by (auto simp: set_owner_def split: sum.splits)

lemma contract_data_keys: "dom (contract_data src) \<subseteq> set repoSecretKeys"
  by (auto simp: contract_data_def split: if_splits)

lemma contract_data_label: "k \<in> set repoSecretKeys \<Longrightarrow> label (contract_data src) k = label src k"
  by (simp add: contract_data_def label_def)

text \<open>A copy of the credentials: contract keys only, marked as the operator's own.\<close>

definition contract_copy :: "string \<Rightarrow> secret \<Rightarrow> bool" where
  "contract_copy ns s \<longleftrightarrow> dom (sec_data s) \<subseteq> set repoSecretKeys \<and>
     om_labels (sec_meta s) ManagedLabel = Some ''true''"

lemma copy_secret_contract:
  "set_owner K kind o1 (sec_meta (copy_secret name ns (contract_data d))) = Inr m \<Longrightarrow>
   contract_copy ns ((copy_secret name ns (contract_data d))\<lparr>sec_meta := m\<rparr>) \<and> om_namespace m = ns"
  using set_owner_fields [of K kind o1 _ m] contract_data_keys [of d]
  by (auto simp: contract_copy_def copy_secret_def)

lemma copied_in_place:
  "contract_copy ns (s\<lparr>sec_data := contract_data d, sec_meta := (sec_meta s)\<lparr>om_labels := (om_labels (sec_meta s))(ManagedLabel \<mapsto> ''true'')\<rparr>\<rparr>)"
  using contract_data_keys [of d] by (simp add: contract_copy_def)

lemma env_contract_keys: "map snd envContract = repoSecretKeys"
  by (simp add: envContract_def repoSecretKeys_def)

lemma first_name_least:
  assumes "n \<in> set names"
  shows "first_name names \<in> set names \<and> first_name names \<le> n"
proof -
  have "sort names \<noteq> []" using assms by (metis empty_iff list.set(1) set_sort)
  then have "first_name names = hd (sort names)"
    using assms by (auto simp: first_name_def hd_conv_nth)
  then show ?thesis using hd_sort_least [OF assms] by simp
qed

lemma firstNode_gives:
  "gives (\<lambda>x n. n = [Read ListNodes] \<and> (\<forall>v. x = Inr v \<longrightarrow> (\<exists>names. v = first_name names))) (firstNode K)"
  unfolding firstNode_def list_nodes_def by (auto intro!: gives_rules)

end
