(* ===== verification/Restore_Controller.thy ===== *)
theory Restore_Controller
  imports Controller_Common Restore_Plan
begin

text \<open>
  The PBSRestore reconciler (\<open>internal/controller/pbsrestore_controller.go\<close>): the gates, the
  target namespace, the copy of the credentials, the RBAC objects of the restore Jobs, the
  pipeline fetch, pre apply, volume Jobs node by node, workload apply, and the way to a terminal
  phase.  Each Go method is an operation of the same name.  The error that carries a problem
  (\<open>restoreHold\<close>) is a constructor of the pipeline's error type; the Job an \<open>ensure\<close> call
  returns beside its verdict is read by nobody and left out.
\<close>

section \<open>Constants\<close>

definition restoreSA :: string where "restoreSA = ''pbs-restore''"
definition restoreRoleName :: string where "restoreRoleName = ''pbs-operator-pbs-restore''"
definition restoreClusterRoleName :: string where
  "restoreClusterRoleName = ''pbs-operator-pbs-restore-cluster''"

definition reasonRestoreInvalid :: string where "reasonRestoreInvalid = ''InvalidSpec''"
definition reasonStagingAbsent :: string where "reasonStagingAbsent = ''ApiManifestMissing''"

section \<open>The status\<close>

text \<open>What the pipeline's steps fail with: a problem to show, or an API error.\<close>

datatype restore_error = Hold (hold_reason: string) (hold_msg: string) | ApiErr gerr

definition knownJob :: "PBSRestore \<Rightarrow> string \<Rightarrow> bool" where
  "knownJob rs name = list_ex (\<lambda>js. rj_job js = name) (rst_jobs (r_status rs))"

definition recordedJobState :: "PBSRestore \<Rightarrow> string \<Rightarrow> string" where
  "recordedJobState rs name =
     (case List.find (\<lambda>js. rj_job js = name) (rst_jobs (r_status rs)) of
        None \<Rightarrow> '''' | Some js \<Rightarrow> rj_state js)"

definition jobPhaseByName :: "PBSRestore \<Rightarrow> string \<Rightarrow> restore_phase" where
  "jobPhaseByName rs name =
     (let base = TrimPrefix name (r_name rs @ ''-'')
      in if HasPrefix base ''vol-'' then RestorePhaseRestoringVolumes
         else if base = ''api-workload'' then RestorePhaseApplyingWorkloads
         else RestorePhaseStagingAPI)"

text \<open>The live Jobs and the recorded ones that are gone, by Job name.\<close>

definition live_entry :: "PBSRestore \<Rightarrow> job \<Rightarrow> RestoreJobStatus" where
  "live_entry rs j = \<lparr>rj_phase = jobPhaseByName rs (job_name j), rj_job = job_name j, rj_state = jobState j\<rparr>"

definition merge_jobs :: "PBSRestore \<Rightarrow> job list \<Rightarrow> RestoreJobStatus list" where
  "merge_jobs rs items =
     (let live = set (map job_name items)
      in sort_key rj_job (map (live_entry rs) items @
           filter (\<lambda>js. rj_job js \<notin> live) (rst_jobs (r_status rs))))"

text \<open>\<open>None\<close>: the list failed and the last snapshot is kept.\<close>

definition liveJobs :: "kube \<Rightarrow> PBSRestore \<Rightarrow> (RestoreJobStatus list option) kop" where
  "liveJobs K rs = do {
     r \<leftarrow> list_jobs K (r_target rs) (''pbsrestore'', r_name rs);
     case r of Inl e \<Rightarrow> State_Monad.return None | Inr items \<Rightarrow> State_Monad.return (Some (merge_jobs rs items))
   }"

text \<open>Recording: the status and, when \<open>Jobs\<close> was assigned, the new value.  An assigned empty
  list differs from the absent one the API server returned, so it also makes a patch.\<close>

type_synonym restore_update = "PBSRestoreStatus \<times> RestoreJobStatus list option"

definition set_jobs :: "PBSRestoreStatus \<Rightarrow> RestoreJobStatus list option \<Rightarrow> PBSRestoreStatus" where
  "set_jobs s js = (case js of None \<Rightarrow> s | Some v \<Rightarrow> s\<lparr>rst_jobs := v\<rparr>)"

definition recordRestore :: "kube \<Rightarrow> PBSRestore \<Rightarrow> restore_phase \<Rightarrow> condition \<Rightarrow>
    (PBSRestoreStatus \<Rightarrow> restore_update kop) \<Rightarrow> (gerr + bool) kop" where
  "recordRestore K rs phase cond extra = do {
     (conds, transitioned) \<leftarrow> observe (\<lambda>l. k_setCondition K l (rst_conditions (r_status rs))
        (cond\<lparr>cond_generation := om_generation (r_meta rs)\<rparr>));
     (s, js) \<leftarrow> extra ((r_status rs)\<lparr>rst_conditions := conds, rst_phase := phase\<rparr>);
     if set_jobs s js = r_status rs \<and> js \<noteq> Some [] then State_Monad.return (Inr transitioned)
     else skipE (do_write K (PatchRestoreStatus (r_ns rs) (r_name rs) (set_jobs s js)))
       (State_Monad.return (Inr transitioned))
   }"

definition notifyRestore :: "PBSRestore \<Rightarrow> bool \<Rightarrow> event_type \<Rightarrow> string \<Rightarrow> string \<Rightarrow> unit kop" where
  "notifyRestore rs transitioned ty reason note =
     (if transitioned then emit (Event ''PBSRestore'' (r_name rs) ty reason '''' note) else State_Monad.return ())"

definition holdPhase :: "restore_phase \<Rightarrow> restore_phase" where
  "holdPhase current = (if current = RestorePhaseNew then RestorePhaseStagingAPI else current)"

definition holdRestore :: "kube \<Rightarrow> PBSRestore \<Rightarrow> string \<Rightarrow> string \<Rightarrow> int \<Rightarrow> outcome kop" where
  "holdRestore K rs reason message wait =
     bindE (recordRestore K rs (holdPhase (rst_phase (r_status rs))) (new_condition CondFalse reason message)
        (\<lambda>s. State_Monad.return (s, None)))
     (\<lambda>transitioned. do {
        notifyRestore rs transitioned EventWarning reason message;
        State_Monad.return (Inr (RequeueAfter wait))
      })"

text \<open>The end of a restore: the Jobs as they are, \<open>CompletedAt\<close> set once.\<close>

definition end_status :: "kube \<Rightarrow> PBSRestore \<Rightarrow> PBSRestoreStatus \<Rightarrow> restore_update kop" where
  "end_status K rs s = do {
     js \<leftarrow> liveJobs K rs;
     case rst_completedAt s of
       Some t \<Rightarrow> State_Monad.return (s, js)
     | None \<Rightarrow> do { now \<leftarrow> read_clock K; State_Monad.return (s\<lparr>rst_completedAt := Some now\<rparr>, js) }
   }"

definition completeRestore :: "kube \<Rightarrow> PBSRestore \<Rightarrow> outcome kop" where
  "completeRestore K rs =
     (let message = ''restore of '' @ rs_snapshotRef (r_spec rs) @ '' into '' @ r_target rs @ '' completed''
      in bindE (recordRestore K rs RestorePhaseCompleted (new_condition CondTrue reasonCompleted message)
           (end_status K rs))
         (\<lambda>transitioned. do {
            notifyRestore rs transitioned EventNormal reasonCompleted message;
            State_Monad.return (Inr NoRequeue)
          }))"

definition failRestore :: "kube \<Rightarrow> PBSRestore \<Rightarrow> string \<Rightarrow> string \<Rightarrow> outcome kop" where
  "failRestore K rs reason message =
     bindE (recordRestore K rs RestorePhaseFailed (new_condition CondFalse reason message) (end_status K rs))
     (\<lambda>transitioned. do {
        notifyRestore rs transitioned EventWarning reason message;
        State_Monad.return (Inr NoRequeue)
      })"

text \<open>A step of the pipeline that is still under way: \<open>StartedAt\<close> set once, Jobs refreshed.\<close>

definition progress_status :: "kube \<Rightarrow> PBSRestore \<Rightarrow> PBSRestoreStatus \<Rightarrow> restore_update kop" where
  "progress_status K rs s = (case rst_startedAt s of
     Some t \<Rightarrow> do { js \<leftarrow> liveJobs K rs; State_Monad.return (s, js) }
   | None \<Rightarrow> do {
       now \<leftarrow> read_clock K;
       js \<leftarrow> liveJobs K rs;
       State_Monad.return (s\<lparr>rst_startedAt := Some now\<rparr>, js)
     })"

fun phase_name :: "restore_phase \<Rightarrow> string" where
  "phase_name RestorePhaseUnset = ''''"
| "phase_name RestorePhaseNew = ''New''"
| "phase_name RestorePhaseStagingAPI = ''StagingAPI''"
| "phase_name RestorePhaseRestoringVolumes = ''RestoringVolumes''"
| "phase_name RestorePhaseApplyingWorkloads = ''ApplyingWorkloads''"
| "phase_name RestorePhaseCompleted = ''Completed''"
| "phase_name RestorePhaseFailed = ''Failed''"

definition requeueOrHold :: "kube \<Rightarrow> PBSRestore \<Rightarrow> restore_phase \<Rightarrow> restore_error option \<Rightarrow> outcome kop" where
  "requeueOrHold K rs phase err =
     (case err of
        Some (Hold reason msg) \<Rightarrow>
          if reason = reasonFailed then failRestore K rs reason msg
          else holdRestore K rs reason msg requeueWait
      | Some (ApiErr e) \<Rightarrow> State_Monad.return (Inl e)
      | None \<Rightarrow>
          bindE (recordRestore K rs phase
              (new_condition CondFalse reasonRunning (''restore in phase '' @ phase_name phase))
              (progress_status K rs))
            (\<lambda>_. State_Monad.return (Inr (RequeueAfter requeueWait))))"

section \<open>The gates\<close>

definition validateSpec :: "PBSRestore \<Rightarrow> string" where
  "validateSpec rs =
     (if rs_repoRef (r_spec rs) = '''' then ''repoRef is required''
      else if rs_snapshotRef (r_spec rs) = '''' then ''snapshotRef is required''
      else if r_target rs = '''' then ''targetNamespace is required''
      else if length (Split (CHR ''/'') (rs_snapshotRef (r_spec rs))) \<noteq> 3
      then ''snapshotRef '' @ rs_snapshotRef (r_spec rs) @ '' is malformed, want <type>/<id>/<ISO8601Z>''
      else '''')"

text \<open>A created object whose create race is lost is there as well.\<close>

definition create_missing :: "kube \<Rightarrow> kwrite \<Rightarrow> (gerr + unit) kop" where
  "create_missing K w = do {
     err \<leftarrow> do_write K w;
     if \<not> create_ok err then State_Monad.return (Inl (the err)) else State_Monad.return (Inr ())
   }"

definition ensureTargetNamespace :: "kube \<Rightarrow> PBSRestore \<Rightarrow> (gerr + string) kop" where
  "ensureTargetNamespace K rs = do {
     got \<leftarrow> get_namespace K (r_target rs);
     case got of
       Inr m \<Rightarrow>
         if om_deletion m \<noteq> None
         then State_Monad.return (Inr (''target namespace '' @ om_name m @ '' is terminating''))
         else State_Monad.return (Inr '''')
     | Inl e \<Rightarrow>
         if e = NotFound
         then bindE (create_missing K (CreateNamespace (r_target rs))) (\<lambda>_. State_Monad.return (Inr ''''))
         else State_Monad.return (Inl e)
   }"

definition ensureTargetRepoSecret :: "kube \<Rightarrow> PBSRestore \<Rightarrow> PBSRepo \<Rightarrow> (gerr + string + string) kop" where
  "ensureTargetRepoSecret K rs repo =
     (let ref = rp_secretRef (repo_spec repo);
          srcNS = (if ref_namespace ref = '''' then operatorNamespace K else ref_namespace ref)
      in do {
        got \<leftarrow> get_secret K srcNS (ref_name ref);
        case got of
          Inl e \<Rightarrow>
            if e = NotFound
            then State_Monad.return (Inr (Inl (''repo secret '' @ srcNS @ ''/'' @ ref_name ref @ '' not found'')))
            else State_Monad.return (Inl e)
        | Inr src \<Rightarrow>
            (let data = contract_data (sec_data src); name = ''pbsrepo-'' @ om_name (repo_meta repo)
             in do {
               old \<leftarrow> get_secret K (r_target rs) name;
               case old of
                 Inr existing \<Rightarrow>
                   if contractEqual (sec_data existing) data \<and>
                      label (om_labels (sec_meta existing)) ManagedLabel \<noteq> ''''
                   then State_Monad.return (Inr (Inr name))
                   else skipE (do_write K (UpdateSecret (existing\<lparr>sec_data := data,
                           sec_meta := (sec_meta existing)\<lparr>om_labels := (om_labels (sec_meta existing))(ManagedLabel \<mapsto> ''true'')\<rparr>\<rparr>)))
                        (State_Monad.return (Inr (Inr name)))
               | Inl e \<Rightarrow>
                   if e = NotFound
                   then bindE (create_missing K (CreateSecret (copy_secret name (r_target rs) data)))
                     (\<lambda>_. State_Monad.return (Inr (Inr name)))
                   else State_Monad.return (Inl e)
             })
      })"

subsection \<open>RBAC\<close>

definition rbacLabels :: "string \<Rightarrow> string \<rightharpoonup> string" where
  "rbacLabels restore = [ManagedLabel \<mapsto> ''true'', ''pbsrestore'' \<mapsto> restore]"

definition restore_serviceAccount :: "PBSRestore \<Rightarrow> object_meta" where
  "restore_serviceAccount rs = new_meta restoreSA (r_target rs) (rbacLabels (r_name rs))"

definition restore_roleBinding :: "PBSRestore \<Rightarrow> role_binding" where
  "restore_roleBinding rs = \<lparr>rb_meta = new_meta restoreSA (r_target rs) (rbacLabels (r_name rs)),
     rb_subject = (r_target rs, restoreSA), rb_role = restoreRoleName\<rparr>"

definition restore_clusterRoleBinding :: "PBSRestore \<Rightarrow> role_binding" where
  "restore_clusterRoleBinding rs =
     \<lparr>rb_meta = new_meta (''pbs-restore-'' @ r_target rs) '''' (rbacLabels (r_name rs)),
      rb_subject = (r_target rs, restoreSA), rb_role = restoreClusterRoleName\<rparr>"

text \<open>Get, create when missing, fail on any other error.\<close>

definition ensure_object :: "kube \<Rightarrow> (gerr + 'a) kop \<Rightarrow> kwrite \<Rightarrow> (gerr + unit) kop" where
  "ensure_object K get w = do {
     got \<leftarrow> get;
     case got of
       Inr _ \<Rightarrow> State_Monad.return (Inr ())
     | Inl e \<Rightarrow> if e = NotFound then create_missing K w else State_Monad.return (Inl e)
   }"

definition ensureJobRBAC :: "kube \<Rightarrow> PBSRestore \<Rightarrow> (gerr + unit) kop" where
  "ensureJobRBAC K rs =
     bindE (ensure_object K (get_serviceAccount K (r_target rs) restoreSA)
              (CreateServiceAccount (restore_serviceAccount rs))) (\<lambda>_.
     bindE (ensure_object K (get_roleBinding K (r_target rs) restoreSA)
              (CreateRoleBinding (restore_roleBinding rs))) (\<lambda>_.
     ensure_object K (get_clusterRoleBinding K (''pbs-restore-'' @ r_target rs))
              (CreateClusterRoleBinding (restore_clusterRoleBinding rs))))"

section \<open>The pipeline\<close>

text \<open>The built Job under the controller's name, owned when its namespace is the restore's.\<close>

definition owned_job :: "kube \<Rightarrow> PBSRestore \<Rightarrow> string \<Rightarrow> job \<Rightarrow> gerr + job" where
  "owned_job K rs name build =
     (let j = build\<lparr>job_meta := (job_meta build)\<lparr>om_name := name\<rparr>\<rparr>
      in if om_namespace (job_meta j) = r_ns rs
         then (case set_owner K ''PBSRestore'' (r_meta rs) (job_meta j) of
                 Inl e \<Rightarrow> Inl e | Inr m \<Rightarrow> Inr (j\<lparr>job_meta := m\<rparr>))
         else Inr j)"

definition ensureJob :: "kube \<Rightarrow> PBSRestore \<Rightarrow> string \<Rightarrow> job \<Rightarrow> (restore_error + bool) kop" where
  "ensureJob K rs name build = do {
     got \<leftarrow> get_job K (r_target rs) name;
     case got of
       Inr j \<Rightarrow>
         if jobCondition j JobFailed
         then State_Monad.return (Inl (Hold reasonFailed (''job '' @ name @ '' failed'')))
         else State_Monad.return (Inr (jobCondition j JobComplete))
     | Inl e \<Rightarrow>
         if e = NotFound then
           (if knownJob rs name then
              (if recordedJobState rs name = ''complete'' then State_Monad.return (Inr True)
               else State_Monad.return (Inl (Hold reasonJobDeleted
                 (''job '' @ name @ '' was deleted before the restore finished; not recreating it''))))
            else (case owned_job K rs name build of
                Inl e' \<Rightarrow> State_Monad.return (Inl (ApiErr e'))
              | Inr j \<Rightarrow> do {
                  err \<leftarrow> do_write K (CreateJob j);
                  if \<not> create_ok err then State_Monad.return (Inl (ApiErr (the err)))
                  else State_Monad.return (Inr False)
                }))
         else State_Monad.return (Inl (ApiErr e))
   }"

text \<open>A step of the pipeline: while it is not done the phase is recorded, then the rest.\<close>

definition await :: "kube \<Rightarrow> PBSRestore \<Rightarrow> restore_phase \<Rightarrow> (restore_error + bool) kop \<Rightarrow> outcome kop \<Rightarrow>
    outcome kop" where
  "await K rs phase step rest = do {
     r \<leftarrow> step;
     case r of
       Inl err \<Rightarrow> requeueOrHold K rs phase (Some err)
     | Inr done \<Rightarrow> if \<not> done then requeueOrHold K rs phase None else rest
   }"

subsection \<open>Volume Jobs\<close>

definition no_node_msg :: "string \<Rightarrow> string" where
  "no_node_msg pvc = ''PVC '' @ pvc @ '' has no pinned node and the cluster has no nodes''"

fun place_volumes :: "ParsedDoc list \<Rightarrow> string \<Rightarrow> string list \<Rightarrow> (string \<times> string list) list \<Rightarrow>
    restore_error + (string \<times> string list) list" where
  "place_volumes docs fallback [] gs = Inr gs"
| "place_volumes docs fallback (pvc # pvcs) gs =
     (let node = NodeForPVC docs pvc
      in if node = '''' then
           (if fallback = '''' then Inl (Hold reasonUnplaceable (no_node_msg pvc))
            else place_volumes docs fallback pvcs (group_add fallback pvc gs))
         else place_volumes docs fallback pvcs (group_add node pvc gs))"

definition vol_jobName :: "PBSRestore \<Rightarrow> string \<Rightarrow> string" where
  "vol_jobName rs node = jobName (r_name rs) (''vol-'' @ node)"

text \<open>Node by node: the next node's Job is looked at when this one's is done.\<close>

fun volume_jobs :: "kube \<Rightarrow> PBSRestore \<Rightarrow> RestoreJobSpec \<Rightarrow> (string \<times> string list) list \<Rightarrow> string list \<Rightarrow>
    (restore_error + bool) kop" where
  "volume_jobs K rs spec gs [] = State_Monad.return (Inr True)"
| "volume_jobs K rs spec gs (node # nodes) = do {
     r \<leftarrow> ensureJob K rs (vol_jobName rs node) (BuildRestoreVolumeJob spec node (sort (group_get gs node)));
     case r of
       Inl err \<Rightarrow> State_Monad.return (Inl err)
     | Inr done \<Rightarrow> if \<not> done then State_Monad.return (Inr False) else volume_jobs K rs spec gs nodes
   }"

definition ensureVolumeJobs :: "kube \<Rightarrow> PBSRestore \<Rightarrow> RestoreJobSpec \<Rightarrow> ParsedDoc list \<Rightarrow> string list \<Rightarrow>
    (restore_error + bool) kop" where
  "ensureVolumeJobs K rs spec docs pvcs = do {
     r \<leftarrow> firstNode K;
     case r of
       Inl e \<Rightarrow> State_Monad.return (Inl (ApiErr e))
     | Inr fallback \<Rightarrow>
         (case place_volumes docs fallback pvcs [] of
            Inl err \<Rightarrow> State_Monad.return (Inl err)
          | Inr gs \<Rightarrow> volume_jobs K rs spec gs (sort (map fst gs)))
   }"

subsection \<open>The staged manifest\<close>

definition staged_name :: "PBSRestore \<Rightarrow> string" where
  "staged_name rs = r_name rs @ ''-api''"

text \<open>Adopting the ConfigMap is best effort; after a patch the object is the server's.\<close>

definition adoptConfigMap :: "kube \<Rightarrow> PBSRestore \<Rightarrow> config_map \<Rightarrow> config_map kop" where
  "adoptConfigMap K rs cm =
     (if om_namespace (cm_meta cm) \<noteq> r_ns rs then State_Monad.return cm
      else if list_ex (\<lambda>ref. or_uid ref = om_uid (r_meta rs)) (om_owners (cm_meta cm)) then State_Monad.return cm
      else (case set_owner K ''PBSRestore'' (r_meta rs) (cm_meta cm) of
              Inl e \<Rightarrow> State_Monad.return cm
            | Inr m \<Rightarrow> do {
                err \<leftarrow> do_write K (PatchConfigMap (cm\<lparr>cm_meta := m\<rparr>));
                if err \<noteq> None then State_Monad.return (cm\<lparr>cm_meta := m\<rparr>)
                else observe (\<lambda>l. case k_configMap K l (r_target rs) (staged_name rs) of
                  Inl e \<Rightarrow> cm\<lparr>cm_meta := m\<rparr> | Inr stored \<Rightarrow> stored)
              }))"

section \<open>Reconcile\<close>

definition restore_spec :: "string \<Rightarrow> PBSRestore \<Rightarrow> string \<Rightarrow> RestoreJobSpec" where
  "restore_spec img rs repoSecret =
     \<lparr>rjs_Name = '''', rjs_Restore = r_name rs, rjs_Namespace = r_target rs, rjs_RepoSecret = repoSecret,
      rjs_Ref = rs_snapshotRef (r_spec rs), rjs_Image = agentImage img, rjs_ServiceAccount = restoreSA\<rparr>"

definition fetch_name :: "PBSRestore \<Rightarrow> string" where
  "fetch_name rs = jobName (r_name rs) ''api-fetch''"

definition pre_name :: "PBSRestore \<Rightarrow> string" where
  "pre_name rs = jobName (r_name rs) ''api-pre''"

definition workload_name :: "PBSRestore \<Rightarrow> string" where
  "workload_name rs = jobName (r_name rs) ''api-workload''"

definition apply_build :: "PBSRestore \<Rightarrow> RestoreJobSpec \<Rightarrow> string \<Rightarrow> job" where
  "apply_build rs spec phase =
     BuildApplyJob spec phase (staged_name rs) (rs_dropKinds (r_spec rs)) (rs_keepKinds (r_spec rs))"

text \<open>The claims the plan restores: those among the documents applied before the volumes.\<close>

definition planned_claims :: "apimachinery \<Rightarrow> PBSRestore \<Rightarrow> ParsedDoc list \<Rightarrow> string list" where
  "planned_claims A rs docs =
     (let (_, _, preDocs, _) = BucketDocs A docs (rs_dropKinds (r_spec rs)) (rs_keepKinds (r_spec rs))
      in PVCsFromDocs preDocs)"

text \<open>Step 5, then the end.\<close>

definition apply_workloads :: "kube \<Rightarrow> PBSRestore \<Rightarrow> RestoreJobSpec \<Rightarrow> outcome kop" where
  "apply_workloads K rs spec =
     await K rs RestorePhaseApplyingWorkloads
       (ensureJob K rs (workload_name rs) (apply_build rs spec ''workload''))
       (completeRestore K rs)"

text \<open>Step 4, on the manifest the fetch Job uploaded.\<close>

definition restore_volumes :: "apimachinery \<Rightarrow> kube \<Rightarrow> PBSRestore \<Rightarrow> RestoreJobSpec \<Rightarrow> config_map \<Rightarrow> outcome kop" where
  "restore_volumes A K rs spec cm =
     (case ParseAPIManifests A (label (cm_data cm) ''api.yaml'') (r_target rs) of
        Inl err \<Rightarrow> failRestore K rs reasonRestoreInvalid (''api ConfigMap: '' @ err)
      | Inr docs \<Rightarrow>
          (let pvcs = planned_claims A rs docs
           in if length pvcs > 0
              then await K rs RestorePhaseRestoringVolumes (ensureVolumeJobs K rs spec docs pvcs)
                     (apply_workloads K rs spec)
              else apply_workloads K rs spec))"

text \<open>Steps 2 and 3.\<close>

definition apply_pre :: "apimachinery \<Rightarrow> kube \<Rightarrow> PBSRestore \<Rightarrow> RestoreJobSpec \<Rightarrow> outcome kop" where
  "apply_pre A K rs spec = do {
     got \<leftarrow> get_configMap K (r_target rs) (staged_name rs);
     case got of
       Inl e \<Rightarrow>
         if e = NotFound
         then holdRestore K rs reasonStagingAbsent
                (''fetch Job completed but ConfigMap '' @ staged_name rs @ '' is absent'') requeueWait
         else State_Monad.return (Inl e)
     | Inr cm \<Rightarrow> do {
         cm \<leftarrow> adoptConfigMap K rs cm;
         await K rs RestorePhaseStagingAPI (ensureJob K rs (pre_name rs) (apply_build rs spec ''pre''))
           (restore_volumes A K rs spec cm)
       }
   }"

text \<open>Step 1.\<close>

definition run_pipeline :: "apimachinery \<Rightarrow> kube \<Rightarrow> PBSRestore \<Rightarrow> RestoreJobSpec \<Rightarrow> outcome kop" where
  "run_pipeline A K rs spec =
     await K rs RestorePhaseStagingAPI (ensureJob K rs (fetch_name rs) (BuildAPIFetchJob spec (staged_name rs)))
       (apply_pre A K rs spec)"

definition prepare_target :: "apimachinery \<Rightarrow> string \<Rightarrow> kube \<Rightarrow> PBSRestore \<Rightarrow> PBSRepo \<Rightarrow> outcome kop" where
  "prepare_target A img K rs repo =
     bindE (ensureTargetNamespace K rs) (\<lambda>problem.
       if problem \<noteq> '''' then holdRestore K rs ''TargetNamespaceTerminating'' problem requeueWait
       else bindE (ensureTargetRepoSecret K rs repo) (\<lambda>r. case r of
         Inl problem \<Rightarrow> holdRestore K rs reasonSecretCopy problem requeueWait
       | Inr repoSecret \<Rightarrow> bindE (ensureJobRBAC K rs) (\<lambda>_.
           run_pipeline A K rs (restore_spec img rs repoSecret))))"

definition reconcile_restore :: "apimachinery \<Rightarrow> string \<Rightarrow> kube \<Rightarrow> PBSRestore \<Rightarrow> outcome kop" where
  "reconcile_restore A img K rs =
     (if rst_phase (r_status rs) = RestorePhaseCompleted \<or> rst_phase (r_status rs) = RestorePhaseFailed
      then State_Monad.return (Inr NoRequeue)
      else if validateSpec rs \<noteq> '''' then failRestore K rs reasonRestoreInvalid (validateSpec rs)
      else do {
        r \<leftarrow> get_repo K (rs_repoRef (r_spec rs));
        case r of
          Inl e \<Rightarrow>
            if e \<noteq> NotFound then State_Monad.return (Inl e)
            else holdRestore K rs reasonRepoNotReady
                   (''PBSRepo '' @ rs_repoRef (r_spec rs) @ '' not found'') requeueWait
        | Inr repo \<Rightarrow>
            if \<not> k_conditionTrue K (rps_conditions (repo_status repo)) condReady
            then holdRestore K rs reasonRepoNotReady
                   (''PBSRepo '' @ om_name (repo_meta repo) @ '' is not Ready'') requeueWait
            else prepare_target A img K rs repo
      })"

definition RestoreReconcile :: "apimachinery \<Rightarrow> string \<Rightarrow> kube \<Rightarrow> string \<Rightarrow> string \<Rightarrow> outcome kop" where
  "RestoreReconcile A img K ns name = do {
     r \<leftarrow> get_restore K ns name;
     case r of Inl e \<Rightarrow> State_Monad.return (IgnoreNotFound e) | Inr rs \<Rightarrow> reconcile_restore A img K rs
   }"

end
