(* ===== verification/History_Logic.thy ===== *)
theory History_Logic
  imports Op_Prelude
begin

text \<open>
  A logic for operations in which every call is judged with the history before it.  The world's
  answers are functions of the history, so a call can be justified by what was read earlier in
  the same operation (\<open>a Job is created only after another one was read as complete\<close>): that is
  evidence in the history, and evidence never goes away.
\<close>

named_theorems walks_rules "rules that follow the code, with its history"

text \<open>Every call of \<open>n\<close>, made after \<open>l\<close>, satisfies \<open>P\<close> at its own point.\<close>

fun all_at :: "('c list \<Rightarrow> 'c \<Rightarrow> bool) \<Rightarrow> 'c list \<Rightarrow> 'c list \<Rightarrow> bool" where
  "all_at P l [] \<longleftrightarrow> True"
| "all_at P l (c # n) \<longleftrightarrow> P l c \<and> all_at P (l @ [c]) n"

lemma all_at_append: "all_at P l (m @ n) \<longleftrightarrow> all_at P l m \<and> all_at P (l @ m) n"
  by (induction m arbitrary: l) auto

lemma all_atD: "all_at P l n \<Longrightarrow> c \<in> set n \<Longrightarrow> \<exists>m m'. n = m @ c # m' \<and> P (l @ m) c"
proof -
  assume n: "all_at P l n" and "c \<in> set n"
  then obtain m m' where "n = m @ c # m'" by (auto simp: in_set_conv_decomp)
  with n show ?thesis by (auto simp: all_at_append)
qed

lemma all_at_mono: "all_at P l n \<Longrightarrow> (\<And>h c. P h c \<Longrightarrow> P' h c) \<Longrightarrow> all_at P' l n"
  by (induction n arbitrary: l) auto

lemma list_all_all_at: "list_all Q n \<Longrightarrow> (\<And>h c. Q c \<Longrightarrow> P h c) \<Longrightarrow> all_at P l n"
  by (induction n arbitrary: l) auto

text \<open>\<open>walks P Q l m\<close>: from history \<open>l\<close>, every call of \<open>m\<close> satisfies \<open>P\<close>, and \<open>Q\<close> holds of the
  result and the history at the end.\<close>

definition walks :: "('c list \<Rightarrow> 'c \<Rightarrow> bool) \<Rightarrow> ('a \<Rightarrow> 'c list \<Rightarrow> bool) \<Rightarrow> 'c list \<Rightarrow> ('c, 'a) oper \<Rightarrow> bool" where
  "walks P Q l m \<longleftrightarrow> (\<exists>n. snd (run_state m l) = l @ n \<and> all_at P l n \<and> Q (fst (run_state m l)) (l @ n))"

lemma walksD: "walks P Q l m \<Longrightarrow> all_at P l (trace m l) \<and> Q (result m l) (l @ trace m l)"
  by (auto simp: walks_def trace_def result_def)

lemma walks_conseq:
  "walks P Q l m \<Longrightarrow> (\<And>x h. Q x h \<Longrightarrow> Q' x h) \<Longrightarrow> walks P Q' l m"
  by (auto simp: walks_def)

text \<open>The history only grows.\<close>

definition extends :: "'c list \<Rightarrow> 'c list \<Rightarrow> bool" where
  "extends h l \<longleftrightarrow> (\<exists>n. h = l @ n)"

lemma extends_refl [simp]: "extends l l"
  by (simp add: extends_def)

lemma extends_append [simp]: "extends (l @ n) l"
  by (simp add: extends_def)

lemma extends_trans: "extends h k \<Longrightarrow> extends k l \<Longrightarrow> extends h l"
  by (auto simp: extends_def)

lemma walks_extends: "walks P Q l m \<Longrightarrow> walks P (\<lambda>x h. extends h l \<and> Q x h) l m"
  by (auto simp: walks_def)

lemma walks_return [walks_rules]: "Q x l \<Longrightarrow> walks P Q l (State_Monad.return x)"
  by (simp add: walks_def)

lemma walks_invoke: "P l c \<Longrightarrow> Q (f l) (l @ [c]) \<Longrightarrow> walks P Q l (invoke c f)"
  by (auto simp: walks_def)

lemma walks_bind:
  assumes m: "walks P R l m" and f: "\<And>x h. R x h \<Longrightarrow> extends h l \<Longrightarrow> walks P Q h (f x)"
  shows "walks P Q l (State_Monad.bind m f)"
proof -
  obtain x h where ml: "run_state m l = (x, h)" by fastforce
  with m obtain n where n: "h = l @ n" "all_at P l n" "R x (l @ n)" by (auto simp: walks_def)
  then obtain n' where "snd (run_state (f x) h) = h @ n'" "all_at P h n'" "Q (fst (run_state (f x) h)) (h @ n')"
    using f [of x "l @ n"] by (auto simp: walks_def)
  with ml n show ?thesis
    unfolding walks_def by (intro exI [of _ "n @ n'"]) (simp add: all_at_append)
qed

lemma walks_bind_call [walks_rules]:
  "P l c \<Longrightarrow> walks P Q (l @ [c]) (f (g l)) \<Longrightarrow> walks P Q l (State_Monad.bind (invoke c g) f)"
  by (rule walks_bind [of P "\<lambda>x h. h = l @ [c] \<and> x = g l"]) (auto intro: walks_invoke)

lemma walks_bindE:
  assumes m: "walks P R l m" and e: "\<And>e h. R (Inl e) h \<Longrightarrow> extends h l \<Longrightarrow> Q (Inl e) h"
    and f: "\<And>x h. R (Inr x) h \<Longrightarrow> extends h l \<Longrightarrow> walks P Q h (f x)"
  shows "walks P Q l (bindE m f)"
  unfolding bindE_def by (rule walks_bind [OF m]) (auto intro!: walks_return e f split: sum.split)

lemma walks_bindE_call [walks_rules]:
  "P l c \<Longrightarrow> (\<And>e. g l = Inl e \<Longrightarrow> Q (Inl e) (l @ [c])) \<Longrightarrow> (\<And>x. g l = Inr x \<Longrightarrow> walks P Q (l @ [c]) (f x)) \<Longrightarrow>
   walks P Q l (bindE (invoke c g) f)"
  unfolding bindE_def by (auto intro!: walks_rules split: sum.split)

lemma walks_skipE_call [walks_rules]:
  "P l c \<Longrightarrow> (\<And>e. Q (Inl e) (l @ [c])) \<Longrightarrow> walks P Q (l @ [c]) k \<Longrightarrow> walks P Q l (skipE (invoke c g) k)"
  unfolding skipE_def by (auto intro!: walks_rules split: option.split)

lemma walks_if [walks_rules]:
  "(b \<Longrightarrow> walks P Q l m) \<Longrightarrow> (\<not> b \<Longrightarrow> walks P Q l n) \<Longrightarrow> walks P Q l (if b then m else n)"
  by simp

lemma walks_case_sum [walks_rules]:
  "(\<And>e. x = Inl e \<Longrightarrow> walks P Q l (f e)) \<Longrightarrow> (\<And>v. x = Inr v \<Longrightarrow> walks P Q l (g v)) \<Longrightarrow>
   walks P Q l (case x of Inl e \<Rightarrow> f e | Inr v \<Rightarrow> g v)"
  by (cases x) auto

lemma walks_case_option [walks_rules]:
  "(x = None \<Longrightarrow> walks P Q l f) \<Longrightarrow> (\<And>v. x = Some v \<Longrightarrow> walks P Q l (g v)) \<Longrightarrow>
   walks P Q l (case x of None \<Rightarrow> f | Some v \<Rightarrow> g v)"
  by (cases x) auto

lemma walks_case_prod [walks_rules]:
  "(\<And>a b. x = (a, b) \<Longrightarrow> walks P Q l (f a b)) \<Longrightarrow> walks P Q l (case x of (a, b) \<Rightarrow> f a b)"
  by (cases x) auto

lemma walks_let [walks_rules]: "walks P Q l (f x) \<Longrightarrow> walks P Q l (let y = x in f y)"
  by simp

text \<open>A step that fails, is not done yet, or is done.\<close>

lemma walks_step:
  assumes "walks P R l step"
    and "\<And>e h. R (Inl e) h \<Longrightarrow> extends h l \<Longrightarrow> walks P Q h (f e)"
    and "\<And>h. R (Inr False) h \<Longrightarrow> extends h l \<Longrightarrow> walks P Q h g"
    and "\<And>h. R (Inr True) h \<Longrightarrow> extends h l \<Longrightarrow> walks P Q h rest"
  shows "walks P Q l (State_Monad.bind step
    (\<lambda>r. case r of Inl e \<Rightarrow> f e | Inr done \<Rightarrow> if \<not> done then g else rest))"
proof (rule walks_bind [OF assms(1)])
  fix x h assume "R x h" "extends h l"
  then show "walks P Q h (case x of Inl e \<Rightarrow> f e | Inr done \<Rightarrow> if \<not> done then g else rest)"
    using assms(2-4) by (cases x; cases "x = Inr True") auto
qed

text \<open>A part whose calls are allowed whatever the history.\<close>

lemma gives_walks:
  "gives (safely C R) m \<Longrightarrow> (\<And>h c. C c \<Longrightarrow> P h c) \<Longrightarrow> walks P (\<lambda>x h. R x) l m"
  unfolding gives_def walks_def safely_def by (meson list_all_all_at)

text \<open>Something read earlier, as evidence: a position of the history and what the world answered there.\<close>

definition seen :: "('c list \<Rightarrow> 'c \<Rightarrow> bool) \<Rightarrow> 'c list \<Rightarrow> bool" where
  "seen E h \<longleftrightarrow> (\<exists>i<length h. E (take i h) (h ! i))"

lemma seen_call: "E l c \<Longrightarrow> seen E (l @ [c])"
  unfolding seen_def by (rule exI [of _ "length l"]) simp

lemma seen_extends: "seen E l \<Longrightarrow> extends h l \<Longrightarrow> seen E h"
  unfolding seen_def extends_def by (auto simp: nth_append)

text \<open>A question asked since \<open>l0\<close>, with its answer: the world is a function of the history, so the
  answer is \<open>f\<close> at that point.\<close>

definition asked :: "'c list \<Rightarrow> 'c \<Rightarrow> ('c list \<Rightarrow> 'a) \<Rightarrow> 'a \<Rightarrow> 'c list \<Rightarrow> bool" where
  "asked l0 q f x h \<longleftrightarrow> seen (\<lambda>l c. extends l l0 \<and> c = q \<and> f l = x) h"

lemma asked_now: "extends l l0 \<Longrightarrow> f l = x \<Longrightarrow> asked l0 q f x (l @ [q])"
  unfolding asked_def by (rule seen_call) simp

lemma asked_extends: "asked l0 q f x l \<Longrightarrow> extends h l \<Longrightarrow> asked l0 q f x h"
  unfolding asked_def by (rule seen_extends)

lemma askedD: "asked l0 q f x h \<Longrightarrow> \<exists>l. f l = x"
  by (auto simp: asked_def seen_def)

text \<open>A part of which only the class of its calls matters.\<close>

lemma emits_walks: "emits C m \<Longrightarrow> (\<And>h c. C c \<Longrightarrow> P h c) \<Longrightarrow> walks P (\<lambda>_ _. True) l m"
  unfolding emits_def walks_def by (meson list_all_all_at)

end
