(* ===== verification/Controller_Logic.thy ===== *)
theory Controller_Logic
  imports Controller_Common History_Logic
begin

text \<open>
  What the proofs about the controllers share: the read-only parts of a reconcile, the calls an
  update of a status may make, and the machine of statuses a sequence of reconciles runs
  through, as a locale every controller with a life cycle interprets.
\<close>

section \<open>Reads\<close>

lemma read_gives:
  "gives (safely is_read (\<lambda>_. True)) (get_secret K ns n)" "gives (safely is_read (\<lambda>_. True)) (get_pvc K ns n)"
  "gives (safely is_read (\<lambda>_. True)) (get_pv K n)" "gives (safely is_read (\<lambda>_. True)) (get_job K ns n)"
  "gives (safely is_read (\<lambda>_. True)) (get_repo K n)" "gives (safely is_read (\<lambda>_. True)) (list_pvcs K ns s)"
  "gives (safely is_read (\<lambda>_. True)) (list_pods K ns s')" "gives (safely is_read (\<lambda>_. True)) (list_nodes K)"
  "gives (safely is_read (\<lambda>_. True)) (get_configMap K ns n)"
  by (simp_all add: client_defs gives_safely_call)

lemma gives_safely_return: "R x \<Longrightarrow> gives (safely P R) (State_Monad.return x)"
  by (rule gives_return) simp

lemma safely_emits: "gives (safely P Q) m \<Longrightarrow> (\<And>c. P c \<Longrightarrow> P' c) \<Longrightarrow> emits P' m"
  by (blast intro: emits_mono gives_calls)

section \<open>Conditions and clocks\<close>

lemma new_condition_simps [simp]:
  "cond_type (new_condition st r m) = condReady" "cond_status (new_condition st r m) = st"
  by (simp_all add: new_condition_def)

text \<open>What \<open>extra\<close> may do to the stamped status: read, look at the clock.\<close>

fun quiet :: "kcall \<Rightarrow> bool" where
  "quiet Clock \<longleftrightarrow> True" | "quiet (Read r) \<longleftrightarrow> True" | "quiet _ \<longleftrightarrow> False"

lemma clock_gives: "gives (safely quiet (\<lambda>_. True)) (read_clock K)"
  by (simp add: read_clock_def gives_safely_call)

lemma walks_bind_observe [walks_rules]:
  "walks P Q l (f (g l)) \<Longrightarrow> walks P Q l (State_Monad.bind (observe g) f)"
  by (rule walks_bind [of P "\<lambda>x h. h = l \<and> x = g l"]) (auto simp: walks_def)

text \<open>What happened since a history.\<close>

definition since :: "kcall list \<Rightarrow> (kcall \<Rightarrow> bool) \<Rightarrow> kcall list \<Rightarrow> bool" where
  "since l E h \<longleftrightarrow> list_ex E (drop (length l) h)"

lemma since_earlier: "since l E h \<Longrightarrow> extends l l0 \<Longrightarrow> since l0 E h"
proof -
  assume *: "since l E h" "extends l l0"
  then have "set (drop (length l) h) \<subseteq> set (drop (length l0) h)"
    by (intro set_drop_subset_set_drop) (auto simp: extends_def)
  with *(1) show ?thesis by (auto simp: since_def list_ex_iff)
qed

lemma since_call [simp]: "since l E (l @ n) \<longleftrightarrow> list_ex E n"
  by (simp add: since_def)

section \<open>Life cycles\<close>

text \<open>A controlled object's status: it has a phase, some phases are final, and \<open>step\<close> relates the
  stored statuses of two successive patches.\<close>

locale status_machine =
  fixes phase :: "'s \<Rightarrow> 'p" and final :: "'p \<Rightarrow> bool" and step :: "'s \<Rightarrow> 's \<Rightarrow> bool"
    and inv :: "'s \<Rightarrow> bool"
  assumes no_step_from_final: "step s t \<Longrightarrow> \<not> final (phase s)"
    and step_keeps: "step s t \<Longrightarrow> inv s \<Longrightarrow> inv t"
begin

lemma final_stays: "step\<^sup>*\<^sup>* s t \<Longrightarrow> final (phase s) \<Longrightarrow> t = s"
  by (induction rule: converse_rtranclp_induct) (auto dest: no_step_from_final)

lemma history_keeps: "step\<^sup>*\<^sup>* s t \<Longrightarrow> inv s \<Longrightarrow> inv t"
  by (induction rule: rtranclp_induct) (auto intro: step_keeps)

end

text \<open>A machine with a memory: what a status remembers, every later one remembers.\<close>

locale remembering_machine = status_machine +
  fixes memory :: "'s \<Rightarrow> 'k set"
  assumes step_remembers: "step s t \<Longrightarrow> memory s \<subseteq> memory t"
begin

lemma history_remembers: "step\<^sup>*\<^sup>* s t \<Longrightarrow> memory s \<subseteq> memory t"
  by (induction rule: rtranclp_induct) (use step_remembers in blast)+

end

text \<open>A machine whose phases only go forward.\<close>

locale forward_machine = status_machine phase final step inv
  for phase :: "'s \<Rightarrow> 'p::linorder" and final step inv +
  assumes step_forward: "step s t \<Longrightarrow> phase s \<le> phase t"
begin

lemma history_forward: "step\<^sup>*\<^sup>* s t \<Longrightarrow> phase s \<le> phase t"
  by (induction rule: rtranclp_induct) (auto dest: step_forward)

end

end
