(* ===== verification/Restore_Contract.thy ===== *)
theory Restore_Contract
  imports Restore_Controller Controller_Logic
begin

text \<open>
  The contract of one reconcile of a PBSRestore, and that the reconciler keeps it.  Every call of a reconcile is judged with the history
  before it (\<open>restore_call\<close>): a pipeline Job may be created only with evidence that the earlier
  ones were read as complete, a phase recorded only with evidence for it, and the RBAC objects
  and the copied credentials are exactly the documented ones.
\<close>

abbreviation rterminal :: "restore_phase \<Rightarrow> bool" where
  "rterminal p \<equiv> p = RestorePhaseCompleted \<or> p = RestorePhaseFailed"

section \<open>Evidence\<close>

text \<open>How a look at a pipeline Job counts: done, still open, failed.\<close>

definition reads_done :: "kube \<Rightarrow> PBSRestore \<Rightarrow> string \<Rightarrow> kcall list \<Rightarrow> kcall \<Rightarrow> bool" where
  "reads_done K rs name l c \<longleftrightarrow> c = Read (GetJob (r_target rs) name) \<and>
     (case k_job K l (r_target rs) name of
        Inr j \<Rightarrow> \<not> jobCondition j JobFailed \<and> jobCondition j JobComplete
      | Inl e \<Rightarrow> e = NotFound \<and> knownJob rs name \<and> recordedJobState rs name = ''complete'')"

definition reads_open :: "kube \<Rightarrow> PBSRestore \<Rightarrow> string \<Rightarrow> kcall list \<Rightarrow> kcall \<Rightarrow> bool" where
  "reads_open K rs name l c \<longleftrightarrow> c = Read (GetJob (r_target rs) name) \<and>
     (case k_job K l (r_target rs) name of
        Inr j \<Rightarrow> \<not> jobCondition j JobFailed \<and> \<not> jobCondition j JobComplete
      | Inl e \<Rightarrow> e = NotFound \<and> \<not> knownJob rs name)"

definition reads_failed :: "kube \<Rightarrow> PBSRestore \<Rightarrow> string \<Rightarrow> kcall list \<Rightarrow> kcall \<Rightarrow> bool" where
  "reads_failed K rs name l c \<longleftrightarrow> c = Read (GetJob (r_target rs) name) \<and>
     (\<exists>j. k_job K l (r_target rs) name = Inr j \<and> jobCondition j JobFailed)"

abbreviation "job_done K rs name \<equiv> seen (reads_done K rs name)"
abbreviation "job_open K rs name \<equiv> seen (reads_open K rs name)"
abbreviation "job_failed K rs name \<equiv> seen (reads_failed K rs name)"

text \<open>The manifest the reconcile works on is one the API server answered.\<close>

definition staged :: "kube \<Rightarrow> PBSRestore \<Rightarrow> string \<Rightarrow> kcall list \<Rightarrow> bool" where
  "staged K rs data h \<longleftrightarrow> (\<exists>i\<le>length h. \<exists>cm. k_configMap K (take i h) (r_target rs) (staged_name rs) = Inr cm \<and>
     label (cm_data cm) ''api.yaml'' = data)"

definition reads_nodes :: "kube \<Rightarrow> string \<Rightarrow> kcall list \<Rightarrow> kcall \<Rightarrow> bool" where
  "reads_nodes K node l c \<longleftrightarrow> c = Read ListNodes \<and> (\<exists>names. k_nodes K l = Inr names \<and> node = first_name names)"

text \<open>The volume groups of the staged manifest: every planned claim at its node.\<close>

definition vol_plan :: "apimachinery \<Rightarrow> kube \<Rightarrow> PBSRestore \<Rightarrow> (string \<times> string list) list \<Rightarrow> kcall list \<Rightarrow> bool" where
  "vol_plan A K rs gs h \<longleftrightarrow> (\<exists>data docs. staged K rs data h \<and>
     ParseAPIManifests A data (r_target rs) = Inr docs \<and>
     (planned_claims A rs docs = [] \<and> gs = [] \<or>
      (\<exists>fallback. seen (reads_nodes K fallback) h \<and>
         place_volumes docs fallback (planned_claims A rs docs) [] = Inr gs)))"

definition vols_done :: "apimachinery \<Rightarrow> kube \<Rightarrow> PBSRestore \<Rightarrow> kcall list \<Rightarrow> bool" where
  "vols_done A K rs h \<longleftrightarrow> (\<exists>gs. vol_plan A K rs gs h \<and> (\<forall>node\<in>set (map fst gs). job_done K rs (vol_jobName rs node) h))"

text \<open>Evidence stays.\<close>

lemma staged_extends: "staged K rs data l \<Longrightarrow> extends h l \<Longrightarrow> staged K rs data h"
proof -
  assume "staged K rs data l" "extends h l"
  then obtain i cm n where "i \<le> length l" "k_configMap K (take i l) (r_target rs) (staged_name rs) = Inr cm"
    "label (cm_data cm) ''api.yaml'' = data" "h = l @ n"
    by (auto simp: staged_def extends_def)
  then show ?thesis unfolding staged_def by (intro exI [of _ i]) auto
qed

lemma vol_plan_extends: "vol_plan A K rs gs l \<Longrightarrow> extends h l \<Longrightarrow> vol_plan A K rs gs h"
  unfolding vol_plan_def using staged_extends seen_extends by blast

lemma vols_done_extends: "vols_done A K rs l \<Longrightarrow> extends h l \<Longrightarrow> vols_done A K rs h"
  unfolding vols_done_def using vol_plan_extends seen_extends by blast

lemmas evidence_extends = seen_extends staged_extends vol_plan_extends vols_done_extends

section \<open>The contract of one reconcile\<close>

text \<open>The Jobs the pipeline may create, with their names and what must have been read before.\<close>

inductive pipeline_job :: "apimachinery \<Rightarrow> kube \<Rightarrow> PBSRestore \<Rightarrow> RestoreJobSpec \<Rightarrow> kcall list \<Rightarrow> string \<Rightarrow> job \<Rightarrow> bool"
  for A K rs spec h where
  fetch: "pipeline_job A K rs spec h (fetch_name rs) (BuildAPIFetchJob spec (staged_name rs))"
| pre: "job_done K rs (fetch_name rs) h \<Longrightarrow>
    pipeline_job A K rs spec h (pre_name rs) (apply_build rs spec ''pre'')"
| volume: "job_done K rs (fetch_name rs) h \<Longrightarrow> job_done K rs (pre_name rs) h \<Longrightarrow> vol_plan A K rs gs h \<Longrightarrow>
    node \<in> set (map fst gs) \<Longrightarrow>
    \<forall>m\<in>set (map fst gs). m < node \<longrightarrow> job_done K rs (vol_jobName rs m) h \<Longrightarrow>
    pipeline_job A K rs spec h (vol_jobName rs node) (BuildRestoreVolumeJob spec node (sort (group_get gs node)))"
| workload: "job_done K rs (fetch_name rs) h \<Longrightarrow> job_done K rs (pre_name rs) h \<Longrightarrow> vols_done A K rs h \<Longrightarrow>
    pipeline_job A K rs spec h (workload_name rs) (apply_build rs spec ''workload'')"

inductive_cases pipeline_jobE: "pipeline_job A K rs spec h name build"

definition created_pipeline_job :: "apimachinery \<Rightarrow> string \<Rightarrow> kube \<Rightarrow> PBSRestore \<Rightarrow> kcall list \<Rightarrow> job \<Rightarrow> bool" where
  "created_pipeline_job A img K rs h j \<longleftrightarrow> (\<exists>repoSecret name build.
     pipeline_job A K rs (restore_spec img rs repoSecret) h name build \<and>
     owned_job K rs name build = Inr j \<and> \<not> knownJob rs name)"

text \<open>What a recorded phase rests on.\<close>

definition phase_justified :: "apimachinery \<Rightarrow> kube \<Rightarrow> PBSRestore \<Rightarrow> kcall list \<Rightarrow> restore_phase \<Rightarrow> bool" where
  "phase_justified A K rs h p \<longleftrightarrow>
     p = holdPhase (rst_phase (r_status rs)) \<or>
     (case p of
        RestorePhaseStagingAPI \<Rightarrow> job_open K rs (fetch_name rs) h \<or> job_open K rs (pre_name rs) h
      | RestorePhaseRestoringVolumes \<Rightarrow> job_done K rs (fetch_name rs) h \<and> job_done K rs (pre_name rs) h
      | RestorePhaseApplyingWorkloads \<Rightarrow> job_done K rs (fetch_name rs) h \<and> job_done K rs (pre_name rs) h \<and>
          vols_done A K rs h
      | RestorePhaseCompleted \<Rightarrow> job_done K rs (fetch_name rs) h \<and> job_done K rs (pre_name rs) h \<and>
          vols_done A K rs h \<and> job_done K rs (workload_name rs) h
      | RestorePhaseFailed \<Rightarrow> validateSpec rs \<noteq> '''' \<or>
          (\<exists>data err. staged K rs data h \<and> ParseAPIManifests A data (r_target rs) = Inl err) \<or>
          (\<exists>name. job_failed K rs name h)
      | _ \<Rightarrow> False)"

text \<open>The statuses one patch may make of a status.\<close>

definition restore_step :: "kube \<Rightarrow> PBSRestoreStatus \<Rightarrow> PBSRestoreStatus \<Rightarrow> bool" where
  "restore_step K old new \<longleftrightarrow>
     \<not> rterminal (rst_phase old) \<and> rst_phase new \<noteq> RestorePhaseNew \<and>
     (rst_startedAt old \<noteq> None \<longrightarrow> rst_startedAt new = rst_startedAt old) \<and>
     (rst_completedAt old \<noteq> None \<longrightarrow> rst_completedAt new = rst_completedAt old) \<and>
     (rst_completedAt new = rst_completedAt old \<or> rterminal (rst_phase new)) \<and>
     (rterminal (rst_phase new) \<longrightarrow> rst_completedAt new \<noteq> None) \<and>
     (rst_phase new = RestorePhaseRestoringVolumes \<or> rst_phase new = RestorePhaseApplyingWorkloads \<longrightarrow>
        rst_startedAt new \<noteq> None \<or> rst_phase new = rst_phase old \<and> rst_startedAt new = rst_startedAt old) \<and>
     rj_job ` set (rst_jobs old) \<subseteq> rj_job ` set (rst_jobs new) \<and>
     (rst_jobs new = rst_jobs old \<or> sorted (map rj_job (rst_jobs new))) \<and>
     (condition_laws K \<longrightarrow>
        (k_conditionTrue K (rst_conditions new) condReady \<longleftrightarrow> rst_phase new = RestorePhaseCompleted))"

fun restore_write :: "apimachinery \<Rightarrow> string \<Rightarrow> kube \<Rightarrow> PBSRestore \<Rightarrow> kcall list \<Rightarrow> kwrite \<Rightarrow> bool" where
  "restore_write A img K rs h (CreateJob j) \<longleftrightarrow> created_pipeline_job A img K rs h j"
| "restore_write A img K rs h (CreateSecret s) \<longleftrightarrow> contract_copy (r_target rs) s \<and>
     om_namespace (sec_meta s) = r_target rs \<and> om_owners (sec_meta s) = []"
| "restore_write A img K rs h (UpdateSecret s) \<longleftrightarrow> contract_copy (r_target rs) s"
| "restore_write A img K rs h (PatchConfigMap c) \<longleftrightarrow> om_namespace (cm_meta c) = r_ns rs"
| "restore_write A img K rs h (CreateNamespace n) \<longleftrightarrow> n = r_target rs"
| "restore_write A img K rs h (CreateServiceAccount m) \<longleftrightarrow> m = restore_serviceAccount rs"
| "restore_write A img K rs h (CreateRoleBinding b) \<longleftrightarrow> b = restore_roleBinding rs"
| "restore_write A img K rs h (CreateClusterRoleBinding b) \<longleftrightarrow> b = restore_clusterRoleBinding rs"
| "restore_write A img K rs h (PatchRestoreStatus ns n st) \<longleftrightarrow> ns = r_ns rs \<and> n = r_name rs \<and>
     restore_step K (r_status rs) st \<and> phase_justified A K rs h (rst_phase st)"
| "restore_write A img K rs h _ \<longleftrightarrow> False"

fun restore_call :: "apimachinery \<Rightarrow> string \<Rightarrow> kube \<Rightarrow> PBSRestore \<Rightarrow> kcall list \<Rightarrow> kcall \<Rightarrow> bool" where
  "restore_call A img K rs h Clock \<longleftrightarrow> True"
| "restore_call A img K rs h (Read r) \<longleftrightarrow> True"
| "restore_call A img K rs h (Write w) \<longleftrightarrow> restore_write A img K rs h w"
| "restore_call A img K rs h (Event kind name ty reason act note) \<longleftrightarrow> kind = ''PBSRestore'' \<and> name = r_name rs"
| "restore_call A img K rs h _ \<longleftrightarrow> False"

lemma is_read_restore_call: "is_read c \<Longrightarrow> restore_call A img K rs h c"
  by (auto simp: is_read_iff)

lemma quiet_restore_call: "quiet c \<Longrightarrow> restore_call A img K rs h c"
  by (cases c) auto

lemma phase_justified_extends:
  assumes "phase_justified A K rs l p" "extends h l"
  shows "phase_justified A K rs h p"
proof (cases "p = holdPhase (rst_phase (r_status rs))")
  case False
  with assms show ?thesis
    unfolding phase_justified_def by (cases p) (auto intro: evidence_extends)
qed (simp add: phase_justified_def)

section \<open>The steps of the pipeline\<close>

text \<open>An error of a step that ends the restore comes with a Job that was read as failed.\<close>

definition failed_for_cause :: "kube \<Rightarrow> PBSRestore \<Rightarrow> restore_error \<Rightarrow> kcall list \<Rightarrow> bool" where
  "failed_for_cause K rs e h \<longleftrightarrow> (\<forall>reason msg. e = Hold reason msg \<longrightarrow> reason = reasonFailed \<longrightarrow>
     (\<exists>name. job_failed K rs name h))"

lemma reasons_differ: "reasonJobDeleted \<noteq> reasonFailed" "reasonUnplaceable \<noteq> reasonFailed"
  by (simp_all add: reasonJobDeleted_def reasonFailed_def reasonUnplaceable_def)

lemma ensureJob_walks:
  assumes new: "\<And>j. owned_job K rs name build = Inr j \<Longrightarrow> \<not> knownJob rs name \<Longrightarrow>
      created_pipeline_job A img K rs (l @ [Read (GetJob (r_target rs) name)]) j"
  shows "walks (restore_call A img K rs)
    (\<lambda>x h. (\<forall>e. x = Inl e \<longrightarrow> failed_for_cause K rs e h) \<and> (x = Inr True \<longrightarrow> job_done K rs name h) \<and>
       (x = Inr False \<longrightarrow> job_open K rs name h)) l (ensureJob K rs name build)"
proof -
  let ?c = "Read (GetJob (r_target rs) name)"
  have E: "reads_done K rs name l ?c \<Longrightarrow> job_done K rs name (l @ ?c # n)"
    "reads_open K rs name l ?c \<Longrightarrow> job_open K rs name (l @ ?c # n)"
    "reads_failed K rs name l ?c \<Longrightarrow> job_failed K rs name (l @ ?c # n)" for n
    using seen_extends [OF seen_call, of _ l ?c "l @ ?c # n"] by (auto simp: extends_def)
  show ?thesis
  proof (cases "k_job K l (r_target rs) name")
    case (Inr j)
    then show ?thesis
      unfolding ensureJob_def get_job_def
      by (auto intro!: walks_rules E exI [of _ name] simp: failed_for_cause_def reads_done_def reads_open_def reads_failed_def)
  next
    case (Inl e)
    then show ?thesis
      unfolding ensureJob_def get_job_def do_write_def
      by (auto intro!: walks_rules E new
          simp: failed_for_cause_def reads_done_def reads_open_def reasons_differ)
  qed
qed

lemma created_pipeline_jobI:
  "pipeline_job A K rs (restore_spec img rs sec) h name build \<Longrightarrow> owned_job K rs name build = Inr j \<Longrightarrow>
   \<not> knownJob rs name \<Longrightarrow> created_pipeline_job A img K rs h j"
  unfolding created_pipeline_job_def by blast

subsection \<open>Volume Jobs\<close>

text \<open>Node by node: a node's Job is looked at when every smaller node of the plan is done.\<close>

lemma volume_jobs_walks:
  assumes "job_done K rs (fetch_name rs) l" "job_done K rs (pre_name rs) l" "vol_plan A K rs gs l"
    and "set nodes \<subseteq> set (map fst gs)" "sorted nodes"
    and "\<forall>m\<in>set (map fst gs) - set nodes. job_done K rs (vol_jobName rs m) l"
  shows "walks (restore_call A img K rs)
    (\<lambda>x h. (\<forall>e. x = Inl e \<longrightarrow> failed_for_cause K rs e h) \<and>
       (x = Inr True \<longrightarrow> (\<forall>m\<in>set (map fst gs). job_done K rs (vol_jobName rs m) h)))
    l (volume_jobs K rs (restore_spec img rs sec) gs nodes)"
  using assms
proof (induction nodes arbitrary: l)
  case (Cons node nodes)
  let ?c = "Read (GetJob (r_target rs) (vol_jobName rs node))"
  have ext: "extends (l @ [?c]) l" by simp
  have smaller: "\<forall>m\<in>set (map fst gs). m < node \<longrightarrow> job_done K rs (vol_jobName rs m) l"
    using Cons.prems(5,6) by fastforce
  then have smaller: "\<forall>m\<in>set (map fst gs). m < node \<longrightarrow> job_done K rs (vol_jobName rs m) (l @ [?c])"
    using seen_extends [OF _ ext] by blast
  have node: "node \<in> set (map fst gs)" using Cons.prems(4) by simp
  have job: "pipeline_job A K rs (restore_spec img rs sec) (l @ [?c]) (vol_jobName rs node)
      (BuildRestoreVolumeJob (restore_spec img rs sec) node (sort (group_get gs node)))"
    by (rule pipeline_job.volume [OF _ _ _ node smaller]) (rule evidence_extends [OF _ ext], fact)+
  have one: "walks (restore_call A img K rs)
      (\<lambda>x h. (\<forall>e. x = Inl e \<longrightarrow> failed_for_cause K rs e h) \<and> (x = Inr True \<longrightarrow> job_done K rs (vol_jobName rs node) h) \<and>
         (x = Inr False \<longrightarrow> job_open K rs (vol_jobName rs node) h)) l
      (ensureJob K rs (vol_jobName rs node)
        (BuildRestoreVolumeJob (restore_spec img rs sec) node (sort (group_get gs node))))"
    by (rule ensureJob_walks) (rule created_pipeline_jobI [OF job])
  have rest: "walks (restore_call A img K rs)
      (\<lambda>x h. (\<forall>e. x = Inl e \<longrightarrow> failed_for_cause K rs e h) \<and>
         (x = Inr True \<longrightarrow> (\<forall>m\<in>set (map fst gs). job_done K rs (vol_jobName rs m) h)))
      h (volume_jobs K rs (restore_spec img rs sec) gs nodes)"
    if "extends h l" "job_done K rs (vol_jobName rs node) h" for h
  proof (rule Cons.IH)
    show "\<forall>m\<in>set (map fst gs) - set nodes. job_done K rs (vol_jobName rs m) h"
      using Cons.prems(6) that by (auto intro: seen_extends)
  qed (use Cons.prems that(1) in \<open>auto intro: evidence_extends\<close>)
  show ?case
    unfolding volume_jobs.simps
    by (rule walks_step [OF one]) (blast intro: walks_return rest)+
qed (auto intro: walks_return)

lemma place_volumes_error: "place_volumes docs fallback pvcs gs = Inl e \<Longrightarrow> \<exists>msg. e = Hold reasonUnplaceable msg"
  by (induction docs fallback pvcs gs rule: place_volumes.induct) (auto simp: Let_def split: if_splits)

lemma ensureVolumeJobs_walks:
  assumes "job_done K rs (fetch_name rs) l" "job_done K rs (pre_name rs) l" "staged K rs data l"
    and "ParseAPIManifests A data (r_target rs) = Inr docs"
  shows "walks (restore_call A img K rs)
    (\<lambda>x h. (\<forall>e. x = Inl e \<longrightarrow> failed_for_cause K rs e h) \<and> (x = Inr True \<longrightarrow> vols_done A K rs h))
    l (ensureVolumeJobs K rs (restore_spec img rs sec) docs (planned_claims A rs docs))"
proof -
  let ?l = "l @ [Read ListNodes]"
  have ext: "extends ?l l" by simp
  have plan: "vol_plan A K rs gs ?l"
    if "k_nodes K l = Inr names" "place_volumes docs (first_name names) (planned_claims A rs docs) [] = Inr gs" for names gs
    using that assms(4) staged_extends [OF assms(3) ext] seen_call [of "reads_nodes K (first_name names)" l "Read ListNodes"]
    unfolding vol_plan_def reads_nodes_def by blast
  have jobs: "walks (restore_call A img K rs)
      (\<lambda>x h. (\<forall>e. x = Inl e \<longrightarrow> failed_for_cause K rs e h) \<and> (x = Inr True \<longrightarrow> vols_done A K rs h))
      ?l (volume_jobs K rs (restore_spec img rs sec) gs (sort (map fst gs)))" if "vol_plan A K rs gs ?l" for gs
  proof -
    have "walks (restore_call A img K rs)
       (\<lambda>x h. (\<forall>e. x = Inl e \<longrightarrow> failed_for_cause K rs e h) \<and>
         (x = Inr True \<longrightarrow> (\<forall>m\<in>set (map fst gs). job_done K rs (vol_jobName rs m) h)))
       ?l (volume_jobs K rs (restore_spec img rs sec) gs (sort (map fst gs)))"
      using that assms(1,2) by (intro volume_jobs_walks) (auto intro: seen_extends [OF _ ext])
    from walks_extends [OF this] show ?thesis
      by (rule walks_conseq) (use vol_plan_extends [OF that] in \<open>unfold vols_done_def, blast\<close>)
  qed
  show ?thesis
    unfolding ensureVolumeJobs_def firstNode_def list_nodes_def bindE_def
    by (cases "k_nodes K l"; auto intro!: walks_rules jobs plan dest!: place_volumes_error)
      (simp_all add: failed_for_cause_def reasons_differ)
qed

section \<open>Recording\<close>

fun restore_patch :: "(restore_phase \<Rightarrow> bool) \<Rightarrow> kcall \<Rightarrow> bool" where
  "restore_patch F (Write (PatchRestoreStatus ns n st)) \<longleftrightarrow> F (rst_phase st)"
| "restore_patch F _ \<longleftrightarrow> False"

definition restore_settled :: "kcall list \<Rightarrow> outcome \<Rightarrow> kcall list \<Rightarrow> bool" where
  "restore_settled l x h \<longleftrightarrow> (x = Inr NoRequeue \<longrightarrow> since l (restore_patch rterminal) h) \<and>
     (\<forall>w. x = Inr (RequeueAfter w) \<longrightarrow> w = requeueWait)"

lemma restore_settled_earlier: "restore_settled l x h \<Longrightarrow> extends l l0 \<Longrightarrow> restore_settled l0 x h"
  by (auto simp: restore_settled_def intro: since_earlier)

text \<open>The Jobs of a status are never forgotten, and come sorted by name.\<close>

definition jobs_kept :: "PBSRestore \<Rightarrow> RestoreJobStatus list option \<Rightarrow> bool" where
  "jobs_kept rs js \<longleftrightarrow> (\<forall>v. js = Some v \<longrightarrow>
     rj_job ` set (rst_jobs (r_status rs)) \<subseteq> rj_job ` set v \<and> sorted (map rj_job v))"

lemma live_entry_name [simp]: "rj_job (live_entry rs j) = job_name j"
  by (simp add: live_entry_def)

lemma merge_jobs_kept: "jobs_kept rs (Some (merge_jobs rs items))"
proof -
  let ?live = "set (map job_name items)"
  let ?js = "map (live_entry rs) items @ filter (\<lambda>js. rj_job js \<notin> ?live) (rst_jobs (r_status rs))"
  have "?live \<subseteq> rj_job ` set ?js" by force
  moreover have "rj_job js \<in> rj_job ` set ?js" if "js \<in> set (rst_jobs (r_status rs))" "rj_job js \<notin> ?live" for js
    using that by (intro imageI) simp
  ultimately have "rj_job ` set (rst_jobs (r_status rs)) \<subseteq> rj_job ` set ?js" by blast
  then show ?thesis by (simp add: jobs_kept_def merge_jobs_def Let_def)
qed

lemma jobs_kept_None [simp]: "jobs_kept rs None"
  by (simp add: jobs_kept_def)

lemma liveJobs_gives: "gives (safely quiet (jobs_kept rs)) (liveJobs K rs)"
  unfolding liveJobs_def list_jobs_def
  by (auto intro!: gives_rules merge_jobs_kept)

definition stamped_restore :: "kube \<Rightarrow> PBSRestore \<Rightarrow> restore_phase \<Rightarrow> condition \<Rightarrow> PBSRestoreStatus \<Rightarrow> bool" where
  "stamped_restore K rs phase c s \<longleftrightarrow>
     (\<exists>l. s = (r_status rs)\<lparr>rst_conditions := fst (k_setCondition K l (rst_conditions (r_status rs))
            (c\<lparr>cond_generation := om_generation (r_meta rs)\<rparr>)), rst_phase := phase\<rparr>)"

lemma stamped_restore_fields:
  "stamped_restore K rs phase c s \<Longrightarrow> rst_phase s = phase \<and> rst_jobs s = rst_jobs (r_status rs) \<and>
     rst_startedAt s = rst_startedAt (r_status rs) \<and> rst_completedAt s = rst_completedAt (r_status rs)"
  by (auto simp: stamped_restore_def)

lemma condition_of_stamped_restore:
  assumes "stamped_restore K rs phase c s" "condition_laws K" "cond_type c = condReady"
  shows "k_conditionTrue K (rst_conditions s) condReady \<longleftrightarrow> cond_status c = CondTrue"
proof -
  let ?c = "c\<lparr>cond_generation := om_generation (r_meta rs)\<rparr>"
  obtain l where "rst_conditions s = fst (k_setCondition K l (rst_conditions (r_status rs)) ?c)"
    using assms(1) by (auto simp: stamped_restore_def)
  moreover have "k_conditionTrue K (fst (k_setCondition K l (rst_conditions (r_status rs)) ?c)) (cond_type ?c) \<longleftrightarrow>
      cond_status ?c = CondTrue"
    using assms(2) unfolding condition_laws_def by blast
  ultimately show ?thesis using assms(3) by simp
qed

lemma recordRestore_walks:
  assumes extra: "\<And>s. stamped_restore K rs phase c s \<Longrightarrow>
      gives (safely quiet (\<lambda>(s', js). rst_phase (set_jobs s' js) = phase \<and> restore_step K (r_status rs) (set_jobs s' js)))
        (extra s)"
    and just: "phase_justified A K rs l phase"
  shows "walks (restore_call A img K rs)
    (\<lambda>x h. \<forall>t. x = Inr t \<longrightarrow> phase \<noteq> rst_phase (r_status rs) \<longrightarrow> since l (restore_patch ((=) phase)) h)
    l (recordRestore K rs phase c extra)"
proof -
  obtain conds t where ct: "k_setCondition K l (rst_conditions (r_status rs))
      (c\<lparr>cond_generation := om_generation (r_meta rs)\<rparr>) = (conds, t)" by fastforce
  have st: "stamped_restore K rs phase c ((r_status rs)\<lparr>rst_conditions := conds, rst_phase := phase\<rparr>)"
    unfolding stamped_restore_def by (rule exI [of _ l]) (simp only: ct fst_conv)
  have patch: "walks (restore_call A img K rs)
      (\<lambda>x h. \<forall>t. x = Inr t \<longrightarrow> phase \<noteq> rst_phase (r_status rs) \<longrightarrow> since l (restore_patch ((=) phase)) h) h
      (if set_jobs s js = r_status rs \<and> js \<noteq> Some [] then State_Monad.return (Inr t)
       else skipE (do_write K (PatchRestoreStatus (r_ns rs) (r_name rs) (set_jobs s js)))
         (State_Monad.return (Inr t)))"
    if "rst_phase (set_jobs s js) = phase" "restore_step K (r_status rs) (set_jobs s js)" "extends h l" for s js h
  proof -
    have "phase_justified A K rs h phase" using phase_justified_extends [OF just that(3)] .
    moreover have "since l (restore_patch ((=) phase)) (h @ [Write (PatchRestoreStatus (r_ns rs) (r_name rs) (set_jobs s js))])"
      by (rule since_earlier [OF _ that(3)]) (simp add: that(1))
    ultimately show ?thesis
      using that(1,2) unfolding do_write_def by (auto intro!: walks_rules)
  qed
  show ?thesis
    unfolding recordRestore_def
  proof (rule walks_bind_observe, unfold ct prod.case,
      rule walks_bind [OF gives_walks [OF extra [OF st] quiet_restore_call]])
    fix x h
    assume "case x of (s', js) \<Rightarrow> rst_phase (set_jobs s' js) = phase \<and> restore_step K (r_status rs) (set_jobs s' js)"
      and h: "extends h l"
    moreover obtain s js where x: "x = (s, js)" by fastforce
    ultimately show "walks (restore_call A img K rs)
        (\<lambda>x h. \<forall>t. x = Inr t \<longrightarrow> phase \<noteq> rst_phase (r_status rs) \<longrightarrow> since l (restore_patch ((=) phase)) h) h
        (case x of (s, js) \<Rightarrow> if set_jobs s js = r_status rs \<and> js \<noteq> Some [] then State_Monad.return (Inr t)
          else skipE (do_write K (PatchRestoreStatus (r_ns rs) (r_name rs) (set_jobs s js)))
            (State_Monad.return (Inr t)))"
      unfolding x prod.case by (intro patch) simp_all
  qed
qed

subsection \<open>The ends of a reconcile\<close>

lemma set_jobs_simps [simp]:
  "rst_phase (set_jobs s js) = rst_phase s" "rst_conditions (set_jobs s js) = rst_conditions s"
  "rst_startedAt (set_jobs s js) = rst_startedAt s" "rst_completedAt (set_jobs s js) = rst_completedAt s"
  "rst_jobs (set_jobs s js) = (case js of None \<Rightarrow> rst_jobs s | Some v \<Rightarrow> v)"
  by (simp_all add: set_jobs_def split: option.split)

lemma restore_stepI:
  assumes "stamped_restore K rs phase (new_condition st reason msg) s" "\<not> rterminal (rst_phase (r_status rs))"
    and "st = CondTrue \<longleftrightarrow> phase = RestorePhaseCompleted" "phase \<noteq> RestorePhaseNew" "jobs_kept rs js"
    and "a = rst_startedAt s \<or> rst_startedAt s = None" "b = rst_completedAt s \<or> rst_completedAt s = None \<and> rterminal phase"
    and "rterminal phase \<longrightarrow> b \<noteq> None"
    and "phase = RestorePhaseRestoringVolumes \<or> phase = RestorePhaseApplyingWorkloads \<longrightarrow>
      a \<noteq> None \<or> phase = rst_phase (r_status rs) \<and> a = rst_startedAt s"
  shows "rst_phase (set_jobs (s\<lparr>rst_startedAt := a, rst_completedAt := b\<rparr>) js) = phase \<and>
    restore_step K (r_status rs) (set_jobs (s\<lparr>rst_startedAt := a, rst_completedAt := b\<rparr>) js)"
proof
  note s = stamped_restore_fields [OF assms(1)]
  show "rst_phase (set_jobs (s\<lparr>rst_startedAt := a, rst_completedAt := b\<rparr>) js) = phase" using s by simp
  let ?t = "set_jobs (s\<lparr>rst_startedAt := a, rst_completedAt := b\<rparr>) js"
  have jobs: "rj_job ` set (rst_jobs (r_status rs)) \<subseteq> rj_job ` set (rst_jobs ?t)"
      "rst_jobs ?t = rst_jobs (r_status rs) \<or> sorted (map rj_job (rst_jobs ?t))"
    using assms(5) s by (auto simp: jobs_kept_def split: option.split)
  have cond: "condition_laws K \<longrightarrow>
      (k_conditionTrue K (rst_conditions ?t) condReady \<longleftrightarrow> rst_phase ?t = RestorePhaseCompleted)"
    using condition_of_stamped_restore [OF assms(1)] assms(3) s by simp
  have t: "rst_phase ?t = phase" "rst_startedAt ?t = a" "rst_completedAt ?t = b" using s by simp_all
  have old: "rst_startedAt s = rst_startedAt (r_status rs)" "rst_completedAt s = rst_completedAt (r_status rs)"
    using s by simp_all
  show "restore_step K (r_status rs) ?t"
    unfolding restore_step_def t
    by (intro conjI jobs cond [unfolded t]) (use assms(2,4,6-9) in \<open>auto simp del: not_None_eq simp: old\<close>)
qed

lemma notifyRestore_gives:
  "gives (safely (\<lambda>c. \<exists>ty r n. c = Event ''PBSRestore'' (r_name rs) ty r '''' n) (\<lambda>_. True)) (notifyRestore rs t ty reason note)"
  unfolding notifyRestore_def emit_def by (auto intro!: gives_rules)

lemma end_walks:
  assumes m: "walks (restore_call A img K rs)
      (\<lambda>x h. \<forall>t. x = Inr t \<longrightarrow> phase \<noteq> rst_phase (r_status rs) \<longrightarrow> since l (restore_patch ((=) phase)) h) l m"
    and r: "r = NoRequeue \<longrightarrow> rterminal phase \<and> phase \<noteq> rst_phase (r_status rs)"
      "\<forall>w. r = RequeueAfter w \<longrightarrow> w = requeueWait"
  shows "walks (restore_call A img K rs) (restore_settled l) l
    (bindE m (\<lambda>t. do { notifyRestore rs t ty reason note; State_Monad.return (Inr r) }))"
proof (rule walks_bindE [OF m])
  fix t h assume h: "\<forall>t'. (Inr t :: gerr + bool) = Inr t' \<longrightarrow> phase \<noteq> rst_phase (r_status rs) \<longrightarrow>
      since l (restore_patch ((=) phase)) h" and hl: "extends h l"
  have "restore_settled l (Inr r) h'" if "extends h' h" for h'
  proof -
    have "since l (restore_patch rterminal) h'" if "r = NoRequeue"
    proof -
      have "list_ex (restore_patch ((=) phase)) (drop (length l) h')"
        using h hl r(1) that \<open>extends h' h\<close> by (auto simp: since_def extends_def)
      then obtain c where c: "c \<in> set (drop (length l) h')" "restore_patch ((=) phase) c" by (auto simp: list_ex_iff)
      then have "restore_patch rterminal c"
        using r(1) that by (cases "((=) phase, c)" rule: restore_patch.cases) auto
      with c(1) show ?thesis by (auto simp: since_def list_ex_iff)
    qed
    with r(2) show ?thesis by (simp add: restore_settled_def)
  qed
  then show "walks (restore_call A img K rs) (restore_settled l) h
      (do { notifyRestore rs t ty reason note; State_Monad.return (Inr r) })"
    by (intro walks_bind [OF gives_walks [OF notifyRestore_gives]] walks_return) auto
qed (simp add: restore_settled_def)

lemma holdRestore_walks:
  assumes "\<not> rterminal (rst_phase (r_status rs))"
  shows "walks (restore_call A img K rs) (restore_settled l) l (holdRestore K rs reason msg requeueWait)"
proof -
  let ?p = "holdPhase (rst_phase (r_status rs))"
  have p: "?p \<noteq> RestorePhaseNew" "\<not> rterminal ?p" using assms by (auto simp: holdPhase_def)
  have "gives (safely quiet (\<lambda>(s', js). rst_phase (set_jobs s' js) = ?p \<and> restore_step K (r_status rs) (set_jobs s' js)))
      (State_Monad.return (s, None))" if s: "stamped_restore K rs ?p (new_condition CondFalse reason msg) s" for s
    using restore_stepI [OF s assms _ p(1), of None "rst_startedAt s" "rst_completedAt s"] p
    by (intro gives_safely_return) (auto simp: holdPhase_def split: if_splits)
  then show ?thesis
    unfolding holdRestore_def
    by (intro end_walks [OF recordRestore_walks]) (auto simp: phase_justified_def)
qed

lemma end_status_gives:
  assumes "stamped_restore K rs phase (new_condition st reason msg) s" "\<not> rterminal (rst_phase (r_status rs))"
    and "st = CondTrue \<longleftrightarrow> phase = RestorePhaseCompleted" "rterminal phase"
  shows "gives (safely quiet (\<lambda>(s', js). rst_phase (set_jobs s' js) = phase \<and> restore_step K (r_status rs) (set_jobs s' js)))
    (end_status K rs s)"
proof -
  have *: "rst_phase (set_jobs (s\<lparr>rst_completedAt := b\<rparr>) js) = phase \<and>
      restore_step K (r_status rs) (set_jobs (s\<lparr>rst_completedAt := b\<rparr>) js)"
    if "jobs_kept rs js" "b = rst_completedAt s \<or> rst_completedAt s = None" "b \<noteq> None" for js b
    using restore_stepI [OF assms(1-3) _ that(1), of "rst_startedAt s" b] assms(4) that by auto
  have **: "rst_phase (set_jobs s js) = phase \<and> restore_step K (r_status rs) (set_jobs s js)"
    if "jobs_kept rs js" "rst_completedAt s = Some t" for js t
    using * [OF that(1) disjI1 [OF refl] option.distinct(2) [of t, folded that(2)]] by simp
  show ?thesis
    unfolding end_status_def
  proof (rule gives_safely_bind [OF liveJobs_gives])
    fix js assume js: "jobs_kept rs js"
    show "gives (safely quiet (\<lambda>(s', js). rst_phase (set_jobs s' js) = phase \<and> restore_step K (r_status rs) (set_jobs s' js)))
      (case rst_completedAt s of
         Some t \<Rightarrow> State_Monad.return (s, js)
       | None \<Rightarrow> do { now \<leftarrow> read_clock K; State_Monad.return (s\<lparr>rst_completedAt := Some now\<rparr>, js) })"
    proof (cases "rst_completedAt s")
      case None
      show ?thesis
        by (simp only: None option.case, intro gives_safely_bind [OF clock_gives] gives_safely_return,
            simp only: prod.case, rule * [OF js]) (simp_all add: None)
    next
      case (Some t)
      show ?thesis
        by (simp only: Some option.case, intro gives_safely_return, simp only: prod.case, rule ** [OF js Some])
    qed
  qed
qed

lemma failRestore_walks:
  assumes "\<not> rterminal (rst_phase (r_status rs))" "phase_justified A K rs l RestorePhaseFailed"
  shows "walks (restore_call A img K rs) (restore_settled l) l (failRestore K rs reason msg)"
  unfolding failRestore_def using assms
  by (intro end_walks [OF recordRestore_walks] end_status_gives) auto

lemma completeRestore_walks:
  assumes "\<not> rterminal (rst_phase (r_status rs))" "phase_justified A K rs l RestorePhaseCompleted"
  shows "walks (restore_call A img K rs) (restore_settled l) l (completeRestore K rs)"
  unfolding completeRestore_def Let_def using assms
  by (intro end_walks [OF recordRestore_walks] end_status_gives) auto

lemma progress_status_gives:
  assumes s: "stamped_restore K rs phase (new_condition CondFalse reason msg) s"
    and "\<not> rterminal (rst_phase (r_status rs))" "phase \<noteq> RestorePhaseNew" "\<not> rterminal phase"
  shows "gives (safely quiet (\<lambda>(s', js). rst_phase (set_jobs s' js) = phase \<and> restore_step K (r_status rs) (set_jobs s' js)))
    (progress_status K rs s)"
proof -
  have *: "rst_phase (set_jobs (s\<lparr>rst_startedAt := a\<rparr>) js) = phase \<and>
      restore_step K (r_status rs) (set_jobs (s\<lparr>rst_startedAt := a\<rparr>) js)"
    if "jobs_kept rs js" "a = rst_startedAt s \<or> rst_startedAt s = None" "a \<noteq> None" for js a
    using restore_stepI [OF s assms(2) _ assms(3) that(1), of a "rst_completedAt s"] assms(4) that by auto
  have **: "rst_phase (set_jobs s js) = phase \<and> restore_step K (r_status rs) (set_jobs s js)"
    if "jobs_kept rs js" "rst_startedAt s = Some t" for js t
    using * [OF that(1) disjI1 [OF refl] option.distinct(2) [of t, folded that(2)]] by simp
  show ?thesis
  proof (cases "rst_startedAt s")
    case None
    show ?thesis
      unfolding progress_status_def
      by (simp only: None option.case, intro gives_safely_bind [OF clock_gives] gives_safely_bind [OF liveJobs_gives]
          gives_safely_return, simp only: prod.case, rule *) (simp_all add: None)
  next
    case (Some t)
    show ?thesis
      unfolding progress_status_def
      by (simp only: Some option.case, intro gives_safely_bind [OF liveJobs_gives] gives_safely_return,
          simp only: prod.case, rule ** [OF _ Some])
  qed
qed

lemma requeueOrHold_walks:
  assumes "\<not> rterminal (rst_phase (r_status rs))"
    and "\<And>e. err = Some e \<Longrightarrow> failed_for_cause K rs e l"
    and "err = None \<Longrightarrow> phase_justified A K rs l phase \<and> phase \<noteq> RestorePhaseNew \<and> \<not> rterminal phase"
  shows "walks (restore_call A img K rs) (restore_settled l) l (requeueOrHold K rs phase err)"
proof (cases err)
  case None
  then have p: "phase_justified A K rs l phase" "phase \<noteq> RestorePhaseNew" "\<not> rterminal phase" using assms(3) by simp_all
  show ?thesis
    unfolding requeueOrHold_def None option.case
    by (rule walks_bindE [OF recordRestore_walks [OF progress_status_gives [OF _ assms(1) p(2,3)] p(1)]])
      (auto intro: walks_return simp: restore_settled_def)
next
  case (Some e)
  show ?thesis
  proof (cases e)
    case (Hold reason msg)
    have "phase_justified A K rs l RestorePhaseFailed" if "reason = reasonFailed"
      using assms(2) [OF Some] that Hold by (auto simp: failed_for_cause_def phase_justified_def)
    with Some Hold assms(1) show ?thesis
      by (auto simp: requeueOrHold_def intro: failRestore_walks holdRestore_walks)
  next
    case (ApiErr g)
    with Some show ?thesis by (auto simp: requeueOrHold_def restore_settled_def intro: walks_return)
  qed
qed

subsection \<open>The pipeline\<close>

lemma settled_walks:
  "walks P (restore_settled h) h m \<Longrightarrow> extends h l \<Longrightarrow> walks P (restore_settled l) h m"
  by (erule walks_conseq) (rule restore_settled_earlier)

lemma await_walks:
  assumes "\<not> rterminal (rst_phase (r_status rs))" "phase \<noteq> RestorePhaseNew" "\<not> rterminal phase"
    and step: "walks (restore_call A img K rs) R l step"
    and "\<And>e h. R (Inl e) h \<Longrightarrow> extends h l \<Longrightarrow> failed_for_cause K rs e h"
    and "\<And>h. R (Inr False) h \<Longrightarrow> extends h l \<Longrightarrow> phase_justified A K rs h phase"
    and "\<And>h. R (Inr True) h \<Longrightarrow> extends h l \<Longrightarrow> walks (restore_call A img K rs) (restore_settled h) h rest"
  shows "walks (restore_call A img K rs) (restore_settled l) l (await K rs phase step rest)"
  unfolding await_def
proof (rule walks_step [OF step])
  fix e h assume "R (Inl e) h" "extends h l"
  then show "walks (restore_call A img K rs) (restore_settled l) h (requeueOrHold K rs phase (Some e))"
    by (intro settled_walks [OF requeueOrHold_walks [OF assms(1)]]) (simp_all add: assms(5))
next
  fix h assume "R (Inr False) h" "extends h l"
  then show "walks (restore_call A img K rs) (restore_settled l) h (requeueOrHold K rs phase None)"
    by (intro settled_walks [OF requeueOrHold_walks [OF assms(1)]]) (simp_all add: assms(2,3,6))
next
  fix h assume "R (Inr True) h" "extends h l"
  then show "walks (restore_call A img K rs) (restore_settled l) h rest"
    by (intro settled_walks [OF assms(7)])
qed

lemma ensure_pipeline_job:
  assumes "\<And>h. extends h l \<Longrightarrow> pipeline_job A K rs (restore_spec img rs sec) h name build"
  shows "walks (restore_call A img K rs)
    (\<lambda>x h. (\<forall>e. x = Inl e \<longrightarrow> failed_for_cause K rs e h) \<and> (x = Inr True \<longrightarrow> job_done K rs name h) \<and>
       (x = Inr False \<longrightarrow> job_open K rs name h)) l (ensureJob K rs name build)"
  by (rule ensureJob_walks, rule created_pipeline_jobI [OF assms]) simp_all

lemma apply_workloads_walks:
  assumes "\<not> rterminal (rst_phase (r_status rs))"
    and "job_done K rs (fetch_name rs) l" "job_done K rs (pre_name rs) l" "vols_done A K rs l"
  shows "walks (restore_call A img K rs) (restore_settled l) l (apply_workloads K rs (restore_spec img rs sec))"
  unfolding apply_workloads_def
proof (rule await_walks [OF assms(1) _ _ ensure_pipeline_job])
  show "pipeline_job A K rs (restore_spec img rs sec) h (workload_name rs) (apply_build rs (restore_spec img rs sec) ''workload'')"
    if "extends h l" for h
    using assms(2-4) evidence_extends that by (blast intro: pipeline_job.workload)
  fix h assume h: "extends h l"
  then have ready: "job_done K rs (fetch_name rs) h" "job_done K rs (pre_name rs) h" "vols_done A K rs h"
    using assms(2-4) evidence_extends by blast+
  show "phase_justified A K rs h RestorePhaseApplyingWorkloads" using ready by (simp add: phase_justified_def)
  assume "(\<forall>e. (Inr True :: restore_error + bool) = Inl e \<longrightarrow> failed_for_cause K rs e h) \<and>
      ((Inr True :: restore_error + bool) = Inr True \<longrightarrow> job_done K rs (workload_name rs) h) \<and>
      ((Inr True :: restore_error + bool) = Inr False \<longrightarrow> job_open K rs (workload_name rs) h)"
  then show "walks (restore_call A img K rs) (restore_settled h) h (completeRestore K rs)"
    using ready assms(1) by (intro completeRestore_walks) (auto simp: phase_justified_def)
qed auto

lemma restore_volumes_walks:
  assumes "\<not> rterminal (rst_phase (r_status rs))"
    and "job_done K rs (fetch_name rs) l" "job_done K rs (pre_name rs) l" "staged K rs (label (cm_data cm) ''api.yaml'') l"
  shows "walks (restore_call A img K rs) (restore_settled l) l (restore_volumes A K rs (restore_spec img rs sec) cm)"
proof (cases "ParseAPIManifests A (label (cm_data cm) ''api.yaml'') (r_target rs)")
  case (Inl err)
  have "phase_justified A K rs l RestorePhaseFailed"
    unfolding phase_justified_def using assms(4) Inl by auto
  then show ?thesis
    unfolding restore_volumes_def Inl sum.case by (rule failRestore_walks [OF assms(1)])
next
  case (Inr docs)
  have vols: "walks (restore_call A img K rs) (restore_settled l) l
      (await K rs RestorePhaseRestoringVolumes
        (ensureVolumeJobs K rs (restore_spec img rs sec) docs (planned_claims A rs docs))
        (apply_workloads K rs (restore_spec img rs sec)))"
  proof (rule await_walks [OF assms(1) _ _ ensureVolumeJobs_walks [OF assms(2-4) Inr]])
    fix h assume h: "extends h l"
    then have ready: "job_done K rs (fetch_name rs) h" "job_done K rs (pre_name rs) h"
      using assms(2,3) evidence_extends by blast+
    show "phase_justified A K rs h RestorePhaseRestoringVolumes" using ready by (simp add: phase_justified_def)
    assume "(\<forall>e. (Inr True :: restore_error + bool) = Inl e \<longrightarrow> failed_for_cause K rs e h) \<and>
        ((Inr True :: restore_error + bool) = Inr True \<longrightarrow> vols_done A K rs h)"
    then show "walks (restore_call A img K rs) (restore_settled h) h (apply_workloads K rs (restore_spec img rs sec))"
      by (intro apply_workloads_walks assms(1) ready) simp
  qed auto
  have "vols_done A K rs l" if "planned_claims A rs docs = []"
    using that assms(4) Inr unfolding vols_done_def vol_plan_def by (intro exI [of _ "[]"]) auto
  then show ?thesis
    unfolding restore_volumes_def Inr sum.case Let_def
    using vols apply_workloads_walks [OF assms(1-3)] by simp
qed

lemma adoptConfigMap_walks:
  assumes "k_configMap K l0 (r_target rs) (staged_name rs) = Inr cm" "extends l l0"
  shows "walks (restore_call A img K rs) (\<lambda>c h. staged K rs (label (cm_data c) ''api.yaml'') h) l (adoptConfigMap K rs cm)"
proof -
  have s: "staged K rs (label (cm_data cm) ''api.yaml'') (l @ n)" for n
    using assms unfolding staged_def extends_def by (intro exI [of _ "length l0"]) auto
  have s': "staged K rs (label (cm_data c) ''api.yaml'') h" if "k_configMap K h (r_target rs) (staged_name rs) = Inr c" for c h
    using that unfolding staged_def by (intro exI [of _ "length h"]) auto
  show ?thesis
    unfolding adoptConfigMap_def do_write_def
    using s [of "[]"] s [of "[_]"]
    by (auto intro!: walks_rules simp: walks_def dest!: set_owner_fields intro: s' split: sum.split)
qed

lemma apply_pre_walks:
  assumes "\<not> rterminal (rst_phase (r_status rs))" "job_done K rs (fetch_name rs) l"
  shows "walks (restore_call A img K rs) (restore_settled l) l (apply_pre A K rs (restore_spec img rs sec))"
proof -
  let ?c = "Read (GetConfigMap (r_target rs) (staged_name rs))"
  have pre: "walks (restore_call A img K rs) (restore_settled (l @ [?c])) (l @ [?c])
      (do { cm \<leftarrow> adoptConfigMap K rs cm;
         await K rs RestorePhaseStagingAPI
           (ensureJob K rs (pre_name rs) (apply_build rs (restore_spec img rs sec) ''pre''))
           (restore_volumes A K rs (restore_spec img rs sec) cm) })"
    if "k_configMap K l (r_target rs) (staged_name rs) = Inr cm" for cm
  proof (rule walks_bind [OF adoptConfigMap_walks [OF that]])
    fix c :: config_map and h assume c: "staged K rs (label (cm_data c) ''api.yaml'') h" and h: "extends h (l @ [?c])"
    have fetched: "job_done K rs (fetch_name rs) h'" if "extends h' h" for h'
      using assms(2) seen_extends extends_trans [OF that h] extends_trans extends_append by blast
    have "walks (restore_call A img K rs) (restore_settled h) h
        (await K rs RestorePhaseStagingAPI
          (ensureJob K rs (pre_name rs) (apply_build rs (restore_spec img rs sec) ''pre''))
          (restore_volumes A K rs (restore_spec img rs sec) c))"
    proof (rule await_walks [OF assms(1) _ _ ensure_pipeline_job])
      show "pipeline_job A K rs (restore_spec img rs sec) h' (pre_name rs) (apply_build rs (restore_spec img rs sec) ''pre'')"
        if "extends h' h" for h'
        by (rule pipeline_job.pre [OF fetched [OF that]])
      fix h' assume "(\<forall>e. (Inr True :: restore_error + bool) = Inl e \<longrightarrow> failed_for_cause K rs e h') \<and>
          ((Inr True :: restore_error + bool) = Inr True \<longrightarrow> job_done K rs (pre_name rs) h') \<and>
          ((Inr True :: restore_error + bool) = Inr False \<longrightarrow> job_open K rs (pre_name rs) h')" "extends h' h"
      then show "walks (restore_call A img K rs) (restore_settled h') h' (restore_volumes A K rs (restore_spec img rs sec) c)"
        using staged_extends [OF c] by (intro restore_volumes_walks assms(1) fetched) simp_all
    qed (auto simp: phase_justified_def)
    then show "walks (restore_call A img K rs) (restore_settled (l @ [?c])) h
        (await K rs RestorePhaseStagingAPI
          (ensureJob K rs (pre_name rs) (apply_build rs (restore_spec img rs sec) ''pre''))
          (restore_volumes A K rs (restore_spec img rs sec) c))"
      using settled_walks h by blast
  qed simp
  show ?thesis
    unfolding apply_pre_def get_configMap_def
  proof (rule walks_bind_call)
    show "walks (restore_call A img K rs) (restore_settled l) (l @ [?c])
      (case k_configMap K l (r_target rs) (staged_name rs) of
         Inl e \<Rightarrow>
           if e = NotFound
           then holdRestore K rs reasonStagingAbsent
                  (''fetch Job completed but ConfigMap '' @ staged_name rs @ '' is absent'') requeueWait
           else State_Monad.return (Inl e)
       | Inr cm \<Rightarrow> do {
           cm \<leftarrow> adoptConfigMap K rs cm;
           await K rs RestorePhaseStagingAPI
             (ensureJob K rs (pre_name rs) (apply_build rs (restore_spec img rs sec) ''pre''))
             (restore_volumes A K rs (restore_spec img rs sec) cm) })"
      by (intro walks_case_sum walks_if settled_walks [OF holdRestore_walks [OF assms(1)]]
          settled_walks [OF pre] walks_return) (simp_all add: restore_settled_def)
  qed simp
qed

lemma run_pipeline_walks:
  assumes "\<not> rterminal (rst_phase (r_status rs))"
  shows "walks (restore_call A img K rs) (restore_settled l) l (run_pipeline A K rs (restore_spec img rs sec))"
  unfolding run_pipeline_def
  by (rule await_walks [OF assms _ _ ensure_pipeline_job])
    (auto simp: phase_justified_def intro: pipeline_job.fetch apply_pre_walks [OF assms])

subsection \<open>The gates\<close>

fun gate_call :: "PBSRestore \<Rightarrow> kcall \<Rightarrow> bool" where
  "gate_call rs (Read r) \<longleftrightarrow> True"
| "gate_call rs (Write (CreateNamespace n)) \<longleftrightarrow> n = r_target rs"
| "gate_call rs (Write (CreateSecret s)) \<longleftrightarrow> contract_copy (r_target rs) s \<and>
     om_namespace (sec_meta s) = r_target rs \<and> om_owners (sec_meta s) = []"
| "gate_call rs (Write (UpdateSecret s)) \<longleftrightarrow> contract_copy (r_target rs) s"
| "gate_call rs (Write (CreateServiceAccount m)) \<longleftrightarrow> m = restore_serviceAccount rs"
| "gate_call rs (Write (CreateRoleBinding b)) \<longleftrightarrow> b = restore_roleBinding rs"
| "gate_call rs (Write (CreateClusterRoleBinding b)) \<longleftrightarrow> b = restore_clusterRoleBinding rs"
| "gate_call rs _ \<longleftrightarrow> False"

lemma gate_call_ok: "gate_call rs c \<Longrightarrow> restore_call A img K rs h c"
  by (cases "(rs, c)" rule: gate_call.cases) auto

lemma create_missing_gives: "P (Write w) \<Longrightarrow> gives (safely P (\<lambda>_. True)) (create_missing K w)"
  unfolding create_missing_def do_write_def by (auto intro!: gives_rules)

lemma ensure_object_gives:
  assumes "gives (safely P (\<lambda>_. True)) get" "P (Write w)"
  shows "gives (safely P (\<lambda>_. True)) (ensure_object K get w)"
  unfolding ensure_object_def
  by (rule gives_safely_bind [OF assms(1)]) (auto intro!: gives_rules create_missing_gives assms(2))

lemma ensureTargetNamespace_gives: "gives (safely (gate_call rs) (\<lambda>_. True)) (ensureTargetNamespace K rs)"
  unfolding ensureTargetNamespace_def get_namespace_def
  by (auto intro!: gives_rules gives_safely_bindE [OF create_missing_gives])

lemma copy_secret_copies:
  "contract_copy ns (copy_secret name ns (contract_data d))" "om_namespace (sec_meta (copy_secret name ns data)) = ns"
  "om_owners (sec_meta (copy_secret name ns data)) = []"
  using contract_data_keys [of d] by (simp_all add: contract_copy_def copy_secret_def)

lemma ensureTargetRepoSecret_gives: "gives (safely (gate_call rs) (\<lambda>_. True)) (ensureTargetRepoSecret K rs repo)"
  unfolding ensureTargetRepoSecret_def Let_def get_secret_def do_write_def
  by (auto intro!: gives_rules copied_in_place gives_safely_bindE [OF create_missing_gives] simp: copy_secret_copies)

lemma ensureJobRBAC_gives: "gives (safely (gate_call rs) (\<lambda>_. True)) (ensureJobRBAC K rs)"
proof -
  have get: "gives (safely (gate_call rs) (\<lambda>_. True)) (get_serviceAccount K ns n)"
    "gives (safely (gate_call rs) (\<lambda>_. True)) (get_roleBinding K ns n)"
    "gives (safely (gate_call rs) (\<lambda>_. True)) (get_clusterRoleBinding K n)" for ns n
    by (simp_all add: client_defs gives_safely_call)
  show ?thesis
    unfolding ensureJobRBAC_def by (intro gives_safely_bindE [OF ensure_object_gives] ensure_object_gives get) simp_all
qed

lemma gate_then:
  assumes "gives (safely (gate_call rs) (\<lambda>_. True)) m"
    and "\<And>x h. walks (restore_call A img K rs) (restore_settled h) h (f x)"
  shows "walks (restore_call A img K rs) (restore_settled l) l (bindE m f)"
  by (rule walks_bindE [OF gives_walks [OF assms(1) gate_call_ok]])
    (auto intro: settled_walks [OF assms(2)] simp: restore_settled_def)

lemma prepare_target_walks:
  assumes "\<not> rterminal (rst_phase (r_status rs))"
  shows "walks (restore_call A img K rs) (restore_settled l) l (prepare_target A img K rs repo)"
  unfolding prepare_target_def
  by (intro gate_then [OF ensureTargetNamespace_gives] gate_then [OF ensureTargetRepoSecret_gives]
      gate_then [OF ensureJobRBAC_gives] walks_if walks_case_sum holdRestore_walks [OF assms] run_pipeline_walks [OF assms])

lemma reconcile_restore_walks:
  assumes "\<not> rterminal (rst_phase (r_status rs))"
  shows "walks (restore_call A img K rs) (restore_settled l) l (reconcile_restore A img K rs)"
proof (cases "validateSpec rs = ''''")
  case True
  let ?c = "Read (GetRepo (rs_repoRef (r_spec rs)))"
  note hold = settled_walks [OF holdRestore_walks [OF assms]] and go = settled_walks [OF prepare_target_walks [OF assms]]
  have "walks (restore_call A img K rs) (restore_settled l) l (do {
        r \<leftarrow> get_repo K (rs_repoRef (r_spec rs));
        case r of
          Inl e \<Rightarrow>
            if e \<noteq> NotFound then State_Monad.return (Inl e)
            else holdRestore K rs reasonRepoNotReady
                   (''PBSRepo '' @ rs_repoRef (r_spec rs) @ '' not found'') requeueWait
        | Inr repo \<Rightarrow>
            if \<not> k_conditionTrue K (rps_conditions (repo_status repo)) condReady
            then holdRestore K rs reasonRepoNotReady
                   (''PBSRepo '' @ om_name (repo_meta repo) @ '' is not Ready'') requeueWait
            else prepare_target A img K rs repo })"
    unfolding get_repo_def
    by (intro walks_bind_call walks_case_sum walks_if hold go walks_return) (simp_all add: restore_settled_def)
  with True assms show ?thesis by (simp add: reconcile_restore_def)
next
  case False
  with assms show ?thesis
    by (auto simp: reconcile_restore_def phase_justified_def intro!: failRestore_walks)
qed

end
