(* ===== verification/Restore_Correct.thy ===== *)
theory Restore_Correct
  imports Restore_Contract Agent_Args
begin

text \<open>
  What the PBSRestore reconciler promises, from the contract of one reconcile
  (\<open>Restore_Contract\<close>): the order of the pipeline, what its Jobs do, the rights and credentials it
  hands out, its progress, and the life of a restore over all its reconciles.
\<close>

section \<open>One reconcile\<close>

lemma RestoreReconcile_walks:
  assumes "k_restore K l ns n = Inr rs" "\<not> rterminal (rst_phase (r_status rs))"
  shows "walks (restore_call A img K rs) (restore_settled l) l (RestoreReconcile A img K ns n)"
  unfolding RestoreReconcile_def get_restore_def
proof (rule walks_bind_call)
  show "walks (restore_call A img K rs) (restore_settled l) (l @ [Read (GetRestore ns n)])
    (case k_restore K l ns n of Inl e \<Rightarrow> State_Monad.return (IgnoreNotFound e)
     | Inr rs \<Rightarrow> reconcile_restore A img K rs)"
    unfolding assms(1) sum.case by (rule settled_walks [OF reconcile_restore_walks [OF assms(2)]]) simp
qed simp

lemma restore_terminal_run:
  assumes "k_restore K l ns n = Inr rs" "rterminal (rst_phase (r_status rs))"
  shows "result (RestoreReconcile A img K ns n) l = Inr NoRequeue \<and>
    trace (RestoreReconcile A img K ns n) l = [Read (GetRestore ns n)]"
  using assms by (simp add: result_def trace_def RestoreReconcile_def get_restore_def reconcile_restore_def)

text \<open>Every call of a reconcile that is not its first read is justified at its own point.\<close>

lemma RestoreReconcile_call:
  assumes "k_restore K l ns n = Inr rs" "trace (RestoreReconcile A img K ns n) l = before @ c # after" "\<not> is_read c"
  shows "\<not> rterminal (rst_phase (r_status rs)) \<and> restore_call A img K rs (l @ before) c"
proof (cases "rterminal (rst_phase (r_status rs))")
  case True
  with restore_terminal_run [OF assms(1)] have "trace (RestoreReconcile A img K ns n) l = [Read (GetRestore ns n)]" by blast
  with assms(2) have "c = Read (GetRestore ns n)" by (cases before) auto
  with assms(3) show ?thesis by simp
next
  case False
  from walksD [OF RestoreReconcile_walks [OF assms(1) this]] assms(2) False show ?thesis
    by (metis all_at.simps(2) all_at_append)
qed

lemma RestoreReconcile_calls:
  assumes "k_restore K l ns n = Inr rs" "c \<in> set (trace (RestoreReconcile A img K ns n) l)" "\<not> is_read c"
  shows "\<not> rterminal (rst_phase (r_status rs)) \<and>
    (\<exists>before after. trace (RestoreReconcile A img K ns n) l = before @ c # after \<and>
       restore_call A img K rs (l @ before) c)"
  using RestoreReconcile_call [OF assms(1) _ assms(3)] assms(2) by (meson in_set_conv_decomp)

lemma owned_job_fields:
  assumes "owned_job K rs name build = Inr j"
  shows "job_name j = name" "om_namespace (job_meta j) = om_namespace (job_meta build)"
    "om_labels (job_meta j) = om_labels (job_meta build)" "job_podSpec j = job_podSpec build"
    "om_namespace (job_meta build) \<noteq> r_ns rs \<Longrightarrow> om_owners (job_meta j) = om_owners (job_meta build)"
  using assms by (auto simp: owned_job_def Let_def dest!: set_owner_fields split: if_splits sum.splits)

lemma restore_build_meta [simp]:
  "om_namespace (job_meta (BuildAPIFetchJob s cm)) = rjs_Namespace s"
  "om_namespace (job_meta (BuildApplyJob s p cm ds ks)) = rjs_Namespace s"
  "om_namespace (job_meta (BuildRestoreVolumeJob s node ps)) = rjs_Namespace s"
  "om_owners (job_meta (BuildAPIFetchJob s cm)) = []"
  "om_owners (job_meta (BuildApplyJob s p cm ds ks)) = []"
  "om_owners (job_meta (BuildRestoreVolumeJob s node ps)) = []"
  "ps_serviceAccount (job_podSpec (BuildAPIFetchJob s cm)) = rjs_ServiceAccount s"
  "ps_serviceAccount (job_podSpec (BuildApplyJob s p cm ds ks)) = rjs_ServiceAccount s"
  "ps_serviceAccount (job_podSpec (BuildRestoreVolumeJob s node ps)) = rjs_ServiceAccount s"
  by (simp_all add: restore_builder_defs split: prod.splits)

text \<open>A terminal restore is final: reconciling it reads the object and does nothing else.\<close>

theorem restore_terminal_final:
  assumes "k_restore K l ns n = Inr rs"
    and "rst_phase (r_status rs) = RestorePhaseCompleted \<or> rst_phase (r_status rs) = RestorePhaseFailed"
  shows "result (RestoreReconcile A img K ns n) l = Inr NoRequeue \<and>
    trace (RestoreReconcile A img K ns n) l = [Read (GetRestore ns n)]"
  using restore_terminal_run [OF assms] .

text \<open>C7: the pipeline runs in order: a reconcile creates a Job only in the target namespace, under
  the restore's own ServiceAccount, never one its status already knows, and only after it read
  every earlier stage as done: the pre apply after the fetch, a node's volume Job after both and
  after the volume Jobs of all smaller nodes of the plan, the workload apply after every volume
  Job of the plan made from the staged manifest.\<close>

theorem restore_pipeline_order:
  assumes "k_restore K l ns n = Inr rs"
    and "trace (RestoreReconcile A img K ns n) l = before @ Write (CreateJob j) # after"
  shows "om_namespace (job_meta j) = r_target rs \<and> ps_serviceAccount (job_podSpec j) = restoreSA \<and>
    \<not> knownJob rs (job_name j) \<and>
    (job_name j = fetch_name rs \<or>
     job_done K rs (fetch_name rs) (l @ before) \<and>
     (job_name j = pre_name rs \<or>
      job_done K rs (pre_name rs) (l @ before) \<and>
      (\<exists>gs. vol_plan A K rs gs (l @ before) \<and>
        ((\<exists>node\<in>set (map fst gs). job_name j = vol_jobName rs node \<and>
            (\<forall>m\<in>set (map fst gs). m < node \<longrightarrow> job_done K rs (vol_jobName rs m) (l @ before))) \<or>
         job_name j = workload_name rs \<and>
            (\<forall>m\<in>set (map fst gs). job_done K rs (vol_jobName rs m) (l @ before))))))"
proof -
  have "created_pipeline_job A img K rs (l @ before) j" using RestoreReconcile_call [OF assms] by simp
  then obtain sec name build where
    p: "pipeline_job A K rs (restore_spec img rs sec) (l @ before) name build"
    and j: "owned_job K rs name build = Inr j" and new: "\<not> knownJob rs name"
    unfolding created_pipeline_job_def by blast
  note f = owned_job_fields [OF j]
  have meta: "om_namespace (job_meta build) = r_target rs" "ps_serviceAccount (job_podSpec build) = restoreSA"
    using p by (cases; simp add: restore_spec_def apply_build_def)+
  show ?thesis
    using p new meta unfolding f by cases (auto simp: vols_done_def)
qed

subsection \<open>What the Jobs do\<close>

text \<open>The node of a claim: pinned by its workload, else the fallback.\<close>

definition volume_node :: "ParsedDoc list \<Rightarrow> string \<Rightarrow> string \<Rightarrow> string" where
  "volume_node docs fallback p = (if NodeForPVC docs p = '''' then fallback else NodeForPVC docs p)"

lemma place_volumes_groups:
  assumes "place_volumes docs fallback pvcs gs = Inr gs'"
  shows "group_get gs' node = group_get gs node @ filter (\<lambda>p. volume_node docs fallback p = node) pvcs"
    and "set (map fst gs') = set (map fst gs) \<union> volume_node docs fallback ` set pvcs"
    and "distinct (map fst gs) \<Longrightarrow> distinct (map fst gs')"
    and "'''' \<notin> set (map fst gs) \<Longrightarrow> '''' \<notin> set (map fst gs')"
  using assms
  by (induction docs fallback pvcs gs rule: place_volumes.induct)
    (auto simp: Let_def volume_node_def group_get_add group_add_keys group_add_distinct split: if_splits)

text \<open>The volume plan loses and repeats nothing: the claims grouped under a node are exactly the
  planned claims whose node it is, in the plan's order, each node has one group, none of them
  empty or nameless, and placing fails exactly when an unpinned claim meets a cluster without
  nodes.\<close>

theorem place_volumes_partition:
  "case place_volumes docs fallback pvcs [] of
     Inl err \<Rightarrow> fallback = '''' \<and> (\<exists>p\<in>set pvcs. NodeForPVC docs p = '''' \<and> err = Hold reasonUnplaceable (no_node_msg p))
   | Inr gs \<Rightarrow> distinct (map fst gs) \<and> '''' \<notin> set (map fst gs) \<and>
       list_all (\<lambda>node. group_get gs node \<noteq> [] \<and>
         group_get gs node = filter (\<lambda>p. volume_node docs fallback p = node) pvcs) (map fst gs) \<and>
       list_all (\<lambda>p. p \<in> set (group_get gs (volume_node docs fallback p))) pvcs"
proof (cases "place_volumes docs fallback pvcs []")
  case (Inl err)
  have "place_volumes docs fallback pvcs gs = Inl err \<Longrightarrow> fallback = '''' \<and>
      (\<exists>p\<in>set pvcs. NodeForPVC docs p = '''' \<and> err = Hold reasonUnplaceable (no_node_msg p))" for gs
    by (induction docs fallback pvcs gs rule: place_volumes.induct) (auto simp: Let_def split: if_splits)
  with Inl show ?thesis by simp
next
  case (Inr gs)
  have get: "group_get gs node = filter (\<lambda>p. volume_node docs fallback p = node) pvcs" for node
    using place_volumes_groups(1) [OF Inr] by (simp add: group_get_def)
  have keys: "set (map fst gs) = volume_node docs fallback ` set pvcs"
    using place_volumes_groups(2) [OF Inr] by simp
  have "group_get gs node \<noteq> []" if "node \<in> set (map fst gs)" for node
    using that unfolding keys get by (auto simp: filter_empty_conv)
  with get place_volumes_groups(3,4) [OF Inr] Inr show ?thesis
    by (auto simp: list_all_iff)
qed

text \<open>An invalid spec creates nothing.\<close>

lemma failRestore_no_job: "emits (\<lambda>c. \<not> is_createJob c) (failRestore K rs reason msg)"
  unfolding failRestore_def recordRestore_def end_status_def liveJobs_def notifyRestore_def
  by (intro emits_rules) (auto simp: call_class_defs)

lemma created_spec_valid:
  assumes "k_restore K l ns n = Inr rs" "Write (CreateJob j) \<in> set (trace (RestoreReconcile A img K ns n) l)"
  shows "validateSpec rs = ''''"
proof (rule ccontr)
  assume bad: "validateSpec rs \<noteq> ''''"
  have nt: "\<not> rterminal (rst_phase (r_status rs))"
    using RestoreReconcile_calls [OF assms] by simp
  have rest: "emits (\<lambda>c. \<not> is_createJob c) (reconcile_restore A img K rs)"
    using bad nt failRestore_no_job by (simp add: reconcile_restore_def)
  have run: "run_state (RestoreReconcile A img K ns n) l =
      run_state (reconcile_restore A img K rs) (l @ [Read (GetRestore ns n)])"
    by (simp add: RestoreReconcile_def get_restore_def assms(1))
  let ?l = "l @ [Read (GetRestore ns n)]"
  obtain t where t: "snd (run_state (reconcile_restore A img K rs) ?l) = ?l @ t" using emits_trace [OF rest] by blast
  have "trace (RestoreReconcile A img K ns n) l = Read (GetRestore ns n) # trace (reconcile_restore A img K rs) ?l"
    unfolding trace_def run t by simp
  with assms(2) have "Write (CreateJob j) \<in> set (trace (reconcile_restore A img K rs) ?l)" by simp
  from emits_traceD [OF rest this] show False by (simp add: is_createJob_def)
qed

lemma validateSpec_ref: "validateSpec rs = '''' \<Longrightarrow> rs_snapshotRef (r_spec rs) \<noteq> ''''"
  by (auto simp: validateSpec_def split: if_splits)

lemma vol_plan_full: "vol_plan A K rs gs h \<Longrightarrow> node \<in> set (map fst gs) \<Longrightarrow> group_get gs node \<noteq> []"
proof -
  assume "vol_plan A K rs gs h" and node: "node \<in> set (map fst gs)"
  then obtain docs fallback where "place_volumes docs fallback (planned_claims A rs docs) [] = Inr gs"
    by (auto simp: vol_plan_def)
  from place_volumes_groups(1,2) [OF this] node show ?thesis
    by (auto simp: group_get_def filter_empty_conv)
qed

text \<open>C13: every Job of the pipeline is one its agent can run: its command, read by the agent, is the
  step it is named for, with the restore's snapshot and filters: fetching the manifest into the
  ConfigMap the controller then reads, applying it before or after the volumes, or restoring
  the archives of the node's claims (at least one) where the Job mounts them.\<close>

theorem restore_creates_runnable_jobs:
  assumes "k_restore K l ns n = Inr rs"
    and "Write (CreateJob j) \<in> set (trace (RestoreReconcile A img K ns n) l)"
    and "list_all clean_kind (rs_dropKinds (r_spec rs))" "list_all clean_kind (rs_keepKinds (r_spec rs))"
  shows "\<exists>phase claims.
    job_name j = fetch_name rs \<and> agent_main getenv (job_command j) =
      DoRestoreVolume \<lparr>va_ref = rs_snapshotRef (r_spec rs),
        va_pairs = [\<lparr>rp_archive = ''api.pxar.didx'', rp_target = ''/staging/api''\<rparr>],
        va_configMap = staged_name rs, va_termlog = default_termlog getenv\<rparr> \<or>
    job_name j = jobName (r_name rs) (''api-'' @ phase) \<and> (phase = ''pre'' \<or> phase = ''workload'') \<and>
      agent_main getenv (job_command j) =
      DoApplyManifests \<lparr>aa_phase = phase, aa_file = ''/staging/api/api.yaml'',
        aa_drop = rs_dropKinds (r_spec rs), aa_keep = rs_keepKinds (r_spec rs),
        aa_termlog = default_termlog getenv\<rparr> \<or>
    (\<exists>node. job_name j = vol_jobName rs node \<and> ps_affinity (job_podSpec j) = Some (nodePin node)) \<and>
      claims \<noteq> [] \<and> agent_main getenv (job_command j) =
      DoRestoreVolume \<lparr>va_ref = rs_snapshotRef (r_spec rs),
        va_pairs = map (\<lambda>p. \<lparr>rp_archive = ''pvc-'' @ p @ ''.pxar.didx'', rp_target = ''/backup/'' @ p\<rparr>) claims,
        va_configMap = '''', va_termlog = default_termlog getenv\<rparr>"
proof -
  have ref: "rs_snapshotRef (r_spec rs) \<noteq> ''''" using created_spec_valid [OF assms(1,2)] validateSpec_ref by blast
  obtain h where "created_pipeline_job A img K rs h j" using RestoreReconcile_calls [OF assms(1,2)] by auto
  then obtain sec name build where p: "pipeline_job A K rs (restore_spec img rs sec) h name build"
    and j: "owned_job K rs name build = Inr j" unfolding created_pipeline_job_def by blast
  note f = owned_job_fields [OF j]
  let ?s = "restore_spec img rs sec"
  have s: "rjs_Ref ?s = rs_snapshotRef (r_spec rs)" "rjs_Ref ?s \<noteq> ''''" using ref by (simp_all add: restore_spec_def)
  have cmd: "job_command j = job_command build" by (simp add: job_command_def f)
  show ?thesis
    using p
  proof cases
    case fetch
    then show ?thesis
      using fetch_job_runs [OF s(2), of "staged_name rs" getenv] cmd by (simp add: f s staged_name_def)
  next
    case pre
    then show ?thesis
      using apply_command_runs [of "''pre''" "rs_dropKinds (r_spec rs)" "rs_keepKinds (r_spec rs)" getenv ?s "staged_name rs"] assms(3,4)
        cmd by (intro exI [of _ "''pre''"]) (simp add: f apply_build_def pre_name_def list_all_iff)
  next
    case (volume gs node)
    have ne: "sort (group_get gs node) \<noteq> []" using vol_plan_full [OF volume(5,6)] by (metis length_0_conv length_sort)
    have "ps_affinity (job_podSpec j) = Some (nodePin node)"
      unfolding f volume(2) by (simp add: restore_builder_defs split: prod.splits)
    then show ?thesis
      using volume_job_runs [OF s(2) ne, of getenv node] ne cmd volume(1,2) s(1) unfolding f
      by (intro exI [of _ "''''"] exI [of _ "sort (group_get gs node)"]) auto
  next
    case workload
    then show ?thesis
      using apply_command_runs [of "''workload''" "rs_dropKinds (r_spec rs)" "rs_keepKinds (r_spec rs)" getenv ?s "staged_name rs"] assms(3,4)
        cmd by (intro exI [of _ "''workload''"]) (simp add: f apply_build_def workload_name_def list_all_iff)
  qed
qed

subsection \<open>Rights, copies, progress\<close>

fun is_rbac :: "kwrite \<Rightarrow> bool" where
  "is_rbac (CreateServiceAccount m) \<longleftrightarrow> True"
| "is_rbac (CreateRoleBinding b) \<longleftrightarrow> True"
| "is_rbac (CreateClusterRoleBinding b) \<longleftrightarrow> True"
| "is_rbac _ \<longleftrightarrow> False"

text \<open>C17: least privilege: the only rights a reconcile grants are those of the target namespace's
  \<open>pbs-restore\<close> account, inside the target through the broad role, and in the whole cluster through
  the narrow role alone; every object it provisions carries the labels that find it again.\<close>

theorem restore_rbac_least_privilege:
  assumes "k_restore K l ns n = Inr rs"
    and "Write w \<in> set (trace (RestoreReconcile A img K ns n) l)" "is_rbac w"
  shows "\<exists>m b. om_labels m = [ManagedLabel \<mapsto> ''true'', ''pbsrestore'' \<mapsto> r_name rs] \<and>
    (w = CreateServiceAccount m \<and> om_name m = ''pbs-restore'' \<and> om_namespace m = r_target rs \<or>
     w = CreateRoleBinding b \<and> rb_meta b = m \<and> om_namespace m = r_target rs \<and>
       rb_role b = ''pbs-operator-pbs-restore'' \<and> rb_subject b = (r_target rs, ''pbs-restore'') \<or>
     w = CreateClusterRoleBinding b \<and> rb_meta b = m \<and>
       rb_role b = ''pbs-operator-pbs-restore-cluster'' \<and> rb_subject b = (r_target rs, ''pbs-restore''))"
proof -
  obtain h where w: "restore_write A img K rs h w" using RestoreReconcile_calls [OF assms(1,2)] by auto
  show ?thesis
  proof (cases w)
    case (CreateServiceAccount m)
    with w show ?thesis
      by (intro exI [of _ m]) (simp add: restore_serviceAccount_def restoreSA_def rbacLabels_def)
  next
    case (CreateRoleBinding b)
    with w show ?thesis
      by (intro exI [of _ "rb_meta b"] exI [of _ b])
        (simp add: restore_roleBinding_def restoreSA_def restoreRoleName_def rbacLabels_def)
  next
    case (CreateClusterRoleBinding b)
    with w show ?thesis
      by (intro exI [of _ "rb_meta b"] exI [of _ b])
        (simp add: restore_clusterRoleBinding_def restoreSA_def restoreClusterRoleName_def rbacLabels_def)
  qed (use assms(3) in simp_all)
qed

text \<open>The credentials reach the target namespace as the contract says, contract keys only and
  labelled, and the copy is nobody's dependent: a second restore into the same namespace does not
  lose it with the first.\<close>

theorem restore_copies_contract_only:
  assumes "k_restore K l ns n = Inr rs"
    and "Write (CreateSecret s) \<in> set (trace (RestoreReconcile A img K ns n) l) \<or>
         Write (UpdateSecret s) \<in> set (trace (RestoreReconcile A img K ns n) l)"
  shows "dom (sec_data s) \<subseteq> set repoSecretKeys \<and> om_labels (sec_meta s) ManagedLabel = Some ''true'' \<and>
    (Write (CreateSecret s) \<in> set (trace (RestoreReconcile A img K ns n) l) \<longrightarrow>
       om_namespace (sec_meta s) = r_target rs \<and> om_owners (sec_meta s) = [])"
  using assms(2) RestoreReconcile_calls [OF assms(1), of "Write (CreateSecret s)" A img]
    RestoreReconcile_calls [OF assms(1), of "Write (UpdateSecret s)" A img]
  by (auto simp: contract_copy_def)

text \<open>A restore under way is never dropped: a reconcile ends with an error (which requeues), with
  a requeue after a minute, or with a patch to a terminal phase.\<close>

theorem restore_progress:
  assumes "k_restore K l ns n = Inr rs"
    and "rst_phase (r_status rs) \<noteq> RestorePhaseCompleted" "rst_phase (r_status rs) \<noteq> RestorePhaseFailed"
  shows "case result (RestoreReconcile A img K ns n) l of
      Inl e \<Rightarrow> True
    | Inr (RequeueAfter w) \<Rightarrow> w = requeueWait
    | Inr NoRequeue \<Rightarrow> list_ex (restore_patch rterminal) (trace (RestoreReconcile A img K ns n) l)"
proof -
  have "\<not> rterminal (rst_phase (r_status rs))" using assms(2,3) by simp
  from walksD [OF RestoreReconcile_walks [OF assms(1) this], of A img] show ?thesis
    by (auto simp: restore_settled_def split: sum.split requeue.split)
qed

lemma restore_patch_call:
  assumes "k_restore K l ns n = Inr rs"
    and "trace (RestoreReconcile A img K ns n) l = before @ Write (PatchRestoreStatus ns' n' st) # after"
  shows "ns' = r_ns rs \<and> n' = r_name rs \<and> restore_step K (r_status rs) st \<and>
    phase_justified A K rs (l @ before) (rst_phase st)"
  using RestoreReconcile_call [OF assms] by simp

lemma restore_patch_step:
  assumes "k_restore K l ns n = Inr rs"
    and "Write (PatchRestoreStatus ns' n' st) \<in> set (trace (RestoreReconcile A img K ns n) l)"
  shows "restore_step K (r_status rs) st"
  using RestoreReconcile_calls [OF assms] by auto

text \<open>C12: a recorded phase never claims more than was read: a restore is Completed only with the
  manifest staged and applied, every volume Job of its plan and the workload apply read as
  done; it enters the phases of volumes and workloads only with their predecessors done, and it
  fails only for an invalid spec, an unparsable manifest or a failed Job.\<close>

theorem restore_phase_honest:
  assumes "k_restore K l ns n = Inr rs"
    and "trace (RestoreReconcile A img K ns n) l = before @ Write (PatchRestoreStatus ns' n' st) # after"
    and "rst_phase st \<noteq> holdPhase (rst_phase (r_status rs))"
  shows "case rst_phase st of
      RestorePhaseStagingAPI \<Rightarrow>
        job_open K rs (fetch_name rs) (l @ before) \<or> job_open K rs (pre_name rs) (l @ before)
    | RestorePhaseRestoringVolumes \<Rightarrow>
        job_done K rs (fetch_name rs) (l @ before) \<and> job_done K rs (pre_name rs) (l @ before)
    | RestorePhaseApplyingWorkloads \<Rightarrow>
        job_done K rs (fetch_name rs) (l @ before) \<and> job_done K rs (pre_name rs) (l @ before) \<and>
        vols_done A K rs (l @ before)
    | RestorePhaseCompleted \<Rightarrow>
        job_done K rs (fetch_name rs) (l @ before) \<and> job_done K rs (pre_name rs) (l @ before) \<and>
        vols_done A K rs (l @ before) \<and> job_done K rs (workload_name rs) (l @ before)
    | RestorePhaseFailed \<Rightarrow> validateSpec rs \<noteq> '''' \<or>
        (\<exists>data err. staged K rs data (l @ before) \<and> ParseAPIManifests A data (r_target rs) = Inl err) \<or>
        (\<exists>name. job_failed K rs name (l @ before))
    | _ \<Rightarrow> False"
  using restore_patch_call [OF assms(1,2)] assms(3) by (simp add: phase_justified_def)

section \<open>The life of a restore\<close>

definition stored_restore_status :: "PBSRestoreStatus \<Rightarrow> PBSRestoreStatus" where
  "stored_restore_status st = st\<lparr>rst_startedAt := stored_time (rst_startedAt st),
     rst_completedAt := stored_time (rst_completedAt st)\<rparr>"

text \<open>One reconcile's patch, of an object with a given status, in whatever world.\<close>

inductive restore_patched :: "PBSRestoreStatus \<Rightarrow> PBSRestoreStatus \<Rightarrow> bool" where
  patched: "k_restore K l ns n = Inr rs \<Longrightarrow>
    Write (PatchRestoreStatus ns' n' st) \<in> set (trace (RestoreReconcile A img K ns n) l) \<Longrightarrow>
    restore_patched (r_status rs) (stored_restore_status st)"

inductive_cases restore_patchedE: "restore_patched s t"

definition restore_inv :: "PBSRestoreStatus \<Rightarrow> bool" where
  "restore_inv st \<longleftrightarrow>
     (rst_completedAt st \<noteq> None \<longleftrightarrow> rterminal (rst_phase st)) \<and>
     (rst_phase st = RestorePhaseRestoringVolumes \<or> rst_phase st = RestorePhaseApplyingWorkloads \<longrightarrow>
        rst_startedAt st \<noteq> None) \<and>
     sorted (map rj_job (rst_jobs st))"

lemma stored_restore_status_simps [simp]:
  "rst_phase (stored_restore_status st) = rst_phase st" "rst_jobs (stored_restore_status st) = rst_jobs st"
  "rst_conditions (stored_restore_status st) = rst_conditions st"
  "rst_startedAt (stored_restore_status st) = None \<longleftrightarrow> rst_startedAt st = None"
  "rst_completedAt (stored_restore_status st) = None \<longleftrightarrow> rst_completedAt st = None"
  by (simp_all add: stored_restore_status_def stored_time_def)

lemma restore_patched_step: "restore_patched s t \<Longrightarrow> \<exists>K st. restore_step K s st \<and> t = stored_restore_status st"
  by (erule restore_patchedE) (use restore_patch_step in blast)

lemma restore_step_inv:
  assumes step: "restore_step K s st" and inv: "restore_inv s"
  shows "restore_inv (stored_restore_status st)"
proof -
  have "\<not> rterminal (rst_phase s)" using step by (simp add: restore_step_def)
  then have "rst_completedAt s = None" using inv unfolding restore_inv_def by blast
  moreover have "rst_completedAt st = rst_completedAt s \<or> rterminal (rst_phase st)"
    "rterminal (rst_phase st) \<longrightarrow> rst_completedAt st \<noteq> None"
    using step unfolding restore_step_def by blast+
  ultimately have "rst_completedAt st \<noteq> None \<longleftrightarrow> rterminal (rst_phase st)" by metis
  moreover have "rst_startedAt st \<noteq> None"
    if "rst_phase st = RestorePhaseRestoringVolumes \<or> rst_phase st = RestorePhaseApplyingWorkloads"
  proof -
    have "rst_startedAt st \<noteq> None \<or> rst_phase st = rst_phase s \<and> rst_startedAt st = rst_startedAt s"
      using step that unfolding restore_step_def by blast
    then show ?thesis using inv that unfolding restore_inv_def by metis
  qed
  moreover have "sorted (map rj_job (rst_jobs st))" using step inv unfolding restore_step_def restore_inv_def by metis
  ultimately show ?thesis unfolding restore_inv_def stored_restore_status_simps by blast
qed

interpretation restore_life: remembering_machine rst_phase rterminal restore_patched restore_inv
  "\<lambda>st. rj_job ` set (rst_jobs st)"
proof (unfold_locales, goal_cases)
  case (1 s t)
  then show ?case using restore_patched_step by (auto simp: restore_step_def)
next
  case (2 s t)
  then show ?case using restore_patched_step restore_step_inv by blast
next
  case (3 s t)
  then obtain K st where "restore_step K s st" "t = stored_restore_status st" using restore_patched_step by blast
  then show ?case by (simp add: restore_step_def)
qed



end
