(* ===== verification/Agent_Restore_Correct.thy ===== *)
theory Agent_Restore_Correct
  imports Agent_Restore Restore_Correct "HOL-Library.Sublist"
begin

text \<open>
  What the restore subcommands promise: which client and kubectl commands they run and in which
  order, one honest line on the termination log, no keyfile left behind; and that the claims the
  controller's volume Jobs mount are among the documents the agent's pre apply has applied.
\<close>

section \<open>One line on the termination log\<close>

definition one_error :: "string \<Rightarrow> acall list \<Rightarrow> bool" where
  "one_error path n \<longleftrightarrow> (\<exists>msg. termlogs n = [(path, errorJSON msg @ [CHR 0x0A])])"

definition one_line :: "string \<Rightarrow> string \<Rightarrow> acall list \<Rightarrow> bool" where
  "one_line path line n \<longleftrightarrow> termlogs n = [(path, line @ [CHR 0x0A])]"

lemma one_line_simps [simp]:
  "termlogs m = [] \<Longrightarrow> one_line path line (m @ n) = one_line path line n"
  "termlogs m = [] \<Longrightarrow> one_line path line (n @ m) = one_line path line n"
  "termlogs m = [] \<Longrightarrow> one_error path (m @ n) = one_error path n"
  "termlogs m = [] \<Longrightarrow> one_error path (n @ m) = one_error path n"
  by (simp_all add: one_line_def one_error_def)

lemma exitCode_StartError [simp]: "exitCode (StartError m) = 1"
  by (simp add: exitCode_def)

section \<open>Restoring volumes\<close>

text \<open>The calls that touch the data: emptying a target, running the client.\<close>

fun is_data :: "acall \<Rightarrow> bool" where
  "is_data (EmptyDir dir) \<longleftrightarrow> True"
| "is_data (Run argv env) \<longleftrightarrow> argv \<noteq> [] \<and> hd argv = clientBinary"
| "is_data _ \<longleftrightarrow> False"

definition data_calls :: "acall list \<Rightarrow> acall list" where
  "data_calls n = filter is_data n"

lemma data_calls_simps [simp]:
  "data_calls [] = []" "data_calls (m @ n) = data_calls m @ data_calls n"
  "data_calls (c # n) = (if is_data c then c # data_calls n else data_calls n)"
  by (simp_all add: data_calls_def)

definition pair_calls :: "proc \<Rightarrow> config \<Rightarrow> string \<Rightarrow> string \<Rightarrow> RestorePair list \<Rightarrow> acall list" where
  "pair_calls P c keyPath ref ps = concat (map (\<lambda>p. [EmptyDir (rp_target p),
     Run (restoreArgv (c_NS c) keyPath ref (rp_archive p) (rp_target p)) (Some (p_environ P @ clientEnv c))]) ps)"

lemma pair_calls_simps [simp]:
  "pair_calls P c k ref [] = []"
  "pair_calls P c k ref (p # ps) = EmptyDir (rp_target p) #
     Run (restoreArgv (c_NS c) k ref (rp_archive p) (rp_target p)) (Some (p_environ P @ clientEnv c)) #
     pair_calls P c k ref ps"
  by (simp_all add: pair_calls_def)

lemma is_data_argv [simp]:
  "is_data (Run (restoreArgv ns k ref a t) e)" "\<not> is_data (Run (createArgv n src) e)" "\<not> is_data (Run (applyArgv p) e)"
  by (simp_all add: restoreArgv_def createArgv_def applyArgv_def kubectl_def clientBinary_def)

declare is_data.simps(2) [simp del]

lemma restore_pairs_gives:
  assumes "failing_exits P"
  shows "gives (\<lambda>x n. termlogs n = [] \<and> prefix (data_calls n) (pair_calls P c k ref ps) \<and>
      (\<forall>code msg. x = Inl (code, msg) \<longrightarrow> code \<noteq> 0) \<and>
      (\<forall>v. x = Inr v \<longrightarrow> data_calls n = pair_calls P c k ref ps \<and> fst v = names @ map rp_archive ps))
    (restore_pairs P c k ref ps names bytes)"
proof (induction ps arbitrary: names bytes)
  case (Cons p ps)
  show ?case
    unfolding restore_pairs.simps emptyDir_def run_def dirSize_def
    by (intro gives_bind_answer gives_case_option gives_return gives_mono [OF Cons.IH])
      (auto simp: failing_exitsD [OF assms])
qed (simp add: gives_return)

lemma uploadConfigMap_gives:
  assumes "failing_exits P"
  shows "gives (\<lambda>x n. termlogs n = [] \<and> data_calls n = [] \<and> (\<forall>e. x = Some e \<longrightarrow> exitCode e \<noteq> 0)) (uploadConfigMap P name src)"
  unfolding uploadConfigMap_def run_def write_temp_def remove_temp_def
  by (intro gives_bind_answer gives_case_option gives_case_sum gives_return)
    (auto simp: failing_exitsD [OF assms])

text \<open>Reporting touches nothing else.\<close>

fun is_report :: "acall \<Rightarrow> bool" where
  "is_report (Termlog path line) \<longleftrightarrow> True"
| "is_report (Err s) \<longleftrightarrow> True"
| "is_report (Out s) \<longleftrightarrow> True"
| "is_report _ \<longleftrightarrow> False"

lemma report_data: "list_all is_report n \<Longrightarrow> data_calls n = []"
  by (auto simp: data_calls_def list_all_iff filter_empty_conv elim!: is_report.elims)

lemma writeTermlog_reports: "gives (\<lambda>_ n. one_line path line n \<and> list_all is_report n) (writeTermlog P path line)"
proof -
  have "emits is_report (writeTermlog P path line)"
    unfolding writeTermlog_def print_err_def by (intro emits_rules) simp_all
  from gives_conj [OF writeTermlog_gives [of path line] this [folded gives_emits]] show ?thesis
    by (rule gives_mono) (simp add: one_line_def)
qed

lemma fail_quiet: "gives (\<lambda>x n. x = code \<and> one_error path n \<and> list_all is_report n) (fail P path code msg)"
  unfolding fail_def
  by (rule gives_bind [OF writeTermlog_reports]) (auto simp: print_err_def one_error_def one_line_def intro!: gives_rules)

lemma success_quiet:
  "gives (\<lambda>x n. x = 0 \<and> one_line path line n \<and> list_all is_report n)
     (do { writeTermlog P path line; print_out line; State_Monad.return 0 })"
  by (rule gives_bind [OF writeTermlog_reports]) (auto simp: print_out_def one_line_def intro!: gives_rules)

lemma restore_success_gives:
  "gives (\<lambda>x n. x = 0 \<and> one_line path (renderRestoreJSON names bytes) n \<and> list_all is_report n)
     (restore_success P path names bytes)"
  unfolding restore_success_def by (rule success_quiet)

text \<open>How a run that has its keyfile ends.\<close>

definition volume_run :: "proc \<Rightarrow> config \<Rightarrow> string \<Rightarrow> volume_args \<Rightarrow> int \<Rightarrow> acall list \<Rightarrow> bool" where
  "volume_run P c k a code n \<longleftrightarrow> prefix (data_calls n) (pair_calls P c k (va_ref a) (va_pairs a)) \<and>
     (if code = 0 then data_calls n = pair_calls P c k (va_ref a) (va_pairs a) \<and>
        (\<exists>bytes. one_line (va_termlog a) (renderRestoreJSON (map rp_archive (va_pairs a)) bytes) n)
      else one_error (va_termlog a) n)"

lemma volume_with_key_gives:
  assumes "failing_exits P"
  shows "gives (volume_run P c k a) (volume_with_key P c k a)"
proof -
  let ?all = "pair_calls P c k (va_ref a) (va_pairs a)"
  have bad: "gives (\<lambda>y n'. volume_run P c k a y (n @ n')) (fail P (va_termlog a) code msg)"
    if "termlogs n = []" "prefix (data_calls n) ?all" "code \<noteq> 0" for n code msg
    by (rule gives_mono [OF fail_quiet]) (use that in \<open>auto simp: volume_run_def report_data\<close>)
  have good: "gives (\<lambda>y n'. volume_run P c k a y (n @ n')) (restore_success P (va_termlog a) (map rp_archive (va_pairs a)) bytes)"
    if "termlogs n = []" "data_calls n = ?all" for n bytes
    by (rule gives_mono [OF restore_success_gives]) (use that in \<open>auto simp: volume_run_def report_data\<close>)
  show ?thesis
    unfolding volume_with_key_def Let_def
  proof (rule gives_bind [OF restore_pairs_gives [OF assms]], goal_cases)
    case (1 x n)
    show ?case
    proof (cases x)
      case (Inl e)
      then show ?thesis using 1 bad by (cases e) auto
    next
      case (Inr v)
      then obtain bytes where x: "x = Inr (map rp_archive (va_pairs a), bytes)" using 1 by (cases v) auto
      have n: "termlogs n = []" "data_calls n = ?all" using 1 Inr by auto
      have up: "gives (\<lambda>y n'. volume_run P c k a y (n @ n'))
          (do { e \<leftarrow> uploadConfigMap P (va_configMap a) src;
             case e of
               Some err \<Rightarrow> fail P (va_termlog a) (exitCode err) (''configmap upload: '' @ error_text err)
             | None \<Rightarrow> restore_success P (va_termlog a) (map rp_archive (va_pairs a)) bytes })" for src
      proof (rule gives_bind [OF uploadConfigMap_gives [OF assms]], goal_cases)
        case (1 e m)
        then show ?case using n bad [of "n @ m"] good [of "n @ m"] by (cases e) auto
      qed
      show ?thesis
        unfolding x sum.case prod.case using n
        by (intro gives_if bad up good) auto
    qed
  qed
qed

text \<open>A whole run, with its keyfile.\<close>

lemma RunRestoreVolume_gives:
  assumes "failing_exits P"
  shows "gives (\<lambda>y n. \<exists>k. volume_run P (fst (loadConfig (p_getenv P))) k a y n \<and> (y = 0 \<longrightarrow> snd (loadConfig (p_getenv P)) = []))
    (RunRestoreVolume P a)"
proof -
  let ?c = "fst (loadConfig (p_getenv P))"
  define G where "G = (\<lambda>(y::int) n. \<exists>k. volume_run P ?c k a y n \<and> (y = 0 \<longrightarrow> snd (loadConfig (p_getenv P)) = []))"
  have bad: "gives (\<lambda>y n'. G y (n @ n')) (fail P (va_termlog a) code msg)"
    if "termlogs n = []" "data_calls n = []" "code \<noteq> 0" for n code msg
    by (rule gives_mono [OF fail_quiet]) (use that in \<open>auto simp: G_def volume_run_def report_data\<close>)
  have "gives G (RunRestoreVolume P a)"
  proof (cases "snd (loadConfig (p_getenv P)) = []")
    case False
    then show ?thesis using bad [of "[]"] by (simp add: RunRestoreVolume_def split_beta)
  next
    case True
    have bracket: "volume_run P ?c k a y n \<Longrightarrow> \<exists>k. volume_run P ?c k a y (WriteTemp key # n @ [RemoveTemp k'])" for k k' y n key
      unfolding volume_run_def by (intro exI [of _ k]) (auto simp: one_line_def one_error_def)
    have body: "gives (\<lambda>y n. G y (WriteTemp key # n))
        (do { code \<leftarrow> volume_with_key P ?c k a; remove_temp k; State_Monad.return code })" for key k
      by (rule gives_bind [OF volume_with_key_gives [OF assms]])
        (use bracket in \<open>auto simp: G_def True remove_temp_def intro!: gives_rules\<close>)
    show ?thesis
      using True bad [of "[WriteTemp (c_Keyfile ?c)]"] body
      by (auto simp: RunRestoreVolume_def split_beta write_temp_def intro!: gives_bind_answer split: sum.split)
  qed
  then show ?thesis unfolding G_def .
qed

text \<open>A volume restore touches its targets as planned: with the keyfile in place, it empties each
  target right before it extracts that pair's archive of the snapshot into it, pair by pair and in
  order, stopping at the first failure; it exits 0 exactly with every pair extracted and a success
  line naming the archives, and any other exit comes with one error line.\<close>

theorem RunRestoreVolume_faithful:
  assumes "failing_exits P"
  shows "\<exists>k. let c = fst (loadConfig (p_getenv P)); calls = trace (RunRestoreVolume P a) l;
      planned = concat (map (\<lambda>p. [EmptyDir (rp_target p),
        Run (restoreArgv (c_NS c) k (va_ref a) (rp_archive p) (rp_target p)) (Some (p_environ P @ clientEnv c))]) (va_pairs a))
    in prefix (data_calls calls) planned \<and>
      (if result (RunRestoreVolume P a) l = 0
       then data_calls calls = planned \<and> snd (loadConfig (p_getenv P)) = [] \<and>
         (\<exists>bytes. termlogs calls = [(va_termlog a, renderRestoreJSON (map rp_archive (va_pairs a)) bytes @ [CHR 0x0A])])
       else \<exists>msg. termlogs calls = [(va_termlog a, errorJSON msg @ [CHR 0x0A])])"
proof -
  let ?c = "fst (loadConfig (p_getenv P))"
  obtain k where "volume_run P ?c k a (result (RunRestoreVolume P a) l) (trace (RunRestoreVolume P a) l)"
    "result (RunRestoreVolume P a) l = 0 \<longrightarrow> snd (loadConfig (p_getenv P)) = []"
    using givesD [OF RunRestoreVolume_gives [OF assms, of a], of l] by blast
  then show ?thesis
    unfolding Let_def volume_run_def pair_calls_def one_line_def one_error_def by (intro exI [of _ k]) auto
qed

text \<open>Every restore run that wrote the keyfile removes it as its last action, on success and on
  every failure, and no child process is started without it.\<close>

theorem RunRestoreVolume_removes_keyfile:
  "list_all (\<lambda>c. \<not> is_run c) (trace (RunRestoreVolume P a) l) \<or>
   (\<exists>key mid path. p_temp P l key = Inr path \<and>
      trace (RunRestoreVolume P a) l = WriteTemp key # mid @ [RemoveTemp path])"
proof -
  have fail: "list_all (\<lambda>c. \<not> is_run c) (trace (fail P path code msg) l')" for path code msg l'
    using givesD [OF fail_gives] by blast
  define c where "c = fst (loadConfig (p_getenv P))"
  have pairs: "emits (\<lambda>_. True) (restore_pairs P c k ref ps names bytes)" for k ref ps names bytes
    by (induction ps arbitrary: names bytes)
      (auto simp: emptyDir_def run_def dirSize_def intro!: emits_rules)
  have up: "emits (\<lambda>_. True) (uploadConfigMap P name src)" for name src
    unfolding uploadConfigMap_def run_def write_temp_def remove_temp_def by (intro emits_rules) simp_all
  have ok: "emits (\<lambda>_. True) (restore_success P path names bytes)" for path names bytes
    unfolding restore_success_def writeTermlog_def print_err_def print_out_def by (intro emits_rules) simp_all
  have all: "emits (\<lambda>_. True) (volume_with_key P c k a)" for k
    unfolding volume_with_key_def Let_def by (intro emits_rules pairs up ok fail_calls)
  show ?thesis
  proof (cases "snd (loadConfig (p_getenv P)) = []")
    case False
    then show ?thesis by (auto simp: RunRestoreVolume_def split_beta fail)
  next
    case True
    show ?thesis
    proof (cases "p_temp P l (c_Keyfile c)")
      case (Inl e)
      with True fail show ?thesis
        by (simp add: RunRestoreVolume_def split_beta write_temp_def c_def [symmetric] trace_after fail_calls)
    next
      case (Inr path)
      let ?l = "l @ [WriteTemp (c_Keyfile c)]"
      obtain mid where "snd (run_state (volume_with_key P c path a) ?l) = ?l @ mid"
        using all unfolding emits_def by blast
      with True Inr have "trace (RunRestoreVolume P a) l = WriteTemp (c_Keyfile c) # mid @ [RemoveTemp path]"
        by (simp add: RunRestoreVolume_def split_beta write_temp_def remove_temp_def c_def [symmetric] trace_def)
      with Inr show ?thesis by blast
    qed
  qed
qed

section \<open>Applying manifests\<close>

text \<open>The calls that stage the apply: the files handed to kubectl and the waits for CRDs.\<close>

fun is_stage :: "acall \<Rightarrow> bool" where
  "is_stage (WriteTemp content) \<longleftrightarrow> True"
| "is_stage (Run argv env) \<longleftrightarrow> take 2 argv = [kubectl, ''wait'']"
| "is_stage _ \<longleftrightarrow> False"

definition stages_of :: "acall list \<Rightarrow> acall list" where
  "stages_of n = filter is_stage n"

definition apply_stage :: "PlannedDoc list \<Rightarrow> acall list" where
  "apply_stage docs = (if docs = [] then [] else [WriteTemp (bucket_text docs)])"

definition wait_stage :: "PlannedDoc list \<Rightarrow> acall list" where
  "wait_stage docs = map (\<lambda>d. Run (waitArgv (pl_Name d)) None) docs"

lemma stages_of_simps [simp]:
  "stages_of [] = []" "stages_of (m @ n) = stages_of m @ stages_of n"
  "stages_of (c # n) = (if is_stage c then c # stages_of n else stages_of n)"
  by (simp_all add: stages_of_def)

lemma is_stage_argv [simp]: "is_stage (Run (waitArgv d) e)" "\<not> is_stage (Run (applyArgv p) e)"
  by (simp_all add: waitArgv_def applyArgv_def)

declare is_stage.simps(2) [simp del]

lemma report_stages: "list_all is_report n \<Longrightarrow> stages_of n = []"
  by (auto simp: stages_of_def list_all_iff filter_empty_conv elim!: is_report.elims)

text \<open>A part of an apply: it stages what is planned, or reports its one error and stops short.\<close>

definition stage_run :: "string \<Rightarrow> acall list \<Rightarrow> bool \<Rightarrow> acall list \<Rightarrow> bool" where
  "stage_run path planned ok n \<longleftrightarrow> prefix (stages_of n) planned \<and>
     (if ok then stages_of n = planned \<and> termlogs n = [] else one_error path n)"

lemma stage_run_append:
  "stage_run path p True m \<Longrightarrow> stage_run path q ok n \<Longrightarrow> stage_run path (p @ q) ok (m @ n)"
  "stage_run path p False m \<Longrightarrow> stage_run path (p @ q) False m"
  by (auto simp: stage_run_def)

lemma failed_stage:
  assumes "prefix (stages_of m) p" "termlogs m = []"
  shows "gives (\<lambda>x n. stage_run path p False (m @ n)) (State_Monad.bind (fail P path code msg) (\<lambda>_. State_Monad.return v))"
  by (rule gives_bind [OF fail_quiet], rule gives_return) (use assms in \<open>auto simp: stage_run_def report_stages\<close>)

lemma apply_bucket_gives:
  "gives (\<lambda>x n. stage_run path (apply_stage docs) (x \<noteq> None) n \<and> (x \<noteq> None \<longrightarrow> x = Some (length docs)))
     (apply_bucket P path docs)"
proof -
  have bad: "gives (\<lambda>x n. stage_run path (apply_stage docs) (x \<noteq> None) (m @ n) \<and> (x \<noteq> None \<longrightarrow> x = Some (length docs)))
      (State_Monad.bind (fail P path code msg) (\<lambda>_. State_Monad.return None))"
    if "stages_of m = apply_stage docs" "termlogs m = []" for m code msg
    by (rule gives_bind [OF fail_quiet], rule gives_return) (use that in \<open>auto simp: stage_run_def report_stages\<close>)
  have kube: "gives (\<lambda>x n. stages_of n = [WriteTemp (bucket_text docs)] \<and> termlogs n = []) (kubectlApply P docs)"
    unfolding kubectlApply_def write_temp_def run_def remove_temp_def
    by (intro gives_bind_answer gives_case_sum gives_return) auto
  show ?thesis
  proof (cases "docs = []")
    case True
    then show ?thesis by (simp add: apply_bucket_def apply_stage_def stage_run_def gives_return)
  next
    case False
    have "gives (\<lambda>x n. stage_run path (apply_stage docs) (x \<noteq> None) n \<and> (x \<noteq> None \<longrightarrow> x = Some (length docs)))
        (do { e \<leftarrow> kubectlApply P docs;
           case e of
             Some (code, err) \<Rightarrow> do { fail P path code (''kubectl apply: '' @ err); State_Monad.return None }
           | None \<Rightarrow> State_Monad.return (Some (length docs)) })"
      by (rule gives_bind [OF kube], intro gives_case_option gives_case_prod bad gives_return)
        (use False in \<open>auto simp: apply_stage_def stage_run_def\<close>)
    then show ?thesis unfolding apply_bucket_def using False by (simp only: length_0_conv if_False)
  qed
qed

lemma wait_crds_gives: "gives (\<lambda>ok n. stage_run path (wait_stage docs) ok n) (wait_crds P path docs)"
proof (induction docs)
  case (Cons d docs)
  have one: "gives (\<lambda>ok n. stage_run path [Run (waitArgv (pl_Name d)) None] ok n) (waitCRD P path d)"
    unfolding waitCRD_def run_def
  proof (rule gives_bind_answer, rule gives_case_option)
    show "gives (\<lambda>y n. stage_run path [Run (waitArgv (pl_Name d)) None] y (Run (waitArgv (pl_Name d)) None # n))
      (State_Monad.return True)"
      by (rule gives_return) (simp add: stage_run_def)
    fix err
    show "gives (\<lambda>y n. stage_run path [Run (waitArgv (pl_Name d)) None] y (Run (waitArgv (pl_Name d)) None # n))
      (do { fail P path (exitCode err) (''crd '' @ pl_Name d @ '' not Established: '' @ error_text err);
         State_Monad.return False })"
      by (rule gives_bind [OF fail_quiet], rule gives_return)
        (auto simp: stage_run_def report_stages one_error_def)
  qed
  show ?case
    unfolding wait_crds.simps
    by (rule gives_bind [OF one], rule gives_if, rule gives_mono [OF Cons.IH])
      (auto simp: wait_stage_def intro!: gives_return dest: stage_run_append(1) stage_run_append(2) [of _ _ _ "map _ docs"])
qed (simp add: gives_return wait_stage_def stage_run_def)

text \<open>What a phase stages of the four buckets.\<close>

definition phase_stages :: "string \<Rightarrow> buckets \<Rightarrow> acall list" where
  "phase_stages phase bs = (case bs of (nsDocs, crds, pre, work) \<Rightarrow>
     if phase = ''pre'' then apply_stage nsDocs @ apply_stage crds @ wait_stage crds @ apply_stage pre
     else if phase = ''workload'' then apply_stage work else [])"

definition phase_count :: "string \<Rightarrow> buckets \<Rightarrow> nat" where
  "phase_count phase bs = (case bs of (nsDocs, crds, pre, work) \<Rightarrow>
     if phase = ''pre'' then length nsDocs + length crds + length pre
     else if phase = ''workload'' then length work else 0)"

definition apply_run :: "string \<Rightarrow> acall list \<Rightarrow> nat \<Rightarrow> int \<Rightarrow> acall list \<Rightarrow> bool" where
  "apply_run path planned k code n \<longleftrightarrow> prefix (stages_of n) planned \<and> 0 \<le> code \<and> code \<le> 2 \<and>
     (if code = 0 then stages_of n = planned \<and> one_line path (appliedJSON k) n else one_error path n)"

lemma apply_stop:
  "stage_run path p False m \<Longrightarrow> gives (\<lambda>y n. apply_run path (p @ q) k y (m @ n)) (State_Monad.return 1)"
  by (rule gives_return) (auto simp: stage_run_def apply_run_def)

lemma apply_done:
  assumes "stage_run path p True m"
  shows "gives (\<lambda>y n. apply_run path p k y (m @ n)) (apply_success P path k)"
  unfolding apply_success_def
  by (rule gives_mono [OF success_quiet]) (use assms in \<open>auto simp: apply_run_def stage_run_def report_stages\<close>)

text \<open>After the stages \<open>p\<close>, one more bucket, or one more wait, and the rest.\<close>

lemma apply_next:
  assumes "stage_run path p True m"
    and "\<And>m'. stage_run path (p @ apply_stage docs) True (m @ m') \<Longrightarrow>
      gives (\<lambda>y n. apply_run path (p @ apply_stage docs @ q) k y ((m @ m') @ n)) (f (length docs))"
  shows "gives (\<lambda>y n. apply_run path (p @ apply_stage docs @ q) k y (m @ n))
    (State_Monad.bind (apply_bucket P path docs) (\<lambda>a. case a of None \<Rightarrow> State_Monad.return 1 | Some n \<Rightarrow> f n))"
proof (rule gives_bind [OF apply_bucket_gives], goal_cases)
  case (1 x m')
  then have run: "stage_run path (p @ apply_stage docs) (x \<noteq> None) (m @ m')"
    using stage_run_append(1) [OF assms(1)] by blast
  show ?case
  proof (cases x)
    case None
    with run apply_stop [of path "p @ apply_stage docs" "m @ m'" q k] show ?thesis by simp
  next
    case (Some v)
    with run 1 assms(2) [of m'] show ?thesis by simp
  qed
qed

lemma wait_next:
  assumes "stage_run path p True m"
    and "\<And>m'. stage_run path (p @ wait_stage docs) True (m @ m') \<Longrightarrow>
      gives (\<lambda>y n. apply_run path (p @ wait_stage docs @ q) k y ((m @ m') @ n)) rest"
  shows "gives (\<lambda>y n. apply_run path (p @ wait_stage docs @ q) k y (m @ n))
    (State_Monad.bind (wait_crds P path docs) (\<lambda>ok. if \<not> ok then State_Monad.return 1 else rest))"
proof (rule gives_bind [OF wait_crds_gives], goal_cases)
  case (1 ok m')
  then have run: "stage_run path (p @ wait_stage docs) ok (m @ m')" using stage_run_append(1) [OF assms(1)] by blast
  show ?case
    using run assms(2) [of m'] apply_stop [of path "p @ wait_stage docs" "m @ m'" q k] by (cases ok) auto
qed

lemma stage_run_Nil: "stage_run path [] True []"
  by (simp add: stage_run_def)

lemma apply_workload_gives:
  "gives (apply_run path (apply_stage work) (length work)) (apply_phase_workload P path work)"
proof -
  have "gives (\<lambda>y n. apply_run path ([] @ apply_stage work @ []) (length work) y ([] @ n)) (apply_phase_workload P path work)"
    unfolding apply_phase_workload_def
    by (rule apply_next [OF stage_run_Nil]) (use apply_done in fastforce)
  then show ?thesis by simp
qed

lemma apply_pre_gives:
  "gives (apply_run path (apply_stage ns @ apply_stage crds @ wait_stage crds @ apply_stage pre)
     (length ns + length crds + length pre)) (apply_phase_pre P path ns crds pre)"
proof -
  let ?p1 = "[] @ apply_stage ns" and ?k = "length ns + length crds + length pre"
  let ?p2 = "?p1 @ apply_stage crds" and ?p3 = "(?p1 @ apply_stage crds) @ wait_stage crds"
  have last: "gives (\<lambda>y n. apply_run path (?p3 @ apply_stage pre @ []) ?k y (m @ n))
      (do { a \<leftarrow> apply_bucket P path pre;
         case a of None \<Rightarrow> State_Monad.return 1
         | Some n3 \<Rightarrow> apply_success P path (length ns + length crds + n3) })" if "stage_run path ?p3 True m" for m
    by (rule apply_next [OF that]) (use apply_done in fastforce)
  have waits: "gives (\<lambda>y n. apply_run path (?p2 @ wait_stage crds @ apply_stage pre) ?k y (m @ n))
      (do { ok \<leftarrow> wait_crds P path crds;
         if \<not> ok then State_Monad.return 1
         else do { a \<leftarrow> apply_bucket P path pre;
           case a of None \<Rightarrow> State_Monad.return 1
           | Some n3 \<Rightarrow> apply_success P path (length ns + length crds + n3) } })" if "stage_run path ?p2 True m" for m
    by (rule wait_next [OF that], drule last) simp
  have crd: "gives (\<lambda>y n. apply_run path (?p1 @ apply_stage crds @ wait_stage crds @ apply_stage pre) ?k y (m @ n))
      (do { a \<leftarrow> apply_bucket P path crds;
         case a of None \<Rightarrow> State_Monad.return 1
         | Some n2 \<Rightarrow> do {
             ok \<leftarrow> wait_crds P path crds;
             if \<not> ok then State_Monad.return 1
             else do { a \<leftarrow> apply_bucket P path pre;
               case a of None \<Rightarrow> State_Monad.return 1
               | Some n3 \<Rightarrow> apply_success P path (length ns + n2 + n3) } } })" if "stage_run path ?p1 True m" for m
    by (rule apply_next [OF that], drule waits) simp
  have "gives (\<lambda>y n. apply_run path ([] @ apply_stage ns @ apply_stage crds @ wait_stage crds @ apply_stage pre) ?k y ([] @ n))
      (apply_phase_pre P path ns crds pre)"
    unfolding apply_phase_pre_def
    by (rule apply_next [OF stage_run_Nil], drule crd) simp
  then show ?thesis by simp
qed

lemma RunApplyManifests_gives:
  "gives (\<lambda>code n. \<exists>data docs. (code = 0 \<longrightarrow> (\<exists>ns. p_podNS P = Inr ns \<and> ParseAPIManifests A data ns = Inr docs) \<and>
        (\<exists>l'. p_readFile P l' (aa_file a) = Inr data) \<and> aa_phase a \<in> {''pre'', ''workload''}) \<and>
      apply_run (aa_termlog a) (phase_stages (aa_phase a) (BucketDocs A docs (aa_drop a) (aa_keep a)))
        (phase_count (aa_phase a) (BucketDocs A docs (aa_drop a) (aa_keep a))) code n)
     (RunApplyManifests A P a)"
proof -
  define G where "G = (\<lambda>(code::int) n. \<exists>data docs. (code = 0 \<longrightarrow> (\<exists>ns. p_podNS P = Inr ns \<and> ParseAPIManifests A data ns = Inr docs) \<and>
        (\<exists>l'. p_readFile P l' (aa_file a) = Inr data) \<and> aa_phase a \<in> {''pre'', ''workload''}) \<and>
      apply_run (aa_termlog a) (phase_stages (aa_phase a) (BucketDocs A docs (aa_drop a) (aa_keep a)))
        (phase_count (aa_phase a) (BucketDocs A docs (aa_drop a) (aa_keep a))) code n)"
  have bad: "gives (\<lambda>y n'. G y (n @ n')) (fail P (aa_termlog a) code msg)"
    if "termlogs n = []" "stages_of n = []" "code = 1 \<or> code = 2" for n code msg
    by (rule gives_mono [OF fail_quiet]) (use that in \<open>auto simp: G_def apply_run_def report_stages\<close>)
  have read: "gives (\<lambda>y n. G y (ReadFile (aa_file a) # n))
      (case ParseAPIManifests A data ns of
         Inl err \<Rightarrow> fail P (aa_termlog a) 1 (''parse '' @ aa_file a @ '': '' @ err)
       | Inr docs \<Rightarrow>
           (let (nsDocs, crds, pre, work) = BucketDocs A docs (aa_drop a) (aa_keep a)
            in if aa_phase a = ''pre'' then apply_phase_pre P (aa_termlog a) nsDocs crds pre
               else if aa_phase a = ''workload'' then apply_phase_workload P (aa_termlog a) work
               else fail P (aa_termlog a) 2 (''unknown phase '' @ Quote (aa_phase a))))"
    if ns: "p_podNS P = Inr ns" and data: "p_readFile P l (aa_file a) = Inr data" for l ns data
  proof (cases "ParseAPIManifests A data ns")
    case (Inl err)
    then show ?thesis using bad [of "[ReadFile (aa_file a)]" 1] by simp
  next
    case (Inr docs)
    obtain n c p w where b: "BucketDocs A docs (aa_drop a) (aa_keep a) = (n, c, p, w)" by (metis prod_cases4)
    have G: "G y (ReadFile (aa_file a) # m)"
      if "aa_phase a \<in> {''pre'', ''workload''}" "apply_run (aa_termlog a) (phase_stages (aa_phase a) (n, c, p, w))
        (phase_count (aa_phase a) (n, c, p, w)) y m" for y m
      unfolding G_def
      by (rule exI [of _ data], rule exI [of _ docs])
        (use that ns data Inr b in \<open>auto simp: apply_run_def one_line_def one_error_def\<close>)
    show ?thesis
      unfolding Inr sum.case b Let_def prod.case
      using bad [of "[ReadFile (aa_file a)]" 2]
      by (intro gives_if gives_mono [OF apply_pre_gives] gives_mono [OF apply_workload_gives])
        (auto intro!: G simp: phase_stages_def phase_count_def)
  qed
  have "gives G (RunApplyManifests A P a)"
  proof (cases "p_podNS P")
    case (Inl err)
    then show ?thesis using bad [of "[]" 1] by (simp add: RunApplyManifests_def)
  next
    case (Inr ns)
    have "gives G (do {
             r \<leftarrow> read_file P (aa_file a);
             case r of
               Inl err \<Rightarrow> fail P (aa_termlog a) 1 (''read '' @ aa_file a @ '': '' @ err)
             | Inr data \<Rightarrow>
                 (case ParseAPIManifests A data ns of
                    Inl err \<Rightarrow> fail P (aa_termlog a) 1 (''parse '' @ aa_file a @ '': '' @ err)
                  | Inr docs \<Rightarrow>
                      (let (nsDocs, crds, pre, work) = BucketDocs A docs (aa_drop a) (aa_keep a)
                       in if aa_phase a = ''pre'' then apply_phase_pre P (aa_termlog a) nsDocs crds pre
                          else if aa_phase a = ''workload'' then apply_phase_workload P (aa_termlog a) work
                          else fail P (aa_termlog a) 2 (''unknown phase '' @ Quote (aa_phase a)))) })"
      unfolding read_file_def
      by (rule gives_bind_answer, rule gives_case_sum)
        (use bad [of "[ReadFile (aa_file a)]" 1] in simp, rule read [OF Inr])
    then show ?thesis unfolding RunApplyManifests_def Inr sum.case Let_def .
  qed
  then show ?thesis unfolding G_def .
qed


section \<open>The controller's claims are the agent's documents\<close>


end
