(* ===== verification/Volume_Roundtrip.thy ===== *)
theory Volume_Roundtrip
  imports Agent_Restore_Correct
begin

text \<open>
  The data of the claims, from the backup Job to the volume restore Job: the builders' mounts and
  commands, the agent's parsers and its runs, composed over what the client is documented to do: its
  backup command stores the content of a directory under the name of its archive, its restore
  command extracts an archive into a directory.
\<close>

section \<open>The client and the claims\<close>

text \<open>The claim a Job's containers see at a path, by the first mount there.\<close>

definition claim_at :: "job \<Rightarrow> string \<Rightarrow> string option" where
  "claim_at j path = (case List.find (\<lambda>(src, p, ro). p = path) (mounted j) of
     Some (Some (PVCSource c ro'), _) \<Rightarrow> Some c
   | _ \<Rightarrow> None)"

text \<open>The arguments of a client command that are no options (each with a value).\<close>

fun positional :: "string list \<Rightarrow> string list" where
  "positional [] = []"
| "positional (a # args) = (if HasPrefix a ''--'' then positional (drop 1 args) else a # positional args)"

text \<open>A specification \<open>name.pxar:directory\<close> becomes the archive \<open>name.pxar.didx\<close>.\<close>

definition uploaded :: "(string \<Rightarrow> 'd) \<Rightarrow> string list \<Rightarrow> (string \<times> 'd) list" where
  "uploaded dirs argv = map (\<lambda>s. (takeWhile (\<lambda>c. c \<noteq> CHR '':'') s @ ''.didx'', dirs (drop 1 (dropWhile (\<lambda>c. c \<noteq> CHR '':'') s))))
     (positional (drop 2 argv))"

text \<open>The archives of the snapshot a run of the agent made, from what its directories hold.\<close>

fun snapshot_archives :: "(string \<Rightarrow> 'd) \<Rightarrow> acall list \<Rightarrow> (string \<times> 'd) list" where
  "snapshot_archives dirs [] = []"
| "snapshot_archives dirs (Run argv env # calls) =
     (if take 2 argv = [clientBinary, ''backup''] then uploaded dirs argv else []) @ snapshot_archives dirs calls"
| "snapshot_archives dirs (_ # calls) = snapshot_archives dirs calls"

text \<open>What a call of the agent does to the claims: \<open>blank\<close> is the empty content, \<open>extract old d\<close> what
  extracting \<open>d\<close> over \<open>old\<close> leaves, and \<open>snapshots ref\<close> the archives of a snapshot.\<close>

fun claims_after :: "(string \<Rightarrow> string \<Rightarrow> 'd option) \<Rightarrow> 'd \<Rightarrow> ('d \<Rightarrow> 'd \<Rightarrow> 'd) \<Rightarrow> job \<Rightarrow> acall list \<Rightarrow> (string \<Rightarrow> 'd) \<Rightarrow> string \<Rightarrow> 'd" where
  "claims_after snapshots blank extract j [] vols = vols"
| "claims_after snapshots blank extract j (EmptyDir dir # calls) vols = claims_after snapshots blank extract j calls
     (case claim_at j dir of Some c \<Rightarrow> vols(c := blank) | None \<Rightarrow> vols)"
| "claims_after snapshots blank extract j (Run argv env # calls) vols = claims_after snapshots blank extract j calls
     (if take 2 argv = [clientBinary, ''restore''] then
        (case positional (drop 2 argv) of
           [ref, archive, target] \<Rightarrow>
             (case (snapshots ref archive, claim_at j target) of (Some d, Some c) \<Rightarrow> vols(c := extract (vols c) d) | _ \<Rightarrow> vols)
         | _ \<Rightarrow> vols)
      else vols)"
| "claims_after snapshots blank extract j (_ # calls) vols = claims_after snapshots blank extract j calls vols"

section \<open>The Jobs' mounts\<close>

lemma find_mount:
  "p \<in> set ps \<Longrightarrow> List.find (\<lambda>(src, q, ro). q = ''/backup/'' @ p) (map (\<lambda>p. (src p, ''/backup/'' @ p, ro p)) ps @ tail) =
     Some (src p, ''/backup/'' @ p, ro p)"
  by (induction ps) auto

lemma claim_at_backup: "p \<in> set (bjs_PVCs s) \<Longrightarrow> claim_at (BuildBackupJob s) (''/backup/'' @ p) = Some p"
  unfolding claim_at_def BuildBackupJob_mounts by (simp only: find_mount option.case prod.case volume_source.case)

lemma claim_at_restore: "p \<in> set ps \<Longrightarrow> claim_at (BuildRestoreVolumeJob r node ps) (''/backup/'' @ p) = Some p"
  unfolding claim_at_def BuildRestoreVolumeJob_mounts by (simp only: find_mount option.case prod.case volume_source.case)

section \<open>Uploading\<close>

lemma positional_specs: "list_all (\<lambda>a. \<not> HasPrefix a ''--'') as \<Longrightarrow> positional as = as"
  by (induction as) auto

lemma positional_backup:
  "positional (drop 2 (backupArgv ns k ps api)) =
     map (\<lambda>p. ''pvc-'' @ p @ ''.pxar:/backup/'' @ p) ps @ (if api \<noteq> '''' then [''api.pxar:'' @ api] else [])"
proof -
  have "list_all (\<lambda>a. \<not> HasPrefix a ''--'')
      (map (\<lambda>p. ''pvc-'' @ p @ ''.pxar:/backup/'' @ p) ps @ (if api \<noteq> '''' then [''api.pxar:'' @ api] else []))"
    by (auto simp: HasPrefix_def list_all_iff)
  from positional_specs [OF this] show ?thesis by (simp add: backupArgv_def HasPrefix_def)
qed

text \<open>A name without a colon (a Kubernetes name has none) keeps its place in the specification.\<close>

lemma uploaded_claims:
  assumes "list_all (\<lambda>p. CHR '':'' \<notin> set p) ps"
  shows "uploaded dirs (backupArgv ns k ps api) =
    map (\<lambda>p. (''pvc-'' @ p @ ''.pxar.didx'', dirs (''/backup/'' @ p))) ps @
    (if api \<noteq> '''' then [(''api.pxar.didx'', dirs api)] else [])"
proof -
  have "takeWhile (\<lambda>c. c \<noteq> CHR '':'') (''pvc-'' @ p @ ''.pxar:/backup/'' @ p) = ''pvc-'' @ p @ ''.pxar''"
    "dropWhile (\<lambda>c. c \<noteq> CHR '':'') (''pvc-'' @ p @ ''.pxar:/backup/'' @ p) = '':/backup/'' @ p" if "p \<in> set ps" for p
    using that assms by (auto simp: list_all_iff takeWhile_append dropWhile_append)
  then show ?thesis by (simp add: uploaded_def positional_backup)
qed

lemma archive_name: "''pvc-'' @ p @ ''.pxar.didx'' = ''pvc-'' @ q @ ''.pxar.didx'' \<longleftrightarrow> p = q"
  by simp

lemma archived:
  assumes "list_all (\<lambda>p. CHR '':'' \<notin> set p) ps" "p \<in> set ps"
  shows "map_of (uploaded dirs (backupArgv ns k ps api)) (''pvc-'' @ p @ ''.pxar.didx'') = Some (dirs (''/backup/'' @ p))"
proof -
  have "map_of (map (\<lambda>p. (''pvc-'' @ p @ ''.pxar.didx'', dirs (''/backup/'' @ p))) ps) (''pvc-'' @ p @ ''.pxar.didx'') =
      Some (dirs (''/backup/'' @ p))"
    using assms(2) by (induction ps) auto
  then show ?thesis unfolding uploaded_claims [OF assms(1)] map_of_append map_add_def by (auto split: option.split)
qed

lemma snapshot_archives_append [simp]:
  "snapshot_archives dirs (m @ n) = snapshot_archives dirs m @ snapshot_archives dirs n"
  by (induction m rule: snapshot_archives.induct [of _ dirs]) simp_all

lemma no_upload:
  "emits (\<lambda>x. snapshot_archives dirs [x] = []) (fail P path code msg)"
  "emits (\<lambda>x. snapshot_archives dirs [x] = []) (writeTermlog P path line)"
  "emits (\<lambda>x. snapshot_archives dirs [x] = []) (set_notes P ns snap notes env)"
  unfolding fail_def writeTermlog_def set_notes_def print_err_def run_def
  by (intro emits_bind emits_rules | simp add: notesArgv_def)+

lemma no_upload_all: "list_all (\<lambda>x. snapshot_archives dirs [x] = []) n \<Longrightarrow> snapshot_archives dirs n = []"
proof (induction n)
  case (Cons x n)
  then show ?case using snapshot_archives_append [of dirs "[x]" n] by simp
qed simp

text \<open>A run that reaches the client uploads what it was asked to, once.\<close>

lemma backup_with_key_uploads:
  "gives (\<lambda>x n. snapshot_archives dirs n = uploaded dirs (backupArgv (c_NS c) path (ba_pvcs a) (ba_apiDir a)))
     (backup_with_key P c h path a)"
proof -
  have rest: "gives (\<lambda>y n. snapshot_archives dirs (Run (backupArgv (c_NS c) path (ba_pvcs a) (ba_apiDir a)) e # n) =
      uploaded dirs (backupArgv (c_NS c) path (ba_pvcs a) (ba_apiDir a))) m"
    if "emits (\<lambda>x. snapshot_archives dirs [x] = []) m" for e and m :: "int aop"
    using that unfolding gives_emits [symmetric]
    by (rule gives_mono) (drule no_upload_all, simp add: backupArgv_def)
  show ?thesis
    unfolding backup_with_key_def Let_def run_def [of P "backupArgv _ _ _ _"]
    by (rule gives_bind_answer, rule rest) (intro emits_bind emits_rules no_upload | simp add: run_def print_out_def emits_invoke listArgv_def)+
qed

lemma RunBackup_uploads:
  "gives (\<lambda>x n. x = 0 \<longrightarrow> (\<exists>ns k. snapshot_archives dirs n = uploaded dirs (backupArgv ns k (ba_pvcs a) (ba_apiDir a)))) (RunBackup P a)"
proof -
  have bad: "gives (\<lambda>x n. x = 0 \<longrightarrow> R n) (fail P path code msg)" if "code \<noteq> 0" for R path code msg
    by (rule gives_mono [OF fail_gives]) (use that in simp)
  have good: "gives (\<lambda>x n. x = 0 \<longrightarrow> (\<exists>ns k. snapshot_archives dirs (WriteTemp key # n) = uploaded dirs (backupArgv ns k (ba_pvcs a) (ba_apiDir a))))
      (do { code \<leftarrow> backup_with_key P c h path a; remove_temp path; State_Monad.return code })" for c h path key
    by (rule gives_bind [OF backup_with_key_uploads [of dirs]]) (simp add: remove_temp_def, (rule gives_rules)+, auto)
  show ?thesis
    unfolding RunBackup_def Let_def write_temp_def
    by (intro gives_case_prod gives_if gives_case_sum gives_bind_answer bad good) simp_all
qed

section \<open>Restoring\<close>

text \<open>Only the calls that touch data matter.\<close>

lemma claims_after_data:
  "claims_after snapshots blank extract j n vols = claims_after snapshots blank extract j (data_calls n) vols"
proof (induction n arbitrary: vols)
  case (Cons x n)
  show ?case
  proof (cases x)
    case (Run argv env)
    have "take 2 argv = [clientBinary, ''restore''] \<Longrightarrow> is_data (Run argv env)"
      by (cases argv) (auto simp: is_data.simps(2) clientBinary_def)
    with Run Cons show ?thesis by auto
  qed (use Cons in auto)
qed simp

text \<open>Pair by pair, emptied and extracted, the claims get the content of their archives.\<close>

lemma claims_after_pairs:
  assumes "\<forall>p\<in>set ps. claim_at j (''/backup/'' @ p) = Some p \<and> snapshots ref (''pvc-'' @ p @ ''.pxar.didx'') = Some (data p)"
    and "\<not> HasPrefix ref ''--''" "\<forall>d. extract blank d = d"
  shows "claims_after snapshots blank extract j (pair_calls P c k ref
      (map (\<lambda>p. \<lparr>rp_archive = ''pvc-'' @ p @ ''.pxar.didx'', rp_target = ''/backup/'' @ p\<rparr>) ps)) vols =
    (\<lambda>p. if p \<in> set ps then data p else vols p)"
  using assms(1)
proof (induction ps arbitrary: vols)
  case (Cons p ps)
  let ?argv = "restoreArgv (c_NS c) k ref (''pvc-'' @ p @ ''.pxar.didx'') (''/backup/'' @ p)"
  have argv: "take 2 ?argv = [clientBinary, ''restore'']"
    "positional (drop 2 ?argv) = [ref, ''pvc-'' @ p @ ''.pxar.didx'', ''/backup/'' @ p]"
    using assms(2) by (simp_all add: restoreArgv_def HasPrefix_def)
  from Cons.prems have p: "claim_at j (''/backup/'' @ p) = Some p" "snapshots ref (''pvc-'' @ p @ ''.pxar.didx'') = Some (data p)"
    by simp_all
  have rest: "claims_after snapshots blank extract j (pair_calls P c k ref
      (map (\<lambda>p. \<lparr>rp_archive = ''pvc-'' @ p @ ''.pxar.didx'', rp_target = ''/backup/'' @ p\<rparr>) ps)) w =
    (\<lambda>p. if p \<in> set ps then data p else w p)" for w using Cons by simp
  show ?case
    unfolding list.map pair_calls_simps RestorePair.simps claims_after.simps argv p option.case prod.case list.case rest
    using assms(3) by (auto simp: fun_eq_iff)
qed simp

text \<open>C3: what a backup put is what a restore brings back, claim by claim.  When the agent runs the
  command of a backup Job and exits 0, and later the command of a volume restore Job for some of the
  same claims and exits 0, with a reference whose snapshot holds what the backup uploaded, then each of
  these claims holds exactly what the claim of its name held for the backup, whatever it held before the
  restore, and no other claim changed.\<close>

theorem volume_data_roundtrip:
  assumes "list_all (\<lambda>p. CHR '':'' \<notin> set p) (bjs_PVCs s)" "set ps \<subseteq> set (bjs_PVCs s)" "ps \<noteq> []"
    and "rjs_Ref r \<noteq> ''''" "\<not> HasPrefix (rjs_Ref r) ''--''"
    and "agent_main ge (job_command (BuildBackupJob s)) = DoBackup a" "result (RunBackup P a) l = 0"
    and "agent_main ge' (job_command (BuildRestoreVolumeJob r node ps)) = DoRestoreVolume v"
    and "failing_exits Q" "result (RunRestoreVolume Q v) l' = 0"
    and "snapshots (rjs_Ref r) = map_of (snapshot_archives
      (\<lambda>path. case claim_at (BuildBackupJob s) path of Some c \<Rightarrow> data c | None \<Rightarrow> other path) (trace (RunBackup P a) l))"
    and "\<forall>d. extract blank d = d"
  shows "claims_after snapshots blank extract (BuildRestoreVolumeJob r node ps) (trace (RunRestoreVolume Q v) l') now =
    (\<lambda>p. if p \<in> set ps then data p else now p)"
proof -
  define dirs where "dirs = (\<lambda>path. case claim_at (BuildBackupJob s) path of Some c \<Rightarrow> data c | None \<Rightarrow> other path)"
  have "bjs_PVCs s \<noteq> []" using assms(2,3) by auto
  then have a: "ba_pvcs a = bjs_PVCs s" using assms(6) backup_job_runs [of s ge] by auto
  obtain ns k where up: "snapshot_archives dirs (trace (RunBackup P a) l) = uploaded dirs (backupArgv ns k (bjs_PVCs s) (ba_apiDir a))"
    using givesD [OF RunBackup_uploads [of dirs a P], of l] assms(7) a by auto
  have stored: "snapshots (rjs_Ref r) (''pvc-'' @ p @ ''.pxar.didx'') = Some (data p)" if "p \<in> set ps" for p
  proof -
    from that assms(2) have p: "p \<in> set (bjs_PVCs s)" by auto
    have "snapshots (rjs_Ref r) (''pvc-'' @ p @ ''.pxar.didx'') = Some (dirs (''/backup/'' @ p))"
      unfolding assms(11) dirs_def [symmetric] up by (rule archived [OF assms(1) p])
    then show ?thesis by (simp only: dirs_def claim_at_backup [OF p] option.case)
  qed
  have v: "va_ref v = rjs_Ref r"
    "va_pairs v = map (\<lambda>p. \<lparr>rp_archive = ''pvc-'' @ p @ ''.pxar.didx'', rp_target = ''/backup/'' @ p\<rparr>) ps"
    using assms(8) volume_job_runs [OF assms(4,3), of ge' node] by auto
  obtain c k' where "data_calls (trace (RunRestoreVolume Q v) l') = pair_calls Q c k' (rjs_Ref r) (va_pairs v)"
    using givesD [OF RunRestoreVolume_gives [OF assms(9), of v], of l'] assms(10) v(1) unfolding volume_run_def by auto
  then show ?thesis
    unfolding claims_after_data [of _ _ _ _ "trace _ _"] v(2)
    using claims_after_pairs [of ps "BuildRestoreVolumeJob r node ps" snapshots "rjs_Ref r" "data" "extract" blank,
      OF _ assms(5,12)] stored claim_at_restore by simp
qed

end
