(* ===== verification/Serialize.thy ===== *)
theory Serialize
  imports Json_Object Sample_World
begin

text \<open>
  Namespace serialization (\<open>internal/backup/serialize.go\<close>): discovery, one list call per
  resource type, the exclusions, the order of the documents and the stripping of volatile
  fields.  Discovery and the dynamic client are the world's; group/version parsing, labels,
  names and YAML marshalling are the \<open>apimachinery\<close> parameter.
\<close>

definition lastAppliedAnnotation :: string where
  "lastAppliedAnnotation = ''kubectl.kubernetes.io/last-applied-configuration''"

text \<open>The excluded (group, kind) pairs.\<close>

definition excludedKinds :: "(string \<times> string) list" where
  "excludedKinds = [('''', ''Event''), (''events.k8s.io'', ''Event''), (''batch'', ''Job''),
     (''pbs.sharifmind.ir'', ''PBSBackup''), (''pbs.sharifmind.ir'', ''PBSSchedule''),
     (''pbs.sharifmind.ir'', ''PBSRestore'')]"

definition volatileMetadata :: "string list" where
  "volatileMetadata = [''uid'', ''resourceVersion'', ''creationTimestamp'', ''generation'', ''managedFields'']"

definition hasVerb :: "string list \<Rightarrow> string \<Rightarrow> bool" where
  "hasVerb verbs verb = list_ex (\<lambda>v. v = verb \<or> v = ''*'') verbs"

definition skippableListError :: "gerr \<Rightarrow> bool" where
  "skippableListError e \<longleftrightarrow> e = NotFound \<or> e = Forbidden \<or> e = MethodNotSupported \<or> e = ServiceUnavailable"

definition strip_meta :: "jobject \<Rightarrow> jobject" where
  "strip_meta meta =
     (let m = del_all volatileMetadata meta
      in (case map_of m ''annotations'' of
            Some (JObj anns) \<Rightarrow>
              let anns' = del lastAppliedAnnotation anns
              in if length anns' = 0 then del ''annotations'' m else put ''annotations'' (JObj anns') m
          | _ \<Rightarrow> m))"

definition stripVolatile :: "jobject \<Rightarrow> jobject" where
  "stripVolatile obj = map_sub ''metadata'' strip_meta (del ''status'' obj)"

record doc =
  d_gk :: string
  d_name :: string
  d_obj :: jobject

text \<open>Whether a resource type of a group is listed at all.\<close>

definition listable :: "string \<Rightarrow> api_resource \<Rightarrow> bool" where
  "listable g ar \<longleftrightarrow> \<not> (\<not> ar_namespaced ar \<or> CHR ''/'' \<in> set (ar_name ar) \<or>
     (g, ar_kind ar) \<in> set excludedKinds \<or> \<not> hasVerb (ar_verbs ar) ''list'')"

definition docs_of :: "apimachinery \<Rightarrow> string \<Rightarrow> jobject list \<Rightarrow> doc list" where
  "docs_of A gk items =
     map (\<lambda>u. \<lparr>d_gk = gk, d_name = am_name A u, d_obj = u\<rparr>)
       (filter (\<lambda>u. am_label A u ManagedLabel = '''') items)"

text \<open>The inner loop over a group's resource types.\<close>

fun list_resources :: "kube \<Rightarrow> apimachinery \<Rightarrow> string \<Rightarrow> string \<times> string \<Rightarrow> api_resource list \<Rightarrow>
    (gerr + doc list) kop" where
  "list_resources K A ns gv [] = State_Monad.return (Inr [])"
| "list_resources K A ns gv (ar # ars) =
     (if \<not> listable (fst gv) ar then list_resources K A ns gv ars
      else do {
        r \<leftarrow> list_resource K (fst gv) (snd gv) (ar_name ar) ns;
        case r of
          Inl e \<Rightarrow> if skippableListError e then list_resources K A ns gv ars
                   else State_Monad.return (Inl e)
        | Inr items \<Rightarrow>
            bindE (list_resources K A ns gv ars) (\<lambda>ds.
            State_Monad.return (Inr (docs_of A (am_gkString A (fst gv) (ar_kind ar)) items @ ds)))
      })"

fun list_groups :: "kube \<Rightarrow> apimachinery \<Rightarrow> string \<Rightarrow> api_resource_list list \<Rightarrow> (gerr + doc list) kop" where
  "list_groups K A ns [] = State_Monad.return (Inr [])"
| "list_groups K A ns (rl # rls) =
     (case am_parseGV A (arl_groupVersion rl) of
        Inl e \<Rightarrow> State_Monad.return (Inl (OtherError e))
      | Inr gv \<Rightarrow>
          bindE (list_resources K A ns gv (arl_resources rl)) (\<lambda>ds.
          bindE (list_groups K A ns rls) (\<lambda>ds'. State_Monad.return (Inr (ds @ ds')))))"

text \<open>\<open>sort.Slice\<close> by group-kind string, then name.  It is not a stable sort; the order it gives
  is unique when no two documents share both keys.\<close>

definition doc_key :: "doc \<Rightarrow> string \<times> string" where
  "doc_key d = (d_gk d, d_name d)"

fun render_docs :: "apimachinery \<Rightarrow> doc list \<Rightarrow> gerr + string list" where
  "render_docs A [] = Inr []"
| "render_docs A (d # ds) =
     (case am_marshal A (stripVolatile (d_obj d)) of
        None \<Rightarrow> Inl (OtherError ''yaml'')
      | Some y \<Rightarrow> (case render_docs A ds of Inl e \<Rightarrow> Inl e | Inr ys \<Rightarrow> Inr (y # ys)))"

definition render :: "apimachinery \<Rightarrow> doc list \<Rightarrow> gerr + string" where
  "render A found =
     (case render_docs A (sort_key doc_key found) of
        Inl e \<Rightarrow> Inl e
      | Inr rendered \<Rightarrow>
          if length rendered = 0 then Inr ''''
          else Inr (Join rendered ([CHR 0x0A] @ ''---'' @ [CHR 0x0A]) @ [CHR 0x0A]))"

definition SerializeNamespace :: "kube \<Rightarrow> apimachinery \<Rightarrow> string \<Rightarrow> (gerr + string) kop" where
  "SerializeNamespace K A ns = do {
     (lists, err) \<leftarrow> discover K;
     case err of
       Some (False, e) \<Rightarrow> State_Monad.return (Inl e)
     | _ \<Rightarrow> bindE (list_groups K A ns lists) (\<lambda>found. State_Monad.return (render A found))
   }"

section \<open>What is archived\<close>

definition archived :: "apimachinery \<Rightarrow> doc \<Rightarrow> bool" where
  "archived A d \<longleftrightarrow> am_label A (d_obj d) ManagedLabel = '''' \<and> d_name d = am_name A (d_obj d) \<and>
     (\<exists>g k. d_gk d = am_gkString A g k \<and> (g, k) \<notin> set excludedKinds)"

fun is_list_of :: "string \<Rightarrow> kcall \<Rightarrow> bool" where
  "is_list_of ns (Read (ListResource g v r n)) \<longleftrightarrow> n = ns"
| "is_list_of ns (Read Discover) \<longleftrightarrow> True"
| "is_list_of ns _ \<longleftrightarrow> False"

lemma docs_of_archived: "listable g ar \<Longrightarrow> list_all (archived A) (docs_of A (am_gkString A g (ar_kind ar)) items)"
  by (auto simp: docs_of_def archived_def listable_def list_all_iff)

lemma list_resource_gives:
  "(\<And>x. gives (\<lambda>y n. S y (Read (ListResource g v r ns) # n)) (f x)) \<Longrightarrow>
   gives S (State_Monad.bind (list_resource K g v r ns) f)"
  unfolding list_resource_def by (rule gives_bind_call)

abbreviation all_archived :: "apimachinery \<Rightarrow> gerr + doc list \<Rightarrow> bool" where
  "all_archived A x \<equiv> \<forall>ds. x = Inr ds \<longrightarrow> list_all (archived A) ds"

lemma list_resources_gives:
  "gives (safely (is_list_of ns) (all_archived A)) (list_resources K A ns gv ars)"
proof (induction ars)
  case (Cons ar ars)
  show ?case
  proof (cases "listable (fst gv) ar")
    case True
    show ?thesis
      unfolding list_resources.simps
      by (auto intro!: gives_rules list_resource_gives Cons.IH gives_bindE [OF Cons.IH]
          simp: True split: sum.split)
        (auto simp: safely_def docs_of_archived [OF True])
  qed (use Cons.IH in simp)
qed (auto intro: gives_rules)

lemma list_groups_gives:
  "gives (safely (is_list_of ns) (all_archived A)) (list_groups K A ns rls)"
proof (induction rls)
  case (Cons rl rls)
  show ?case
    unfolding list_groups.simps
    by (auto intro!: gives_rules gives_bindE [OF list_resources_gives] gives_bindE [OF Cons.IH]
        split: sum.split)
      (auto simp: safely_def)
qed (auto intro: gives_rules)

lemma SerializeNamespace_gives:
  "gives (safely (is_list_of ns) (\<lambda>r. \<forall>y. r = Inr y \<longrightarrow> (\<exists>found. list_all (archived A) found \<and> render A found = Inr y)))
     (SerializeNamespace K A ns)"
proof -
  have *: "gives (safely (is_list_of ns) (\<lambda>r. \<forall>y. r = Inr y \<longrightarrow> (\<exists>found. list_all (archived A) found \<and> render A found = Inr y)))
     (bindE (list_groups K A ns lists) (\<lambda>found. State_Monad.return (render A found)))" for lists
    by (rule gives_bindE [OF list_groups_gives]) (auto intro!: gives_rules simp: safely_def)
  show ?thesis
    unfolding SerializeNamespace_def discover_def
    by (auto intro!: gives_rules * split: option.split bool.split)
qed

text \<open>Serialization only reads, and only the asked namespace, and whatever it returns is the
  rendering of documents of which none carries the operator's managed label and none is of an
  excluded kind.\<close>

theorem SerializeNamespace_archives:
  "list_all (is_list_of ns) (trace (SerializeNamespace K A ns) l) \<and>
   (\<forall>y. result (SerializeNamespace K A ns) l = Inr y \<longrightarrow>
     (\<exists>found. list_all (archived A) found \<and> render A found = Inr y))"
  using givesD [OF SerializeNamespace_gives [of ns A K], of l] by (auto simp: safely_def)

text \<open>The archive does not depend on the order in which the API server lists things: the same
  documents found in any order, with distinct (kind, name) keys, render to the same text.\<close>

theorem render_deterministic:
  assumes "mset found = mset found'" "distinct (map doc_key found)"
  shows "render A found = render A found'"
  using sort_key_perm_eq [OF assms(1), of doc_key] assms(2)
  by (simp add: render_def distinct_map)

lemma render_docs_length: "render_docs A ds = Inr ys \<Longrightarrow> length ys = length ds"
  by (induction ds arbitrary: ys) (auto split: option.splits sum.splits)

text \<open>An empty namespace, and only that, gives the empty archive.\<close>

lemma render_empty: "render A found = Inr '''' \<longleftrightarrow> found = []"
proof
  assume "render A found = Inr ''''"
  then obtain ys where "render_docs A (sort_key doc_key found) = Inr ys" "length ys = 0"
    by (auto simp: render_def split: sum.splits if_splits)
  with render_docs_length [of A "sort_key doc_key found" ys] show "found = []" by simp
qed (simp add: render_def)

subsection \<open>Volatile fields\<close>

definition clean_obj :: "jobject \<Rightarrow> bool" where
  "clean_obj obj \<longleftrightarrow> map_of obj ''status'' = None \<and>
     (\<forall>k\<in>set volatileMetadata. map_of (sub_obj obj ''metadata'') k = None) \<and>
     map_of (sub_obj (sub_obj obj ''metadata'') ''annotations'') lastAppliedAnnotation = None"

lemma annotations_not_volatile: "''annotations'' \<notin> set volatileMetadata"
  by (simp add: volatileMetadata_def)

lemma strip_meta_clean:
  "k \<in> set volatileMetadata \<Longrightarrow> map_of (strip_meta meta) k = None"
  "map_of (sub_obj (strip_meta meta) ''annotations'') lastAppliedAnnotation = None"
  using annotations_not_volatile
  by (auto simp: strip_meta_def Let_def map_of_del_all sub_obj_def split: option.splits json.splits)

lemma strip_meta_Nil: "strip_meta [] = []"
  by (simp add: strip_meta_def)

lemma strip_meta_keep:
  "k \<notin> set volatileMetadata \<Longrightarrow> k \<noteq> ''annotations'' \<Longrightarrow> map_of (strip_meta meta) k = map_of meta k"
  by (auto simp: strip_meta_def Let_def map_of_del_all split: option.splits json.splits)

text \<open>Stripping leaves no status, no server-side metadata and no last-applied copy, and
  changes nothing else: every other field of the object, of its metadata and of its annotations
  is the source's.\<close>

theorem stripVolatile_exact:
  "clean_obj (stripVolatile obj) \<and>
   (\<forall>k. k \<noteq> ''status'' \<longrightarrow> k \<noteq> ''metadata'' \<longrightarrow> map_of (stripVolatile obj) k = map_of obj k) \<and>
   (\<forall>k. k \<notin> set volatileMetadata \<longrightarrow> k \<noteq> ''annotations'' \<longrightarrow>
      map_of (sub_obj (stripVolatile obj) ''metadata'') k = map_of (sub_obj obj ''metadata'') k) \<and>
   (\<forall>k. k \<noteq> lastAppliedAnnotation \<longrightarrow>
      map_of (sub_obj (sub_obj (stripVolatile obj) ''metadata'') ''annotations'') k =
      map_of (sub_obj (sub_obj obj ''metadata'') ''annotations'') k)"
proof (intro conjI allI impI)
  have m: "sub_obj (stripVolatile obj) ''metadata'' = strip_meta (sub_obj obj ''metadata'')"
    unfolding stripVolatile_def by (simp add: sub_obj_map_sub strip_meta_Nil)
  show "clean_obj (stripVolatile obj)"
    unfolding clean_obj_def m by (auto simp: strip_meta_clean stripVolatile_def map_of_map_sub_other)
  show "map_of (stripVolatile obj) k = map_of obj k" if "k \<noteq> ''status''" "k \<noteq> ''metadata''" for k
    using that by (simp add: stripVolatile_def map_of_map_sub_other)
  show "map_of (sub_obj (stripVolatile obj) ''metadata'') k = map_of (sub_obj obj ''metadata'') k"
    if "k \<notin> set volatileMetadata" "k \<noteq> ''annotations''" for k
    unfolding m using that by (rule strip_meta_keep)
  show "map_of (sub_obj (sub_obj (stripVolatile obj) ''metadata'') ''annotations'') k =
      map_of (sub_obj (sub_obj obj ''metadata'') ''annotations'') k" if "k \<noteq> lastAppliedAnnotation" for k
    unfolding m using that annotations_not_volatile
    by (auto simp: strip_meta_def Let_def sub_obj_def map_of_del_all fun_upd_def
        split: option.splits json.splits if_splits dest!: arg_cong [of _ "[]" map_of] fun_cong [of _ _ k])
qed

section \<open>Examples\<close>

definition newline :: string where
  "newline = [CHR 0x0A]"

text \<open>A YAML library that renders an object as its name.\<close>

definition named_yaml :: apimachinery where
  "named_yaml = \<lparr>am_docs = (\<lambda>d. ([''web'' @ newline], None)),
     am_unmarshal = (\<lambda>_. Inr [(''kind'', JStr ''ConfigMap''), (''metadata'', JObj [(''name'', JStr ''web'')])]),
     am_marshal = (\<lambda>m. Some (sub_str (sub_obj m ''metadata'') ''name'')),
     am_parseGV = (\<lambda>gv. Inr ('''', gv)), am_gkString = (\<lambda>g k. k), am_label = (\<lambda>_ _. ''''),
     am_name = (\<lambda>m. sub_str (sub_obj m ''metadata'') ''name'')\<rparr>"

definition one_doc :: doc where
  "one_doc = \<lparr>d_gk = ''ConfigMap'', d_name = ''web'', d_obj = [(''kind'', JStr ''ConfigMap''),
     (''metadata'', JObj [(''name'', JStr ''web''), (''uid'', JStr ''7'')])]\<rparr>"

definition one_world :: kube where
  "one_world = empty_world\<lparr>
     k_discover := (\<lambda>_. ([\<lparr>arl_groupVersion = ''v1'', arl_resources =
        [\<lparr>ar_kind = ''ConfigMap'', ar_name = ''configmaps'', ar_namespaced = True, ar_verbs = [''list'']\<rparr>]\<rparr>], None)),
     k_resources := (\<lambda>_ _ _ _ _. Inr [d_obj one_doc])\<rparr>"

lemma SerializeNamespace_archives_witness:
  "list_all (is_list_of ''app'') (trace (SerializeNamespace one_world named_yaml ''app'') []) \<and>
   (\<exists>found. list_all (archived named_yaml) found \<and> render named_yaml found = Inr (''web'' @ newline))"
proof -
  have "result (SerializeNamespace one_world named_yaml ''app'') [] = Inr (''web'' @ newline)" by code_simp
  then show ?thesis using SerializeNamespace_archives [of "''app''" one_world named_yaml "[]"] by blast
qed

lemma render_deterministic_witness:
  "render named_yaml [one_doc, one_doc\<lparr>d_name := ''a''\<rparr>] = render named_yaml [one_doc\<lparr>d_name := ''a''\<rparr>, one_doc]"
  by (rule render_deterministic) (simp_all add: doc_key_def one_doc_def)

lemma stripVolatile_exact_witness:
  "clean_obj (stripVolatile (d_obj one_doc)) \<and>
   map_of (stripVolatile (d_obj one_doc)) ''kind'' = Some (JStr ''ConfigMap'')"
  using stripVolatile_exact [of "d_obj one_doc"] by (simp add: one_doc_def)

end
