(* ===== verification/Archive_Roundtrip.thy ===== *)
theory Archive_Roundtrip
  imports Serialize Restore_Plan
begin

text \<open>
  The archive's way from the backup to the restore: what \<open>SerializeNamespace\<close>
  (\<open>internal/backup/serialize.go\<close>) writes, \<open>ParseAPIManifests\<close>
  (\<open>internal/backup/restore_plan.go\<close>) reads.  The YAML library enters by the documented
  behaviour of its reader and its unmarshaller on the documents at hand.
\<close>

text \<open>The YAML library on a list of documents: the reader splits the archive at the separator
  lines, each marshalled document is read back as the object it was made of, and it is not
  blank.\<close>

definition reads_back :: "apimachinery \<Rightarrow> jobject list \<Rightarrow> bool" where
  "reads_back A objs \<longleftrightarrow>
     (\<forall>m\<in>set objs. case am_marshal A m of None \<Rightarrow> False
        | Some y \<Rightarrow> am_unmarshal A (y @ newline) = Inr m \<and> \<not> isBlankDoc (y @ newline)) \<and>
     (let ys = map (\<lambda>m. the (am_marshal A m)) objs
      in am_docs A (Join ys (newline @ ''---'' @ newline) @ newline) = (map (\<lambda>y. y @ newline) ys, None))"

definition named :: "jobject \<Rightarrow> bool" where
  "named m \<longleftrightarrow> sub_str m ''kind'' \<noteq> '''' \<and> sub_str (sub_obj m ''metadata'') ''name'' \<noteq> ''''"

lemma render_docs_marshal:
  "\<forall>d\<in>set ds. am_marshal A (stripVolatile (d_obj d)) \<noteq> None \<Longrightarrow>
   render_docs A ds = Inr (map (\<lambda>d. the (am_marshal A (stripVolatile (d_obj d)))) ds)"
  by (induction ds) auto

lemma parse_obj_fields:
  "named m \<Longrightarrow> \<exists>n obj. parse_obj ns i raw m = Inr \<lparr>pd_Kind = sub_str m ''kind'', pd_Namespace = n,
     pd_Name = sub_str (sub_obj m ''metadata'') ''name'', pd_Obj = obj\<rparr>"
  unfolding parse_obj_def Let_def named_def by (subst if_not_P) blast+

lemma parse_obj_named:
  assumes "named m"
  shows "\<exists>d. parse_obj ns i raw m = Inr d \<and> pd_Kind d = sub_str m ''kind'' \<and>
     pd_Name d = sub_str (sub_obj m ''metadata'') ''name''"
proof -
  obtain n obj where d: "parse_obj ns i raw m = Inr \<lparr>pd_Kind = sub_str m ''kind'', pd_Namespace = n,
     pd_Name = sub_str (sub_obj m ''metadata'') ''name'', pd_Obj = obj\<rparr>"
    using parse_obj_fields [OF assms] by blast
  show ?thesis unfolding d by (intro exI conjI, rule refl) simp_all
qed

lemma parse_docs_read_back:
  assumes "\<forall>m\<in>set objs. named m \<and> am_unmarshal A (f m) = Inr m \<and> \<not> isBlankDoc (f m)"
  shows "\<exists>ds. parse_docs A ns i (map f objs) None = Inr ds \<and>
    map (\<lambda>d. (pd_Kind d, pd_Name d)) ds =
    map (\<lambda>m. (sub_str m ''kind'', sub_str (sub_obj m ''metadata'') ''name'')) objs"
  using assms
proof (induction objs arbitrary: i)
  case (Cons m objs)
  have "\<forall>m\<in>set objs. named m \<and> am_unmarshal A (f m) = Inr m \<and> \<not> isBlankDoc (f m)"
    using Cons.prems by simp
  from Cons.IH [OF this, of "i + 1"] obtain ds where ds: "parse_docs A ns (i + 1) (map f objs) None = Inr ds"
    "map (\<lambda>d. (pd_Kind d, pd_Name d)) ds =
     map (\<lambda>m. (sub_str m ''kind'', sub_str (sub_obj m ''metadata'') ''name'')) objs"
    by blast
  have m: "named m" "am_unmarshal A (f m) = Inr m" "\<not> isBlankDoc (f m)" using Cons.prems by simp_all
  obtain d where d: "parse_obj ns i (f m) m = Inr d" "pd_Kind d = sub_str m ''kind''"
    "pd_Name d = sub_str (sub_obj m ''metadata'') ''name''"
    using parse_obj_named [OF m(1)] by blast
  have "parse_docs A ns i (map f (m # objs)) None = Inr (d # ds)"
    using ds(1) d(1) m(2,3) by simp
  moreover have "map (\<lambda>d. (pd_Kind d, pd_Name d)) (d # ds) =
     map (\<lambda>m. (sub_str m ''kind'', sub_str (sub_obj m ''metadata'') ''name'')) (m # objs)"
    by (simp only: list.map ds(2) d(2,3))
  ultimately show ?case by blast
qed simp

text \<open>The archive of a namespace is read back complete: with a YAML library that reads what it
  wrote, a restore decodes one document per archived object, in the archive's order, of the same
  kind and name, stripped and rewritten for the target namespace.\<close>

theorem archive_roundtrip:
  assumes "render A found = Inr y" "found \<noteq> []"
    and objs: "objs = map (\<lambda>d. stripVolatile (d_obj d)) (sort_key doc_key found)"
    and "list_all named objs" "reads_back A objs"
  shows "\<exists>ds. ParseAPIManifests A y ns = Inr ds \<and> list_all (planned_for ns) ds \<and>
    map (\<lambda>d. (pd_Kind d, pd_Name d)) ds =
    map (\<lambda>m. (sub_str m ''kind'', sub_str (sub_obj m ''metadata'') ''name'')) objs"
proof -
  define g where "g = (\<lambda>m. the (am_marshal A m))"
  have m: "am_marshal A m = Some (g m) \<and> am_unmarshal A (g m @ newline) = Inr m \<and> \<not> isBlankDoc (g m @ newline)"
    if "m \<in> set objs" for m
    using assms(5) that by (auto simp: reads_back_def g_def split: option.splits)
  have "\<forall>d\<in>set (sort_key doc_key found). am_marshal A (stripVolatile (d_obj d)) \<noteq> None"
    using m objs by auto
  then have "render_docs A (sort_key doc_key found) = Inr (map g objs)"
    using render_docs_marshal objs by (simp add: g_def comp_def)
  moreover have "objs \<noteq> []" using assms(2) objs by (metis length_0_conv length_map length_sort)
  ultimately have y: "y = Join (map g objs) (newline @ ''---'' @ newline) @ newline"
    using assms(1) by (auto simp: render_def newline_def)
  have "am_docs A y = (map (\<lambda>m. g m @ newline) objs, None)"
    using assms(5) unfolding y by (simp add: reads_back_def Let_def g_def comp_def)
  then have parse: "ParseAPIManifests A y ns = parse_docs A ns 0 (map (\<lambda>m. g m @ newline) objs) None"
    by (simp add: ParseAPIManifests_def)
  obtain ds where ds: "parse_docs A ns 0 (map (\<lambda>m. g m @ newline) objs) None = Inr ds"
    "map (\<lambda>d. (pd_Kind d, pd_Name d)) ds =
     map (\<lambda>m. (sub_str m ''kind'', sub_str (sub_obj m ''metadata'') ''name'')) objs"
    using parse_docs_read_back [of objs A "\<lambda>m. g m @ newline" ns 0] assms(4) m
    by (auto simp: list_all_iff)
  moreover have "list_all (planned_for ns) ds"
    using parse_docs_planned [OF ds(1)] by (simp add: list_all_iff)
  ultimately show ?thesis using parse by auto
qed

lemma strip_one_doc:
  "stripVolatile (d_obj one_doc) = [(''kind'', JStr ''ConfigMap''), (''metadata'', JObj [(''name'', JStr ''web'')])]"
  by code_simp

lemma sort_one_doc: "[stripVolatile (d_obj one_doc)] = map (\<lambda>d. stripVolatile (d_obj d)) (sort_key doc_key [one_doc])"
  by simp

lemma archive_roundtrip_witness:
  "\<exists>ds. ParseAPIManifests named_yaml (''web'' @ newline) ''copy'' = Inr ds \<and>
    list_all (planned_for ''copy'') ds \<and> map (\<lambda>d. (pd_Kind d, pd_Name d)) ds =
    map (\<lambda>m. (sub_str m ''kind'', sub_str (sub_obj m ''metadata'') ''name'')) [stripVolatile (d_obj one_doc)]"
proof (rule archive_roundtrip [OF _ _ sort_one_doc])
  show "render named_yaml [one_doc] = Inr (''web'' @ newline)" by code_simp
  show "list_all named [stripVolatile (d_obj one_doc)]" unfolding strip_one_doc by code_simp
  show "reads_back named_yaml [stripVolatile (d_obj one_doc)]" unfolding strip_one_doc by code_simp
qed simp

end
