(* ===== verification/Hooks.thy ===== *)
theory Hooks
  imports Go_Json
begin

text \<open>
  Pre-backup hooks (\<open>internal/hooks/exec.go\<close>): the annotation contract \<open>ParseHook\<close>.  The
  controllers see the executor (\<open>Hook_Exec\<close>) as the \<open>exec_hook\<close> call of the
  environment.
\<close>

definition AnnotationContainer :: string where
  "AnnotationContainer = ''pbs.backup/pre-hook-container''"

definition AnnotationCommand :: string where
  "AnnotationCommand = ''pbs.backup/pre-hook-command''"

definition HookTimeout :: int where
  "HookTimeout = 120 * second"

text \<open>The outcome: no hook, an annotation problem, or the container and the command.  The text
  of a JSON decode error is a parameter.\<close>

datatype hook = NoHook | BadHook string | Hook (hook_container: string) (hook_command: "string list")

definition unmarshal_strings :: "string \<Rightarrow> string list option" where
  "unmarshal_strings raw = (case parse_json raw of None \<Rightarrow> None | Some v \<Rightarrow> un_strings v)"

definition ParseHook :: "(string \<Rightarrow> string) \<Rightarrow> pod \<Rightarrow> hook" where
  "ParseHook json_error p =
     (let raw = label (om_annotations (pod_meta p)) AnnotationCommand
      in if raw = '''' then NoHook
         else (case unmarshal_strings raw of
                 None \<Rightarrow> BadHook (''annotation '' @ AnnotationCommand @
                   '' is not a JSON array of strings: '' @ json_error raw)
               | Some command \<Rightarrow>
                   if length command = 0
                   then BadHook (''annotation '' @ AnnotationCommand @ '' is an empty array'')
                   else
                     let container = label (om_annotations (pod_meta p)) AnnotationContainer
                     in if container = '''' then
                          (case ps_containers (pod_spec p) of
                             [] \<Rightarrow> BadHook ''no container annotation and the pod has no containers''
                           | c # _ \<Rightarrow> Hook (ct_name c) command)
                        else Hook container command))"

text \<open>A string array in the annotation is read back as it is.\<close>

lemma un_strings_enc: "un_strings (JvArr (map JvStr ws)) = Some ws"
proof -
  have "those (map (\<lambda>x. un_string x '''') (map JvStr ws)) = Some ws"
    by (induction ws) (simp_all add: un_string_def)
  then show ?thesis by (simp add: un_strings_def)
qed

lemma unmarshal_strings_enc: "unmarshal_strings (enc_val (JvArr (map JvStr ws))) = Some ws"
  by (simp add: unmarshal_strings_def parse_json_enc un_strings_enc list_all_iff del: enc_val.simps)

text \<open>The hook a user writes is the hook that runs: for every non-empty argument vector,
  rendered as JSON into the command annotation (whatever characters it holds), the pod's hook is
  that vector in the annotated container, or in the first container when none is named.\<close>

theorem ParseHook_roundtrip:
  assumes "om_annotations (pod_meta p) AnnotationCommand = Some (enc_val (JvArr (map JvStr argv)))"
    and "argv \<noteq> []" and "ps_containers (pod_spec p) \<noteq> []"
  shows "ParseHook json_error p =
    Hook (if label (om_annotations (pod_meta p)) AnnotationContainer = ''''
          then ct_name (hd (ps_containers (pod_spec p)))
          else label (om_annotations (pod_meta p)) AnnotationContainer) argv"
proof -
  have "label (om_annotations (pod_meta p)) AnnotationCommand = enc_val (JvArr (map JvStr argv))"
    using assms(1) by (simp add: label_def)
  moreover have "enc_val (JvArr (map JvStr argv)) \<noteq> ''''" by simp
  ultimately show ?thesis
    using assms(2,3) unfolding ParseHook_def
    by (cases "ps_containers (pod_spec p)") (simp_all add: Let_def unmarshal_strings_enc del: enc_val.simps)
qed

text \<open>A problem is reported only for a requested hook: a pod without the annotation has none.\<close>

lemma ParseHook_NoHook: "ParseHook e p = NoHook \<longleftrightarrow> label (om_annotations (pod_meta p)) AnnotationCommand = ''''"
  by (simp add: ParseHook_def Let_def split: option.split list.split)

definition hooked_pod :: pod where
  "hooked_pod = \<lparr>pod_meta = (new_meta ''db-0'' ''app'' Map.empty)
     \<lparr>om_annotations := [AnnotationCommand \<mapsto> enc_val (JvArr (map JvStr [''pg_dump'', ''-f'', ''/dump'']))]\<rparr>,
     pod_spec = \<lparr>ps_hostname = '''', ps_nodeName = ''n1'', ps_restartPolicy = ''Always'', ps_serviceAccount = '''',
       ps_affinity = None, ps_containers = [\<lparr>ct_name = ''db'', ct_image = ''pg'', ct_command = [], ct_env = [],
         ct_mounts = [], ct_pullPolicy = ''''\<rparr>], ps_volumes = [\<lparr>v_name = ''d'', v_source = PVCSource ''data'' False\<rparr>]\<rparr>,
     pod_statuses = []\<rparr>"

lemma ParseHook_roundtrip_witness:
  "ParseHook (\<lambda>_. '''') hooked_pod = Hook ''db'' [''pg_dump'', ''-f'', ''/dump'']"
  by (subst ParseHook_roundtrip)
    (simp_all add: hooked_pod_def label_def AnnotationContainer_def AnnotationCommand_def del: enc_val.simps)

end
