(* ===== verification/Backup_Controller.thy ===== *)
theory Backup_Controller
  imports Controller_Common Serialize Hooks
begin

text \<open>
  The PBSBackup reconciler (\<open>internal/controller/pbsbackup_controller.go\<close>): the gates, the copy
  of the credentials secret, the staging ConfigMap, PVC selection and placement, the pre-backup
  hooks, one Job per node, and the way to a terminal phase.  Each Go method is an operation of
  the same name; a \<open>problem\<close> string of the code is the \<open>Inl\<close> of a result's inner sum.
\<close>

section \<open>The reconciler\<close>

record PBSBackupReconciler =
  br_AgentImage :: string
  br_Serializer :: "apimachinery option"
  br_Metrics :: bool
  br_HookExecutor :: bool

record placedJob =
  pj_node :: string
  pj_job :: job

subsection \<open>Metrics\<close>

definition observeCompleted :: "PBSBackupReconciler \<Rightarrow> PBSBackup \<Rightarrow> unit kop" where
  "observeCompleted R b =
     (case bst_completedAt (b_status b) of
        None \<Rightarrow> State_Monad.return ()
      | Some c \<Rightarrow>
          if \<not> br_Metrics R then State_Monad.return ()
          else do {
            emit (SetGauge ''pbs_backup_last_success_timestamp_seconds'' (b_ns b) (of_int (Unix c)));
            (case bst_startedAt (b_status b) of
               None \<Rightarrow> State_Monad.return ()
             | Some s \<Rightarrow> emit (SetGauge ''pbs_backup_duration_seconds'' (b_ns b) (of_int (c - s) / of_int second)))
          })"

definition observeFailed :: "PBSBackupReconciler \<Rightarrow> PBSBackup \<Rightarrow> unit kop" where
  "observeFailed R b =
     (if \<not> br_Metrics R then State_Monad.return () else emit (IncCounter ''pbs_backup_errors_total'' (b_ns b)))"

subsection \<open>Recording an outcome\<close>

definition stored_backup_status :: "PBSBackupStatus \<Rightarrow> PBSBackupStatus" where
  "stored_backup_status st = st\<lparr>bst_startedAt := stored_time (bst_startedAt st),
     bst_completedAt := stored_time (bst_completedAt st)\<rparr>"

text \<open>The patch sends the status the reconcile made of the object it read; the object is then
  the server's answer.\<close>

definition recordOutcome :: "kube \<Rightarrow> PBSBackup \<Rightarrow> backup_phase \<Rightarrow> condition \<Rightarrow>
    (PBSBackupStatus \<Rightarrow> PBSBackupStatus kop) \<Rightarrow> (gerr + bool \<times> PBSBackup) kop" where
  "recordOutcome K b phase cond extra = do {
     (conds, transitioned) \<leftarrow> observe (\<lambda>l. k_setCondition K l (bst_conditions (b_status b))
        (cond\<lparr>cond_generation := om_generation (b_meta b)\<rparr>));
     st \<leftarrow> extra ((b_status b)\<lparr>bst_conditions := conds, bst_phase := phase\<rparr>);
     if st = b_status b then State_Monad.return (Inr (transitioned, b))
     else skipE (do_write K (PatchBackupStatus (b_ns b) (b_name b) st))
       (State_Monad.return (Inr (transitioned, b\<lparr>b_status := stored_backup_status st\<rparr>)))
   }"

definition notify :: "PBSBackup \<Rightarrow> bool \<Rightarrow> event_type \<Rightarrow> string \<Rightarrow> string \<Rightarrow> unit kop" where
  "notify b transitioned ty reason note =
     (if transitioned then emit (Event ''PBSBackup'' (b_name b) ty reason '''' note) else State_Monad.return ())"

definition hold :: "kube \<Rightarrow> PBSBackup \<Rightarrow> string \<Rightarrow> string \<Rightarrow> int \<Rightarrow> outcome kop" where
  "hold K b reason message wait =
     (let phase = (if bst_phase (b_status b) = BackupPhaseRunning then BackupPhaseRunning
                   else BackupPhaseScheduled)
      in bindE (recordOutcome K b phase (new_condition CondFalse reason message) State_Monad.return)
         (\<lambda>(transitioned, b). do {
            notify b transitioned EventWarning reason message;
            State_Monad.return (Inr (RequeueAfter wait))
          }))"

definition jobStatuses :: "placedJob list \<Rightarrow> BackupJobStatus list" where
  "jobStatuses placed = map (\<lambda>pj. \<lparr>bj_node = pj_node pj, bj_job = job_name (pj_job pj),
     bj_state = jobState (pj_job pj)\<rparr>) placed"

definition runBackup :: "kube \<Rightarrow> PBSBackup \<Rightarrow> placedJob list \<Rightarrow> outcome kop" where
  "runBackup K b placed =
     bindE (recordOutcome K b BackupPhaseRunning (new_condition CondFalse reasonRunning ''backup jobs running'')
       (\<lambda>s. case bst_startedAt s of
          Some t \<Rightarrow> State_Monad.return (s\<lparr>bst_jobs := jobStatuses placed\<rparr>)
        | None \<Rightarrow> do {
            now \<leftarrow> read_clock K;
            State_Monad.return (s\<lparr>bst_startedAt := Some now, bst_jobs := jobStatuses placed\<rparr>)
          }))
     (\<lambda>(transitioned, b). do {
        notify b transitioned EventNormal reasonRunning ''backup jobs are running'';
        State_Monad.return (Inr (RequeueAfter requeueWait))
      })"

text \<open>\<open>CompletedAt\<close> is set once.\<close>

definition stamp_completed :: "kube \<Rightarrow> PBSBackupStatus \<Rightarrow> PBSBackupStatus kop" where
  "stamp_completed K s = (case bst_completedAt s of
       Some t \<Rightarrow> State_Monad.return s
     | None \<Rightarrow> do { now \<leftarrow> read_clock K; State_Monad.return (s\<lparr>bst_completedAt := Some now\<rparr>) })"

definition failBackup :: "PBSBackupReconciler \<Rightarrow> kube \<Rightarrow> PBSBackup \<Rightarrow> string \<Rightarrow> string \<Rightarrow>
    placedJob list \<Rightarrow> outcome kop" where
  "failBackup R K b reason message placed =
     bindE (recordOutcome K b BackupPhaseFailed (new_condition CondFalse reason message)
       (\<lambda>s. stamp_completed K (s\<lparr>bst_jobs := jobStatuses placed\<rparr>)))
     (\<lambda>(transitioned, b). do {
        notify b transitioned EventWarning reason message;
        observeFailed R b;
        State_Monad.return (Inr NoRequeue)
      })"

subsection \<open>Collecting the results\<close>

text \<open>The first non-empty termination message of the pods, pod by pod.\<close>

definition termination_message :: "container_status \<Rightarrow> string" where
  "termination_message cs =
     (let msg = (case cs_terminated cs of None \<Rightarrow> '''' | Some m \<Rightarrow> m)
      in if msg = '''' then (case cs_lastTerminated cs of None \<Rightarrow> '''' | Some m \<Rightarrow> m) else msg)"

fun first_message :: "container_status list \<Rightarrow> string option" where
  "first_message [] = None"
| "first_message (cs # css) =
     (if termination_message cs = '''' then first_message css else Some (termination_message cs))"

text \<open>Decoding the agent's result; \<open>None\<close> is a decode error.\<close>

definition decode_result :: "string \<Rightarrow> (string \<times> int) option" where
  "decode_result msg =
     (case parse_json msg of None \<Rightarrow> None
      | Some v \<Rightarrow> (case un_members v of None \<Rightarrow> None
        | Some ms \<Rightarrow> (case (un_field un_string ''snapshotRef'' ms '''', un_field un_int64 ''bytes'' ms 0) of
             (Some ref, Some n) \<Rightarrow> Some (ref, n) | _ \<Rightarrow> None)))"

definition read_result :: "string \<Rightarrow> pod list \<Rightarrow> string + string \<times> int" where
  "read_result job pods =
     (case first_message (concat (map pod_statuses pods)) of
        None \<Rightarrow> Inl (''job '' @ job @ '': no pod with a termination log found'')
      | Some msg \<Rightarrow>
          (case decode_result msg of
             Some (ref, n) \<Rightarrow> if ref = '''' then Inl (''job '' @ job @ '': unreadable termination log '' @ Quote msg)
                             else Inr (ref, n)
           | None \<Rightarrow> Inl (''job '' @ job @ '': unreadable termination log '' @ Quote msg)))"

definition jobResult :: "kube \<Rightarrow> string \<Rightarrow> job \<Rightarrow> (gerr + string + string \<times> int) kop" where
  "jobResult K ns j =
     bindE (list_pods K ns (Some (''pbsbackup'', job_name j)))
       (\<lambda>pods. State_Monad.return (Inr (read_result (job_name j) pods)))"

text \<open>The recorded state of a Job whose result was read.\<close>

definition ok_state :: "string \<Rightarrow> string" where
  "ok_state ref = ''ok:'' @ ref"

text \<open>The loop over the placed Jobs: total, last reference, statuses so far.\<close>

fun collect_results :: "kube \<Rightarrow> string \<Rightarrow> placedJob list \<Rightarrow> int \<Rightarrow> string \<Rightarrow> BackupJobStatus list \<Rightarrow>
    (gerr + string + int \<times> string \<times> BackupJobStatus list) kop" where
  "collect_results K ns [] bytes ref sts = State_Monad.return (Inr (Inr (bytes, ref, sts)))"
| "collect_results K ns (pj # pjs) bytes ref sts =
     bindE (jobResult K ns (pj_job pj)) (\<lambda>r. case r of
       Inl problem \<Rightarrow> State_Monad.return (Inr (Inl problem))
     | Inr (ref', n) \<Rightarrow> collect_results K ns pjs (add64 bytes n) ref'
         (sts @ [\<lparr>bj_node = pj_node pj, bj_job = job_name (pj_job pj), bj_state = ok_state ref'\<rparr>]))"

definition completeBackup :: "PBSBackupReconciler \<Rightarrow> kube \<Rightarrow> PBSBackup \<Rightarrow> placedJob list \<Rightarrow> outcome kop" where
  "completeBackup R K b placed =
     bindE (collect_results K (b_ns b) placed 0 '''' []) (\<lambda>r. case r of
       Inl problem \<Rightarrow> failBackup R K b reasonBadResult problem placed
     | Inr (bytes, singleRef, statuses) \<Rightarrow>
         let message = (if length placed = 1 then ''snapshot '' @ singleRef
                        else Itoa (int (length placed)) @ '' node job(s) completed'')
         in bindE (recordOutcome K b BackupPhaseCompleted (new_condition CondTrue reasonCompleted message)
              (\<lambda>s. stamp_completed K (s\<lparr>bst_jobs := statuses, bst_bytes := bytes,
                 bst_snapshotRef := (if length placed = 1 then singleRef else bst_snapshotRef s)\<rparr>)))
            (\<lambda>(transitioned, b). do {
               notify b transitioned EventNormal reasonCompleted message;
               observeCompleted R b;
               State_Monad.return (Inr NoRequeue)
             }))"

subsection \<open>The credentials and the staging ConfigMap\<close>

definition ensureRepoSecret :: "kube \<Rightarrow> PBSBackup \<Rightarrow> PBSRepo \<Rightarrow> (gerr + string + string) kop" where
  "ensureRepoSecret K b repo =
     (let ref = rp_secretRef (repo_spec repo);
          srcNS = (if ref_namespace ref = '''' then operatorNamespace K else ref_namespace ref)
      in do {
        got \<leftarrow> get_secret K srcNS (ref_name ref);
        case got of
          Inl e \<Rightarrow>
            if e = NotFound
            then State_Monad.return (Inr (Inl (''repo secret '' @ srcNS @ ''/'' @ ref_name ref @ '' not found'')))
            else State_Monad.return (Inl e)
        | Inr src \<Rightarrow>
            (let data = contract_data (sec_data src); name = ''pbsrepo-'' @ om_name (repo_meta repo)
             in do {
               old \<leftarrow> get_secret K (b_ns b) name;
               case old of
                 Inr existing \<Rightarrow>
                   if contractEqual (sec_data existing) data \<and>
                      label (om_labels (sec_meta existing)) ManagedLabel \<noteq> ''''
                   then State_Monad.return (Inr (Inr name))
                   else skipE (do_write K (UpdateSecret (existing\<lparr>sec_data := data,
                           sec_meta := (sec_meta existing)\<lparr>om_labels := (om_labels (sec_meta existing))(ManagedLabel \<mapsto> ''true'')\<rparr>\<rparr>)))
                        (State_Monad.return (Inr (Inr name)))
               | Inl e \<Rightarrow>
                   if e = NotFound then
                     (let sec = copy_secret name (b_ns b) data
                      in case set_owner K ''PBSBackup'' (b_meta b) (sec_meta sec) of
                           Inl e' \<Rightarrow> State_Monad.return (Inl e')
                         | Inr m \<Rightarrow> do {
                             err \<leftarrow> do_write K (CreateSecret (sec\<lparr>sec_meta := m\<rparr>));
                             if \<not> create_ok err then State_Monad.return (Inl (the err))
                             else State_Monad.return (Inr (Inr name))
                           })
                   else State_Monad.return (Inl e)
             })
      })"

definition ensureStagingConfigMap :: "kube \<Rightarrow> PBSBackup \<Rightarrow> string \<Rightarrow> (gerr + string) kop" where
  "ensureStagingConfigMap K b apiYAML =
     (let name = b_name b @ ''-api''; data = [''api.yaml'' \<mapsto> apiYAML]
      in do {
        got \<leftarrow> get_configMap K (b_ns b) name;
        case got of
          Inr existing \<Rightarrow>
            if label (cm_data existing) ''api.yaml'' = apiYAML then State_Monad.return (Inr name)
            else skipE (do_write K (UpdateConfigMap (existing\<lparr>cm_data := data\<rparr>)))
                 (State_Monad.return (Inr name))
        | Inl e \<Rightarrow>
            if e = NotFound then
              (case set_owner K ''PBSBackup'' (b_meta b) (new_meta name (b_ns b) [ManagedLabel \<mapsto> ''true'']) of
                 Inl e' \<Rightarrow> State_Monad.return (Inl e')
               | Inr m \<Rightarrow> do {
                   err \<leftarrow> do_write K (CreateConfigMap \<lparr>cm_meta = m, cm_data = data\<rparr>);
                   if \<not> create_ok err then State_Monad.return (Inl (the err)) else State_Monad.return (Inr name)
                 })
            else State_Monad.return (Inl e)
      })"

subsection \<open>Selection and placement\<close>

fun get_pvcs :: "kube \<Rightarrow> string \<Rightarrow> string list \<Rightarrow> (gerr + string + pvc list) kop" where
  "get_pvcs K ns [] = State_Monad.return (Inr (Inr []))"
| "get_pvcs K ns (name # names) = do {
     r \<leftarrow> get_pvc K ns name;
     case r of
       Inl e \<Rightarrow>
         if e = NotFound
         then State_Monad.return (Inr (Inl (''PVC '' @ name @ '' not found in namespace '' @ ns)))
         else State_Monad.return (Inl e)
     | Inr c \<Rightarrow> bindE (get_pvcs K ns names) (\<lambda>r'. case r' of
         Inl problem \<Rightarrow> State_Monad.return (Inr (Inl problem))
       | Inr cs \<Rightarrow> State_Monad.return (Inr (Inr (c # cs))))
   }"

definition selectPVCs :: "kube \<Rightarrow> PBSBackup \<Rightarrow> (gerr + string + pvc list) kop" where
  "selectPVCs K b =
     (if length (bs_pvcs (b_spec b)) > 0 then get_pvcs K (b_ns b) (bs_pvcs (b_spec b))
      else (case bs_selector (b_spec b) of
        Some sel \<Rightarrow>
          (case k_selector K sel of
             Inl err \<Rightarrow> State_Monad.return (Inr (Inl (''invalid selector: '' @ err)))
           | Inr s \<Rightarrow> bindE (list_pvcs K (b_ns b) (Some s)) (\<lambda>cs. State_Monad.return (Inr (Inr cs))))
      | None \<Rightarrow> bindE (list_pvcs K (b_ns b) None) (\<lambda>cs. State_Monad.return (Inr (Inr cs)))))"

definition placePVC :: "kube \<Rightarrow> pvc \<Rightarrow> pod list \<Rightarrow> (gerr + string + string) kop" where
  "placePVC K c pods =
     (if pvc_volumeName c = ''''
      then State_Monad.return (Inr (Inl (''PVC '' @ pvc_name c @ '' is not bound to a PersistentVolume yet'')))
      else do {
        r \<leftarrow> get_pv K (pvc_volumeName c);
        case r of
          Inl e \<Rightarrow>
            if e = NotFound
            then State_Monad.return (Inr (Inl (''PV '' @ pvc_volumeName c @ '' for PVC '' @ pvc_name c @ '' not found'')))
            else State_Monad.return (Inl e)
        | Inr pv \<Rightarrow> State_Monad.return (Inr (ResolveNode c (Some pv) pods))
      })"

type_synonym groups = "(string \<times> string list) list"

fun place_all :: "kube \<Rightarrow> pvc list \<Rightarrow> pod list \<Rightarrow> groups \<Rightarrow> (gerr + string + groups) kop" where
  "place_all K [] pods gs = State_Monad.return (Inr (Inr gs))"
| "place_all K (c # cs) pods gs =
     bindE (placePVC K c pods) (\<lambda>r. case r of
       Inl problem \<Rightarrow> State_Monad.return (Inr (Inl problem))
     | Inr node \<Rightarrow> place_all K cs pods (group_add node (pvc_name c) gs))"

subsection \<open>Hooks\<close>

text \<open>The pods that mount a selected PVC.\<close>

definition mounts_selected :: "pvc list \<Rightarrow> pod \<Rightarrow> bool" where
  "mounts_selected pvcs p = list_ex (\<lambda>v. case v_source v of
       PVCSource c ro \<Rightarrow> c \<in> set (map pvc_name pvcs) | _ \<Rightarrow> False) (ps_volumes (pod_spec p))"

text \<open>The hook of one pod after another; a problem comes with its reason.\<close>

fun run_hooks :: "PBSBackupReconciler \<Rightarrow> kube \<Rightarrow> pod list \<Rightarrow> ((string \<times> string) option) kop" where
  "run_hooks R K [] = State_Monad.return None"
| "run_hooks R K (p # ps) =
     (case ParseHook (k_jsonError K) p of
        BadHook err \<Rightarrow> State_Monad.return (Some (''pod '' @ pod_name p @ '': '' @ err, reasonHookInvalid))
      | NoHook \<Rightarrow> run_hooks R K ps
      | Hook container command \<Rightarrow>
          if \<not> br_HookExecutor R
          then State_Monad.return (Some (''pre-hook in pod '' @ pod_name p @
                 '' cannot run: no hook executor configured'', reasonHookFailed))
          else do {
            r \<leftarrow> exec_hook K (om_namespace (pod_meta p)) (pod_name p) container command HookTimeout;
            case r of
              Some err \<Rightarrow> State_Monad.return (Some (''pre-hook in pod '' @ pod_name p @ '' failed: '' @ err,
                            reasonHookFailed))
            | None \<Rightarrow> run_hooks R K ps
          })"

definition hooked_pods :: "pvc list \<Rightarrow> pod list \<Rightarrow> pod list" where
  "hooked_pods pvcs pods =
     (let hit = filter (mounts_selected pvcs) pods;
          byName = map_of (rev (map (\<lambda>p. (pod_name p, p)) hit))
      in map (\<lambda>n. the (byName n)) (sort (map pod_name hit)))"

definition runPreHooks :: "PBSBackupReconciler \<Rightarrow> kube \<Rightarrow> pvc list \<Rightarrow> pod list \<Rightarrow>
    ((string \<times> string) option) kop" where
  "runPreHooks R K pvcs pods = run_hooks R K (hooked_pods pvcs pods)"

subsection \<open>Jobs\<close>

definition backup_spec :: "PBSBackupReconciler \<Rightarrow> PBSBackup \<Rightarrow> string \<Rightarrow> string \<Rightarrow> string \<Rightarrow> string list \<Rightarrow> BackupJobSpec" where
  "backup_spec R b repoSecret staging node claims =
     \<lparr>bjs_Name = jobName (b_name b) node, bjs_Namespace = b_ns b, bjs_Node = node,
      bjs_RepoSecret = repoSecret, bjs_PVCs = claims, bjs_StagingConfigMap = staging,
      bjs_Notes = bs_notes (b_spec b), bjs_Image = agentImage (br_AgentImage R), bjs_ServiceAccount = ''''\<rparr>"

definition deleted_msg :: "string \<Rightarrow> string \<Rightarrow> string" where
  "deleted_msg name node = ''job '' @ name @ '' (node '' @ node @
     '') was deleted before the backup finished; not recreating it''"

text \<open>Creating the Job of a node; a lost create race is answered by a second Get.\<close>

definition create_backup_job :: "kube \<Rightarrow> PBSBackup \<Rightarrow> BackupJobSpec \<Rightarrow> (gerr + job) kop" where
  "create_backup_job K b spec =
     (let j = BuildBackupJob spec
      in case set_owner K ''PBSBackup'' (b_meta b) (job_meta j) of
           Inl e \<Rightarrow> State_Monad.return (Inl e)
         | Inr m \<Rightarrow> do {
             err \<leftarrow> do_write K (CreateJob (j\<lparr>job_meta := m\<rparr>));
             case err of
               None \<Rightarrow> State_Monad.return (Inr (j\<lparr>job_meta := m\<rparr>))
             | Some e \<Rightarrow> if e \<noteq> AlreadyExists then State_Monad.return (Inl e)
                         else get_job K (b_ns b) (bjs_Name spec)
           })"

definition known_job :: "PBSBackup \<Rightarrow> string \<Rightarrow> bool" where
  "known_job b name \<longleftrightarrow> name \<in> set (map bj_job (bst_jobs (b_status b)))"

text \<open>The Job of one node: already launched, deleted (a problem), or created now.\<close>

definition place_job :: "PBSBackupReconciler \<Rightarrow> kube \<Rightarrow> PBSBackup \<Rightarrow> string \<Rightarrow> string \<Rightarrow> groups \<Rightarrow> string \<Rightarrow>
    (gerr + string + placedJob) kop" where
  "place_job R K b repoSecret staging gs node =
     (let name = jobName (b_name b) node
      in do {
        got \<leftarrow> get_job K (b_ns b) name;
        case got of
          Inr j \<Rightarrow> State_Monad.return (Inr (Inr \<lparr>pj_node = node, pj_job = j\<rparr>))
        | Inl e \<Rightarrow>
            if e = NotFound then
              (if known_job b name then State_Monad.return (Inr (Inl (deleted_msg name node)))
               else bindE (create_backup_job K b (backup_spec R b repoSecret staging node (sort (group_get gs node))))
                 (\<lambda>j. State_Monad.return (Inr (Inr \<lparr>pj_node = node, pj_job = j\<rparr>))))
            else State_Monad.return (Inl e)
      })"

fun place_jobs :: "PBSBackupReconciler \<Rightarrow> kube \<Rightarrow> PBSBackup \<Rightarrow> string \<Rightarrow> string \<Rightarrow> groups \<Rightarrow> string list \<Rightarrow>
    (gerr + string + placedJob list) kop" where
  "place_jobs R K b repoSecret staging gs [] = State_Monad.return (Inr (Inr []))"
| "place_jobs R K b repoSecret staging gs (node # nodes) =
     bindE (place_job R K b repoSecret staging gs node) (\<lambda>r. case r of
       Inl problem \<Rightarrow> State_Monad.return (Inr (Inl problem))
     | Inr pj \<Rightarrow> bindE (place_jobs R K b repoSecret staging gs nodes) (\<lambda>r'. case r' of
         Inl problem \<Rightarrow> State_Monad.return (Inr (Inl problem))
       | Inr pjs \<Rightarrow> State_Monad.return (Inr (Inr (pj # pjs)))))"

text \<open>Step 7: any failed Job, else all complete.\<close>

definition first_failed :: "placedJob list \<Rightarrow> placedJob option" where
  "first_failed placed = List.find (\<lambda>pj. jobCondition (pj_job pj) JobFailed) placed"

definition all_complete :: "placedJob list \<Rightarrow> bool" where
  "all_complete placed = list_all (\<lambda>pj. jobCondition (pj_job pj) JobFailed \<or> jobCondition (pj_job pj) JobComplete) placed"

definition settle :: "PBSBackupReconciler \<Rightarrow> kube \<Rightarrow> PBSBackup \<Rightarrow> placedJob list \<Rightarrow> outcome kop" where
  "settle R K b placed =
     (case first_failed placed of
        Some pj \<Rightarrow> failBackup R K b reasonFailed
          (''job '' @ job_name (pj_job pj) @ '' (node '' @ pj_node pj @ '') failed'') placed
      | None \<Rightarrow> if \<not> all_complete placed then runBackup K b placed else completeBackup R K b placed)"

section \<open>Reconcile\<close>

text \<open>Steps 5 to 7, once every PVC has its node.\<close>

definition launch :: "PBSBackupReconciler \<Rightarrow> kube \<Rightarrow> PBSBackup \<Rightarrow> string \<Rightarrow> string \<Rightarrow> groups \<Rightarrow> outcome kop" where
  "launch R K b repoSecret staging gs =
     bindE (place_jobs R K b repoSecret staging gs (sort (map fst gs))) (\<lambda>r. case r of
       Inl problem \<Rightarrow> hold K b reasonJobDeleted problem requeueWait
     | Inr placed \<Rightarrow> settle R K b placed)"

text \<open>Step 4.5: hooks run before the first Job, and only while the status knows no Job.\<close>

definition hooks_then_launch :: "PBSBackupReconciler \<Rightarrow> kube \<Rightarrow> PBSBackup \<Rightarrow> string \<Rightarrow> string \<Rightarrow> pvc list \<Rightarrow>
    pod list \<Rightarrow> groups \<Rightarrow> outcome kop" where
  "hooks_then_launch R K b repoSecret staging pvcs pods gs =
     (if length (bst_jobs (b_status b)) = 0 then do {
        r \<leftarrow> runPreHooks R K pvcs pods;
        case r of
          Some (problem, reason) \<Rightarrow> failBackup R K b reason problem []
        | None \<Rightarrow> launch R K b repoSecret staging gs
      } else launch R K b repoSecret staging gs)"

text \<open>Step 4: placement; an API-only backup runs on the first node.\<close>

definition place_and_launch :: "PBSBackupReconciler \<Rightarrow> kube \<Rightarrow> PBSBackup \<Rightarrow> string \<Rightarrow> string \<Rightarrow> pvc list \<Rightarrow>
    outcome kop" where
  "place_and_launch R K b repoSecret staging pvcs =
     bindE (list_pods K (b_ns b) None) (\<lambda>pods.
       if length pvcs = 0 then
         bindE (firstNode K) (\<lambda>node.
           if node = '''' then hold K b reasonUnplaceable ''no nodes found to run the API-only backup job'' requeueWait
           else hooks_then_launch R K b repoSecret staging pvcs pods [(node, [])])
       else
         bindE (place_all K pvcs pods []) (\<lambda>r. case r of
           Inl problem \<Rightarrow> hold K b reasonUnplaceable problem requeueWait
         | Inr gs \<Rightarrow> hooks_then_launch R K b repoSecret staging pvcs pods gs))"

text \<open>Step 3.5: the staging ConfigMap, empty name when there is none.\<close>

definition stage :: "PBSBackupReconciler \<Rightarrow> kube \<Rightarrow> PBSBackup \<Rightarrow> (gerr + string) kop" where
  "stage R K b =
     (case br_Serializer R of
        None \<Rightarrow> State_Monad.return (Inr '''')
      | Some A \<Rightarrow> do {
          r \<leftarrow> SerializeNamespace K A (b_ns b);
          case r of
            Inl e \<Rightarrow> State_Monad.return (Inl (Wrapped (''serialize namespace '' @ b_ns b @ '': '') e))
          | Inr apiYAML \<Rightarrow>
              if apiYAML \<noteq> '''' then ensureStagingConfigMap K b apiYAML else State_Monad.return (Inr '''')
        })"

definition reconcile_ready :: "PBSBackupReconciler \<Rightarrow> kube \<Rightarrow> PBSBackup \<Rightarrow> PBSRepo \<Rightarrow> outcome kop" where
  "reconcile_ready R K b repo =
     bindE (ensureRepoSecret K b repo) (\<lambda>r. case r of
       Inl problem \<Rightarrow> hold K b reasonSecretCopy problem requeueWait
     | Inr repoSecret \<Rightarrow> bindE (selectPVCs K b) (\<lambda>r. case r of
         Inl problem \<Rightarrow> hold K b reasonUnplaceable problem requeueWait
       | Inr pvcs \<Rightarrow> bindE (stage R K b) (\<lambda>staging.
           if length pvcs = 0 \<and> staging = '''' then
             hold K b reasonNoPVCs
               ''no PVCs selected and the namespace has no API objects to serialize (the workload may appear later)''
               requeueWaitSlow
           else place_and_launch R K b repoSecret staging pvcs)))"

definition reconcile_backup :: "PBSBackupReconciler \<Rightarrow> kube \<Rightarrow> PBSBackup \<Rightarrow> outcome kop" where
  "reconcile_backup R K b =
     (if bst_phase (b_status b) = BackupPhaseCompleted \<or> bst_phase (b_status b) = BackupPhaseFailed
      then State_Monad.return (Inr NoRequeue)
      else do {
        r \<leftarrow> get_repo K (bs_repoRef (b_spec b));
        case r of
          Inl e \<Rightarrow>
            if e \<noteq> NotFound then State_Monad.return (Inl e)
            else hold K b reasonRepoNotReady (''PBSRepo '' @ bs_repoRef (b_spec b) @ '' not found'') requeueWait
        | Inr repo \<Rightarrow>
            if \<not> k_conditionTrue K (rps_conditions (repo_status repo)) condReady
            then hold K b reasonRepoNotReady (''PBSRepo '' @ om_name (repo_meta repo) @ '' is not Ready'') requeueWait
            else reconcile_ready R K b repo
      })"

definition BackupReconcile :: "PBSBackupReconciler \<Rightarrow> kube \<Rightarrow> string \<Rightarrow> string \<Rightarrow> outcome kop" where
  "BackupReconcile R K ns name = do {
     r \<leftarrow> get_backup K ns name;
     case r of Inl e \<Rightarrow> State_Monad.return (IgnoreNotFound e) | Inr b \<Rightarrow> reconcile_backup R K b
   }"

end
