(* ===== verification/Manifest_Roundtrip.thy ===== *)
theory Manifest_Roundtrip
  imports Volume_Roundtrip Archive_Roundtrip Backup_Controller
begin

text \<open>
  The API manifest's way through both Jobs: the backup serializes the namespace into a ConfigMap, its
  Job mounts it and uploads it as an archive; the fetch Job of a restore extracts the archive and
  stores the file in a ConfigMap of the target namespace with \<open>kubectl\<close>; there the restore
  controller decodes it.  Builders, parsers and runs of the agent are composed over what the client
  and \<open>kubectl\<close> are documented to do.
\<close>

section \<open>The pod of the fetch Job\<close>

text \<open>Directories by path, each with its files; temporary files; the ConfigMaps of the namespace.\<close>

type_synonym dir_files = "string \<rightharpoonup> string"

record pod_state =
  st_dirs :: "string \<Rightarrow> dir_files"
  st_temps :: "string \<rightharpoonup> string"
  st_configMaps :: "string \<rightharpoonup> dir_files"

definition dir_of :: "string \<Rightarrow> string" where
  "dir_of path = rev (drop 1 (dropWhile (\<lambda>c. c \<noteq> CHR ''/'') (rev path)))"

definition base_of :: "string \<Rightarrow> string" where
  "base_of path = rev (takeWhile (\<lambda>c. c \<noteq> CHR ''/'') (rev path))"

definition file_at :: "pod_state \<Rightarrow> string \<Rightarrow> string option" where
  "file_at st path = st_dirs st (dir_of path) (base_of path)"

text \<open>The environment: the archives of a snapshot (each a directory of files), and the object a
  manifest text describes (\<open>decode\<close>, here only ConfigMaps with their data).\<close>

record pod_env =
  env_proc :: proc
  env_snapshots :: "string \<Rightarrow> string \<Rightarrow> dir_files option"
  env_decode :: "string \<Rightarrow> (string \<times> dir_files) option"

text \<open>What a call does to the pod, answered as the environment answers it after the history \<open>h\<close>: the
  client extracts over what is there, \<open>kubectl apply\<close> stores the object of its file.\<close>

definition extract_archive :: "pod_env \<Rightarrow> string list \<Rightarrow> pod_state \<Rightarrow> pod_state" where
  "extract_archive E argv st = (case positional (drop 2 argv) of
     [ref, archive, target] \<Rightarrow> (case env_snapshots E ref archive of
        Some d \<Rightarrow> st\<lparr>st_dirs := (st_dirs st)(target := st_dirs st target ++ d)\<rparr>
      | None \<Rightarrow> st)
   | _ \<Rightarrow> st)"

definition apply_file :: "pod_env \<Rightarrow> string \<Rightarrow> pod_state \<Rightarrow> pod_state" where
  "apply_file E path st = (case st_temps st path of
     Some text \<Rightarrow> (case env_decode E text of
        Some (name, data) \<Rightarrow> st\<lparr>st_configMaps := (st_configMaps st)(name \<mapsto> data)\<rparr>
      | None \<Rightarrow> st)
   | None \<Rightarrow> st)"

fun pod_effect :: "pod_env \<Rightarrow> acall list \<Rightarrow> acall \<Rightarrow> pod_state \<Rightarrow> pod_state" where
  "pod_effect E h (EmptyDir dir) st =
     (if p_emptyDir (env_proc E) h dir = None then st\<lparr>st_dirs := (st_dirs st)(dir := Map.empty)\<rparr> else st)"
| "pod_effect E h (WriteTemp text) st = (case p_temp (env_proc E) h text of
     Inl e \<Rightarrow> st | Inr path \<Rightarrow> st\<lparr>st_temps := (st_temps st)(path \<mapsto> text)\<rparr>)"
| "pod_effect E h (RemoveTemp path) st = st\<lparr>st_temps := (st_temps st)(path := None)\<rparr>"
| "pod_effect E h (Run argv env) st =
     (if rr_error (p_run (env_proc E) h argv env) \<noteq> None then st
      else if take 2 argv = [clientBinary, ''restore''] then extract_archive E argv st
      else if take 3 argv = [kubectl, ''apply'', ''-f''] then apply_file E (argv ! 3) st
      else st)"
| "pod_effect E h c st = st"

fun pod_after :: "pod_env \<Rightarrow> acall list \<Rightarrow> acall list \<Rightarrow> pod_state \<Rightarrow> pod_state" where
  "pod_after E h [] st = st"
| "pod_after E h (c # n) st = pod_after E (h @ [c]) n (pod_effect E h c st)"

lemma pod_after_append [simp]: "pod_after E h (m @ n) st = pod_after E (h @ m) n (pod_after E h m st)"
  by (induction m arbitrary: h st) simp_all

text \<open>\<open>kubectl create --dry-run --from-file=api.yaml=src\<close> prints the ConfigMap of that name with the
  content of the file.\<close>

definition kubectl_creates :: "pod_env \<Rightarrow> pod_state \<Rightarrow> bool" where
  "kubectl_creates E st0 \<longleftrightarrow> (\<forall>h name src env. rr_error (p_run (env_proc E) h (createArgv name src) env) = None \<longrightarrow>
     (\<exists>content. file_at (pod_after E [] h st0) src = Some content \<and>
        env_decode E (rr_stdout (p_run (env_proc E) h (createArgv name src) env)) = Some (name, [''api.yaml'' \<mapsto> content])))"

section \<open>Fetching\<close>

lemma restoreArgv_effect:
  "\<not> HasPrefix ref ''--'' \<Longrightarrow> extract_archive E (restoreArgv ns k ref ''api.pxar.didx'' ''/staging/api'') st =
    (case env_snapshots E ref ''api.pxar.didx'' of
       Some d \<Rightarrow> st\<lparr>st_dirs := (st_dirs st)(''/staging/api'' := st_dirs st ''/staging/api'' ++ d)\<rparr>
     | None \<Rightarrow> st)"
  by (simp add: extract_archive_def restoreArgv_def HasPrefix_def)

lemma argv_kinds [simp]:
  "take 2 (restoreArgv ns k ref a t) = [clientBinary, ''restore'']" "take 2 (createArgv name src) = [kubectl, ''create'']"
  "take 3 (createArgv name src) = [kubectl, ''create'', ''configmap'']" "applyArgv path ! 3 = path"
  "take 2 (applyArgv path) = [kubectl, ''apply'']" "take 3 (applyArgv path) = [kubectl, ''apply'', ''-f'']"
  "kubectl \<noteq> clientBinary"
  by (simp_all add: restoreArgv_def createArgv_def applyArgv_def kubectl_def clientBinary_def numeral_3_eq_3)

lemma manifest_path: "path_join ''/staging/api'' ''api.yaml'' = ''/staging/api/api.yaml''" by code_simp

lemma manifest_file: "file_at st ''/staging/api/api.yaml'' = st_dirs st ''/staging/api'' ''api.yaml''"
  by (simp add: file_at_def dir_of_def base_of_def)

text \<open>A run that exits 0 has stored the file.\<close>

definition stored :: "pod_env \<Rightarrow> pod_state \<Rightarrow> string \<Rightarrow> string \<Rightarrow> int \<Rightarrow> acall list \<Rightarrow> bool" where
  "stored E st0 cm y x h \<longleftrightarrow> (x = 0 \<longrightarrow> st_configMaps (pod_after E [] h st0) cm = Some [''api.yaml'' \<mapsto> y])"

lemma fail_stores: "code \<noteq> 0 \<Longrightarrow> wp (fail P path code msg) (stored E st0 cm y) l"
  by (auto simp: fail_def writeTermlog_def print_err_def wp_rules stored_def split: option.split)

lemma success_stores:
  "st_configMaps (pod_after E [] l st0) cm = Some [''api.yaml'' \<mapsto> y] \<Longrightarrow>
   wp (restore_success P path names bytes) (stored E st0 cm y) l"
  by (auto simp: restore_success_def writeTermlog_def print_err_def print_out_def wp_rules stored_def split: option.split)

lemma upload_stores:
  assumes "kubectl_creates E st0" "failing_exits (env_proc E)" "file_at (pod_after E [] l st0) src = Some y"
  shows "wp (uploadConfigMap (env_proc E) cm src) (\<lambda>r h. case r of
      None \<Rightarrow> st_configMaps (pod_after E [] h st0) cm = Some [''api.yaml'' \<mapsto> y] | Some e \<Rightarrow> exitCode e \<noteq> 0) l"
proof -
  have creates: "env_decode E (rr_stdout (p_run (env_proc E) l (createArgv cm src) env)) = Some (cm, [''api.yaml'' \<mapsto> y])"
    if "rr_error (p_run (env_proc E) l (createArgv cm src) env) = None" for env
    using assms(1) [unfolded kubectl_creates_def, rule_format, OF that] assms(3) by auto
  show ?thesis
    unfolding uploadConfigMap_def run_def write_temp_def remove_temp_def
    by (auto simp: wp_rules creates apply_file_def failing_exitsD [OF assms(2)] split: option.split sum.split)
qed

lemma fetch_stores:
  assumes env: "kubectl_creates E st0" "failing_exits (env_proc E)"
    and snap: "env_snapshots E ref ''api.pxar.didx'' = Some d" "d ''api.yaml'' = Some y"
    and a: "va_pairs a = [\<lparr>rp_archive = ''api.pxar.didx'', rp_target = ''/staging/api''\<rparr>]" "va_ref a = ref"
      "va_configMap a = cm" "cm \<noteq> ''''" "\<not> HasPrefix ref ''--''"
  shows "wp (RunRestoreVolume (env_proc E) a) (stored E st0 cm y) []"
proof -
  have upload: "wp (uploadConfigMap (env_proc E) cm ''/staging/api/api.yaml'') (\<lambda>e. wp (case e of
          Some err \<Rightarrow> fail (env_proc E) path (exitCode err) (msg err)
        | None \<Rightarrow> restore_success (env_proc E) path names bytes) (stored E st0 cm y)) l"
    if "file_at (pod_after E [] l st0) ''/staging/api/api.yaml'' = Some y" for path names bytes l msg
    by (rule wp_mono [OF upload_stores [OF env that]]) (auto simp: fail_stores success_stores split: option.splits)
  have drop_key: "stored E st0 cm y x l \<Longrightarrow> stored E st0 cm y x (l @ [RemoveTemp k])" for x l k
    by (simp add: stored_def)
  have key: "wp (volume_with_key (env_proc E) c k a) (stored E st0 cm y) l" for c k l
    unfolding volume_with_key_def Let_def a(1) restore_pairs.simps emptyDir_def run_def dirSize_def wp_bind wp_invoke
    by (auto simp: a snap wp_rules manifest_path manifest_file restoreArgv_effect intro!: fail_stores upload
        dest: failing_exitsD [OF env(2)] split: option.split)
  show ?thesis
    unfolding RunRestoreVolume_def Let_def write_temp_def remove_temp_def
    by (auto simp: wp_rules fail_stores split_beta split: sum.split intro!: wp_mono [OF key] drop_key)
qed

section \<open>The staged archive\<close>

text \<open>The ConfigMaps of the cluster, by namespace and name, after the calls of a reconcile, of which
  only the writes the API server accepted count; and a server that answers from them.\<close>

definition map_key :: "config_map \<Rightarrow> string \<times> string" where
  "map_key c = (om_namespace (cm_meta c), om_name (cm_meta c))"

fun cms_after :: "kube \<Rightarrow> kcall list \<Rightarrow> kcall list \<Rightarrow> (string \<times> string \<rightharpoonup> dir_files) \<Rightarrow> (string \<times> string \<rightharpoonup> dir_files)" where
  "cms_after K h [] cms = cms"
| "cms_after K h (c # n) cms = cms_after K (h @ [c]) n
     (case c of
        Write (CreateConfigMap m) \<Rightarrow> if k_write K h (CreateConfigMap m) = None then cms(map_key m \<mapsto> cm_data m) else cms
      | Write (UpdateConfigMap m) \<Rightarrow> if k_write K h (UpdateConfigMap m) = None then cms(map_key m \<mapsto> cm_data m) else cms
      | _ \<Rightarrow> cms)"

lemma cms_after_append [simp]: "cms_after K h (m @ n) cms = cms_after K (h @ m) n (cms_after K h m cms)"
  by (induction m arbitrary: h cms) simp_all

definition serves_configMaps :: "kube \<Rightarrow> (string \<times> string \<rightharpoonup> dir_files) \<Rightarrow> bool" where
  "serves_configMaps K cms0 \<longleftrightarrow>
     (\<forall>h ns name. case k_configMap K h ns name of
        Inr c \<Rightarrow> map_key c = (ns, name) \<and> cms_after K [] h cms0 (ns, name) = Some (cm_data c)
      | Inl e \<Rightarrow> e = NotFound \<longrightarrow> cms_after K [] h cms0 (ns, name) = None) \<and>
     (\<forall>h c. k_write K h (CreateConfigMap c) = Some AlreadyExists \<longrightarrow> cms_after K [] h cms0 (map_key c) \<noteq> None)"

text \<open>A successful staging step leaves the archive in the ConfigMap it names.\<close>

definition staged_archive :: "kube \<Rightarrow> (string \<times> string \<rightharpoonup> dir_files) \<Rightarrow> string \<Rightarrow> string \<Rightarrow> string \<Rightarrow> kcall list \<Rightarrow> bool" where
  "staged_archive K cms0 ns name y h \<longleftrightarrow> (\<exists>data. cms_after K [] h cms0 (ns, name) = Some data \<and> data ''api.yaml'' = Some y)"

lemma label_present: "label m k = y \<Longrightarrow> y \<noteq> '''' \<Longrightarrow> m k = Some y"
  by (auto simp: label_def split: option.splits)

lemma serves_configMapsD:
  assumes "serves_configMaps K cms0"
  shows "k_configMap K h ns name = Inr c \<Longrightarrow> map_key c = (ns, name) \<and> cms_after K [] h cms0 (ns, name) = Some (cm_data c)"
    and "k_configMap K h ns name = Inl NotFound \<Longrightarrow> cms_after K [] h cms0 (ns, name) = None"
    and "k_write K h (CreateConfigMap c) = Some AlreadyExists \<Longrightarrow> cms_after K [] h cms0 (map_key c) \<noteq> None"
proof -
  note s = assms [unfolded serves_configMaps_def]
  show "k_configMap K h ns name = Inr c \<Longrightarrow> map_key c = (ns, name) \<and> cms_after K [] h cms0 (ns, name) = Some (cm_data c)"
    "k_configMap K h ns name = Inl NotFound \<Longrightarrow> cms_after K [] h cms0 (ns, name) = None"
    using s [THEN conjunct1, THEN spec, THEN spec, THEN spec, of h ns name] by simp_all
  show "k_write K h (CreateConfigMap c) = Some AlreadyExists \<Longrightarrow> cms_after K [] h cms0 (map_key c) \<noteq> None"
    using s [THEN conjunct2] by blast
qed

lemma ensureStagingConfigMap_stores:
  assumes "serves_configMaps K cms0" "y \<noteq> ''''"
  shows "wp (ensureStagingConfigMap K b y) (\<lambda>r h. \<forall>name. r = Inr name \<longrightarrow> staged_archive K cms0 (b_ns b) name y h) l"
proof -
  let ?name = "b_name b @ ''-api''"
  note served = serves_configMapsD(1) [OF assms(1), of l "b_ns b" ?name]
  note absent = serves_configMapsD(2) [OF assms(1), of l "b_ns b" ?name]
  have kept: "map_key (c\<lparr>cm_data := d\<rparr>) = map_key c" for c :: config_map and d by (simp add: map_key_def)
  have new: "map_key \<lparr>cm_meta = m, cm_data = d\<rparr> = (b_ns b, ?name)"
    if "set_owner K kind o1 (new_meta ?name (b_ns b) ls) = Inr m" for kind o1 ls m d
    using set_owner_fields [OF that] by (simp add: map_key_def new_meta_def)
  have no_clash: "k_write K (l @ [Read (GetConfigMap ns n)]) (CreateConfigMap c) \<noteq> Some AlreadyExists"
    if "k_configMap K l (b_ns b) ?name = Inl NotFound" "map_key c = (b_ns b, ?name)" for c ns n
    using serves_configMapsD(3) [OF assms(1), of "l @ [Read (GetConfigMap ns n)]" c] absent that by auto
  have label: "label m ''api.yaml'' = y \<Longrightarrow> m ''api.yaml'' = Some y" for m using assms(2) label_present by blast
  show ?thesis
    unfolding ensureStagingConfigMap_def Let_def
    by (auto simp: wp_rules staged_archive_def served kept new create_ok_def label dest: no_clash [OF _ new]
        split: sum.split option.split)
qed

lemma stage_stores:
  assumes "serves_configMaps K cms0" "br_Serializer R = Some A" "result (SerializeNamespace K A (b_ns b)) l = Inr y"
  shows "wp (stage R K b) (\<lambda>r h. \<forall>name. r = Inr name \<and> name \<noteq> '''' \<longrightarrow> y \<noteq> '''' \<and> staged_archive K cms0 (b_ns b) name y h) l"
  unfolding stage_def assms(2) option.case wp_bind wp_result [of "SerializeNamespace _ _ _"] assms(3) sum.case
  by (auto simp: wp_rules intro!: wp_mono [OF ensureStagingConfigMap_stores [OF assms(1)]])

section \<open>There and back\<close>

text \<open>The ConfigMap a Job's containers see at a path.\<close>

definition config_at :: "job \<Rightarrow> string \<Rightarrow> string option" where
  "config_at j path = (case List.find (\<lambda>(src, p, ro). p = path) (mounted j) of
     Some (Some (ConfigMapSource c), _) \<Rightarrow> Some c
   | _ \<Rightarrow> None)"

lemma config_at_backup:
  assumes "bjs_StagingConfigMap s \<noteq> ''''"
  shows "config_at (BuildBackupJob s) ''/staging/api'' = Some (bjs_StagingConfigMap s)"
proof -
  have "List.find (\<lambda>(src, p, ro). p = ''/staging/api'')
      (map (\<lambda>p. (Some (PVCSource p True), ''/backup/'' @ p, True)) ps @ [(Some (ConfigMapSource c), ''/staging/api'', True)]) =
    Some (Some (ConfigMapSource c), ''/staging/api'', True)" for ps c
    by (induction ps) simp_all
  then show ?thesis using assms by (simp add: config_at_def BuildBackupJob_mounts)
qed

lemma api_archived:
  assumes "list_all (\<lambda>p. CHR '':'' \<notin> set p) ps" "api \<noteq> ''''"
  shows "map_of (uploaded dirs (backupArgv ns k ps api)) ''api.pxar.didx'' = Some (dirs api)"
proof -
  have "map_of (map (\<lambda>p. (''pvc-'' @ p @ ''.pxar.didx'', dirs (''/backup/'' @ p))) ps @ [(''api.pxar.didx'', dirs api)])
      ''api.pxar.didx'' = Some (dirs api)"
    by (induction ps) simp_all
  then show ?thesis using assms by (simp add: uploaded_claims)
qed

text \<open>C5: the API archive survives the way through both clusters' Jobs.  When a reconcile serialized
  the namespace and staged the archive, the agent ran the backup Job's command over the staging
  ConfigMap and exited 0, and later ran the command of a restore's fetch Job, whose reference names what
  the backup uploaded, and exited 0, then the ConfigMap that Job was told to fill is there, and decoding
  it for the target namespace gives one document per archived object, in the archive's order, of the
  same kind and name, stripped and rewritten for that namespace.\<close>

theorem manifest_roundtrip:
  assumes "serves_configMaps K cms0" "br_Serializer R = Some A"
    and "result (SerializeNamespace K A (b_ns b)) l = Inr y" "render A found = Inr y"
    and objs: "objs = map (\<lambda>d. stripVolatile (d_obj d)) (sort_key doc_key found)" "list_all named objs" "reads_back A objs"
    and "result (stage R K b) l = Inr (bjs_StagingConfigMap s)" "bjs_StagingConfigMap s \<noteq> ''''"
    and dirs: "dirs = (\<lambda>path. case config_at (BuildBackupJob s) path of
        Some c \<Rightarrow> the (cms_after K [] (snd (run_state (stage R K b) l)) cms0 (b_ns b, c)) | None \<Rightarrow> other path)"
    and "list_all (\<lambda>p. CHR '':'' \<notin> set p) (bjs_PVCs s)"
    and "agent_main ge (job_command (BuildBackupJob s)) = DoBackup a" "result (RunBackup P a) l1 = 0"
    and "env_snapshots E (rjs_Ref r) = map_of (snapshot_archives dirs (trace (RunBackup P a) l1))"
    and "rjs_Ref r \<noteq> ''''" "\<not> HasPrefix (rjs_Ref r) ''--''" "cm \<noteq> ''''"
    and "agent_main ge' (job_command (BuildAPIFetchJob r cm)) = DoRestoreVolume v"
    and "kubectl_creates E st0" "failing_exits (env_proc E)" "result (RunRestoreVolume (env_proc E) v) [] = 0"
  shows "\<exists>data ds. st_configMaps (pod_after E [] (trace (RunRestoreVolume (env_proc E) v) []) st0) cm = Some data \<and>
    ParseAPIManifests A (label data ''api.yaml'') ns = Inr ds \<and> list_all (planned_for ns) ds \<and>
    map (\<lambda>d. (pd_Kind d, pd_Name d)) ds = map (\<lambda>m. (sub_str m ''kind'', sub_str (sub_obj m ''metadata'') ''name'')) objs"
proof -
  have y: "y \<noteq> ''''" and staged: "staged_archive K cms0 (b_ns b) (bjs_StagingConfigMap s) y (snd (run_state (stage R K b) l))"
    using stage_stores [OF assms(1-3), unfolded wp_result, rule_format, OF conjI, OF assms(8,9)] by simp_all
  then obtain d where d: "dirs ''/staging/api'' = d" "d ''api.yaml'' = Some y"
    using config_at_backup [OF assms(9)] by (auto simp: dirs staged_archive_def)
  have a: "ba_pvcs a = bjs_PVCs s" "ba_apiDir a = ''/staging/api''"
    using assms(12) backup_job_runs [of s ge] assms(9) by auto
  obtain n k where "snapshot_archives dirs (trace (RunBackup P a) l1) = uploaded dirs (backupArgv n k (bjs_PVCs s) ''/staging/api'')"
    using givesD [OF RunBackup_uploads [of dirs a P], of l1] assms(13) a by auto
  then have snap: "env_snapshots E (rjs_Ref r) ''api.pxar.didx'' = Some d"
    using api_archived [OF assms(11), of "''/staging/api''" dirs n k] d(1) assms(14) by simp
  have v: "va_ref v = rjs_Ref r" "va_configMap v = cm"
    "va_pairs v = [\<lparr>rp_archive = ''api.pxar.didx'', rp_target = ''/staging/api''\<rparr>]"
    using assms(18) fetch_job_runs [OF assms(15,17), of ge'] by auto
  have "st_configMaps (pod_after E [] (trace (RunRestoreVolume (env_proc E) v) []) st0) cm = Some [''api.yaml'' \<mapsto> y]"
    using fetch_stores [OF assms(19,20) snap d(2) v(3,1,2) assms(17,16)] assms(21)
    by (simp add: wp_result stored_def trace_def)
  moreover have "found \<noteq> []" using y assms(4) render_empty [of A found] by auto
  moreover obtain ds where "ParseAPIManifests A y ns = Inr ds" "list_all (planned_for ns) ds"
    "map (\<lambda>d. (pd_Kind d, pd_Name d)) ds = map (\<lambda>m. (sub_str m ''kind'', sub_str (sub_obj m ''metadata'') ''name'')) objs"
    using archive_roundtrip [OF assms(4) \<open>found \<noteq> []\<close> objs, of ns] by (elim exE conjE)
  ultimately show ?thesis by (simp add: label_def)
qed

end
