(* ===== verification/Result_Contract.thy ===== *)
theory Result_Contract
  imports Agent_Backup Backup_Controller Sample_World
begin

text \<open>
  The contract between the backup agent and the backup controller: the line \<open>RunBackup\<close> leaves on
  the termination log (\<open>internal/agent/backup.go\<close>) is what \<open>jobResult\<close> reads from the Pod's
  status (\<open>internal/controller/pbsbackup_controller.go\<close>).
\<close>

lemma decode_success:
  assumes "int64 (Size snap)"
  shows "decode_result (successJSON snap @ [CHR 0x0A]) = Some (snapshotRef snap, Size snap)"
proof -
  let ?v = "JvObj [(''snapshotRef'', JvStr (snapshotRef snap)), (''bytes'', JvNum (Itoa (Size snap)))]"
  have "parse_json (enc_val ?v @ [CHR 0x0A]) = Some ?v"
    using assms by (intro parse_json_enc_ws) (auto simp: int_text_def is_ws_def int64_def Atoi_Itoa)
  moreover have "un_field un_string ''snapshotRef'' [(''snapshotRef'', JvStr (snapshotRef snap)),
      (''bytes'', JvNum (Itoa (Size snap)))] '''' = Some (snapshotRef snap)"
    by (simp add: un_string_def ToLower_def ascii_lower_def)
  moreover have "un_field un_int64 ''bytes'' [(''snapshotRef'', JvStr (snapshotRef snap)),
      (''bytes'', JvNum (Itoa (Size snap)))] 0 = Some (Size snap)"
    using assms by (simp add: un_int64_def ToLower_def ascii_lower_def Atoi_Itoa int64_def)
  ultimately show ?thesis
    by (simp add: decode_result_def successJSON_def un_members_def)
qed

lemma decode_error: "decode_result (errorJSON msg @ [CHR 0x0A]) = Some ('''', 0)"
proof -
  have "parse_json (enc_val (JvObj [(''error'', JvStr msg)]) @ [CHR 0x0A]) = Some (JvObj [(''error'', JvStr msg)])"
    by (rule parse_json_enc_ws) (auto simp: is_ws_def)
  then show ?thesis
    by (simp add: decode_result_def errorJSON_def un_members_def ToLower_def ascii_lower_def)
qed

lemma snapshotRef_neq_Nil: "snapshotRef snap \<noteq> ''''"
  by (simp add: snapshotRef_def ComposeSnapshotRef_def)

lemma read_success:
  "first_message (concat (map pod_statuses pods)) = Some (successJSON snap @ [CHR 0x0A]) \<Longrightarrow> int64 (Size snap) \<Longrightarrow>
   read_result job pods = Inr (snapshotRef snap, Size snap)"
  by (simp add: read_result_def decode_success snapshotRef_neq_Nil)

lemma read_error:
  "first_message (concat (map pod_statuses pods)) = Some (errorJSON msg @ [CHR 0x0A]) \<Longrightarrow>
   \<exists>e. read_result job pods = Inl e"
  by (simp add: read_result_def decode_error)

lemma fresh_snapshotD:
  assumes "fresh_snapshot P h snap"
  shows "int64 (Size snap)" "snapshotRef snap = ''host/'' @ h @ ''/'' @ RFC3339 (truncate_rat (BackupTime snap))"
proof -
  from assms obtain d snaps where d: "parseSnapshotList (p_jsonError P) d = Inr snaps"
      "LatestSnapshot snaps ''host'' h = Inr snap"
    by (auto simp: fresh_snapshot_def latestHostSnapshot_def)
  from d(2) have "snap \<in> set snaps"
    using latest_loop_best [of snaps "''host''" h None snap] by (auto simp: LatestSnapshot_def split: option.splits)
  with d(1) show "int64 (Size snap)" by (rule parseSnapshotList_range)
  from LatestSnapshot_group [OF d(2)]
  show "snapshotRef snap = ''host/'' @ h @ ''/'' @ RFC3339 (truncate_rat (BackupTime snap))"
    by (simp add: snapshotRef_def ComposeSnapshotRef_def)
qed


section \<open>A run on a concrete host\<close>

definition sample_proc :: proc where
  "sample_proc = \<lparr>p_getenv = (\<lambda>k. if k = ''PBS_NS'' then ''k8s'' else ''x''), p_hostname = Inr ''pod-1'', p_environ = [],
     p_run = (\<lambda>_ argv _. \<lparr>rr_stdout = (if argv = listArgv ''k8s''
         then ''[{'' @ enc_string ''backup-type'' @ '':'' @ enc_string ''host'' @ '','' @
              enc_string ''backup-id'' @ '':'' @ enc_string ''pod-1'' @ '','' @
              enc_string ''backup-time'' @ '':5,'' @ enc_string ''size'' @ '':7}]'' else ''''),
       rr_stderr = '''', rr_error = None\<rparr>),
     p_temp = (\<lambda>_ _. Inr ''/tmp/k''), p_emptyDir = (\<lambda>_ _. None), p_dirSize = (\<lambda>_ _. 0),
     p_readFile = (\<lambda>_ _. Inr ''''), p_termlog = (\<lambda>_ _ _. None), p_podNS = Inr ''app'', p_jsonError = id\<rparr>"

definition sample_args :: backup_args where
  "sample_args = \<lparr>ba_pvcs = [''data''], ba_apiDir = '''', ba_notes = ''keep'', ba_termlog = ''/t''\<rparr>"

lemma sample_proc_exits: "failing_exits sample_proc"
  by (simp add: failing_exits_def sample_proc_def)

lemma sample_proc_exit: "result (RunBackup sample_proc sample_args) [] = 0"
  by code_simp


lemma RunBackup_reports_witness:
  "\<exists>h snap. p_hostname sample_proc = Inr h \<and> fresh_snapshot sample_proc h snap \<and>
     termlogs (trace (RunBackup sample_proc sample_args) []) = [(''/t'', successJSON snap @ [CHR 0x0A])]"
  using RunBackup_reports [OF sample_proc_exits, of sample_args "[]"] sample_proc_exit
  by (auto simp: reports_def sample_args_def)

end
