(* ===== verification/Volume_Examples.thy ===== *)
theory Volume_Examples
  imports Volume_Roundtrip Result_Contract
begin

text \<open>
  The round trip of the claims' data at two Jobs: two claims are backed up, one of them is restored
  over other data, with a client that refuses to extract over what is there.
\<close>

definition two_claims :: BackupJobSpec where
  "two_claims = \<lparr>bjs_Name = ''b-n1'', bjs_Namespace = ''app'', bjs_Node = ''n1'', bjs_RepoSecret = ''pbsrepo-r'',
     bjs_PVCs = [''data'', ''logs''], bjs_StagingConfigMap = ''b-api'', bjs_Notes = '''', bjs_Image = ''img'',
     bjs_ServiceAccount = ''''\<rparr>"

definition two_args :: backup_args where
  "two_args = \<lparr>ba_pvcs = [''data'', ''logs''], ba_apiDir = ''/staging/api'', ba_notes = '''', ba_termlog = ''/dev/termination-log''\<rparr>"

definition logs_restore :: RestoreJobSpec where
  "logs_restore = \<lparr>rjs_Name = ''r-vol-n2'', rjs_Restore = ''r'', rjs_Namespace = ''clone'', rjs_RepoSecret = ''pbsrepo-r'',
     rjs_Ref = ''host/pod-1/1970-01-01T00:00:05Z'', rjs_Image = ''img'', rjs_ServiceAccount = ''''\<rparr>"

definition logs_args :: volume_args where
  "logs_args = \<lparr>va_ref = ''host/pod-1/1970-01-01T00:00:05Z'',
     va_pairs = [\<lparr>rp_archive = ''pvc-logs.pxar.didx'', rp_target = ''/backup/logs''\<rparr>], va_configMap = '''',
     va_termlog = ''/dev/termination-log''\<rparr>"

definition refusing :: "nat \<Rightarrow> nat \<Rightarrow> nat" where
  "refusing old new = (if old = 0 then new else old)"

theorem volume_data_roundtrip_witness:
  "let snapshot = map_of (snapshot_archives
       (\<lambda>path. case claim_at (BuildBackupJob two_claims) path of Some c \<Rightarrow> length c | None \<Rightarrow> 1)
       (trace (RunBackup sample_proc two_args) []))
   in claims_after (\<lambda>_. snapshot) 0 refusing (BuildRestoreVolumeJob logs_restore ''n2'' [''logs''])
       (trace (RunRestoreVolume sample_proc logs_args) []) (\<lambda>_. 9) = (\<lambda>p. if p = ''logs'' then 4 else 9)"
proof -
  have no_term: "default_termlog (\<lambda>_. '''') = ''/dev/termination-log''" by code_simp
  have "agent_main (\<lambda>_. '''') (job_command (BuildBackupJob two_claims)) = DoBackup two_args"
    using backup_job_runs [of two_claims "\<lambda>_. ''''"] by (simp add: two_claims_def two_args_def no_term)
  moreover have "agent_main (\<lambda>_. '''') (job_command (BuildRestoreVolumeJob logs_restore ''n2'' [''logs''])) = DoRestoreVolume logs_args"
    by (simp add: volume_job_runs logs_restore_def logs_args_def no_term del: job_command_builders)
  moreover have "result (RunBackup sample_proc two_args) [] = 0" "result (RunRestoreVolume sample_proc logs_args) [] = 0"
    by code_simp+
  moreover have "list_all (\<lambda>p. CHR '':'' \<notin> set p) (bjs_PVCs two_claims)" "\<not> HasPrefix (rjs_Ref logs_restore) ''--''"
    "set [''logs''] \<subseteq> set (bjs_PVCs two_claims)" "rjs_Ref logs_restore \<noteq> ''''"
    by (simp_all add: two_claims_def logs_restore_def HasPrefix_def)
  moreover have "\<forall>d. refusing 0 d = d" by (simp add: refusing_def)
  ultimately show ?thesis
    unfolding Let_def
    by (subst volume_data_roundtrip [where data = length and other = "\<lambda>_. 1" and s = two_claims and P = sample_proc and a = two_args
          and l = "[]"]) (auto simp: sample_proc_exits)
qed

end
