(* ===== verification/Backup_Correct.thy ===== *)
theory Backup_Correct
  imports Backup_Controller Controller_Logic Agent_Args
begin

text \<open>
  What the PBSBackup reconciler promises: the calls one reconcile may make (\<open>backup_call\<close>), the
  steps its status may take (\<open>backup_step\<close>), and with them the invariant of every status a
  sequence of reconciles can reach.
\<close>

section \<open>The contract of one reconcile\<close>

abbreviation terminal :: "backup_phase \<Rightarrow> bool" where
  "terminal p \<equiv> p = BackupPhaseCompleted \<or> p = BackupPhaseFailed"

definition ok_job :: "BackupJobStatus \<Rightarrow> bool" where
  "ok_job js \<longleftrightarrow> (\<exists>ref. ref \<noteq> '''' \<and> bj_state js = ok_state ref)"

text \<open>The statuses one patch may make of a status.\<close>

definition backup_step :: "kube \<Rightarrow> PBSBackupStatus \<Rightarrow> PBSBackupStatus \<Rightarrow> bool" where
  "backup_step K old new \<longleftrightarrow>
     \<not> terminal (bst_phase old) \<and> bst_phase old \<le> bst_phase new \<and>
     (bst_startedAt old \<noteq> None \<longrightarrow> bst_startedAt new = bst_startedAt old) \<and>
     (bst_completedAt old \<noteq> None \<longrightarrow> bst_completedAt new = bst_completedAt old) \<and>
     (bst_phase new \<noteq> BackupPhaseCompleted \<longrightarrow>
        bst_snapshotRef new = bst_snapshotRef old \<and> bst_bytes new = bst_bytes old) \<and>
     (condition_laws K \<longrightarrow>
        (k_conditionTrue K (bst_conditions new) condReady \<longleftrightarrow> bst_phase new = BackupPhaseCompleted)) \<and>
     (case bst_phase new of
        BackupPhaseScheduled \<Rightarrow> bst_jobs new = bst_jobs old \<and> bst_startedAt new = bst_startedAt old \<and>
          bst_completedAt new = bst_completedAt old
      | BackupPhaseRunning \<Rightarrow> bst_completedAt new = bst_completedAt old \<and>
          (bst_phase old = BackupPhaseRunning \<and> bst_jobs new = bst_jobs old \<and>
             bst_startedAt new = bst_startedAt old \<or>
           bst_jobs new \<noteq> [] \<and> bst_startedAt new \<noteq> None)
      | BackupPhaseCompleted \<Rightarrow> bst_completedAt new \<noteq> None \<and> bst_jobs new \<noteq> [] \<and>
          list_all ok_job (bst_jobs new) \<and>
          (length (bst_jobs new) = 1 \<longrightarrow> bj_state (hd (bst_jobs new)) = ok_state (bst_snapshotRef new))
      | BackupPhaseFailed \<Rightarrow> bst_completedAt new \<noteq> None
      | _ \<Rightarrow> False)"

text \<open>A Job a reconcile of \<open>b\<close> may create.\<close>

definition created_job :: "PBSBackupReconciler \<Rightarrow> kube \<Rightarrow> PBSBackup \<Rightarrow> job \<Rightarrow> bool" where
  "created_job R K b j \<longleftrightarrow>
     (\<exists>sec staging node claims m. j = (BuildBackupJob (backup_spec R b sec staging node claims))\<lparr>job_meta := m\<rparr> \<and>
        set_owner K ''PBSBackup'' (b_meta b)
          (job_meta (BuildBackupJob (backup_spec R b sec staging node claims))) = Inr m \<and>
        \<not> known_job b (jobName (b_name b) node) \<and> (claims \<noteq> [] \<or> staging \<noteq> ''''))"

fun backup_write :: "PBSBackupReconciler \<Rightarrow> kube \<Rightarrow> PBSBackup \<Rightarrow> kwrite \<Rightarrow> bool" where
  "backup_write R K b (CreateJob j) \<longleftrightarrow> created_job R K b j"
| "backup_write R K b (CreateSecret s) \<longleftrightarrow> contract_copy (b_ns b) s \<and> om_namespace (sec_meta s) = b_ns b"
| "backup_write R K b (UpdateSecret s) \<longleftrightarrow> contract_copy (b_ns b) s"
| "backup_write R K b (CreateConfigMap c) \<longleftrightarrow> om_name (cm_meta c) = b_name b @ ''-api'' \<and>
     om_namespace (cm_meta c) = b_ns b \<and> om_labels (cm_meta c) ManagedLabel = Some ''true'' \<and>
     dom (cm_data c) = {''api.yaml''}"
| "backup_write R K b (UpdateConfigMap c) \<longleftrightarrow> dom (cm_data c) = {''api.yaml''}"
| "backup_write R K b (PatchBackupStatus ns n st) \<longleftrightarrow> ns = b_ns b \<and> n = b_name b \<and>
     backup_step K (b_status b) st"
| "backup_write R K b _ \<longleftrightarrow> False"

fun backup_call :: "PBSBackupReconciler \<Rightarrow> kube \<Rightarrow> PBSBackup \<Rightarrow> kcall \<Rightarrow> bool" where
  "backup_call R K b Clock \<longleftrightarrow> True"
| "backup_call R K b (Read r) \<longleftrightarrow> True"
| "backup_call R K b (Write w) \<longleftrightarrow> backup_write R K b w"
| "backup_call R K b (ExecHook ns p c cmd t) \<longleftrightarrow> bst_jobs (b_status b) = [] \<and> cmd \<noteq> [] \<and> t = HookTimeout"
| "backup_call R K b (Event kind name ty reason act note) \<longleftrightarrow> kind = ''PBSBackup'' \<and> name = b_name b"
| "backup_call R K b (SetGauge g ns v) \<longleftrightarrow> ns = b_ns b"
| "backup_call R K b (IncCounter g ns) \<longleftrightarrow> ns = b_ns b"
| "backup_call R K b (Http r) \<longleftrightarrow> False"

lemma is_read_backup_call: "is_read c \<Longrightarrow> backup_call R K b c"
  by (auto simp: is_read_iff)

section \<open>The parts of a reconcile\<close>

subsection \<open>Reads\<close>

text \<open>Any read-only part of a reconcile.\<close>

lemma get_pvcs_gives:
  "gives (safely is_read (\<lambda>r. \<forall>cs. r = Inr (Inr cs) \<longrightarrow> length cs = length names)) (get_pvcs K ns names)"
proof (induction names)
  case (Cons n names)
  show ?case
    unfolding get_pvcs.simps
    by (rule gives_safely_bind [OF read_gives(2)])
      (auto intro!: gives_rules gives_safely_bindE [OF Cons.IH] split: sum.split)
qed (simp add: gives_safely_return)

lemma selectPVCs_gives: "gives (safely is_read (\<lambda>_. True)) (selectPVCs K b)"
  unfolding selectPVCs_def
  by (auto intro!: gives_rules gives_safely_bindE [OF read_gives(6)] gives_safely_mono [OF get_pvcs_gives]
      split: option.split sum.split)

lemma placePVC_gives: "gives (safely is_read (\<lambda>_. True)) (placePVC K c pods)"
  unfolding placePVC_def
  by (auto intro!: gives_rules gives_safely_bind [OF read_gives(3)] split: sum.split)

text \<open>Every group a placement makes has a claim.\<close>

definition full_groups :: "groups \<Rightarrow> bool" where
  "full_groups gs \<longleftrightarrow> (\<forall>node\<in>fst ` set gs. group_get gs node \<noteq> [])"

lemma group_get_absent: "node \<notin> fst ` set gs \<Longrightarrow> group_get gs node = []"
  by (simp add: group_get_def map_of_eq_None_iff [symmetric] split: option.split)

lemma full_groups_add: "full_groups gs \<Longrightarrow> full_groups (group_add k v gs)"
  by (auto simp: full_groups_def group_add_keys group_get_add)

lemma group_add_neq_Nil [simp]: "group_add k v gs \<noteq> []"
  by (cases gs) (auto split: if_splits)

lemma place_all_gives:
  "full_groups gs \<Longrightarrow>
   gives (safely is_read (\<lambda>r. \<forall>gs'. r = Inr (Inr gs') \<longrightarrow> full_groups gs' \<and> (cs \<noteq> [] \<or> gs \<noteq> [] \<longrightarrow> gs' \<noteq> [])))
     (place_all K cs pods gs)"
proof (induction cs arbitrary: gs)
  case (Cons c cs)
  show ?case
    unfolding place_all.simps
    by (rule gives_safely_bindE [OF placePVC_gives])
      (auto intro!: gives_rules gives_safely_mono [OF Cons.IH] full_groups_add Cons.prems split: sum.split)
qed (simp add: gives_safely_return)

lemma stage_read: "is_list_of ns c \<Longrightarrow> is_read c"
  by (cases "(ns, c)" rule: is_list_of.cases) auto

subsection \<open>The copies\<close>

fun copy_call :: "PBSBackup \<Rightarrow> kcall \<Rightarrow> bool" where
  "copy_call b (Read r) \<longleftrightarrow> True"
| "copy_call b (Write (CreateSecret s)) \<longleftrightarrow> contract_copy (b_ns b) s \<and> om_namespace (sec_meta s) = b_ns b"
| "copy_call b (Write (UpdateSecret s)) \<longleftrightarrow> contract_copy (b_ns b) s"
| "copy_call b (Write (CreateConfigMap c)) \<longleftrightarrow> om_name (cm_meta c) = b_name b @ ''-api'' \<and>
     om_namespace (cm_meta c) = b_ns b \<and> om_labels (cm_meta c) ManagedLabel = Some ''true'' \<and>
     dom (cm_data c) = {''api.yaml''}"
| "copy_call b (Write (UpdateConfigMap c)) \<longleftrightarrow> dom (cm_data c) = {''api.yaml''}"
| "copy_call b _ \<longleftrightarrow> False"

lemma copy_call_ok: "copy_call b c \<Longrightarrow> backup_call R K b c"
  by (cases "(b, c)" rule: copy_call.cases) auto

lemma copy_call_read: "is_read c \<Longrightarrow> copy_call b c"
  by (auto simp: is_read_iff)

lemma ensureRepoSecret_gives:
  "gives (safely (copy_call b) (\<lambda>r. \<forall>n. r = Inr (Inr n) \<longrightarrow> n = ''pbsrepo-'' @ om_name (repo_meta repo)))
     (ensureRepoSecret K b repo)"
  unfolding ensureRepoSecret_def Let_def get_secret_def do_write_def
  by (auto intro!: gives_rules copied_in_place dest: copy_secret_contract split: sum.split)

lemma ensureStagingConfigMap_gives:
  "gives (safely (copy_call b) (\<lambda>r. \<forall>n. r = Inr n \<longrightarrow> n = b_name b @ ''-api'')) (ensureStagingConfigMap K b y)"
  unfolding ensureStagingConfigMap_def Let_def get_configMap_def do_write_def
  by (auto intro!: gives_rules dest: set_owner_fields split: sum.split)

lemma stage_gives:
  "gives (safely (copy_call b) (\<lambda>r. \<forall>n. r = Inr n \<longrightarrow> n = '''' \<or> n = b_name b @ ''-api'')) (stage R K b)"
proof (cases "br_Serializer R")
  case (Some A)
  have *: "gives (safely (copy_call b) (\<lambda>_. True)) (SerializeNamespace K A (b_ns b))"
    using SerializeNamespace_gives by (rule gives_safely_mono) (auto intro: copy_call_read stage_read)
  show ?thesis
    unfolding stage_def using Some
    by (auto intro!: gives_safely_bind [OF *] gives_rules gives_safely_mono [OF ensureStagingConfigMap_gives]
        split: sum.split)
qed (simp add: stage_def gives_safely_return)

subsection \<open>Hooks\<close>

fun hook_call :: "kcall \<Rightarrow> bool" where
  "hook_call (ExecHook ns p c cmd t) \<longleftrightarrow> cmd \<noteq> [] \<and> t = HookTimeout"
| "hook_call _ \<longleftrightarrow> False"

lemma ParseHook_command: "ParseHook e p = Hook c cmd \<Longrightarrow> cmd \<noteq> []"
  by (auto simp: ParseHook_def Let_def split: if_splits option.splits list.splits)

lemma run_hooks_gives: "gives (safely hook_call (\<lambda>_. True)) (run_hooks R K ps)"
proof (induction ps)
  case (Cons p ps)
  then show ?case
    unfolding run_hooks.simps exec_hook_def
    by (auto intro!: gives_rules dest: ParseHook_command split: hook.split option.split)
qed (simp add: gives_safely_return)

lemma hook_call_ok: "hook_call c \<Longrightarrow> bst_jobs (b_status b) = [] \<Longrightarrow> backup_call R K b c"
  by (cases c) auto

subsection \<open>Jobs\<close>

fun job_call :: "PBSBackupReconciler \<Rightarrow> kube \<Rightarrow> PBSBackup \<Rightarrow> kcall \<Rightarrow> bool" where
  "job_call R K b (Read r) \<longleftrightarrow> True"
| "job_call R K b (Write (CreateJob j)) \<longleftrightarrow> created_job R K b j"
| "job_call R K b _ \<longleftrightarrow> False"

lemma job_call_ok: "job_call R K b c \<Longrightarrow> backup_call R K b c"
  by (cases "(R, K, b, c)" rule: job_call.cases) auto

lemma create_backup_job_gives:
  assumes "spec = backup_spec R b sec staging node claims" "\<not> known_job b (jobName (b_name b) node)"
    "claims \<noteq> [] \<or> staging \<noteq> ''''"
  shows "gives (safely (job_call R K b) (\<lambda>_. True)) (create_backup_job K b spec)"
proof -
  have "created_job R K b ((BuildBackupJob spec)\<lparr>job_meta := m\<rparr>)"
    if "set_owner K ''PBSBackup'' (b_meta b) (job_meta (BuildBackupJob spec)) = Inr m" for m
    using that assms unfolding created_job_def by blast
  then show ?thesis
    unfolding create_backup_job_def Let_def do_write_def get_job_def
    by (auto intro!: gives_rules split: sum.split option.split)
qed

lemma place_job_gives:
  assumes "group_get gs node \<noteq> [] \<or> staging \<noteq> ''''"
  shows "gives (safely (job_call R K b) (\<lambda>_. True)) (place_job R K b sec staging gs node)"
proof -
  have "sort (group_get gs node) \<noteq> [] \<or> staging \<noteq> ''''"
    using assms by (metis length_0_conv length_sort)
  then have "gives (safely (job_call R K b) (\<lambda>_. True))
      (create_backup_job K b (backup_spec R b sec staging node (sort (group_get gs node))))"
    if "\<not> known_job b (jobName (b_name b) node)"
    using that by (intro create_backup_job_gives [OF refl])
  then show ?thesis
    unfolding place_job_def Let_def get_job_def
    by (auto intro!: gives_rules gives_safely_bindE split: sum.split)
qed

lemma place_jobs_gives:
  assumes "\<forall>node\<in>set nodes. group_get gs node \<noteq> [] \<or> staging \<noteq> ''''"
  shows "gives (safely (job_call R K b) (\<lambda>r. \<forall>pjs. r = Inr (Inr pjs) \<longrightarrow> length pjs = length nodes))
    (place_jobs R K b sec staging gs nodes)"
  using assms
proof (induction nodes)
  case (Cons node nodes)
  have "group_get gs node \<noteq> [] \<or> staging \<noteq> ''''" using Cons.prems by simp
  note one = place_job_gives [OF this] and rest = Cons.IH [OF ballI]
  show ?case
    unfolding place_jobs.simps
    by (rule gives_safely_bindE [OF one])
      (use Cons.prems in \<open>auto intro!: gives_rules gives_safely_bindE [OF rest] split: sum.split\<close>)
qed (simp add: gives_safely_return)

subsection \<open>Results\<close>

lemma read_result_ref: "read_result job pods = Inr (ref, n) \<Longrightarrow> ref \<noteq> ''''"
  by (auto simp: read_result_def split: option.splits prod.splits if_splits)

lemma jobResult_gives:
  "gives (safely is_read (\<lambda>r. \<forall>ref n. r = Inr (Inr (ref, n)) \<longrightarrow> ref \<noteq> '''')) (jobResult K ns j)"
  unfolding jobResult_def
  by (auto intro!: gives_rules gives_safely_bindE [OF read_gives(7)] dest: read_result_ref)

lemma ok_job_new: "ref \<noteq> '''' \<Longrightarrow> ok_job \<lparr>bj_node = n, bj_job = j, bj_state = ok_state ref\<rparr>"
  unfolding ok_job_def by auto

lemma collect_results_gives:
  assumes "list_all ok_job sts" "sts \<noteq> [] \<longrightarrow> bj_state (last sts) = ok_state ref"
  shows "gives (safely is_read (\<lambda>r. \<forall>n ref' sts'. r = Inr (Inr (n, ref', sts')) \<longrightarrow>
      list_all ok_job sts' \<and> length sts' = length sts + length pjs \<and>
      (sts' \<noteq> [] \<longrightarrow> bj_state (last sts') = ok_state ref')))
    (collect_results K ns pjs n ref sts)"
  using assms
proof (induction pjs arbitrary: n ref sts)
  case (Cons pj pjs)
  have step: "gives (safely is_read (\<lambda>r. \<forall>n ref' sts'. r = Inr (Inr (n, ref', sts')) \<longrightarrow>
        list_all ok_job sts' \<and> length sts' = Suc (length sts + length pjs) \<and>
        (sts' \<noteq> [] \<longrightarrow> bj_state (last sts') = ok_state ref')))
      (collect_results K ns pjs n' ref'
        (sts @ [\<lparr>bj_node = pj_node pj, bj_job = job_name (pj_job pj), bj_state = ok_state ref'\<rparr>]))"
    if "ref' \<noteq> ''''" for n' ref'
    by (rule gives_safely_mono [OF Cons.IH]) (use Cons.prems ok_job_new [OF that] in auto)
  show ?case
    unfolding collect_results.simps
    by (rule gives_safely_bindE [OF jobResult_gives]) (auto intro!: gives_rules step split: sum.split)
qed (simp add: gives_safely_return)

subsection \<open>Recording\<close>

text \<open>The relation a whole reconcile keeps: every call is one of the allowed ones; a result
  without a requeue comes with a terminal patch, and a requeue is one of the two cadences; the
  metrics move only with the patch of their phase.\<close>

fun patch_to :: "backup_phase \<Rightarrow> kcall \<Rightarrow> bool" where
  "patch_to p (Write (PatchBackupStatus ns n st)) \<longleftrightarrow> bst_phase st = p"
| "patch_to p _ \<longleftrightarrow> False"

definition patches :: "backup_phase \<Rightarrow> kcall list \<Rightarrow> bool" where
  "patches p n \<longleftrightarrow> list_ex (patch_to p) n"

definition settled :: "outcome \<Rightarrow> kcall list \<Rightarrow> bool" where
  "settled x n \<longleftrightarrow>
     (x = Inr NoRequeue \<longrightarrow> patches BackupPhaseCompleted n \<or> patches BackupPhaseFailed n) \<and>
     (\<forall>w. x = Inr (RequeueAfter w) \<longrightarrow> w = requeueWait \<or> w = requeueWaitSlow) \<and>
     (\<forall>g ns v. SetGauge g ns v \<in> set n \<longrightarrow> patches BackupPhaseCompleted n) \<and>
     (\<forall>g ns. IncCounter g ns \<in> set n \<longrightarrow> patches BackupPhaseFailed n)"

definition lawful :: "PBSBackupReconciler \<Rightarrow> kube \<Rightarrow> PBSBackup \<Rightarrow> outcome \<Rightarrow> kcall list \<Rightarrow> bool" where
  "lawful R K b x n \<longleftrightarrow> list_all (backup_call R K b) n \<and> settled x n"

fun is_metric :: "kcall \<Rightarrow> bool" where
  "is_metric (SetGauge g ns v) \<longleftrightarrow> True"
| "is_metric (IncCounter g ns) \<longleftrightarrow> True"
| "is_metric _ \<longleftrightarrow> False"

lemma patches_append: "patches p (m @ n) \<longleftrightarrow> patches p m \<or> patches p n"
  by (simp add: patches_def)

lemma settled_after: "list_all (\<lambda>c. \<not> is_metric c) n \<Longrightarrow> settled x n' \<Longrightarrow> settled x (n @ n')"
  unfolding settled_def patches_append by (auto simp: list_all_iff)

text \<open>A part that makes only allowed calls, then the rest.\<close>

lemma lawful_bindE:
  assumes m: "gives (safely P Q) m" and P: "\<And>c. P c \<Longrightarrow> backup_call R K b c \<and> \<not> is_metric c"
    and f: "\<And>x. Q (Inr x) \<Longrightarrow> gives (lawful R K b) (f x)"
  shows "gives (lawful R K b) (bindE m f)"
proof (rule gives_bindE [OF m])
  fix e n
  assume "safely P Q (Inl e) n"
  then show "lawful R K b (Inl e) n"
    using P by (fastforce simp: safely_def lawful_def settled_def list_all_iff)
next
  fix x n
  assume "safely P Q (Inr x) n"
  then have n: "list_all (backup_call R K b) n" "list_all (\<lambda>c. \<not> is_metric c) n" "Q (Inr x)"
    using P by (auto simp: safely_def list_all_iff)
  show "gives (\<lambda>y n'. lawful R K b y (n @ n')) (f x)"
    by (rule gives_mono [OF f [OF n(3)]]) (use n in \<open>auto simp: lawful_def settled_after\<close>)
qed

lemma lawful_bind:
  assumes m: "gives (safely P Q) m" and P: "\<And>c. P c \<Longrightarrow> backup_call R K b c \<and> \<not> is_metric c"
    and f: "\<And>x. Q x \<Longrightarrow> gives (lawful R K b) (f x)"
  shows "gives (lawful R K b) (State_Monad.bind m f)"
proof (rule gives_bind [OF m])
  fix x n
  assume "safely P Q x n"
  then have n: "list_all (backup_call R K b) n" "list_all (\<lambda>c. \<not> is_metric c) n" "Q x"
    using P by (auto simp: safely_def list_all_iff)
  show "gives (\<lambda>y n'. lawful R K b y (n @ n')) (f x)"
    by (rule gives_mono [OF f [OF n(3)]]) (use n in \<open>auto simp: lawful_def settled_after\<close>)
qed

lemma lawful_error: "gives (lawful R K b) (State_Monad.return (Inl e))"
  by (rule gives_return) (simp add: lawful_def settled_def)

lemma no_metric:
  "is_read c \<Longrightarrow> backup_call R K b c \<and> \<not> is_metric c"
  "copy_call b c \<Longrightarrow> backup_call R K b c \<and> \<not> is_metric c"
  "job_call R K b c \<Longrightarrow> backup_call R K b c \<and> \<not> is_metric c"
  "hook_call c \<Longrightarrow> bst_jobs (b_status b) = [] \<Longrightarrow> backup_call R K b c \<and> \<not> is_metric c"
  by (auto simp: is_read_iff intro: copy_call_ok job_call_ok hook_call_ok elim!: is_metric.elims)

lemma quiet_ok: "quiet c \<Longrightarrow> backup_call R K b c \<and> \<not> is_metric c"
  by (cases c) auto

definition stamped :: "kube \<Rightarrow> PBSBackup \<Rightarrow> backup_phase \<Rightarrow> condition \<Rightarrow> PBSBackupStatus \<Rightarrow> bool" where
  "stamped K b phase c s \<longleftrightarrow>
     (\<exists>l. s = (b_status b)\<lparr>bst_conditions := fst (k_setCondition K l (bst_conditions (b_status b))
            (c\<lparr>cond_generation := om_generation (b_meta b)\<rparr>)), bst_phase := phase\<rparr>)"

definition recorded :: "PBSBackup \<Rightarrow> backup_phase \<Rightarrow> gerr + bool \<times> PBSBackup \<Rightarrow> kcall list \<Rightarrow> bool" where
  "recorded b phase x n \<longleftrightarrow> list_all (\<lambda>c. \<not> is_metric c) n \<and>
     (\<forall>t b'. x = Inr (t, b') \<longrightarrow> b_meta b' = b_meta b \<and> (phase \<noteq> bst_phase (b_status b) \<longrightarrow> patches phase n))"

lemma recordOutcome_gives:
  assumes extra: "\<And>s. stamped K b phase c s \<Longrightarrow>
      gives (safely quiet (\<lambda>st. bst_phase st = phase \<and> backup_step K (b_status b) st)) (extra s)"
  shows "gives (\<lambda>x n. list_all (backup_call R K b) n \<and> recorded b phase x n) (recordOutcome K b phase c extra)"
proof -
  have *: "gives (\<lambda>x n'. list_all (backup_call R K b) (n @ n') \<and> recorded b phase x (n @ n'))
      (if st = b_status b then State_Monad.return (Inr (t, b))
       else skipE (do_write K (PatchBackupStatus (b_ns b) (b_name b) st))
         (State_Monad.return (Inr (t, b\<lparr>b_status := stored_backup_status st\<rparr>))))"
    if "list_all quiet n" "bst_phase st = phase" "backup_step K (b_status b) st" for st t n
  proof -
    have "list_all (backup_call R K b) n" "list_all (\<lambda>c. \<not> is_metric c) n"
      using that(1) quiet_ok by (auto simp: list_all_iff)
    then show ?thesis
      using that(2,3) unfolding do_write_def
      by (auto intro!: gives_rules simp: recorded_def patches_def)
  qed
  show ?thesis
    unfolding recordOutcome_def
  proof (rule gives_bind_observe)
    fix l
    obtain conds t where ct: "k_setCondition K l (bst_conditions (b_status b))
        (c\<lparr>cond_generation := om_generation (b_meta b)\<rparr>) = (conds, t)" by fastforce
    have st: "stamped K b phase c ((b_status b)\<lparr>bst_conditions := conds, bst_phase := phase\<rparr>)"
      unfolding stamped_def by (rule exI [of _ l]) (simp only: ct fst_conv)
    show "gives (\<lambda>x n. list_all (backup_call R K b) n \<and> recorded b phase x n)
      (case k_setCondition K l (bst_conditions (b_status b)) (c\<lparr>cond_generation := om_generation (b_meta b)\<rparr>) of
        (conds, transitioned) \<Rightarrow> do {
          st \<leftarrow> extra ((b_status b)\<lparr>bst_conditions := conds, bst_phase := phase\<rparr>);
          if st = b_status b then State_Monad.return (Inr (transitioned, b))
          else skipE (do_write K (PatchBackupStatus (b_ns b) (b_name b) st))
            (State_Monad.return (Inr (transitioned, b\<lparr>b_status := stored_backup_status st\<rparr>)))
        })"
      unfolding ct prod.case
      by (rule gives_bind [OF extra [OF st]], rule *) (simp_all add: safely_def)
  qed
qed

subsection \<open>The ends of a reconcile\<close>

text \<open>After recording, an event and the metrics of the phase.\<close>

lemma lawful_tail:
  assumes m: "gives (\<lambda>x n. list_all (backup_call R K b) n \<and> recorded b phase x n) m"
    and f: "\<And>t b'. b_meta b' = b_meta b \<Longrightarrow>
      gives (\<lambda>x n. list_all (backup_call R K b) n \<and>
        (\<forall>l. (phase \<noteq> bst_phase (b_status b) \<longrightarrow> patches phase l) \<longrightarrow> list_all (\<lambda>c. \<not> is_metric c) l \<longrightarrow>
           settled x (l @ n))) (f (t, b'))"
  shows "gives (lawful R K b) (bindE m f)"
proof (rule gives_bindE [OF m])
  fix e n
  assume "list_all (backup_call R K b) n \<and> recorded b phase (Inl e) n"
  then show "lawful R K b (Inl e) n"
    by (fastforce simp: lawful_def settled_def recorded_def list_all_iff)
next
  fix tb n
  assume n: "list_all (backup_call R K b) n \<and> recorded b phase (Inr tb) n"
  obtain t b' where tb: "tb = (t, b')" by fastforce
  with n have b': "b_meta b' = b_meta b" "phase \<noteq> bst_phase (b_status b) \<longrightarrow> patches phase n"
    "list_all (\<lambda>c. \<not> is_metric c) n"
    by (auto simp: recorded_def)
  show "gives (\<lambda>y n'. lawful R K b y (n @ n')) (f tb)"
    unfolding tb by (rule gives_mono [OF f [OF b'(1)]]) (use n b'(2,3) in \<open>auto simp: lawful_def\<close>)
qed

lemma settled_requeue:
  "w = requeueWait \<or> w = requeueWaitSlow \<Longrightarrow> list_all (\<lambda>c. \<not> is_metric c) n \<Longrightarrow> settled (Inr (RequeueAfter w)) n"
  by (fastforce simp: settled_def list_all_iff)

lemma notify_gives:
  "b_meta b' = b_meta b \<Longrightarrow> gives (\<lambda>x n. list_all (backup_call R K b) n \<and> list_all (\<lambda>c. \<not> is_metric c) n)
     (notify b' t ty reason note)"
  unfolding notify_def emit_def by (auto intro!: gives_rules simp: gives_def)

lemma condition_of_stamped:
  "stamped K b phase c s \<Longrightarrow> condition_laws K \<Longrightarrow> cond_type c = condReady \<Longrightarrow>
   (k_conditionTrue K (bst_conditions s) condReady \<longleftrightarrow> cond_status c = CondTrue)"
proof -
  assume s: "stamped K b phase c s" and K: "condition_laws K" and c: "cond_type c = condReady"
  let ?c = "c\<lparr>cond_generation := om_generation (b_meta b)\<rparr>"
  obtain l where "bst_conditions s = fst (k_setCondition K l (bst_conditions (b_status b)) ?c)"
    using s by (auto simp: stamped_def)
  moreover have "k_conditionTrue K (fst (k_setCondition K l (bst_conditions (b_status b)) ?c)) (cond_type ?c) \<longleftrightarrow>
      cond_status ?c = CondTrue"
    using K unfolding condition_laws_def by blast
  ultimately show ?thesis using c by simp
qed

lemma stamped_fields:
  "stamped K b phase c s \<Longrightarrow> bst_phase s = phase \<and> bst_jobs s = bst_jobs (b_status b) \<and>
     bst_startedAt s = bst_startedAt (b_status b) \<and> bst_completedAt s = bst_completedAt (b_status b) \<and>
     bst_snapshotRef s = bst_snapshotRef (b_status b) \<and> bst_bytes s = bst_bytes (b_status b)"
  by (auto simp: stamped_def)

lemma hold_lawful:
  assumes "\<not> terminal (bst_phase (b_status b))" "wait = requeueWait \<or> wait = requeueWaitSlow"
  shows "gives (lawful R K b) (hold K b reason msg wait)"
proof -
  let ?p = "if bst_phase (b_status b) = BackupPhaseRunning then BackupPhaseRunning else BackupPhaseScheduled"
  have "backup_step K (b_status b) s" if "stamped K b ?p (new_condition CondFalse reason msg) s" for s
    using assms(1) stamped_fields [OF that] condition_of_stamped [OF that]
    by (cases "bst_phase (b_status b)") (auto simp: backup_step_def less_eq_backup_phase_def)
  then have "gives (\<lambda>x n. list_all (backup_call R K b) n \<and> recorded b ?p x n)
      (recordOutcome K b ?p (new_condition CondFalse reason msg) State_Monad.return)"
    by (intro recordOutcome_gives gives_safely_return) (auto dest: stamped_fields)
  then show ?thesis
    unfolding hold_def Let_def
  proof (rule lawful_tail)
    fix t and b' :: PBSBackup assume "b_meta b' = b_meta b"
    from notify_gives [OF this, of R K t EventWarning reason msg] assms(2)
    show "gives (\<lambda>x n. list_all (backup_call R K b) n \<and>
        (\<forall>l. (?p \<noteq> bst_phase (b_status b) \<longrightarrow> patches ?p l) \<longrightarrow> list_all (\<lambda>c. \<not> is_metric c) l \<longrightarrow> settled x (l @ n)))
      (case (t, b') of (transitioned, b) \<Rightarrow> do {
         notify b transitioned EventWarning reason msg; State_Monad.return (Inr (RequeueAfter wait)) })"
      by (auto intro!: gives_rules settled_requeue elim!: gives_bind)
  qed
qed

lemma jobStatuses_neq_Nil [simp]: "jobStatuses placed = [] \<longleftrightarrow> placed = []"
  by (simp add: jobStatuses_def)

lemma runBackup_lawful:
  assumes "\<not> terminal (bst_phase (b_status b))" "placed \<noteq> []"
  shows "gives (lawful R K b) (runBackup K b placed)"
proof -
  let ?c = "new_condition CondFalse reasonRunning ''backup jobs running''"
  have step: "backup_step K (b_status b) (s\<lparr>bst_startedAt := t, bst_jobs := jobStatuses placed\<rparr>)"
    if "stamped K b BackupPhaseRunning ?c s" "t \<noteq> None" "bst_startedAt s = None \<or> t = bst_startedAt s" for s t
    using assms stamped_fields [OF that(1)] condition_of_stamped [OF that(1)] that(2,3)
    by (cases "bst_phase (b_status b)") (auto simp: backup_step_def less_eq_backup_phase_def)
  have same: "s\<lparr>bst_jobs := js\<rparr> = s\<lparr>bst_startedAt := bst_startedAt s, bst_jobs := js\<rparr>" for s :: PBSBackupStatus and js
    by simp
  have "gives (safely quiet (\<lambda>st. bst_phase st = BackupPhaseRunning \<and> backup_step K (b_status b) st))
     (case bst_startedAt s of
        Some t \<Rightarrow> State_Monad.return (s\<lparr>bst_jobs := jobStatuses placed\<rparr>)
      | None \<Rightarrow> do {
          now \<leftarrow> read_clock K;
          State_Monad.return (s\<lparr>bst_startedAt := Some now, bst_jobs := jobStatuses placed\<rparr>)
        })" if "stamped K b BackupPhaseRunning ?c s" for s
  proof (cases "bst_startedAt s")
    case None
    with step [OF that] stamped_fields [OF that] show ?thesis
      by (auto intro!: gives_safely_bind [OF clock_gives] gives_safely_return)
  next
    case (Some t)
    then have "backup_step K (b_status b) (s\<lparr>bst_jobs := jobStatuses placed\<rparr>)"
      using step [OF that, of "bst_startedAt s"] by (subst same) simp
    with Some stamped_fields [OF that] show ?thesis by (auto intro!: gives_safely_return)
  qed
  then show ?thesis
    unfolding runBackup_def
  proof (rule lawful_tail [OF recordOutcome_gives])
    fix t and b' :: PBSBackup assume "b_meta b' = b_meta b"
    from notify_gives [OF this, of R K t EventNormal reasonRunning "''backup jobs are running''"]
    show "gives (\<lambda>x n. list_all (backup_call R K b) n \<and>
        (\<forall>l. (BackupPhaseRunning \<noteq> bst_phase (b_status b) \<longrightarrow> patches BackupPhaseRunning l) \<longrightarrow>
           list_all (\<lambda>c. \<not> is_metric c) l \<longrightarrow> settled x (l @ n)))
      (case (t, b') of (transitioned, b) \<Rightarrow> do {
         notify b transitioned EventNormal reasonRunning ''backup jobs are running'';
         State_Monad.return (Inr (RequeueAfter requeueWait)) })"
      by (auto intro!: gives_rules settled_requeue elim!: gives_bind)
  qed
qed

lemma stamp_completed_gives:
  assumes "\<And>t. bst_completedAt s = None \<or> t = bst_completedAt s \<Longrightarrow> t \<noteq> None \<Longrightarrow> R (s\<lparr>bst_completedAt := t\<rparr>)"
  shows "gives (safely quiet R) (stamp_completed K s)"
  unfolding stamp_completed_def using assms [of "bst_completedAt s"]
  by (auto intro!: gives_safely_bind [OF clock_gives] gives_safely_return assms split: option.split)

lemma settled_terminal:
  assumes "p = BackupPhaseCompleted \<or> p = BackupPhaseFailed" "patches p l" "list_all (\<lambda>c. \<not> is_metric c) l"
    and "\<And>g ns v. SetGauge g ns v \<in> set n \<Longrightarrow> p = BackupPhaseCompleted"
    and "\<And>g ns. IncCounter g ns \<in> set n \<Longrightarrow> p = BackupPhaseFailed"
  shows "settled (Inr NoRequeue) (l @ n)"
  using assms unfolding settled_def patches_append by (fastforce simp: list_all_iff)

lemma failBackup_lawful:
  assumes "\<not> terminal (bst_phase (b_status b))"
  shows "gives (lawful R K b) (failBackup R K b reason msg placed)"
proof -
  let ?c = "new_condition CondFalse reason msg"
  have "backup_step K (b_status b) (s\<lparr>bst_jobs := jobStatuses placed, bst_completedAt := t\<rparr>)"
    if "stamped K b BackupPhaseFailed ?c s" "bst_completedAt s = None \<or> t = bst_completedAt s" "t \<noteq> None" for s t
    using assms stamped_fields [OF that(1)] condition_of_stamped [OF that(1)] that(2,3)
    by (cases "bst_phase (b_status b)") (auto simp: backup_step_def less_eq_backup_phase_def)
  then have "gives (safely quiet (\<lambda>st. bst_phase st = BackupPhaseFailed \<and> backup_step K (b_status b) st))
     (stamp_completed K (s\<lparr>bst_jobs := jobStatuses placed\<rparr>))" if "stamped K b BackupPhaseFailed ?c s" for s
    using that stamped_fields [OF that] by (intro stamp_completed_gives) auto
  then show ?thesis
    unfolding failBackup_def
  proof (rule lawful_tail [OF recordOutcome_gives])
    fix t and b' :: PBSBackup assume b': "b_meta b' = b_meta b"
    have "gives (\<lambda>x n. list_all (backup_call R K b) n \<and> list_all (\<lambda>c. \<forall>g ns v. c \<noteq> SetGauge g ns v) n)
        (observeFailed R b')"
      using b' unfolding observeFailed_def emit_def by (auto intro!: gives_rules simp: gives_def)
    from notify_gives [OF b', of R K t EventWarning reason msg] this assms
    show "gives (\<lambda>x n. list_all (backup_call R K b) n \<and>
        (\<forall>l. (BackupPhaseFailed \<noteq> bst_phase (b_status b) \<longrightarrow> patches BackupPhaseFailed l) \<longrightarrow>
           list_all (\<lambda>c. \<not> is_metric c) l \<longrightarrow> settled x (l @ n)))
      (case (t, b') of (transitioned, b) \<Rightarrow> do {
         notify b transitioned EventWarning reason msg; observeFailed R b; State_Monad.return (Inr NoRequeue) })"
      unfolding prod.case
      by (elim gives_bind, auto intro!: gives_rules settled_terminal [of BackupPhaseFailed] elim!: gives_bind)
        (fastforce simp: list_all_iff)+
  qed
qed

lemma completeBackup_lawful:
  assumes "\<not> terminal (bst_phase (b_status b))" "placed \<noteq> []"
  shows "gives (lawful R K b) (completeBackup R K b placed)"
  unfolding completeBackup_def
proof (rule lawful_bindE [OF collect_results_gives no_metric(1)])
  fix r :: "string + int \<times> string \<times> BackupJobStatus list"
  assume r: "\<forall>n ref' sts'. (Inr r :: gerr + string + int \<times> string \<times> BackupJobStatus list) = Inr (Inr (n, ref', sts')) \<longrightarrow>
      list_all ok_job sts' \<and> length sts' = length ([] :: BackupJobStatus list) + length placed \<and>
      (sts' \<noteq> [] \<longrightarrow> bj_state (last sts') = ok_state ref')"
  show "gives (lawful R K b) (case r of
       Inl problem \<Rightarrow> failBackup R K b reasonBadResult problem placed
     | Inr (bytes, singleRef, statuses) \<Rightarrow>
         let message = (if length placed = 1 then ''snapshot '' @ singleRef
                        else Itoa (int (length placed)) @ '' node job(s) completed'')
         in bindE (recordOutcome K b BackupPhaseCompleted (new_condition CondTrue reasonCompleted message)
              (\<lambda>s. stamp_completed K (s\<lparr>bst_jobs := statuses, bst_bytes := bytes,
                 bst_snapshotRef := (if length placed = 1 then singleRef else bst_snapshotRef s)\<rparr>)))
            (\<lambda>(transitioned, b). do {
               notify b transitioned EventNormal reasonCompleted message;
               observeCompleted R b;
               State_Monad.return (Inr NoRequeue)
             }))"
  proof (cases r)
    case (Inl problem)
    then show ?thesis using failBackup_lawful [OF assms(1)] by simp
  next
    case (Inr x)
    obtain n ref sts where x: "x = (n, ref, sts)" by (cases x) auto
    with r Inr have sts: "list_all ok_job sts" "length sts = length placed" "sts \<noteq> []"
        "bj_state (last sts) = ok_state ref"
      using assms(2) by auto
    have one: "length sts = 1 \<Longrightarrow> bj_state (hd sts) = ok_state ref"
      using sts(3,4) by (cases sts) auto
    let ?msg = "if length placed = 1 then ''snapshot '' @ ref
        else Itoa (int (length placed)) @ '' node job(s) completed''"
    let ?c = "new_condition CondTrue reasonCompleted ?msg"
    let ?s = "\<lambda>s. s\<lparr>bst_jobs := sts, bst_bytes := n,
        bst_snapshotRef := (if length placed = 1 then ref else bst_snapshotRef s)\<rparr>"
    have "backup_step K (b_status b) ((?s s)\<lparr>bst_completedAt := t\<rparr>)"
      if "stamped K b BackupPhaseCompleted ?c s" "bst_completedAt s = None \<or> t = bst_completedAt s" "t \<noteq> None" for s t
      using assms(1) stamped_fields [OF that(1)] condition_of_stamped [OF that(1)] that(2,3) sts one
      by (cases "bst_phase (b_status b)") (auto simp: backup_step_def less_eq_backup_phase_def)
    then have "gives (safely quiet (\<lambda>st. bst_phase st = BackupPhaseCompleted \<and> backup_step K (b_status b) st))
       (stamp_completed K (?s s))" if "stamped K b BackupPhaseCompleted ?c s" for s
      using that stamped_fields [OF that] by (intro stamp_completed_gives) auto
    then show ?thesis
      unfolding Inr x sum.case prod.case Let_def
    proof (rule lawful_tail [OF recordOutcome_gives])
      fix t and b' :: PBSBackup assume b': "b_meta b' = b_meta b"
      have "gives (\<lambda>x n. list_all (backup_call R K b) n \<and> list_all (\<lambda>c. \<forall>g ns. c \<noteq> IncCounter g ns) n)
          (observeCompleted R b')"
        using b' unfolding observeCompleted_def emit_def
        by (auto intro!: gives_rules simp: gives_def split: option.split)
      from notify_gives [OF b', of R K t EventNormal reasonCompleted ?msg] this assms(1)
      show "gives (\<lambda>x n. list_all (backup_call R K b) n \<and>
          (\<forall>l. (BackupPhaseCompleted \<noteq> bst_phase (b_status b) \<longrightarrow> patches BackupPhaseCompleted l) \<longrightarrow>
             list_all (\<lambda>c. \<not> is_metric c) l \<longrightarrow> settled x (l @ n)))
        (case (t, b') of (transitioned, b) \<Rightarrow> do {
           notify b transitioned EventNormal reasonCompleted ?msg; observeCompleted R b;
           State_Monad.return (Inr NoRequeue) })"
        unfolding prod.case
        by (elim gives_bind, auto intro!: gives_rules settled_terminal [of BackupPhaseCompleted] elim!: gives_bind)
          (fastforce simp: list_all_iff)+
    qed
  qed
qed simp_all

lemma settle_lawful:
  assumes "\<not> terminal (bst_phase (b_status b))" "placed \<noteq> []"
  shows "gives (lawful R K b) (settle R K b placed)"
  using assms unfolding settle_def
  by (auto intro!: failBackup_lawful runBackup_lawful completeBackup_lawful split: option.split)

lemma launch_lawful:
  assumes "\<not> terminal (bst_phase (b_status b))" "gs \<noteq> []" "full_groups gs \<or> staging \<noteq> ''''"
  shows "gives (lawful R K b) (launch R K b sec staging gs)"
  unfolding launch_def
proof (rule lawful_bindE [OF place_jobs_gives no_metric(3)])
  show "\<forall>node\<in>set (sort (map fst gs)). group_get gs node \<noteq> [] \<or> staging \<noteq> ''''"
    using assms(3) by (auto simp: full_groups_def)
  fix r :: "string + placedJob list"
  assume "\<forall>pjs. (Inr r :: gerr + string + placedJob list) = Inr (Inr pjs) \<longrightarrow> length pjs = length (sort (map fst gs))"
  then have "\<forall>pjs. r = Inr pjs \<longrightarrow> pjs \<noteq> []" using assms(2) by auto
  then show "gives (lawful R K b) (case r of Inl problem \<Rightarrow> hold K b reasonJobDeleted problem requeueWait
      | Inr placed \<Rightarrow> settle R K b placed)"
    using assms(1) by (auto intro!: hold_lawful settle_lawful split: sum.split)
qed

lemma hooks_then_launch_lawful:
  assumes "\<not> terminal (bst_phase (b_status b))" "gs \<noteq> []" "full_groups gs \<or> staging \<noteq> ''''"
  shows "gives (lawful R K b) (hooks_then_launch R K b sec staging pvcs pods gs)"
proof -
  have "gives (lawful R K b) (do {
        r \<leftarrow> runPreHooks R K pvcs pods;
        case r of
          Some (problem, reason) \<Rightarrow> failBackup R K b reason problem []
        | None \<Rightarrow> launch R K b sec staging gs })" if "bst_jobs (b_status b) = []"
    unfolding runPreHooks_def
    using assms that
    by (intro lawful_bind [OF run_hooks_gives no_metric(4)])
      (auto intro!: failBackup_lawful launch_lawful split: option.split)
  then show ?thesis
    unfolding hooks_then_launch_def using launch_lawful [OF assms] by simp
qed

lemma full_groups_Nil [simp]: "full_groups []"
  by (simp add: full_groups_def)

lemma place_and_launch_lawful:
  assumes "\<not> terminal (bst_phase (b_status b))" "pvcs \<noteq> [] \<or> staging \<noteq> ''''"
  shows "gives (lawful R K b) (place_and_launch R K b sec staging pvcs)"
proof -
  have first: "gives (safely is_read (\<lambda>_. True)) (firstNode K)"
    using firstNode_gives by (rule gives_mono) (auto simp: safely_def)
  show ?thesis
    unfolding place_and_launch_def using assms
    by (auto intro!: lawful_bindE [OF read_gives(7) no_metric(1)] lawful_bindE [OF first no_metric(1)]
        lawful_bindE [OF place_all_gives no_metric(1)] hold_lawful hooks_then_launch_lawful split: sum.split)
qed

lemma reconcile_ready_lawful:
  assumes "\<not> terminal (bst_phase (b_status b))"
  shows "gives (lawful R K b) (reconcile_ready R K b repo)"
  unfolding reconcile_ready_def using assms
  by (auto intro!: lawful_bindE [OF ensureRepoSecret_gives no_metric(2)]
      lawful_bindE [OF selectPVCs_gives no_metric(1)] lawful_bindE [OF stage_gives no_metric(2)]
      hold_lawful place_and_launch_lawful split: sum.split)

lemma reconcile_backup_lawful:
  assumes "\<not> terminal (bst_phase (b_status b))"
  shows "gives (lawful R K b) (reconcile_backup R K b)"
  unfolding reconcile_backup_def using assms
  by (auto intro!: lawful_bind [OF read_gives(5) no_metric(1)] hold_lawful reconcile_ready_lawful lawful_error
      split: sum.split)

section \<open>Hooks come before Jobs\<close>

abbreviation no_exec :: "kcall \<Rightarrow> bool" where "no_exec c \<equiv> \<not> is_exec c"
abbreviation no_job :: "kcall \<Rightarrow> bool" where "no_job c \<equiv> \<not> is_createJob c"

lemma call_classes:
  "is_read c \<Longrightarrow> no_exec c" "is_read c \<Longrightarrow> no_job c"
  "copy_call b c \<Longrightarrow> no_exec c" "copy_call b c \<Longrightarrow> no_job c"
  "job_call R K b c \<Longrightarrow> no_exec c" "hook_call c \<Longrightarrow> no_job c" "quiet c \<Longrightarrow> no_exec c"
  by (auto simp: is_read_iff call_class_defs elim: copy_call.elims job_call.elims hook_call.elims quiet.elims)

lemma recordOutcome_no_exec:
  "(\<And>s. emits no_exec (extra s)) \<Longrightarrow> emits no_exec (recordOutcome K b phase c extra)"
  unfolding recordOutcome_def
  by (intro emits_rules) (auto simp: call_class_defs)

lemma notify_no_exec: "emits no_exec (notify b t ty r m)"
  unfolding notify_def by (intro emits_rules) (auto simp: call_class_defs)

lemma stamp_no_exec: "emits no_exec (stamp_completed K s)"
  unfolding stamp_completed_def by (intro emits_rules) (auto simp: call_class_defs)

lemma ends_no_exec:
  "emits no_exec (hold K b reason msg wait)" "emits no_exec (failBackup R K b reason msg placed)"
  "emits no_exec (runBackup K b placed)" "emits no_exec (observeCompleted R b)" "emits no_exec (observeFailed R b)"
proof -
  show failed: "emits no_exec (observeFailed R b)" for b
    unfolding observeFailed_def by (intro emits_rules) (auto simp: call_class_defs)
  show "emits no_exec (observeCompleted R b)"
    unfolding observeCompleted_def by (intro emits_rules) (auto simp: call_class_defs)
  show "emits no_exec (hold K b reason msg wait)"
    unfolding hold_def by (intro emits_rules recordOutcome_no_exec notify_no_exec)
  show "emits no_exec (failBackup R K b reason msg placed)"
    unfolding failBackup_def by (intro emits_rules recordOutcome_no_exec notify_no_exec stamp_no_exec failed)
  show "emits no_exec (runBackup K b placed)"
    unfolding runBackup_def
    by (intro emits_rules recordOutcome_no_exec notify_no_exec) (auto simp: call_class_defs)
qed

lemma completeBackup_no_exec: "emits no_exec (completeBackup R K b placed)"
proof -
  have "emits no_exec (collect_results K ns pjs n ref sts)" for ns pjs n ref sts
    by (induction pjs arbitrary: n ref sts)
      (auto intro!: emits_rules safely_emits [OF jobResult_gives call_classes(1)])
  then show ?thesis
    unfolding completeBackup_def
    by (intro emits_rules recordOutcome_no_exec notify_no_exec stamp_no_exec ends_no_exec)
qed

lemma launch_no_exec: "emits no_exec (launch R K b sec staging gs)"
proof -
  have create: "emits no_exec (create_backup_job K b spec)" for spec
    unfolding create_backup_job_def by (intro emits_rules) (auto simp: call_class_defs)
  have "emits no_exec (place_job R K b sec staging gs node)" for node
    unfolding place_job_def by (intro emits_rules create) (auto simp: call_class_defs)
  then have "emits no_exec (place_jobs R K b sec staging gs nodes)" for nodes
    by (induction nodes) (auto intro!: emits_rules)
  then show ?thesis
    unfolding launch_def settle_def by (intro emits_rules ends_no_exec completeBackup_no_exec)
qed

lemma hooks_then_launch_ordered:
  "emits_ordered is_exec is_createJob (hooks_then_launch R K b sec staging pvcs pods gs)"
proof -
  have "emits_ordered is_exec is_createJob (do {
        r \<leftarrow> runPreHooks R K pvcs pods;
        case r of
          Some (problem, reason) \<Rightarrow> failBackup R K b reason problem []
        | None \<Rightarrow> launch R K b sec staging gs })"
    unfolding runPreHooks_def
    by (intro emits_ordered_bind1 [OF safely_emits [OF run_hooks_gives call_classes(6)]]
        emits_ordered_if_noA emits_rules ends_no_exec launch_no_exec)
  then show ?thesis
    unfolding hooks_then_launch_def by (simp add: emits_ordered_if_noA launch_no_exec)
qed

lemma ordered_cases:
  "(\<And>e. x = Inl e \<Longrightarrow> emits_ordered A B (f e)) \<Longrightarrow> (\<And>v. x = Inr v \<Longrightarrow> emits_ordered A B (g v)) \<Longrightarrow>
   emits_ordered A B (case x of Inl e \<Rightarrow> f e | Inr v \<Rightarrow> g v)"
  "(c \<Longrightarrow> emits_ordered A B m) \<Longrightarrow> (\<not> c \<Longrightarrow> emits_ordered A B n) \<Longrightarrow> emits_ordered A B (if c then m else n)"
  by (cases x; simp) simp

lemma reconcile_backup_ordered: "emits_ordered is_exec is_createJob (reconcile_backup R K b)"
proof -
  note hold = emits_ordered_if_noA [OF ends_no_exec(1)]
  note ret = emits_ordered_if_noA [OF emits_return]
  note prefix = emits_ordered_bindE1 [OF safely_emits]
  have place: "emits_ordered is_exec is_createJob (place_and_launch R K b sec staging pvcs)" for sec staging pvcs
    unfolding place_and_launch_def
    by (intro prefix [OF read_gives(7) call_classes(2)] prefix [OF place_all_gives call_classes(2)]
        emits_ordered_bindE1 ordered_cases hold hooks_then_launch_ordered full_groups_Nil)
      (auto simp: firstNode_def call_class_defs intro!: emits_rules)
  show ?thesis
    unfolding reconcile_backup_def reconcile_ready_def
    by (intro ordered_cases ret hold place prefix [OF ensureRepoSecret_gives call_classes(4)]
        prefix [OF selectPVCs_gives call_classes(2)] prefix [OF stage_gives call_classes(4)]
        emits_ordered_bind1 [OF safely_emits [OF read_gives(5) call_classes(2)]])
qed

section \<open>One reconcile\<close>

lemma BackupReconcile_run:
  assumes "k_backup K l ns n = Inr b"
  shows "run_state (BackupReconcile R K ns n) l = run_state (reconcile_backup R K b) (l @ [Read (GetBackup ns n)])"
  using assms by (simp add: BackupReconcile_def get_backup_def)

lemma BackupReconcile_trace:
  assumes "k_backup K l ns n = Inr b" "\<not> terminal (bst_phase (b_status b))"
  shows "result (BackupReconcile R K ns n) l = result (reconcile_backup R K b) (l @ [Read (GetBackup ns n)])"
    and "trace (BackupReconcile R K ns n) l =
      Read (GetBackup ns n) # trace (reconcile_backup R K b) (l @ [Read (GetBackup ns n)])"
proof -
  let ?l = "l @ [Read (GetBackup ns n)]"
  obtain t where t: "snd (run_state (reconcile_backup R K b) ?l) = ?l @ t"
    using givesD [OF reconcile_backup_lawful [OF assms(2), of R K], of ?l] by blast
  show "trace (BackupReconcile R K ns n) l = Read (GetBackup ns n) # trace (reconcile_backup R K b) ?l"
    unfolding trace_def BackupReconcile_run [OF assms(1)] t by simp
qed (simp add: result_def BackupReconcile_run [OF assms(1)])

lemma terminal_run:
  assumes "k_backup K l ns n = Inr b" "terminal (bst_phase (b_status b))"
  shows "result (BackupReconcile R K ns n) l = Inr NoRequeue \<and>
    trace (BackupReconcile R K ns n) l = [Read (GetBackup ns n)]"
  using assms by (simp add: result_def trace_def BackupReconcile_run reconcile_backup_def)

text \<open>The facts of one reconcile of an object that exists.\<close>

lemma BackupReconcile_lawful:
  assumes "k_backup K l ns n = Inr b" "\<not> terminal (bst_phase (b_status b))"
  shows "lawful R K b (result (BackupReconcile R K ns n) l) (trace (BackupReconcile R K ns n) l)"
  using givesD [OF reconcile_backup_lawful [OF assms(2), of R K], of "l @ [Read (GetBackup ns n)]"]
    settled_after [of "[Read (GetBackup ns n)]"]
  unfolding BackupReconcile_trace [OF assms] by (auto simp: lawful_def)

lemma BackupReconcile_calls:
  assumes "k_backup K l ns n = Inr b" "c \<in> set (trace (BackupReconcile R K ns n) l)" "\<not> is_read c"
  shows "\<not> terminal (bst_phase (b_status b)) \<and> backup_call R K b c"
proof (cases "terminal (bst_phase (b_status b))")
  case True
  with terminal_run [OF assms(1)] assms(2,3) show ?thesis by simp
next
  case False
  with BackupReconcile_lawful [OF assms(1), of R] assms(2) show ?thesis
    by (auto simp: lawful_def list_all_iff)
qed

text \<open>C1: a terminal backup is final: reconciling it reads the object and does nothing else, with no
  requeue, whatever happened to its Jobs since.\<close>

theorem backup_terminal_final:
  assumes "k_backup K l ns n = Inr b"
    and "bst_phase (b_status b) = BackupPhaseCompleted \<or> bst_phase (b_status b) = BackupPhaseFailed"
  shows "result (BackupReconcile R K ns n) l = Inr NoRequeue \<and>
    trace (BackupReconcile R K ns n) l = [Read (GetBackup ns n)]"
  using terminal_run [OF assms] .


text \<open>C14: hooks run before the first Job of a reconcile and only while the status knows no Job:
  no hook command comes after a Job creation, and none at all once Jobs are recorded.\<close>

theorem backup_hooks_before_jobs:
  assumes "k_backup K l ns n = Inr b"
  shows "precede is_exec is_createJob (trace (BackupReconcile R K ns n) l) \<and>
    (bst_jobs (b_status b) \<noteq> [] \<longrightarrow> list_all (\<lambda>c. \<not> is_exec c) (trace (BackupReconcile R K ns n) l))"
proof
  have none: "\<not> is_exec c" if "c \<in> set (trace (BackupReconcile R K ns n) l)" "bst_jobs (b_status b) \<noteq> []" for c
    using BackupReconcile_calls [OF assms that(1)] that(2) by (cases c) (auto simp: is_exec_def)
  then show "bst_jobs (b_status b) \<noteq> [] \<longrightarrow> list_all (\<lambda>c. \<not> is_exec c) (trace (BackupReconcile R K ns n) l)"
    by (auto simp: list_all_iff)
  show "precede is_exec is_createJob (trace (BackupReconcile R K ns n) l)"
  proof (cases "terminal (bst_phase (b_status b))")
    case True
    with terminal_run [OF assms] show ?thesis by (simp add: precede_def)
  next
    case False
    have "precede is_exec is_createJob (trace (reconcile_backup R K b) (l @ [Read (GetBackup ns n)]))"
      by (rule emits_ordered_traceD [OF reconcile_backup_ordered])
    then show ?thesis
      unfolding BackupReconcile_trace(2) [OF assms False] by (simp add: precede_def is_createJob_def)
  qed
qed


text \<open>C19: credentials only move as the contract says: every Secret a reconcile writes carries the
  operator's label and no key beyond the eight contract keys, whatever else the source Secret
  holds, and a new copy is created in the backup's own namespace.\<close>

theorem backup_copies_contract_only:
  assumes "k_backup K l ns n = Inr b"
    and "Write (CreateSecret s) \<in> set (trace (BackupReconcile R K ns n) l) \<or>
         Write (UpdateSecret s) \<in> set (trace (BackupReconcile R K ns n) l)"
  shows "dom (sec_data s) \<subseteq> set repoSecretKeys \<and> om_labels (sec_meta s) ManagedLabel = Some ''true'' \<and>
    (Write (CreateSecret s) \<in> set (trace (BackupReconcile R K ns n) l) \<longrightarrow> om_namespace (sec_meta s) = b_ns b)"
  using assms(2) BackupReconcile_calls [OF assms(1), of "Write (CreateSecret s)" R]
    BackupReconcile_calls [OF assms(1), of "Write (UpdateSecret s)" R]
  by (auto simp: contract_copy_def)

section \<open>Every status a sequence of reconciles can reach\<close>

text \<open>A backup starts empty, or with the phase the API server defaults; each further status is
  what a reconcile patched onto an object with a reachable status (of whatever spec and
  generation, in whatever world).\<close>

inductive backup_reachable :: "PBSBackupStatus \<Rightarrow> bool" where
  created: "backup_reachable empty_backup_status"
| defaulted: "backup_reachable (empty_backup_status\<lparr>bst_phase := BackupPhaseNew\<rparr>)"
| reconciled: "backup_reachable (b_status b) \<Longrightarrow> k_backup K l ns n = Inr b \<Longrightarrow>
    Write (PatchBackupStatus ns' n' st) \<in> set (trace (BackupReconcile R K ns n) l) \<Longrightarrow>
    backup_reachable (stored_backup_status st)"

inductive_cases backup_reachableE: "backup_reachable st"

definition backup_inv :: "PBSBackupStatus \<Rightarrow> bool" where
  "backup_inv st \<longleftrightarrow>
     (bst_phase st < BackupPhaseRunning \<longrightarrow> bst_jobs st = [] \<and> bst_startedAt st = None) \<and>
     (bst_phase st = BackupPhaseRunning \<longrightarrow> bst_jobs st \<noteq> [] \<and> bst_startedAt st \<noteq> None) \<and>
     (bst_completedAt st \<noteq> None \<longleftrightarrow> terminal (bst_phase st)) \<and>
     (bst_phase st \<noteq> BackupPhaseCompleted \<longrightarrow> bst_snapshotRef st = '''' \<and> bst_bytes st = 0) \<and>
     (bst_phase st = BackupPhaseCompleted \<longrightarrow> bst_jobs st \<noteq> [] \<and> list_all ok_job (bst_jobs st) \<and>
        (length (bst_jobs st) = 1 \<longrightarrow> bst_snapshotRef st \<noteq> '''' \<and>
           bj_state (hd (bst_jobs st)) = ok_state (bst_snapshotRef st)))"

lemma stored_backup_status_simps [simp]:
  "bst_phase (stored_backup_status st) = bst_phase st" "bst_jobs (stored_backup_status st) = bst_jobs st"
  "bst_snapshotRef (stored_backup_status st) = bst_snapshotRef st"
  "bst_bytes (stored_backup_status st) = bst_bytes st"
  "bst_conditions (stored_backup_status st) = bst_conditions st"
  "bst_startedAt (stored_backup_status st) = None \<longleftrightarrow> bst_startedAt st = None"
  "bst_completedAt (stored_backup_status st) = None \<longleftrightarrow> bst_completedAt st = None"
  by (simp_all add: stored_backup_status_def stored_time_def)

lemma ok_state_inj: "ok_state r = ok_state r' \<longleftrightarrow> r = r'"
  by (simp add: ok_state_def)

lemma backup_step_inv: "backup_step K old new \<Longrightarrow> backup_inv old \<Longrightarrow> backup_inv new"
proof -
  assume step: "backup_step K old new" and inv: "backup_inv old"
  have hd: "bst_snapshotRef new \<noteq> ''''"
    if "list_all ok_job (bst_jobs new)" "bst_jobs new \<noteq> []" "bj_state (hd (bst_jobs new)) = ok_state (bst_snapshotRef new)"
    using that by (cases "bst_jobs new") (auto simp: ok_job_def ok_state_inj)
  show ?thesis
    using step inv hd unfolding backup_step_def backup_inv_def
    by (cases "bst_phase new"; cases "bst_phase old") (auto simp: less_eq_backup_phase_def less_backup_phase_def)
qed

lemma patch_step:
  assumes "k_backup K l ns n = Inr b" "Write (PatchBackupStatus ns' n' st) \<in> set (trace (BackupReconcile R K ns n) l)"
  shows "ns' = b_ns b \<and> n' = b_name b \<and> backup_step K (b_status b) st"
  using BackupReconcile_calls [OF assms] by simp

lemma reachable_inv: "backup_reachable st \<Longrightarrow> backup_inv st"
proof (induction rule: backup_reachable.induct)
  case (reconciled b K l ns n ns' n' st R)
  then have "backup_inv st" using patch_step backup_step_inv by blast
  then show ?case by (simp add: backup_inv_def)
qed (simp_all add: backup_inv_def empty_backup_status_def less_backup_phase_def)

text \<open>Every reachable status of a backup is consistent: before Running it has no Jobs and no
  start time, a Running one has both, a completion time is there exactly in a terminal phase, and a
  Completed one has a snapshot reference for every Job (the status's own one when there is a
  single Job), which no other phase has.\<close>

theorem backup_status_invariant:
  assumes "backup_reachable st"
  shows "backup_inv st"
  using reachable_inv [OF assms] .

text \<open>The phase machine only moves forward: a patch never lowers the phase, never leaves a
  terminal one, keeps a start and a completion time once set, and makes the Ready condition true
  exactly when it completes the backup.\<close>

theorem backup_phase_forward:
  assumes "k_backup K l ns n = Inr b" "condition_laws K"
    and "Write (PatchBackupStatus ns' n' st) \<in> set (trace (BackupReconcile R K ns n) l)"
  shows "bst_phase (b_status b) \<le> bst_phase st \<and>
    bst_phase (b_status b) \<noteq> BackupPhaseCompleted \<and> bst_phase (b_status b) \<noteq> BackupPhaseFailed \<and>
    (bst_startedAt (b_status b) \<noteq> None \<longrightarrow> bst_startedAt st = bst_startedAt (b_status b)) \<and>
    (bst_completedAt (b_status b) \<noteq> None \<longrightarrow> bst_completedAt st = bst_completedAt (b_status b)) \<and>
    (k_conditionTrue K (bst_conditions st) condReady \<longleftrightarrow> bst_phase st = BackupPhaseCompleted)"
  using patch_step [OF assms(1,3)] assms(2) by (auto simp: backup_step_def)

text \<open>Hooks of a backup run at most while it has never launched: once a reachable status is
  Running, no reconcile executes a hook again.\<close>

theorem backup_hooks_never_rerun:
  assumes "backup_reachable (b_status b)" "bst_phase (b_status b) = BackupPhaseRunning"
    and "k_backup K l ns n = Inr b"
  shows "list_all (\<lambda>c. \<not> is_exec c) (trace (BackupReconcile R K ns n) l)"
proof -
  have "bst_jobs (b_status b) \<noteq> []" using reachable_inv [OF assms(1)] assms(2) by (simp add: backup_inv_def)
  then have "\<not> is_exec c" if "c \<in> set (trace (BackupReconcile R K ns n) l)" for c
    using BackupReconcile_calls [OF assms(3) that] by (cases c) (auto simp: is_exec_def)
  then show ?thesis by (auto simp: list_all_iff)
qed

section \<open>The life of a backup\<close>

text \<open>One reconcile's patch, of an object with a given status, in whatever world.\<close>

inductive backup_patched :: "PBSBackupStatus \<Rightarrow> PBSBackupStatus \<Rightarrow> bool" where
  patched: "k_backup K l ns n = Inr b \<Longrightarrow>
    Write (PatchBackupStatus ns' n' st) \<in> set (trace (BackupReconcile R K ns n) l) \<Longrightarrow>
    backup_patched (b_status b) (stored_backup_status st)"

inductive_cases backup_patchedE: "backup_patched s t"

lemma backup_patched_step: "backup_patched s t \<Longrightarrow> \<exists>K st. backup_step K s st \<and> t = stored_backup_status st"
  by (erule backup_patchedE) (use patch_step in blast)

lemma stored_backup_inv: "backup_inv st \<Longrightarrow> backup_inv (stored_backup_status st)"
  by (simp add: backup_inv_def)

interpretation backup_life: forward_machine bst_phase terminal backup_patched backup_inv
proof (unfold_locales, goal_cases)
  case (1 s t)
  then show ?case using backup_patched_step by (auto simp: backup_step_def)
next
  case (2 s t)
  then show ?case using backup_patched_step backup_step_inv stored_backup_inv by blast
next
  case (3 s t)
  then obtain K st where "backup_step K s st" "t = stored_backup_status st" using backup_patched_step by blast
  then show ?case by (simp add: backup_step_def)
qed


end
