(* ===== verification/Backup_Evidence.thy ===== *)
theory Backup_Evidence
  imports Backup_Correct
begin

text \<open>
  What a terminal phase of a backup rests on.  Every patch that records Completed or Failed is
  judged with the history of its reconcile: Completed needs the Job of every node of every selected
  claim, read as complete, with the result its Pod reported; Failed needs a failed hook, a failed
  Job or an unreadable result.
\<close>

section \<open>Evidence\<close>

abbreviation job_read :: "kube \<Rightarrow> PBSBackup \<Rightarrow> kcall list \<Rightarrow> string \<Rightarrow> job \<Rightarrow> kcall list \<Rightarrow> bool" where
  "job_read K b l0 node j \<equiv> asked l0 (Read (GetJob (b_ns b) (jobName (b_name b) node)))
     (\<lambda>l. k_job K l (b_ns b) (jobName (b_name b) node)) (Inr j)"

abbreviation job_absent :: "kube \<Rightarrow> PBSBackup \<Rightarrow> kcall list \<Rightarrow> string \<Rightarrow> kcall list \<Rightarrow> bool" where
  "job_absent K b l0 node \<equiv> asked l0 (Read (GetJob (b_ns b) (jobName (b_name b) node)))
     (\<lambda>l. k_job K l (b_ns b) (jobName (b_name b) node)) (Inl NotFound)"

text \<open>What the Pods of a Job reported.\<close>

definition pods_result :: "kube \<Rightarrow> string \<Rightarrow> job \<Rightarrow> kcall list \<Rightarrow> gerr + string + string \<times> int" where
  "pods_result K ns j l = (case k_pods K l ns (Some (''pbsbackup'', job_name j)) of
     Inl e \<Rightarrow> Inl e | Inr pods \<Rightarrow> Inr (read_result (job_name j) pods))"

abbreviation result_read :: "kube \<Rightarrow> string \<Rightarrow> kcall list \<Rightarrow> job \<Rightarrow> string + string \<times> int \<Rightarrow> kcall list \<Rightarrow> bool" where
  "result_read K ns l0 j r \<equiv> asked l0 (Read (ListPods ns (Some (''pbsbackup'', job_name j)))) (pods_result K ns j) (Inr r)"

abbreviation claim_read :: "kube \<Rightarrow> PBSBackup \<Rightarrow> kcall list \<Rightarrow> string \<Rightarrow> pvc \<Rightarrow> kcall list \<Rightarrow> bool" where
  "claim_read K b l0 name c \<equiv> asked l0 (Read (GetPVC (b_ns b) name)) (\<lambda>l. k_pvc K l (b_ns b) name) (Inr c)"

abbreviation claims_listed :: "kube \<Rightarrow> PBSBackup \<Rightarrow> kcall list \<Rightarrow> label_selector option \<Rightarrow> pvc list \<Rightarrow> kcall list \<Rightarrow> bool" where
  "claims_listed K b l0 s cs \<equiv> asked l0 (Read (ListPVCs (b_ns b) s)) (\<lambda>l. k_pvcs K l (b_ns b) s) (Inr cs)"

abbreviation pods_listed :: "kube \<Rightarrow> PBSBackup \<Rightarrow> kcall list \<Rightarrow> pod list \<Rightarrow> kcall list \<Rightarrow> bool" where
  "pods_listed K b l0 pods \<equiv> asked l0 (Read (ListPods (b_ns b) None)) (\<lambda>l. k_pods K l (b_ns b) None) (Inr pods)"

abbreviation volume_read :: "kube \<Rightarrow> kcall list \<Rightarrow> string \<Rightarrow> persistent_volume \<Rightarrow> kcall list \<Rightarrow> bool" where
  "volume_read K l0 name pv \<equiv> asked l0 (Read (GetPV name)) (\<lambda>l. k_pv K l name) (Inr pv)"

text \<open>The claims of the backup, as the documented precedence selects them.\<close>

definition selected :: "kube \<Rightarrow> PBSBackup \<Rightarrow> kcall list \<Rightarrow> pvc list \<Rightarrow> kcall list \<Rightarrow> bool" where
  "selected K b l0 cs h \<longleftrightarrow>
     (if bs_pvcs (b_spec b) \<noteq> [] then list_all2 (\<lambda>name c. claim_read K b l0 name c h) (bs_pvcs (b_spec b)) cs
      else (case bs_selector (b_spec b) of
          None \<Rightarrow> claims_listed K b l0 None cs h
        | Some sel \<Rightarrow> \<exists>s. k_selector K sel = Inr s \<and> claims_listed K b l0 (Some s) cs h))"

definition placed_at :: "kube \<Rightarrow> kcall list \<Rightarrow> pod list \<Rightarrow> pvc \<Rightarrow> string \<Rightarrow> kcall list \<Rightarrow> bool" where
  "placed_at K l0 pods c node h \<longleftrightarrow>
     (\<exists>pv. volume_read K l0 (pvc_volumeName c) pv h \<and> ResolveNode c (Some pv) pods = Inr node)"

text \<open>Every claim is in the group of the node it resolves to, and a group has only such claims.\<close>

definition groups_cover :: "kube \<Rightarrow> kcall list \<Rightarrow> pod list \<Rightarrow> pvc set \<Rightarrow> groups \<Rightarrow> kcall list \<Rightarrow> bool" where
  "groups_cover K l0 pods cs gs h \<longleftrightarrow>
     (\<forall>c\<in>cs. \<exists>node. placed_at K l0 pods c node h \<and> pvc_name c \<in> set (group_get gs node)) \<and>
     (\<forall>node. \<forall>x\<in>set (group_get gs node). \<exists>c\<in>cs. pvc_name c = x \<and> placed_at K l0 pods c node h)"

text \<open>The groups of the reconcile: every selected claim at the node it resolves to, or the first
  node when there is none.\<close>

definition backup_plan :: "kube \<Rightarrow> PBSBackup \<Rightarrow> kcall list \<Rightarrow> pvc list \<Rightarrow> pod list \<Rightarrow> groups \<Rightarrow> kcall list \<Rightarrow> bool" where
  "backup_plan K b l0 cs pods gs h \<longleftrightarrow> selected K b l0 cs h \<and> pods_listed K b l0 pods h \<and>
     (if cs = [] then \<exists>names. asked l0 (Read ListNodes) (k_nodes K) (Inr names) h \<and> gs = [(first_name names, [])]
      else groups_cover K l0 pods (set cs) gs h)"

definition hook_problem :: "PBSBackupReconciler \<Rightarrow> kube \<Rightarrow> kcall list \<Rightarrow> pod \<Rightarrow> kcall list \<Rightarrow> bool" where
  "hook_problem R K l0 p h \<longleftrightarrow> (case ParseHook (k_jsonError K) p of
       NoHook \<Rightarrow> False
     | BadHook e \<Rightarrow> True
     | Hook c cmd \<Rightarrow> \<not> br_HookExecutor R \<or>
         (\<exists>err. asked l0 (ExecHook (om_namespace (pod_meta p)) (pod_name p) c cmd HookTimeout)
            (\<lambda>l. k_exec K l (om_namespace (pod_meta p)) (pod_name p) c cmd HookTimeout) (Some err) h))"

lemma list_all2_asked: "list_all2 (\<lambda>x y. asked l0 (q x) (f x) (g y) l) xs ys \<Longrightarrow> extends h l \<Longrightarrow>
   list_all2 (\<lambda>x y. asked l0 (q x) (f x) (g y) h) xs ys"
  by (erule list_all2_mono) (rule asked_extends)

lemma selected_extends: "selected K b l0 cs l \<Longrightarrow> extends h l \<Longrightarrow> selected K b l0 cs h"
  unfolding selected_def by (auto split: option.splits if_splits intro: asked_extends list_all2_asked)

lemma placed_at_extends: "placed_at K l0 pods c node l \<Longrightarrow> extends h l \<Longrightarrow> placed_at K l0 pods c node h"
  unfolding placed_at_def by (blast intro: asked_extends)

lemma groups_cover_extends: "groups_cover K l0 pods cs gs l \<Longrightarrow> extends h l \<Longrightarrow> groups_cover K l0 pods cs gs h"
  unfolding groups_cover_def by (meson placed_at_extends)

lemma backup_plan_extends: "backup_plan K b l0 cs pods gs l \<Longrightarrow> extends h l \<Longrightarrow> backup_plan K b l0 cs pods gs h"
  unfolding backup_plan_def
  by (auto split: if_splits intro: selected_extends asked_extends groups_cover_extends)

lemma hook_problem_extends: "hook_problem R K l0 p l \<Longrightarrow> extends h l \<Longrightarrow> hook_problem R K l0 p h"
  unfolding hook_problem_def by (auto split: hook.splits intro: asked_extends)

section \<open>What a reconcile may claim\<close>

text \<open>A Job with what was read of it.\<close>

definition read_complete :: "kube \<Rightarrow> PBSBackup \<Rightarrow> kcall list \<Rightarrow> placedJob \<Rightarrow> kcall list \<Rightarrow> bool" where
  "read_complete K b l0 pj h \<longleftrightarrow> job_read K b l0 (pj_node pj) (pj_job pj) h \<and>
     jobCondition (pj_job pj) JobComplete \<and> \<not> jobCondition (pj_job pj) JobFailed"

definition row :: "placedJob \<Rightarrow> string \<times> int \<Rightarrow> BackupJobStatus" where
  "row pj r = \<lparr>bj_node = pj_node pj, bj_job = job_name (pj_job pj), bj_state = ok_state (fst r)\<rparr>"

definition total_bytes :: "(string \<times> int) list \<Rightarrow> int" where
  "total_bytes rs = foldl (\<lambda>n r. add64 n (snd r)) 0 rs"

definition completed_honestly :: "kube \<Rightarrow> PBSBackup \<Rightarrow> kcall list \<Rightarrow> kcall list \<Rightarrow> PBSBackupStatus \<Rightarrow> bool" where
  "completed_honestly K b l0 h st \<longleftrightarrow> (\<exists>cs pods gs pjs rs. backup_plan K b l0 cs pods gs h \<and>
     map pj_node pjs = sort (map fst gs) \<and> (\<forall>pj\<in>set pjs. read_complete K b l0 pj h) \<and>
     list_all2 (\<lambda>pj r. result_read K (b_ns b) l0 (pj_job pj) (Inr r) h) pjs rs \<and>
     bst_jobs st = map2 row pjs rs \<and> bst_bytes st = total_bytes rs \<and>
     bst_snapshotRef st = (if length pjs = 1 then fst (hd rs) else bst_snapshotRef (b_status b)))"

definition failed_honestly :: "PBSBackupReconciler \<Rightarrow> kube \<Rightarrow> PBSBackup \<Rightarrow> kcall list \<Rightarrow> kcall list \<Rightarrow> bool" where
  "failed_honestly R K b l0 h \<longleftrightarrow>
     (\<exists>node j. job_read K b l0 node j h \<and> (jobCondition j JobFailed \<or>
        jobCondition j JobComplete \<and> (\<exists>problem. result_read K (b_ns b) l0 j (Inl problem) h))) \<or>
     bst_jobs (b_status b) = [] \<and> (\<exists>cs pods p. selected K b l0 cs h \<and> pods_listed K b l0 pods h \<and>
        p \<in> set pods \<and> mounts_selected cs p \<and> hook_problem R K l0 p h)"

text \<open>A created Job is the one of a node of the plan, which was just read as absent, for the claims
  placed there.\<close>

definition created_honestly :: "PBSBackupReconciler \<Rightarrow> kube \<Rightarrow> PBSBackup \<Rightarrow> kcall list \<Rightarrow> kcall list \<Rightarrow> job \<Rightarrow> bool" where
  "created_honestly R K b l0 h j \<longleftrightarrow> (\<exists>cs pods gs node sec staging m. backup_plan K b l0 cs pods gs h \<and>
     node \<in> fst ` set gs \<and> job_absent K b l0 node h \<and>
     j = (BuildBackupJob (backup_spec R b sec staging node (sort (group_get gs node))))\<lparr>job_meta := m\<rparr>)"

definition end_honest :: "PBSBackupReconciler \<Rightarrow> kube \<Rightarrow> PBSBackup \<Rightarrow> kcall list \<Rightarrow> kcall list \<Rightarrow> kcall \<Rightarrow> bool" where
  "end_honest R K b l0 h c \<longleftrightarrow>
     (\<forall>j. c = Write (CreateJob j) \<longrightarrow> created_honestly R K b l0 h j) \<and>
     (\<forall>ns n st. c = Write (PatchBackupStatus ns n st) \<longrightarrow>
        (bst_phase st = BackupPhaseCompleted \<longrightarrow> completed_honestly K b l0 h st) \<and>
        (bst_phase st = BackupPhaseFailed \<longrightarrow> failed_honestly R K b l0 h))"

fun no_patch :: "kcall \<Rightarrow> bool" where
  "no_patch (Write (CreateJob j)) \<longleftrightarrow> False"
| "no_patch (Write (PatchBackupStatus ns n st)) \<longleftrightarrow> False"
| "no_patch _ \<longleftrightarrow> True"

lemma no_patch_honest: "no_patch c \<Longrightarrow> end_honest R K b l0 h c"
  by (auto simp: end_honest_def)

lemma no_patch_calls: "is_read c \<Longrightarrow> no_patch c" "copy_call b c \<Longrightarrow> no_patch c" "quiet c \<Longrightarrow> no_patch c"
  by (auto simp: is_read_iff elim: copy_call.elims quiet.elims)

lemma failed_honestly_extends: "failed_honestly R K b l0 l \<Longrightarrow> extends h l \<Longrightarrow> failed_honestly R K b l0 h"
  unfolding failed_honestly_def by (meson asked_extends selected_extends hook_problem_extends)

section \<open>The parts of a reconcile\<close>

abbreviation honestly :: "PBSBackupReconciler \<Rightarrow> kube \<Rightarrow> PBSBackup \<Rightarrow> kcall list \<Rightarrow> ('a \<Rightarrow> kcall list \<Rightarrow> bool) \<Rightarrow>
    kcall list \<Rightarrow> 'a kop \<Rightarrow> bool" where
  "honestly R K b l0 \<equiv> walks (end_honest R K b l0)"

lemma honest_read [simp]: "end_honest R K b l0 h (Read q)"
  by (simp add: end_honest_def)

lemma get_pvcs_walks:
  "extends l l0 \<Longrightarrow> honestly R K b l0 (\<lambda>r h. \<forall>cs. r = Inr (Inr cs) \<longrightarrow>
     list_all2 (\<lambda>name c. claim_read K b l0 name c h) names cs) l (get_pvcs K (b_ns b) names)"
proof (induction names arbitrary: l)
  case (Cons name names)
  let ?l = "l @ [Read (GetPVC (b_ns b) name)]"
  have ext: "extends ?l l0" using extends_trans [OF extends_append Cons.prems] .
  have now: "claim_read K b l0 name c ?l" if "k_pvc K l (b_ns b) name = Inr c" for c
    by (rule asked_now) (use Cons.prems that in simp_all)
  have rest: "honestly R K b l0 (\<lambda>r h. \<forall>cs. r = Inr (Inr cs) \<longrightarrow>
      list_all2 (\<lambda>name c. claim_read K b l0 name c h) (name # names) cs) ?l
      (bindE (get_pvcs K (b_ns b) names) (\<lambda>r'. case r' of
         Inl problem \<Rightarrow> State_Monad.return (Inr (Inl problem))
       | Inr cs \<Rightarrow> State_Monad.return (Inr (Inr (c # cs)))))"
    if "k_pvc K l (b_ns b) name = Inr c" for c
    by (rule walks_bindE [OF Cons.IH [OF ext]])
      (auto intro!: walks_rules intro: asked_extends [OF now [OF that]] split: sum.split)
  show ?case
    unfolding get_pvcs.simps get_pvc_def by (auto intro!: walks_rules rest)
qed (auto intro: walks_return)

lemma selectPVCs_walks:
  "extends l l0 \<Longrightarrow> honestly R K b l0 (\<lambda>r h. \<forall>cs. r = Inr (Inr cs) \<longrightarrow> selected K b l0 cs h) l (selectPVCs K b)"
  unfolding selectPVCs_def list_pvcs_def selected_def
  by (auto intro!: walks_rules walks_conseq [OF get_pvcs_walks] intro: asked_now split: option.split)

lemma placePVC_walks:
  "extends l l0 \<Longrightarrow> honestly R K b l0 (\<lambda>r h. \<forall>node. r = Inr (Inr node) \<longrightarrow> placed_at K l0 pods c node h) l
     (placePVC K c pods)"
  unfolding placePVC_def get_pv_def placed_at_def by (auto intro!: walks_rules exI intro: asked_now)

lemma groups_cover_add:
  assumes "groups_cover K l0 pods D gs l" "placed_at K l0 pods c node h" "extends h l"
  shows "groups_cover K l0 pods (insert c D) (group_add node (pvc_name c) gs) h"
  unfolding groups_cover_def
proof (intro conjI ballI allI)
  note gs = groups_cover_extends [OF assms(1,3), unfolded groups_cover_def]
  fix d assume "d \<in> insert c D"
  then show "\<exists>node'. placed_at K l0 pods d node' h \<and>
      pvc_name d \<in> set (group_get (group_add node (pvc_name c) gs) node')"
    using gs assms(2) by (auto simp: group_get_add)
next
  note gs = groups_cover_extends [OF assms(1,3), unfolded groups_cover_def]
  fix node' x assume "x \<in> set (group_get (group_add node (pvc_name c) gs) node')"
  then show "\<exists>d\<in>insert c D. pvc_name d = x \<and> placed_at K l0 pods d node' h"
    using gs assms(2) by (auto simp: group_get_add split: if_splits)
qed

lemma place_all_walks:
  "extends l l0 \<Longrightarrow> groups_cover K l0 pods D gs l \<Longrightarrow>
   honestly R K b l0 (\<lambda>r h. \<forall>gs'. r = Inr (Inr gs') \<longrightarrow> groups_cover K l0 pods (D \<union> set cs) gs' h) l
     (place_all K cs pods gs)"
proof (induction cs arbitrary: l gs D)
  case (Cons c cs)
  have rest: "honestly R K b l0 (\<lambda>r h. \<forall>gs'. r = Inr (Inr gs') \<longrightarrow> groups_cover K l0 pods (D \<union> set (c # cs)) gs' h)
      h (place_all K cs pods (group_add node (pvc_name c) gs))"
    if "placed_at K l0 pods c node h" "extends h l" for node h
    using Cons.IH [OF extends_trans [OF that(2) Cons.prems(1)] groups_cover_add [OF Cons.prems(2) that]] by simp
  show ?case
    unfolding place_all.simps
    by (rule walks_bindE [OF placePVC_walks [OF Cons.prems(1)]], simp, intro walks_rules rest) auto
qed (auto intro: walks_return)

subsection \<open>Hooks\<close>

lemma hooked_pods_mount: "p \<in> set (hooked_pods cs pods) \<Longrightarrow> p \<in> set pods \<and> mounts_selected cs p"
proof -
  let ?hit = "filter (mounts_selected cs) pods"
  let ?m = "map_of (rev (map (\<lambda>p. (pod_name p, p)) ?hit))"
  assume "p \<in> set (hooked_pods cs pods)"
  then obtain q where q: "q \<in> set ?hit" "p = the (?m (pod_name q))"
    by (auto simp: hooked_pods_def Let_def)
  have "pod_name q \<in> fst ` set (rev (map (\<lambda>p. (pod_name p, p)) ?hit))" using q(1) by (auto simp: image_iff)
  then have "?m (pod_name q) \<noteq> None" by (metis map_of_eq_None_iff)
  with q(2) have "?m (pod_name q) = Some p" by auto
  then have "p \<in> set ?hit" by (force dest!: map_of_SomeD)
  then show ?thesis by simp
qed

lemma run_hooks_walks:
  "extends l l0 \<Longrightarrow> honestly R K b l0 (\<lambda>r h. \<forall>x. r = Some x \<longrightarrow> (\<exists>p\<in>set ps. hook_problem R K l0 p h)) l (run_hooks R K ps)"
proof (induction ps arbitrary: l)
  case (Cons p ps)
  have more: "honestly R K b l0 (\<lambda>r h. \<forall>x. r = Some x \<longrightarrow> (\<exists>p\<in>set (p # ps). hook_problem R K l0 p h)) h (run_hooks R K ps)"
    if "extends h l0" for h
    by (rule walks_conseq [OF Cons.IH [OF that]]) auto
  show ?case
  proof (cases "ParseHook (k_jsonError K) p")
    case (Hook c cmd)
    let ?q = "ExecHook (om_namespace (pod_meta p)) (pod_name p) c cmd HookTimeout"
    have err: "hook_problem R K l0 p (l @ [?q])"
      if "k_exec K l (om_namespace (pod_meta p)) (pod_name p) c cmd HookTimeout = Some e" for e
    proof -
      have "asked l0 ?q (\<lambda>l. k_exec K l (om_namespace (pod_meta p)) (pod_name p) c cmd HookTimeout) (Some e) (l @ [?q])"
        by (rule asked_now) (use Cons.prems that in simp_all)
      with Hook show ?thesis unfolding hook_problem_def by auto
    qed
    have "hook_problem R K l0 p l" if "\<not> br_HookExecutor R" using that Hook by (simp add: hook_problem_def)
    note missing = this
    have ok: "end_honest R K b l0 l ?q" by (simp add: end_honest_def)
    show ?thesis
      unfolding run_hooks.simps exec_hook_def Hook hook.case
      by (intro walks_rules ok more [OF extends_trans [OF extends_append Cons.prems]]) (use err missing in auto)
  qed (use more [OF Cons.prems] in \<open>auto intro!: walks_return simp: hook_problem_def\<close>)
qed (auto intro: walks_return)

subsection \<open>Jobs and results\<close>

text \<open>A placed Job was read, or was created just now and has no condition yet.\<close>

definition placed_ok :: "kube \<Rightarrow> PBSBackup \<Rightarrow> kcall list \<Rightarrow> placedJob \<Rightarrow> kcall list \<Rightarrow> bool" where
  "placed_ok K b l0 pj h \<longleftrightarrow> job_read K b l0 (pj_node pj) (pj_job pj) h \<or> job_conditions (pj_job pj) = []"

lemma placed_ok_extends: "placed_ok K b l0 pj l \<Longrightarrow> extends h l \<Longrightarrow> placed_ok K b l0 pj h"
  unfolding placed_ok_def by (blast intro: asked_extends)

lemma get_job_walks:
  "extends l l0 \<Longrightarrow> honestly R K b l0 (\<lambda>r h. \<forall>j. r = Inr j \<longrightarrow> job_read K b l0 node j h) l
     (get_job K (b_ns b) (jobName (b_name b) node))"
  unfolding get_job_def by (rule walks_invoke) (auto intro: asked_now)

lemma place_job_walks:
  assumes "extends l l0" "backup_plan K b l0 cs pods gs l" "node \<in> fst ` set gs"
  shows "honestly R K b l0 (\<lambda>r h. \<forall>pj. r = Inr (Inr pj) \<longrightarrow> pj_node pj = node \<and> placed_ok K b l0 pj h) l
     (place_job R K b sec staging gs node)"
proof -
  let ?spec = "backup_spec R b sec staging node (sort (group_get gs node))"
  let ?l = "l @ [Read (GetJob (b_ns b) (jobName (b_name b) node))]"
  have spec: "bjs_Name ?spec = jobName (b_name b) node" by (simp add: backup_spec_def)
  have ext: "extends ?l l0" using extends_trans [OF extends_append assms(1)] .
  have new: "placed_ok K b l0 \<lparr>pj_node = node, pj_job = (BuildBackupJob ?spec)\<lparr>job_meta := m\<rparr>\<rparr> h'" for m h'
    by (simp add: placed_ok_def)
  have again: "honestly R K b l0 (\<lambda>r h. \<forall>j. r = Inr j \<longrightarrow> placed_ok K b l0 \<lparr>pj_node = node, pj_job = j\<rparr> h) h'
      (get_job K (b_ns b) (jobName (b_name b) node))" if "extends h' l0" for h'
    by (rule walks_conseq [OF get_job_walks [OF that]]) (simp add: placed_ok_def)
  have create: "honestly R K b l0 (\<lambda>r h. \<forall>j. r = Inr j \<longrightarrow> placed_ok K b l0 \<lparr>pj_node = node, pj_job = j\<rparr> h) ?l
      (create_backup_job K b ?spec)" if "k_job K l (b_ns b) (jobName (b_name b) node) = Inl NotFound"
  proof -
    have "job_absent K b l0 node ?l" by (rule asked_now) (use assms(1) that in simp_all)
    then have "created_honestly R K b l0 ?l ((BuildBackupJob ?spec)\<lparr>job_meta := m\<rparr>)" for m
      using backup_plan_extends [OF assms(2) extends_append] assms(3) unfolding created_honestly_def by blast
    then have "end_honest R K b l0 ?l (Write (CreateJob ((BuildBackupJob ?spec)\<lparr>job_meta := m\<rparr>)))" for m
      by (simp add: end_honest_def)
    then show ?thesis
      unfolding create_backup_job_def Let_def do_write_def spec
      by (auto intro!: walks_rules again extends_trans [OF extends_append ext] new)
  qed
  have read: "placed_ok K b l0 \<lparr>pj_node = node, pj_job = j\<rparr> ?l" if "k_job K l (b_ns b) (jobName (b_name b) node) = Inr j" for j
    unfolding placed_ok_def placedJob.simps by (rule disjI1, rule asked_now) (use assms(1) that in simp_all)
  show ?thesis
    unfolding place_job_def Let_def get_job_def
    by (intro walks_rules walks_bindE [OF create]) (use read in auto)
qed

lemma place_jobs_walks:
  "extends l l0 \<Longrightarrow> backup_plan K b l0 cs pods gs l \<Longrightarrow> set nodes \<subseteq> fst ` set gs \<Longrightarrow>
   honestly R K b l0 (\<lambda>r h. \<forall>pjs. r = Inr (Inr pjs) \<longrightarrow> map pj_node pjs = nodes \<and>
     (\<forall>pj\<in>set pjs. placed_ok K b l0 pj h)) l (place_jobs R K b sec staging gs nodes)"
proof (induction nodes arbitrary: l)
  case (Cons node nodes)
  have node: "node \<in> fst ` set gs" "set nodes \<subseteq> fst ` set gs" using Cons.prems(3) by auto
  have rest: "honestly R K b l0 (\<lambda>r h. \<forall>pjs. r = Inr (Inr pjs) \<longrightarrow> map pj_node pjs = node # nodes \<and>
      (\<forall>pj\<in>set pjs. placed_ok K b l0 pj h)) h
      (bindE (place_jobs R K b sec staging gs nodes) (\<lambda>r'. case r' of
         Inl problem \<Rightarrow> State_Monad.return (Inr (Inl problem))
       | Inr pjs \<Rightarrow> State_Monad.return (Inr (Inr (pj # pjs)))))"
    if "extends h l" "pj_node pj = node" "placed_ok K b l0 pj h" for h pj
    by (rule walks_bindE [OF Cons.IH [OF extends_trans [OF that(1) Cons.prems(1)] backup_plan_extends [OF Cons.prems(2) that(1)] node(2)]])
      (use that in \<open>auto intro!: walks_rules intro: placed_ok_extends split: sum.split\<close>)
  show ?case
    unfolding place_jobs.simps
    by (rule walks_bindE [OF place_job_walks [OF Cons.prems(1,2) node(1)]]) (auto intro!: walks_rules rest split: sum.split)
qed (auto intro: walks_return)

text \<open>The results of the placed Jobs, in order.\<close>

abbreviation "results_read K b l0 pjs rs h \<equiv>
  list_all2 (\<lambda>pj r. result_read K (b_ns b) l0 (pj_job pj) (Inr r) h) pjs rs"

lemma jobResult_walks:
  "extends l l0 \<Longrightarrow> honestly R K b l0 (\<lambda>r h. \<forall>x. r = Inr x \<longrightarrow> result_read K (b_ns b) l0 j x h) l (jobResult K (b_ns b) j)"
  unfolding jobResult_def list_pods_def
  by (auto intro!: walks_rules asked_now simp: pods_result_def)

definition collected :: "kube \<Rightarrow> PBSBackup \<Rightarrow> kcall list \<Rightarrow> placedJob list \<Rightarrow> int \<Rightarrow> string \<Rightarrow> BackupJobStatus list \<Rightarrow>
    gerr + string + int \<times> string \<times> BackupJobStatus list \<Rightarrow> kcall list \<Rightarrow> bool" where
  "collected K b l0 pjs n ref sts x h \<longleftrightarrow>
     (\<forall>problem. x = Inr (Inl problem) \<longrightarrow> (\<exists>pj\<in>set pjs. result_read K (b_ns b) l0 (pj_job pj) (Inl problem) h)) \<and>
     (\<forall>n' ref' sts'. x = Inr (Inr (n', ref', sts')) \<longrightarrow> (\<exists>rs. results_read K b l0 pjs rs h \<and>
        n' = foldl (\<lambda>n r. add64 n (snd r)) n rs \<and> ref' = (if rs = [] then ref else fst (List.last rs)) \<and>
        sts' = sts @ map2 row pjs rs))"

lemma collected_later:
  assumes "collected K b l0 pjs (add64 n (snd r)) (fst r) (sts @ [row pj r]) x h"
    "result_read K (b_ns b) l0 (pj_job pj) (Inr r) h"
  shows "collected K b l0 (pj # pjs) n ref sts x h"
  unfolding collected_def
proof (intro conjI allI impI)
  fix problem assume "x = Inr (Inl problem)"
  with assms(1) show "\<exists>pj\<in>set (pj # pjs). result_read K (b_ns b) l0 (pj_job pj) (Inl problem) h"
    by (auto simp: collected_def)
next
  fix n' ref' sts' assume "x = Inr (Inr (n', ref', sts'))"
  with assms(1) obtain rs where "results_read K b l0 pjs rs h"
    "n' = foldl (\<lambda>n r. add64 n (snd r)) (add64 n (snd r)) rs" "ref' = (if rs = [] then fst r else fst (List.last rs))"
    "sts' = (sts @ [row pj r]) @ map2 row pjs rs"
    unfolding collected_def by blast
  with assms(2) show "\<exists>rs. results_read K b l0 (pj # pjs) rs h \<and>
      n' = foldl (\<lambda>n r. add64 n (snd r)) n rs \<and> ref' = (if rs = [] then ref else fst (List.last rs)) \<and>
      sts' = sts @ map2 row (pj # pjs) rs"
    by (intro exI [of _ "r # rs"]) simp
qed

lemma collect_results_walks:
  "extends l l0 \<Longrightarrow> honestly R K b l0 (collected K b l0 pjs n ref sts) l (collect_results K (b_ns b) pjs n ref sts)"
proof (induction pjs arbitrary: l n ref sts)
  case (Cons pj pjs)
  have rest: "honestly R K b l0 (collected K b l0 (pj # pjs) n ref sts) h
      (collect_results K (b_ns b) pjs (add64 n k) ref'
        (sts @ [\<lparr>bj_node = pj_node pj, bj_job = job_name (pj_job pj), bj_state = ok_state ref'\<rparr>]))"
    if "extends h l" "result_read K (b_ns b) l0 (pj_job pj) (Inr (ref', k)) h" for h ref' k
  proof -
    have "honestly R K b l0 (collected K b l0 pjs (add64 n k) ref' (sts @ [row pj (ref', k)])) h
        (collect_results K (b_ns b) pjs (add64 n k) ref' (sts @ [row pj (ref', k)]))"
      by (rule Cons.IH) (rule extends_trans [OF that(1) Cons.prems])
    from walks_extends [OF this] show ?thesis
      unfolding row_def fst_conv
      by (rule walks_conseq) (use collected_later [of K b l0 pjs n "(ref', k)" sts pj] asked_extends [OF that(2)] in \<open>auto simp: row_def\<close>)
  qed
  show ?case
    unfolding collect_results.simps
    by (rule walks_bindE [OF jobResult_walks [OF Cons.prems]], simp add: collected_def, intro walks_rules rest)
      (auto simp: collected_def)
qed (auto intro!: walks_return simp: collected_def)

section \<open>Recording\<close>

text \<open>Recording a phase is honest if its evidence is there.\<close>

lemma ends_emit:
  "emits no_patch (notify b t ty r m)" "emits no_patch (observeCompleted R b)" "emits no_patch (observeFailed R b)"
  unfolding notify_def observeCompleted_def observeFailed_def emit_def
  by (intro emits_rules; simp)+

lemma recordOutcome_steps:
  assumes calls: "\<And>h c. no_patch c \<Longrightarrow> P h c"
    and extra: "\<And>s. stamped K b phase c s \<Longrightarrow> gives (safely quiet G) (extra s)"
    and G: "\<And>st h. G st \<Longrightarrow> extends h l \<Longrightarrow> P h (Write (PatchBackupStatus (b_ns b) (b_name b) st))"
  shows "walks P (\<lambda>_ _. True) l (recordOutcome K b phase c extra)"
proof -
  obtain conds t where ct: "k_setCondition K l (bst_conditions (b_status b))
      (c\<lparr>cond_generation := om_generation (b_meta b)\<rparr>) = (conds, t)" by fastforce
  have st: "stamped K b phase c ((b_status b)\<lparr>bst_conditions := conds, bst_phase := phase\<rparr>)"
    unfolding stamped_def by (rule exI [of _ l]) (simp only: ct fst_conv)
  show ?thesis
    unfolding recordOutcome_def do_write_def
    by (rule walks_bind_observe, unfold ct prod.case,
        rule walks_bind [OF gives_walks [OF extra [OF st] calls [OF no_patch_calls(3)]]])
      (auto intro!: walks_rules G)
qed

lemma record_end_steps:
  assumes calls: "\<And>h c. no_patch c \<Longrightarrow> P h c"
    and "walks P (\<lambda>_ _. True) l m" "\<And>t b'. emits no_patch (f (t, b'))"
  shows "walks P (\<lambda>_ _. True) l (bindE m f)"
  by (rule walks_bindE [OF assms(2)]) (auto intro: emits_walks [OF assms(3) calls])

lemma recordOutcome_walks:
  assumes "\<And>s. stamped K b phase c s \<Longrightarrow> gives (safely quiet G) (extra s)"
    and "\<And>st h. G st \<Longrightarrow> extends h l \<Longrightarrow> end_honest R K b l0 h (Write (PatchBackupStatus (b_ns b) (b_name b) st))"
  shows "honestly R K b l0 (\<lambda>_ _. True) l (recordOutcome K b phase c extra)"
  by (rule recordOutcome_steps [where G = G]) (auto intro: no_patch_honest assms)

lemma record_end_walks:
  assumes "honestly R K b l0 (\<lambda>_ _. True) l m" "\<And>t b'. emits no_patch (f (t, b'))"
  shows "honestly R K b l0 (\<lambda>_ _. True) l (bindE m f)"
  by (rule record_end_steps) (auto intro: no_patch_honest assms)

text \<open>Holding keeps the Jobs.\<close>

lemma hold_steps:
  assumes calls: "\<And>h c. no_patch c \<Longrightarrow> P h c"
    and kept: "\<And>h st. bst_jobs st = bst_jobs (b_status b) \<Longrightarrow> \<not> terminal (bst_phase st) \<Longrightarrow>
      P h (Write (PatchBackupStatus (b_ns b) (b_name b) st))"
  shows "walks P (\<lambda>_ _. True) l (hold K b reason msg wait)"
  unfolding hold_def Let_def
  by (rule record_end_steps [OF calls], assumption,
      rule recordOutcome_steps [OF calls, where G = "\<lambda>st. bst_jobs st = bst_jobs (b_status b) \<and> \<not> terminal (bst_phase st)"])
    (auto intro!: gives_safely_return emits_rules ends_emit kept dest: stamped_fields split: if_splits)

lemma quiet_honest: "emits no_patch m \<Longrightarrow> honestly R K b l0 (\<lambda>_ _. True) l m"
  by (rule emits_walks [of no_patch]) (auto intro: no_patch_honest)

lemma other_phase: "phase \<noteq> BackupPhaseCompleted \<Longrightarrow> phase \<noteq> BackupPhaseFailed \<Longrightarrow>
   bst_phase st = phase \<Longrightarrow> end_honest R K b l0 h (Write (PatchBackupStatus ns n st))"
  by (auto simp: end_honest_def)

lemma hold_walks: "honestly R K b l0 (\<lambda>_ _. True) l (hold K b reason msg wait)"
  by (rule hold_steps) (auto intro: no_patch_honest simp: end_honest_def)

lemma runBackup_walks: "honestly R K b l0 (\<lambda>_ _. True) l (runBackup K b placed)"
  unfolding runBackup_def
  by (rule record_end_walks, rule recordOutcome_walks [where G = "\<lambda>st. bst_phase st = BackupPhaseRunning"])
    (auto intro!: gives_safely_return gives_safely_bind [OF clock_gives] emits_rules ends_emit
      dest: stamped_fields simp: end_honest_def split: option.split)

lemma failBackup_walks:
  assumes "failed_honestly R K b l0 l"
  shows "honestly R K b l0 (\<lambda>_ _. True) l (failBackup R K b reason msg placed)"
  unfolding failBackup_def
  by (rule record_end_walks, rule recordOutcome_walks [where G = "\<lambda>st. bst_phase st = BackupPhaseFailed"])
    (use failed_honestly_extends [OF assms] in
      \<open>auto intro!: stamp_completed_gives emits_rules ends_emit dest: stamped_fields simp: end_honest_def\<close>)

lemma read_complete_extends: "read_complete K b l0 pj l \<Longrightarrow> extends h l \<Longrightarrow> read_complete K b l0 pj h"
  unfolding read_complete_def by (auto intro: asked_extends)

lemma completeBackup_walks:
  assumes "extends l l0" "backup_plan K b l0 cs pods gs l" "map pj_node pjs = sort (map fst gs)"
    and "\<forall>pj\<in>set pjs. read_complete K b l0 pj l"
  shows "honestly R K b l0 (\<lambda>_ _. True) l (completeBackup R K b pjs)"
  unfolding completeBackup_def
proof (rule walks_bindE [OF collect_results_walks [OF assms(1)]])
  fix r :: "string + int \<times> string \<times> BackupJobStatus list" and h
  assume r: "collected K b l0 pjs 0 '''' [] (Inr r) h" and h: "extends h l"
  have complete: "\<forall>pj\<in>set pjs. read_complete K b l0 pj h'" if "extends h' l" for h'
    using assms(4) read_complete_extends [OF _ that] by blast
  show "honestly R K b l0 (\<lambda>_ _. True) h (case r of
       Inl problem \<Rightarrow> failBackup R K b reasonBadResult problem pjs
     | Inr (bytes, singleRef, statuses) \<Rightarrow>
         let message = (if length pjs = 1 then ''snapshot '' @ singleRef
                        else Itoa (int (length pjs)) @ '' node job(s) completed'')
         in bindE (recordOutcome K b BackupPhaseCompleted (new_condition CondTrue reasonCompleted message)
              (\<lambda>s. stamp_completed K (s\<lparr>bst_jobs := statuses, bst_bytes := bytes,
                 bst_snapshotRef := (if length pjs = 1 then singleRef else bst_snapshotRef s)\<rparr>)))
            (\<lambda>(transitioned, b). do {
               notify b transitioned EventNormal reasonCompleted message;
               observeCompleted R b;
               State_Monad.return (Inr NoRequeue)
             }))"
  proof (cases r)
    case (Inl problem)
    with r obtain pj where "pj \<in> set pjs" "result_read K (b_ns b) l0 (pj_job pj) (Inl problem) h"
      by (auto simp: collected_def)
    then have "failed_honestly R K b l0 h"
      using complete [OF h] unfolding failed_honestly_def read_complete_def by blast
    with Inl show ?thesis by (simp add: failBackup_walks)
  next
    case (Inr x)
    obtain n ref sts where x: "x = (n, ref, sts)" by (cases x) auto
    with r Inr obtain rs where rs: "results_read K b l0 pjs rs h" "n = total_bytes rs"
        "ref = (if rs = [] then '''' else fst (List.last rs))" "sts = map2 row pjs rs"
      by (auto simp: collected_def total_bytes_def)
    have single: "length pjs = 1 \<Longrightarrow> ref = fst (hd rs)"
      using rs(3) list_all2_lengthD [OF rs(1)] by (cases rs) auto
    let ?G = "\<lambda>st. bst_phase st = BackupPhaseCompleted \<and> bst_jobs st = sts \<and> bst_bytes st = n \<and>
        bst_snapshotRef st = (if length pjs = 1 then fst (hd rs) else bst_snapshotRef (b_status b))"
    have "completed_honestly K b l0 h' st" if st: "?G st" "extends h' h" for st h'
    proof -
      note ext = extends_trans [OF st(2) h]
      have "bst_jobs st = map2 row pjs rs" "bst_bytes st = total_bytes rs"
        "bst_snapshotRef st = (if length pjs = 1 then fst (hd rs) else bst_snapshotRef (b_status b))"
        using st(1) rs(2,4) by blast+
      then show ?thesis
        unfolding completed_honestly_def
        using assms(3) complete [OF ext] backup_plan_extends [OF assms(2) ext] list_all2_asked [OF rs(1) st(2)] by blast
    qed
    then have end_ok: "end_honest R K b l0 h' (Write (PatchBackupStatus (b_ns b) (b_name b) st))"
      if "?G st" "extends h' h" for st h'
      using that by (simp add: end_honest_def)
    have stamp: "gives (safely quiet ?G) (stamp_completed K (s\<lparr>bst_jobs := sts, bst_bytes := n,
        bst_snapshotRef := (if length pjs = 1 then ref else bst_snapshotRef s)\<rparr>))"
      if "stamped K b BackupPhaseCompleted c s" for s c
      by (rule stamp_completed_gives) (use single stamped_fields [OF that] in simp)
    show ?thesis
      unfolding Inr x sum.case prod.case Let_def
      by (rule record_end_walks, rule recordOutcome_walks [OF stamp end_ok], assumption+)
        (intro emits_rules ends_emit)
  qed
qed simp

lemma settle_walks:
  assumes "extends l l0" "backup_plan K b l0 cs pods gs l" "map pj_node pjs = sort (map fst gs)"
    and "\<forall>pj\<in>set pjs. placed_ok K b l0 pj l"
  shows "honestly R K b l0 (\<lambda>_ _. True) l (settle R K b pjs)"
proof (cases "first_failed pjs")
  case (Some pj)
  then have "pj \<in> set pjs" "jobCondition (pj_job pj) JobFailed"
    by (auto simp: first_failed_def find_Some_iff)
  moreover from this(2) have "job_conditions (pj_job pj) \<noteq> []" by (auto simp: jobCondition_def)
  ultimately have "failed_honestly R K b l0 l"
    using assms(4) unfolding failed_honestly_def placed_ok_def by blast
  with Some show ?thesis by (simp add: settle_def failBackup_walks)
next
  case None
  show ?thesis
  proof (cases "all_complete pjs")
    case True
    have "read_complete K b l0 pj l" if pj: "pj \<in> set pjs" for pj
    proof -
      have "\<not> jobCondition (pj_job pj) JobFailed" using None pj by (auto simp: first_failed_def find_None_iff)
      moreover from this have "jobCondition (pj_job pj) JobComplete"
        using True pj by (auto simp: all_complete_def list_all_iff)
      moreover from this have "job_conditions (pj_job pj) \<noteq> []" by (auto simp: jobCondition_def)
      ultimately show ?thesis using assms(4) pj unfolding read_complete_def placed_ok_def by blast
    qed
    with None True show ?thesis
      using completeBackup_walks [OF assms(1-3)] by (simp add: settle_def)
  qed (use None runBackup_walks in \<open>simp add: settle_def\<close>)
qed

lemma launch_walks:
  assumes "extends l l0" "backup_plan K b l0 cs pods gs l"
  shows "honestly R K b l0 (\<lambda>_ _. True) l (launch R K b sec staging gs)"
  unfolding launch_def
proof (rule walks_bindE [OF place_jobs_walks [OF assms]])
  fix r :: "string + placedJob list" and h
  assume "\<forall>pjs. (Inr r :: gerr + string + placedJob list) = Inr (Inr pjs) \<longrightarrow>
      map pj_node pjs = sort (map fst gs) \<and> (\<forall>pj\<in>set pjs. placed_ok K b l0 pj h)"
    and h: "extends h l"
  then show "honestly R K b l0 (\<lambda>_ _. True) h (case r of Inl problem \<Rightarrow> hold K b reasonJobDeleted problem requeueWait
      | Inr placed \<Rightarrow> settle R K b placed)"
    using settle_walks [OF extends_trans [OF h assms(1)] backup_plan_extends [OF assms(2) h]]
    by (auto intro: hold_walks split: sum.split)
qed auto

lemma hooks_then_launch_walks:
  assumes "extends l l0" "backup_plan K b l0 cs pods gs l"
  shows "honestly R K b l0 (\<lambda>_ _. True) l (hooks_then_launch R K b sec staging cs pods gs)"
proof -
  have hooks: "honestly R K b l0 (\<lambda>_ _. True) l (do {
        r \<leftarrow> runPreHooks R K cs pods;
        case r of
          Some (problem, reason) \<Rightarrow> failBackup R K b reason problem []
        | None \<Rightarrow> launch R K b sec staging gs })" if "bst_jobs (b_status b) = []"
    unfolding runPreHooks_def
  proof (rule walks_bind [OF run_hooks_walks [OF assms(1)]])
    fix r :: "(string \<times> string) option" and h
    assume r: "\<forall>x. r = Some x \<longrightarrow> (\<exists>p\<in>set (hooked_pods cs pods). hook_problem R K l0 p h)" and h: "extends h l"
    have "failed_honestly R K b l0 h" if "r = Some x" for x
      using r that \<open>bst_jobs (b_status b) = []\<close> hooked_pods_mount backup_plan_extends [OF assms(2) h]
      unfolding failed_honestly_def backup_plan_def by blast
    then show "honestly R K b l0 (\<lambda>_ _. True) h (case r of
          Some (problem, reason) \<Rightarrow> failBackup R K b reason problem []
        | None \<Rightarrow> launch R K b sec staging gs)"
      using launch_walks [OF extends_trans [OF h assms(1)] backup_plan_extends [OF assms(2) h]]
      by (auto intro: failBackup_walks split: option.split)
  qed
  then show ?thesis unfolding hooks_then_launch_def using launch_walks [OF assms] by simp
qed

lemma place_and_launch_walks:
  assumes "extends l l0" "selected K b l0 cs l"
  shows "honestly R K b l0 (\<lambda>_ _. True) l (place_and_launch R K b sec staging cs)"
proof -
  have listed: "pods_listed K b l0 pods (l @ [Read (ListPods (b_ns b) None)])" if "k_pods K l (b_ns b) None = Inr pods" for pods
    by (rule asked_now) (use assms(1) that in simp_all)
  have api_only: "backup_plan K b l0 cs pods [(first_name names, [])] (h @ [Read ListNodes])"
    if "pods_listed K b l0 pods h" "extends h l" "cs = []" "k_nodes K h = Inr names" for pods h names
  proof -
    have "asked l0 (Read ListNodes) (k_nodes K) (Inr names) (h @ [Read ListNodes])"
      by (rule asked_now) (use that assms(1) extends_trans in blast)+
    then show ?thesis
      using that(3) asked_extends [OF that(1) extends_append]
        selected_extends [OF assms(2) extends_trans [OF extends_append that(2)]]
      by (auto simp: backup_plan_def)
  qed
  have all: "backup_plan K b l0 cs pods gs h'"
    if "pods_listed K b l0 pods h" "extends h l" "extends h' h" "cs \<noteq> []"
      "groups_cover K l0 pods ({} \<union> set cs) gs h'" for pods gs h h'
    using that selected_extends [OF assms(2) extends_trans [OF that(3,2)]] asked_extends [OF that(1,3)]
    by (simp add: backup_plan_def)
  have rest: "honestly R K b l0 (\<lambda>_ _. True) h
      (if length cs = 0 then
         bindE (firstNode K) (\<lambda>node.
           if node = '''' then hold K b reasonUnplaceable ''no nodes found to run the API-only backup job'' requeueWait
           else hooks_then_launch R K b sec staging cs pods [(node, [])])
       else
         bindE (place_all K cs pods []) (\<lambda>r. case r of
           Inl problem \<Rightarrow> hold K b reasonUnplaceable problem requeueWait
         | Inr gs \<Rightarrow> hooks_then_launch R K b sec staging cs pods gs))"
    if "pods_listed K b l0 pods h" "extends h l" for pods h
  proof (cases "cs = []")
    case True
    have "honestly R K b l0 (\<lambda>r h'. \<forall>node. r = Inr node \<longrightarrow> backup_plan K b l0 cs pods [(node, [])] h') h (firstNode K)"
      unfolding firstNode_def list_nodes_def using api_only [OF that True] by (auto intro!: walks_rules)
    then have "honestly R K b l0 (\<lambda>_ _. True) h (bindE (firstNode K) (\<lambda>node.
        if node = '''' then hold K b reasonUnplaceable ''no nodes found to run the API-only backup job'' requeueWait
        else hooks_then_launch R K b sec staging cs pods [(node, [])]))"
      by (rule walks_bindE, simp, intro walks_if hold_walks hooks_then_launch_walks)
        (use extends_trans [OF _ extends_trans [OF that(2) assms(1)]] in auto)
    with True show ?thesis by simp
  next
    case False
    have start: "groups_cover K l0 pods {} [] h" by (simp add: groups_cover_def group_get_def)
    note place = place_all_walks [OF extends_trans [OF that(2) assms(1)] start, where cs = cs]
    show ?thesis
      unfolding length_0_conv if_not_P [OF False]
      by (rule walks_bindE [OF place])
        (use all [OF that _ False] extends_trans [OF _ extends_trans [OF that(2) assms(1)]] in
          \<open>auto intro: hold_walks hooks_then_launch_walks split: sum.split\<close>)
  qed
  show ?thesis
    unfolding place_and_launch_def list_pods_def
    by (intro walks_rules rest) (use listed in auto)
qed

lemma reconcile_backup_walks:
  assumes "extends l l0"
  shows "honestly R K b l0 (\<lambda>_ _. True) l (reconcile_backup R K b)"
proof -
  note ext = extends_trans [OF _ assms]
  note secret = gives_walks [OF ensureRepoSecret_gives no_patch_honest [OF no_patch_calls(2)]]
  note staging = gives_walks [OF stage_gives no_patch_honest [OF no_patch_calls(2)]]
  have ready: "honestly R K b l0 (\<lambda>_ _. True) h (reconcile_ready R K b repo)" if "extends h l0" for h repo
  proof -
    have place: "honestly R K b l0 (\<lambda>_ _. True) h'' (bindE (stage R K b) (\<lambda>staging.
           if cs = [] \<and> staging = '''' then hold K b reasonNoPVCs msg requeueWaitSlow
           else place_and_launch R K b sec staging cs))" if "selected K b l0 cs h''" "extends h'' l0" for cs h'' sec msg
      by (rule walks_bindE [OF staging])
        (use that in \<open>auto intro!: walks_rules hold_walks place_and_launch_walks intro: selected_extends extends_trans\<close>)
    have select: "honestly R K b l0 (\<lambda>_ _. True) h' (bindE (selectPVCs K b) (\<lambda>r. case r of
         Inl problem \<Rightarrow> hold K b reasonUnplaceable problem requeueWait
       | Inr pvcs \<Rightarrow> bindE (stage R K b) (\<lambda>staging.
           if pvcs = [] \<and> staging = '''' then hold K b reasonNoPVCs msg requeueWaitSlow
           else place_and_launch R K b sec staging pvcs)))" if "extends h' l0" for h' sec msg
      by (rule walks_bindE [OF selectPVCs_walks [OF that]])
        (use that in \<open>auto intro: hold_walks place extends_trans split: sum.split\<close>)
    show ?thesis
      unfolding reconcile_ready_def
      by (rule walks_bindE [OF secret]) (use that in \<open>auto intro: hold_walks select extends_trans split: sum.split\<close>)
  qed
  show ?thesis
    unfolding reconcile_backup_def get_repo_def
    by (intro walks_rules honest_read hold_walks ready ext extends_append) simp_all
qed

section \<open>One reconcile\<close>

text \<open>Every call of a reconcile, at its place, with the evidence gathered since the reconcile began.\<close>

lemma BackupReconcile_honest:
  assumes "k_backup K l ns n = Inr b" "c \<in> set (trace (BackupReconcile R K ns n) l)"
  shows "\<exists>m m'. trace (BackupReconcile R K ns n) l = m @ c # m' \<and> end_honest R K b l (l @ m) c"
proof -
  have "honestly R K b l (\<lambda>_ _. True) l (BackupReconcile R K ns n)"
    unfolding BackupReconcile_def get_backup_def
    by (intro walks_rules honest_read) (use assms(1) reconcile_backup_walks in auto)
  from all_atD [OF conjunct1 [OF walksD [OF this]] assms(2)] show ?thesis .
qed

lemma completed_patch:
  assumes "k_backup K l ns n = Inr b" "Write (PatchBackupStatus ns' n' st) \<in> set (trace (BackupReconcile R K ns n) l)"
    and "bst_phase st = BackupPhaseCompleted"
  obtains h where "completed_honestly K b l h st"
  using BackupReconcile_honest [OF assms(1,2)] assms(3) unfolding end_honest_def by blast

lemma completed_row:
  "list_all2 P pjs rs \<Longrightarrow> pj \<in> set pjs \<Longrightarrow> \<exists>r. P pj r \<and> row pj r \<in> set (map2 row pjs rs)"
  by (induction rule: list_all2_induct) auto

text \<open>Every selected claim of a completed backup: the node it resolved to, its Job, its row.\<close>

lemma completed_claim:
  assumes plan: "backup_plan K b l0 cs pods gs h"
    and jobs: "map pj_node pjs = sort (map fst gs)" "\<forall>pj\<in>set pjs. read_complete K b l0 pj h"
    and rs: "results_read K b l0 pjs rs h" "bst_jobs st = map2 row pjs rs" and c: "c \<in> set cs"
  shows "\<exists>node pj r. pods_listed K b l0 pods h \<and> placed_at K l0 pods c node h \<and> pj_node pj = node \<and>
    read_complete K b l0 pj h \<and> result_read K (b_ns b) l0 (pj_job pj) (Inr r) h \<and> row pj r \<in> set (bst_jobs st)"
proof -
  from c have "cs \<noteq> []" by auto
  then have "groups_cover K l0 pods (set cs) gs h" using plan by (simp add: backup_plan_def)
  with c obtain node where node: "placed_at K l0 pods c node h" "pvc_name c \<in> set (group_get gs node)"
    unfolding groups_cover_def by blast
  from node(2) have "node \<in> fst ` set gs"
    using group_get_absent [of node gs] by (metis empty_iff list.set(1))
  then have "node \<in> set (map pj_node pjs)" unfolding jobs(1) by simp
  then obtain pj where pj: "pj \<in> set pjs" "pj_node pj = node" by auto
  from completed_row [OF rs(1) pj(1)] obtain r where
    "result_read K (b_ns b) l0 (pj_job pj) (Inr r) h" "row pj r \<in> set (bst_jobs st)"
    unfolding rs(2) by blast
  with plan node(1) pj jobs(2) show ?thesis unfolding backup_plan_def by blast
qed

lemma selected_named:
  assumes "selected K b l0 cs h" "name \<in> set (bs_pvcs (b_spec b))"
  shows "\<exists>c\<in>set cs. claim_read K b l0 name c h"
proof -
  have "bs_pvcs (b_spec b) \<noteq> []" using assms(2) by auto
  then have "list_all2 (\<lambda>name c. claim_read K b l0 name c h) (bs_pvcs (b_spec b)) cs"
    using assms(1) by (simp add: selected_def)
  then show ?thesis using assms(2) by (fastforce simp: list_all2_conv_all_nth in_set_conv_nth)
qed

lemma completed_named:
  assumes "completed_honestly K b l0 h st" "name \<in> set (bs_pvcs (b_spec b))"
  shows "\<exists>c pods node pj r. claim_read K b l0 name c h \<and> pods_listed K b l0 pods h \<and> placed_at K l0 pods c node h \<and>
    pj_node pj = node \<and> read_complete K b l0 pj h \<and> result_read K (b_ns b) l0 (pj_job pj) (Inr r) h \<and>
    row pj r \<in> set (bst_jobs st)"
proof -
  obtain cs pods gs pjs rs where plan: "backup_plan K b l0 cs pods gs h"
    and jobs: "map pj_node pjs = sort (map fst gs)" "\<forall>pj\<in>set pjs. read_complete K b l0 pj h"
    and rs: "results_read K b l0 pjs rs h" "bst_jobs st = map2 row pjs rs"
    using assms(1) unfolding completed_honestly_def by blast
  have "selected K b l0 cs h" using plan by (simp add: backup_plan_def)
  from selected_named [OF this assms(2)] obtain c where c: "c \<in> set cs" "claim_read K b l0 name c h" by blast
  from completed_claim [OF plan jobs rs c(1)] c(2) show ?thesis by blast
qed

text \<open>C4: terminal phases rest on evidence.  When a reconcile records Completed it has, since it
  began, selected the claims as documented, resolved the node of each, read the Job of every such
  node as complete and not failed, and read the result its Pod reported; the recorded Jobs, bytes and
  reference are exactly these.  When it records Failed it has read a failed Job, a complete Job
  with an unreadable result, or (only while no Job is recorded) a hook that cannot run.\<close>

theorem backup_ends_honestly:
  assumes "k_backup K l ns n = Inr b" "Write (PatchBackupStatus ns' n' st) \<in> set (trace (BackupReconcile R K ns n) l)"
  shows "\<exists>m m'. trace (BackupReconcile R K ns n) l = m @ Write (PatchBackupStatus ns' n' st) # m' \<and>
    (bst_phase st = BackupPhaseCompleted \<longrightarrow> completed_honestly K b l (l @ m) st) \<and>
    (bst_phase st = BackupPhaseFailed \<longrightarrow> failed_honestly R K b l (l @ m))"
  using BackupReconcile_honest [OF assms] unfolding end_honest_def by blast

text \<open>C11: a Job backs up what is placed on its node.  Every Job a reconcile creates is the built Job of
  a node of the reconcile's plan, read as absent in this reconcile, and it mounts
  only selected claims that resolve to that node, and every claim that resolves to no other one.\<close>

theorem backup_job_claims:
  assumes "k_backup K l ns n = Inr b" "Write (CreateJob j) \<in> set (trace (BackupReconcile R K ns n) l)"
  shows "\<exists>h cs pods node claims sec staging m. selected K b l cs h \<and> pods_listed K b l pods h \<and>
    job_absent K b l node h \<and>
    j = (BuildBackupJob (backup_spec R b sec staging node claims))\<lparr>job_meta := m\<rparr> \<and>
    (\<forall>x\<in>set claims. \<exists>c\<in>set cs. pvc_name c = x \<and> placed_at K l pods c node h) \<and>
    (\<forall>c\<in>set cs. (\<forall>node'. placed_at K l pods c node' h \<longrightarrow> node' = node) \<longrightarrow> pvc_name c \<in> set claims)"
proof -
  obtain h where "created_honestly R K b l h j"
    using BackupReconcile_honest [OF assms] unfolding end_honest_def by blast
  then obtain cs pods gs node sec staging m where plan: "backup_plan K b l cs pods gs h" "job_absent K b l node h"
    "j = (BuildBackupJob (backup_spec R b sec staging node (sort (group_get gs node))))\<lparr>job_meta := m\<rparr>"
    "node \<in> fst ` set gs"
    unfolding created_honestly_def by blast
  have claims: "(\<forall>x\<in>set (sort (group_get gs node)). \<exists>c\<in>set cs. pvc_name c = x \<and> placed_at K l pods c node h) \<and>
    (\<forall>c\<in>set cs. (\<forall>node'. placed_at K l pods c node' h \<longrightarrow> node' = node) \<longrightarrow> pvc_name c \<in> set (sort (group_get gs node)))"
  proof (cases "cs = []")
    case True
    with plan(1,4) show ?thesis by (auto simp: backup_plan_def group_get_def)
  next
    case False
    then have cover: "groups_cover K l pods (set cs) gs h" using plan(1) by (simp add: backup_plan_def)
    show ?thesis unfolding set_sort using cover unfolding groups_cover_def by metis
  qed
  have sel: "selected K b l cs h" "pods_listed K b l pods h" using plan(1) by (auto simp: backup_plan_def)
  show ?thesis
    by (rule exI [of _ h], rule exI [of _ cs], rule exI [of _ pods], rule exI [of _ node],
        rule exI [of _ "sort (group_get gs node)"]) (use sel plan(2,3) claims in blast)
qed

text \<open>C6: a completed backup covers its specification.  For every claim name the specification lists,
  the reconcile that records Completed has read the claim and its volume, resolved its node, read the
  complete Job of that node and the result of its Pod, and the status has that Job with the
  reference the Pod reported.\<close>

theorem backup_completed_covers:
  assumes "k_backup K l ns n = Inr b" "Write (PatchBackupStatus ns' n' st) \<in> set (trace (BackupReconcile R K ns n) l)"
    and "bst_phase st = BackupPhaseCompleted" "name \<in> set (bs_pvcs (b_spec b))"
  shows "\<exists>h c pods node pj r. claim_read K b l name c h \<and> pods_listed K b l pods h \<and> placed_at K l pods c node h \<and>
    pj_node pj = node \<and> read_complete K b l pj h \<and> result_read K (b_ns b) l (pj_job pj) (Inr r) h \<and>
    \<lparr>bj_node = node, bj_job = job_name (pj_job pj), bj_state = ok_state (fst r)\<rparr> \<in> set (bst_jobs st)"
proof -
  obtain h where h: "completed_honestly K b l h st" using completed_patch [OF assms(1-3)] .
  from completed_named [OF h assms(4)] show ?thesis unfolding row_def by blast
qed


end
