(* ===== verification/Backup_Examples.thy ===== *)
theory Backup_Examples
  imports Backup_Evidence
begin

text \<open>
  A cluster with one backup to make: the namespace \<open>app\<close> has one claim on node \<open>n1\<close>, mounted by
  a pod with a hook; the repository is ready.  The first reconcile runs the hook, creates the Job
  and records Running.  The examples instantiate the properties of the reconciler there.
\<close>

definition sample_backup :: PBSBackup where
  "sample_backup = \<lparr>b_meta = new_meta ''nightly'' ''app'' Map.empty,
     b_spec = \<lparr>bs_repoRef = ''main'', bs_pvcs = [''data''], bs_selector = None, bs_notes = ''''\<rparr>,
     b_status = empty_backup_status\<rparr>"

definition sample_repo :: PBSRepo where
  "sample_repo = \<lparr>repo_meta = new_meta ''main'' '''' Map.empty,
     repo_spec = \<lparr>rp_host = ''pbs.example'', rp_port = 8007, rp_datastore = ''ds'', rp_namespace = ''ns'',
       rp_fingerprint = ''AA'', rp_secretRef = \<lparr>ref_name = ''creds'', ref_namespace = ''pbs-system''\<rparr>,
       rp_bootstrapRef = \<lparr>ref_name = '''', ref_namespace = ''''\<rparr>\<rparr>,
     repo_status = \<lparr>rps_conditions = [new_condition CondTrue ''Reachable'' ''PBS server reachable''],
       rps_lastProbe = None\<rparr>\<rparr>"

definition sample_secret :: secret where
  "sample_secret = \<lparr>sec_meta = new_meta ''creds'' ''pbs-system'' Map.empty,
     sec_data = [''tokenID'' \<mapsto> ''operator@pbs!producer'', ''tokenSecret'' \<mapsto> ''s3cret'', ''admin'' \<mapsto> ''root'']\<rparr>"

definition sample_claim :: pvc where
  "sample_claim = \<lparr>pvc_meta = new_meta ''data'' ''app'' Map.empty, pvc_volumeName = ''pv-1''\<rparr>"

definition sample_pv :: persistent_volume where
  "sample_pv = \<lparr>pv_name = ''pv-1'', pv_affinity = Some (nodePin ''n1'')\<rparr>"

definition sample_R :: PBSBackupReconciler where
  "sample_R = \<lparr>br_AgentImage = '''', br_Serializer = None, br_Metrics = True, br_HookExecutor = True\<rparr>"

definition world_with :: "PBSBackup \<Rightarrow> kube" where
  "world_with b = empty_world\<lparr>k_backup := (\<lambda>_ _ _. Inr b), k_repo := (\<lambda>_ _. Inr sample_repo),
     k_secret := (\<lambda>_ ns n. if n = ''creds'' then Inr sample_secret else Inl NotFound),
     k_pvc := (\<lambda>_ _ _. Inr sample_claim), k_pv := (\<lambda>_ _. Inr sample_pv),
     k_pods := (\<lambda>_ _ _. Inr [hooked_pod])\<rparr>"

abbreviation "sample_world \<equiv> world_with sample_backup"
abbreviation "sample_trace \<equiv> trace (BackupReconcile sample_R sample_world ''app'' ''nightly'') []"

lemma world_with_backup [simp]: "k_backup (world_with b) l ns n = Inr b"
  by (simp add: world_with_def)

lemma world_with_conditions: "condition_laws (world_with b)"
  using empty_world_conditions by (simp add: condition_laws_def world_with_def)

fun is_createSecret :: "kcall \<Rightarrow> bool" where
  "is_createSecret (Write (CreateSecret s)) \<longleftrightarrow> True"
| "is_createSecret _ \<longleftrightarrow> False"

lemma sample_calls:
  "list_ex is_exec sample_trace" "list_ex is_createJob sample_trace" "list_ex is_createSecret sample_trace"
  "list_ex (patch_to BackupPhaseRunning) sample_trace"
  by code_simp+

lemma sample_job: "\<exists>j. Write (CreateJob j) \<in> set sample_trace"
proof -
  obtain c where "c \<in> set sample_trace" "is_createJob c" using sample_calls(2) by (auto simp: list_ex_iff)
  then show ?thesis by (auto simp: is_createJob_def split: kcall.splits kwrite.splits)
qed

lemma sample_copy: "\<exists>s. Write (CreateSecret s) \<in> set sample_trace"
proof -
  obtain c where "c \<in> set sample_trace" "is_createSecret c" using sample_calls(3) by (auto simp: list_ex_iff)
  then show ?thesis by (auto elim!: is_createSecret.elims)
qed

lemma sample_patch: "\<exists>ns n st. Write (PatchBackupStatus ns n st) \<in> set sample_trace \<and> bst_phase st = BackupPhaseRunning"
proof -
  obtain c where "c \<in> set sample_trace" "patch_to BackupPhaseRunning c" using sample_calls(4) by (auto simp: list_ex_iff)
  then show ?thesis by (cases "(BackupPhaseRunning, c)" rule: patch_to.cases) auto
qed


lemma backup_hooks_before_jobs_witness:
  "precede is_exec is_createJob sample_trace \<and> list_ex is_exec sample_trace \<and> list_ex is_createJob sample_trace"
  using backup_hooks_before_jobs [OF world_with_backup, of sample_R sample_backup "''app''" "''nightly''" "[]"]
    sample_calls by simp


lemma backup_copies_contract_only_witness:
  "\<exists>s. Write (CreateSecret s) \<in> set sample_trace \<and> dom (sec_data s) \<subseteq> set repoSecretKeys \<and>
     om_namespace (sec_meta s) = ''app''"
proof -
  obtain s where s: "Write (CreateSecret s) \<in> set sample_trace" using sample_copy by blast
  show ?thesis
    using backup_copies_contract_only [OF world_with_backup disjI1 [OF s]] s
    by (auto simp: sample_backup_def)
qed

lemma backup_phase_forward_witness:
  "\<exists>ns n st. Write (PatchBackupStatus ns n st) \<in> set sample_trace \<and> BackupPhaseUnset \<le> bst_phase st \<and>
     \<not> k_conditionTrue sample_world (bst_conditions st) condReady"
proof -
  obtain ns n st where st: "Write (PatchBackupStatus ns n st) \<in> set sample_trace" "bst_phase st = BackupPhaseRunning"
    using sample_patch by blast
  then show ?thesis
    using backup_phase_forward [OF world_with_backup world_with_conditions st(1)]
    by (intro exI [of _ ns] exI [of _ n] exI [of _ st])
      (simp add: sample_backup_def empty_backup_status_def)
qed

lemma sample_running: "\<exists>st. backup_reachable st \<and> bst_phase st = BackupPhaseRunning"
proof -
  obtain ns n st where st: "Write (PatchBackupStatus ns n st) \<in> set sample_trace" "bst_phase st = BackupPhaseRunning"
    using sample_patch by blast
  have "backup_reachable (b_status sample_backup)"
    unfolding sample_backup_def by (simp add: backup_reachable.created)
  from backup_reachable.reconciled [OF this world_with_backup st(1)] st(2) show ?thesis by auto
qed

lemma backup_status_invariant_witness: "\<exists>st. bst_phase st = BackupPhaseRunning \<and> backup_inv st"
  using sample_running backup_status_invariant by blast

lemma backup_hooks_never_rerun_witness:
  "\<exists>b. bst_phase (b_status b) = BackupPhaseRunning \<and>
     list_all (\<lambda>c. \<not> is_exec c) (trace (BackupReconcile sample_R (world_with b) ''app'' ''nightly'') [])"
proof -
  obtain st where st: "backup_reachable st" "bst_phase st = BackupPhaseRunning" using sample_running by blast
  let ?b = "sample_backup\<lparr>b_status := st\<rparr>"
  have "backup_reachable (b_status ?b)" "bst_phase (b_status ?b) = BackupPhaseRunning" using st by simp_all
  from this(2) backup_hooks_never_rerun [OF this world_with_backup] show ?thesis by blast
qed

lemma backup_terminal_final_witness:
  "result (BackupReconcile sample_R (world_with (sample_backup\<lparr>b_status := empty_backup_status\<lparr>bst_phase := BackupPhaseFailed\<rparr>\<rparr>))
      ''app'' ''nightly'') [] = Inr NoRequeue"
  by (rule conjunct1 [OF backup_terminal_final [OF world_with_backup]]) simp


section \<open>A backup that completes\<close>

text \<open>The Job of \<open>n1\<close> is complete and its Pod reported a snapshot; and the same cluster after the Job
  was reaped, with its state recorded.\<close>

definition finished_job :: job where
  "finished_job = (BuildBackupJob (backup_spec sample_R sample_backup ''pbsrepo-main'' '''' ''n1'' [''data'']))
     \<lparr>job_conditions := [(JobComplete, CondTrue)]\<rparr>"

definition reporting_pod :: pod where
  \<open>reporting_pod = hooked_pod\<lparr>pod_statuses := [\<lparr>
     cs_terminated = Some ''{"snapshotRef":"host/n/1970-01-01T00:00:00Z","bytes":7}'', cs_lastTerminated = None\<rparr>]\<rparr>\<close>

definition running_backup :: PBSBackup where
  "running_backup = sample_backup\<lparr>b_status := empty_backup_status\<lparr>bst_phase := BackupPhaseRunning,
     bst_jobs := [\<lparr>bj_node = ''n1'', bj_job = ''nightly-n1'', bj_state = ''complete''\<rparr>]\<rparr>\<rparr>"

definition finished_world :: kube where
  "finished_world = (world_with running_backup)\<lparr>k_job := (\<lambda>_ _ _. Inr finished_job),
     k_pods := (\<lambda>_ _ _. Inr [reporting_pod])\<rparr>"

abbreviation "finished_trace \<equiv> trace (BackupReconcile sample_R finished_world ''app'' ''nightly'') []"

lemma finished_backup: "k_backup finished_world l ns n = Inr running_backup"
  by (simp add: finished_world_def)

lemma finished_patch: "\<exists>ns n st. Write (PatchBackupStatus ns n st) \<in> set finished_trace \<and> bst_phase st = BackupPhaseCompleted"
proof -
  have "list_ex (patch_to BackupPhaseCompleted) finished_trace" by code_simp
  then obtain c where "c \<in> set finished_trace" "patch_to BackupPhaseCompleted c" by (auto simp: list_ex_iff)
  then show ?thesis by (cases "(BackupPhaseCompleted, c)" rule: patch_to.cases) auto
qed

lemma backup_ends_honestly_witness:
  "\<exists>h st. bst_phase st = BackupPhaseCompleted \<and> completed_honestly finished_world running_backup [] h st"
proof -
  obtain ns n st where st: "Write (PatchBackupStatus ns n st) \<in> set finished_trace" "bst_phase st = BackupPhaseCompleted"
    using finished_patch by blast
  from backup_ends_honestly [OF finished_backup st(1)] st(2) show ?thesis by blast
qed

lemma backup_completed_covers_witness:
  "\<exists>(st :: PBSBackupStatus) r. bst_phase st = BackupPhaseCompleted \<and>
     \<lparr>bj_node = ''n1'', bj_job = ''nightly-n1'', bj_state = ok_state r\<rparr> \<in> set (bst_jobs st)"
proof -
  obtain ns n st where st: "Write (PatchBackupStatus ns n st) \<in> set finished_trace" "bst_phase st = BackupPhaseCompleted"
    using finished_patch by blast
  have name: "''data'' \<in> set (bs_pvcs (b_spec running_backup))" by (simp add: running_backup_def sample_backup_def)
  from backup_completed_covers [OF finished_backup st name] obtain h c pods node pj and r :: "string \<times> int" where
    pj: "placed_at finished_world [] pods c node h" "read_complete finished_world running_backup [] pj h"
      "\<lparr>bj_node = node, bj_job = job_name (pj_job pj), bj_state = ok_state (fst r)\<rparr> \<in> set (bst_jobs st)"
    by blast
  have "pj_job pj = finished_job"
    using pj(2) unfolding read_complete_def by (auto simp: finished_world_def dest!: askedD)
  moreover have "job_name finished_job = ''nightly-n1''" by code_simp
  moreover have "node = ''n1''"
    using pj(1) unfolding placed_at_def
    by (auto simp: finished_world_def world_with_def sample_pv_def ResolveNode_def nodeFromAffinity_def nodePin_def
        hostname_req_def split: if_splits dest!: askedD)
  ultimately show ?thesis using st(2) pj(3) by (intro exI [of _ st] exI [of _ "fst r"]) simp
qed

lemma backup_job_claims_witness:
  "\<exists>j claims. Write (CreateJob j) \<in> set sample_trace \<and> job_command j = [''pbs-agent'', ''backup'', ''--pvc'', ''data''] \<and>
     (\<exists>sec staging node. job_command j = backupCommand (backup_spec sample_R sample_backup sec staging node claims))"
proof -
  obtain j where j: "Write (CreateJob j) \<in> set sample_trace" using sample_job by blast
  have "list_all (\<lambda>c. case c of Write (CreateJob j) \<Rightarrow> job_command j = [''pbs-agent'', ''backup'', ''--pvc'', ''data'']
      | _ \<Rightarrow> True) sample_trace" by code_simp
  with j have cmd: "job_command j = [''pbs-agent'', ''backup'', ''--pvc'', ''data'']" by (auto simp: list_all_iff)
  from backup_job_claims [OF world_with_backup j] obtain node claims sec staging m where
    "j = (BuildBackupJob (backup_spec sample_R sample_backup sec staging node claims))\<lparr>job_meta := m\<rparr>" by blast
  then have "job_command j = backupCommand (backup_spec sample_R sample_backup sec staging node claims)"
    unfolding job_command_builders(1) [symmetric] by (simp add: job_command_def)
  with j cmd show ?thesis by blast
qed


end
