(* ===== verification/Manifest_Examples.thy ===== *)
theory Manifest_Examples
  imports Manifest_Roundtrip Volume_Examples Backup_Examples
begin

text \<open>
  The way of an archive with one object: the API server creates the staging ConfigMap, the backup Job
  uploads it beside two claims, and \<open>kubectl\<close> serves the one request of the fetch Job, from the file
  the client extracted.
\<close>

definition staging_world :: kube where
  "staging_world = one_world\<lparr>k_configMap := (\<lambda>h ns name. case cms_after one_world [] h Map.empty (ns, name) of
     Some d \<Rightarrow> Inr \<lparr>cm_meta = new_meta name ns Map.empty, cm_data = d\<rparr> | None \<Rightarrow> Inl NotFound)\<rparr>"

lemma staging_world_writes [simp]: "k_write staging_world h w = None" "k_write one_world h w = None"
  by (simp_all add: staging_world_def one_world_def empty_world_def)

lemma staging_world_after [simp]: "cms_after staging_world h n cms = cms_after one_world h n cms"
  by (induction n arbitrary: h cms) (simp_all cong: kcall.case_cong kwrite.case_cong)

lemma staging_world_serves: "serves_configMaps staging_world Map.empty"
  by (auto simp: serves_configMaps_def staging_world_def [THEN arg_cong [of _ _ k_configMap]] map_key_def new_meta_def
      split: option.splits)

abbreviation "archiving_R \<equiv> sample_R\<lparr>br_Serializer := Some named_yaml\<rparr>"
abbreviation "staged_spec \<equiv> two_claims\<lparr>bjs_StagingConfigMap := ''nightly-api''\<rparr>"

definition staged_dirs :: "string \<Rightarrow> dir_files" where
  "staged_dirs = (\<lambda>path. case config_at (BuildBackupJob staged_spec) path of
     Some c \<Rightarrow> the (cms_after staging_world [] (snd (run_state (stage archiving_R staging_world sample_backup) [])) Map.empty (''app'', c))
   | None \<Rightarrow> Map.empty)"

definition empty_pod :: pod_state where
  "empty_pod = \<lparr>st_dirs = (\<lambda>_. Map.empty), st_temps = Map.empty, st_configMaps = Map.empty\<rparr>"

definition fetch_args :: volume_args where
  "fetch_args = \<lparr>va_ref = ''host/pod-1/1970-01-01T00:00:05Z'',
     va_pairs = [\<lparr>rp_archive = ''api.pxar.didx'', rp_target = ''/staging/api''\<rparr>], va_configMap = ''r-api'',
     va_termlog = ''/dev/termination-log''\<rparr>"

text \<open>The requests for the ConfigMap are refused, except the one, of the one file content.\<close>

definition granting_env :: "(string \<Rightarrow> string \<Rightarrow> dir_files option) \<Rightarrow> pod_env" where
  "granting_env snaps = \<lparr>env_proc = sample_proc, env_snapshots = snaps,
     env_decode = (\<lambda>t. if t = ''made'' then Some (''r-api'', [''api.yaml'' \<mapsto> ''web'' @ newline]) else None)\<rparr>"

definition fetch_env :: "(string \<Rightarrow> string \<Rightarrow> dir_files option) \<Rightarrow> pod_env" where
  "fetch_env snaps = (granting_env snaps)\<lparr>env_proc := sample_proc\<lparr>p_run := (\<lambda>h argv env.
     if take 2 argv = [kubectl, ''create''] then
       (if argv = createArgv ''r-api'' ''/staging/api/api.yaml'' \<and>
           file_at (pod_after (granting_env snaps) [] h empty_pod) ''/staging/api/api.yaml'' = Some (''web'' @ newline)
        then \<lparr>rr_stdout = ''made'', rr_stderr = '''', rr_error = None\<rparr>
        else \<lparr>rr_stdout = '''', rr_stderr = '''', rr_error = Some (ExitError 1 ''exit status 1'')\<rparr>)
     else p_run sample_proc h argv env)\<rparr>\<rparr>"

lemma fetch_env_simps [simp]:
  "env_snapshots (fetch_env snaps) = snaps" "env_decode (fetch_env snaps) = env_decode (granting_env snaps)"
  "p_emptyDir (env_proc (fetch_env snaps)) = p_emptyDir sample_proc" "p_temp (env_proc (fetch_env snaps)) = p_temp sample_proc"
  "env_snapshots (granting_env snaps) = snaps" "env_proc (granting_env snaps) = sample_proc"
  by (simp_all add: fetch_env_def granting_env_def)

lemma sample_run_ok: "rr_error (p_run sample_proc h argv env) = None"
  by (simp add: sample_proc_def)

lemma fetch_env_effect: "pod_effect (fetch_env snaps) h c st = pod_effect (granting_env snaps) h c st"
proof (cases c)
  case (Run argv env)
  show ?thesis
  proof (cases "take 2 argv = [kubectl, ''create'']")
    case True
    have "take 2 argv = take 2 (take 3 argv)" by simp
    with True have "take 3 argv \<noteq> [kubectl, ''apply'', ''-f'']" "take 2 argv \<noteq> [clientBinary, ''restore'']"
      by (auto simp del: take_take)
    then show ?thesis by (simp add: Run)
  next
    case False
    then have "p_run (env_proc (fetch_env snaps)) h argv env = p_run sample_proc h argv env" by (simp add: fetch_env_def)
    moreover have "extract_archive (fetch_env snaps) argv st = extract_archive (granting_env snaps) argv st"
      "apply_file (fetch_env snaps) path st = apply_file (granting_env snaps) path st" for path
      by (simp_all add: extract_archive_def apply_file_def cong: list.case_cong option.case_cong)
    ultimately show ?thesis by (simp add: Run)
  qed
qed (simp_all add: sample_proc_def)

lemma fetch_env_after [simp]: "pod_after (fetch_env snaps) h n st = pod_after (granting_env snaps) h n st"
  by (induction n arbitrary: h st) (simp_all add: fetch_env_effect)

lemma createArgv_eq [simp]: "createArgv n s = createArgv n' s' \<longleftrightarrow> n = n' \<and> s = s'"
  by (auto simp: createArgv_def)

lemma fetch_env_creates: "kubectl_creates (fetch_env snaps) empty_pod"
  unfolding kubectl_creates_def fetch_env_after
  by (auto simp: fetch_env_def granting_env_def createArgv_def [THEN arg_cong [of _ _ "take 2"]] split: if_splits)

lemma fetch_env_exits: "failing_exits (env_proc (fetch_env snaps))"
  by (simp add: failing_exits_def fetch_env_def sample_proc_def)

lemma fetch_exits:
  "result (RunRestoreVolume (env_proc (fetch_env (\<lambda>_. map_of (snapshot_archives staged_dirs
      (trace (RunBackup sample_proc two_args) []))))) fetch_args) [] = 0"
  by code_simp

theorem manifest_roundtrip_witness:
  "let snaps = map_of (snapshot_archives staged_dirs (trace (RunBackup sample_proc two_args) [])); E = fetch_env (\<lambda>_. snaps)
   in \<exists>data ds. st_configMaps (pod_after E [] (trace (RunRestoreVolume (env_proc E) fetch_args) []) empty_pod) ''r-api'' = Some data \<and>
     ParseAPIManifests named_yaml (label data ''api.yaml'') ''copy'' = Inr ds \<and> list_all (planned_for ''copy'') ds \<and>
     map (\<lambda>d. (pd_Kind d, pd_Name d)) ds =
     map (\<lambda>m. (sub_str m ''kind'', sub_str (sub_obj m ''metadata'') ''name'')) [stripVolatile (d_obj one_doc)]"
proof -
  have sample_namespace: "b_ns sample_backup = ''app''" by code_simp
  have no_term: "default_termlog (\<lambda>_. '''') = ''/dev/termination-log''" by code_simp
  have backup: "agent_main (\<lambda>_. '''') (job_command (BuildBackupJob staged_spec)) = DoBackup two_args"
    using backup_job_runs [of staged_spec "\<lambda>_. ''''"] by (simp add: two_claims_def two_args_def no_term)
  have fetch: "agent_main (\<lambda>_. '''') (job_command (BuildAPIFetchJob logs_restore ''r-api'')) = DoRestoreVolume fetch_args"
    by (simp add: fetch_job_runs logs_restore_def fetch_args_def no_term del: job_command_builders)
  have ran: "result (RunBackup sample_proc two_args) [] = 0" by code_simp
  have served: "result (SerializeNamespace staging_world named_yaml (b_ns sample_backup)) [] = Inr (''web'' @ newline)"
    "result (stage archiving_R staging_world sample_backup) [] = Inr (bjs_StagingConfigMap staged_spec)"
    by code_simp+
  have rendered: "render named_yaml [one_doc] = Inr (''web'' @ newline)" by code_simp
  have read: "list_all named [stripVolatile (d_obj one_doc)]" "reads_back named_yaml [stripVolatile (d_obj one_doc)]"
    unfolding strip_one_doc by code_simp+
  have specs: "bjs_StagingConfigMap staged_spec \<noteq> ''''" "list_all (\<lambda>p. CHR '':'' \<notin> set p) (bjs_PVCs staged_spec)"
    "rjs_Ref logs_restore \<noteq> ''''" "\<not> HasPrefix (rjs_Ref logs_restore) ''--''" "''r-api'' \<noteq> ''''" "br_Serializer archiving_R = Some named_yaml"
    by (simp_all add: two_claims_def logs_restore_def HasPrefix_def)
  have dirs: "staged_dirs = (\<lambda>path. case config_at (BuildBackupJob staged_spec) path of
      Some c \<Rightarrow> the (cms_after staging_world [] (snd (run_state (stage archiving_R staging_world sample_backup) [])) Map.empty (b_ns sample_backup, c))
    | None \<Rightarrow> Map.empty)"
    unfolding staged_dirs_def sample_namespace by (rule refl)
  show ?thesis
    unfolding Let_def
    by (rule manifest_roundtrip [OF staging_world_serves specs(6) served(1) rendered sort_one_doc read served(2) specs(1) dirs specs(2)
          backup ran _ specs(3-5) fetch fetch_env_creates fetch_env_exits fetch_exits]) simp
qed

end
