(* ===== verification/Schedule_Controller.thy ===== *)
theory Schedule_Controller
  imports Controller_Common
begin

text \<open>
  The PBSSchedule reconciler (\<open>internal/controller/pbsschedule_controller.go\<close>).  The cron library
  is a parameter: parsing an expression gives an error or the function \<open>Next\<close>.  The catch-up loop
  of \<open>Reconcile\<close> may run for ever, so a reconcile returns an option, \<open>None\<close> for one that never
  returns.
\<close>

record cron_lib =
  cl_ParseStandard :: "string \<Rightarrow> string + (time \<Rightarrow> time)"
  cl_zone :: "time \<Rightarrow> int"

section \<open>Constants\<close>

definition reasonValid :: string where "reasonValid = ''Valid''"
definition reasonInvalidCron :: string where "reasonInvalidCron = ''InvalidCron''"
definition reasonRepoMissing :: string where "reasonRepoMissing = ''RepoMissing''"
definition reasonBackupMade :: string where "reasonBackupMade = ''BackupCreated''"
definition scheduleRequeueCap :: int where "scheduleRequeueCap = minute"

text \<open>\<open>Format(time.RFC3339)\<close> in a zone so many seconds east of UTC.\<close>

definition format_local :: "(time \<Rightarrow> int) \<Rightarrow> time \<Rightarrow> string" where
  "format_local zone t =
     (let off = zone t; a = \<bar>off\<bar> div 60; s = RFC3339 (Unix t + off)
      in if off = 0 then s
         else butlast s @ (if off < 0 then ''-'' else ''+'') @ pad0 2 (a div 60) @ '':'' @ pad0 2 (a mod 60))"

section \<open>The fire time\<close>

definition fire_base :: "PBSSchedule \<Rightarrow> time" where
  "fire_base s =
     (let base = om_creation (s_meta s)
      in case scs_lastSchedule (s_status s) of
           None \<Rightarrow> base
         | Some t \<Rightarrow> if t > base then t else base)"

text \<open>The catch-up loop: on to the last slot that is not after now.\<close>

partial_function (option) catch_up :: "(time \<Rightarrow> time) \<Rightarrow> time \<Rightarrow> time \<Rightarrow> time option" where
  "catch_up Next now fire =
     (let next = Next fire in if next > now then Some fire else catch_up Next now next)"

declare catch_up.simps [code]

text \<open>The slot that is due: \<open>Some None\<close> when none is, \<open>None\<close> when the loop does not end.\<close>

definition due_slot :: "(time \<Rightarrow> time) \<Rightarrow> time \<Rightarrow> time \<Rightarrow> time option option" where
  "due_slot Next base now =
     (let fire = Next base
      in if fire > now then Some None
         else (case catch_up Next now fire of None \<Rightarrow> None | Some f \<Rightarrow> Some (Some f)))"

section \<open>Recording the status\<close>

definition patchScheduleIfChanged :: "kube \<Rightarrow> PBSSchedule \<Rightarrow> PBSSchedule \<Rightarrow> gerr option kop" where
  "patchScheduleIfChanged K before after =
     (if s_status before = s_status after then State_Monad.return None
      else do_write K (PatchScheduleStatus (om_namespace (s_meta after)) (om_name (s_meta after)) (s_status after)))"

definition hold_schedule :: "kube \<Rightarrow> PBSSchedule \<Rightarrow> string \<Rightarrow> string \<Rightarrow> int \<Rightarrow> outcome kop" where
  "hold_schedule K s reason message wait = do {
     (conds, transitioned) \<leftarrow> observe (\<lambda>l. k_setCondition K l (scs_conditions (s_status s))
        ((new_condition CondFalse reason message)\<lparr>cond_generation := om_generation (s_meta s)\<rparr>));
     skipE (patchScheduleIfChanged K s (s\<lparr>s_status := (s_status s)\<lparr>scs_conditions := conds\<rparr>\<rparr>)) (do {
       (if transitioned then emit (Event ''PBSSchedule'' (om_name (s_meta s)) EventWarning reason '''' message)
        else State_Monad.return ());
       State_Monad.return (Inr (RequeueAfter wait))
     })
   }"

text \<open>The status to write, with its next fire time set.\<close>

definition patchSchedule :: "kube \<Rightarrow> cron_lib \<Rightarrow> PBSSchedule \<Rightarrow> PBSSchedule \<Rightarrow> time \<Rightarrow> gerr option kop" where
  "patchSchedule K C before s next =
     (let message = (if sch_suspend (s_spec s) then ''schedule is suspended; next fire ''
                     else ''schedule is valid; next fire '') @ format_local (cl_zone C) next
      in do {
        (conds, _) \<leftarrow> observe (\<lambda>l. k_setCondition K l (scs_conditions (s_status s))
           ((new_condition CondTrue reasonValid message)\<lparr>cond_generation := om_generation (s_meta s)\<rparr>));
        patchScheduleIfChanged K before (s\<lparr>s_status := (s_status s)\<lparr>scs_conditions := conds\<rparr>\<rparr>)
      })"

section \<open>Firing\<close>

definition slot_name :: "PBSSchedule \<Rightarrow> time \<Rightarrow> string" where
  "slot_name s fire = om_name (s_meta s) @ ''-'' @ Itoa (Unix fire)"

definition slot_backup :: "PBSSchedule \<Rightarrow> time \<Rightarrow> PBSBackup" where
  "slot_backup s fire =
     (let t = sch_template (s_spec s)
      in \<lparr>b_meta = new_meta (slot_name s fire) (om_namespace (s_meta s))
            [''pbsschedule'' \<mapsto> om_name (s_meta s)],
          b_spec = \<lparr>bs_repoRef = sch_repoRef (s_spec s), bs_pvcs = bt_pvcs t, bs_selector = bt_selector t,
            bs_notes = bt_notes t\<rparr>,
          b_status = empty_backup_status\<rparr>)"

definition fireBackup :: "kube \<Rightarrow> cron_lib \<Rightarrow> PBSSchedule \<Rightarrow> time \<Rightarrow> (gerr + bool) kop" where
  "fireBackup K C s fire =
     (let b = slot_backup s fire
      in case set_owner K ''PBSSchedule'' (s_meta s) (b_meta b) of
           Inl e \<Rightarrow> State_Monad.return (Inl e)
         | Inr m \<Rightarrow> do {
             err \<leftarrow> do_write K (CreateBackup (b\<lparr>b_meta := m\<rparr>));
             case err of
               Some e \<Rightarrow> State_Monad.return (if e = AlreadyExists then Inr False else Inl e)
             | None \<Rightarrow> do {
                 emit (Event ''PBSSchedule'' (om_name (s_meta s)) EventNormal reasonBackupMade ''''
                   (''created PBSBackup '' @ slot_name s fire @ '' for fire time '' @ format_local (cl_zone C) fire));
                 State_Monad.return (Inr True)
               }
           })"

definition active_names :: "PBSBackup list \<Rightarrow> string list" where
  "active_names bs = map b_name (filter (\<lambda>b. bst_phase (b_status b) \<noteq> BackupPhaseCompleted \<and>
     bst_phase (b_status b) \<noteq> BackupPhaseFailed) bs)"

definition activeBackups :: "kube \<Rightarrow> PBSSchedule \<Rightarrow> (gerr + string list) kop" where
  "activeBackups K s =
     bindE (list_backups K (om_namespace (s_meta s)) (''pbsschedule'', om_name (s_meta s)))
       (\<lambda>bs. State_Monad.return (Inr (active_names bs)))"

section \<open>Reconcile\<close>

text \<open>Step 3 with a due slot: fire unless suspended, and remember the slot.\<close>

definition fire_slot :: "kube \<Rightarrow> cron_lib \<Rightarrow> PBSSchedule \<Rightarrow> time option \<Rightarrow> (gerr + PBSSchedule) kop" where
  "fire_slot K C s due =
     (case due of
        None \<Rightarrow> State_Monad.return (Inr s)
      | Some fire \<Rightarrow>
          if sch_suspend (s_spec s) then State_Monad.return (Inr s)
          else bindE (fireBackup K C s fire) (\<lambda>_.
            State_Monad.return (Inr (s\<lparr>s_status := (s_status s)\<lparr>scs_lastSchedule := Some fire\<rparr>\<rparr>))))"

text \<open>Step 5: the wait, capped.\<close>

definition schedule_wait :: "time \<Rightarrow> time \<Rightarrow> int" where
  "schedule_wait next now =
     (let wait = next - now in if wait \<le> 0 \<or> wait > scheduleRequeueCap then scheduleRequeueCap else wait)"

text \<open>Steps 3 to 5 once the due slot is known.\<close>

definition serve_slot :: "kube \<Rightarrow> cron_lib \<Rightarrow> PBSSchedule \<Rightarrow> (time \<Rightarrow> time) \<Rightarrow> time \<Rightarrow> time option \<Rightarrow> outcome kop" where
  "serve_slot K C orig Next now due =
     bindE (fire_slot K C orig due) (\<lambda>s.
       let next = Next now; s = s\<lparr>s_status := (s_status s)\<lparr>scs_nextSchedule := Some next\<rparr>\<rparr>
       in bindE (activeBackups K s) (\<lambda>active.
          skipE (patchSchedule K C orig (s\<lparr>s_status := (s_status s)\<lparr>scs_active := active\<rparr>\<rparr>) next) (do {
            now' \<leftarrow> read_clock K;
            State_Monad.return (Inr (RequeueAfter (schedule_wait next now')))
          })))"

definition reconcile_schedule :: "kube \<Rightarrow> cron_lib \<Rightarrow> PBSSchedule \<Rightarrow> outcome option kop" where
  "reconcile_schedule K C s =
     (case cl_ParseStandard C (sch_schedule (s_spec s)) of
        Inl err \<Rightarrow> do {
          x \<leftarrow> hold_schedule K s reasonInvalidCron
            (''invalid cron expression '' @ Quote (sch_schedule (s_spec s)) @ '': '' @ err) (5 * minute);
          State_Monad.return (Some x)
        }
      | Inr Next \<Rightarrow> do {
          r \<leftarrow> get_repo K (sch_repoRef (s_spec s));
          case r of
            Inl e \<Rightarrow>
              if e = NotFound then do {
                x \<leftarrow> hold_schedule K s reasonRepoMissing
                  (''PBSRepo '' @ sch_repoRef (s_spec s) @ '' not found'') minute;
                State_Monad.return (Some x)
              } else State_Monad.return (Some (Inl e))
          | Inr repo \<Rightarrow>
              if \<not> k_conditionTrue K (rps_conditions (repo_status repo)) condReady then do {
                x \<leftarrow> hold_schedule K s reasonRepoMissing
                  (''PBSRepo '' @ om_name (repo_meta repo) @ '' is not Ready'') minute;
                State_Monad.return (Some x)
              } else do {
                now \<leftarrow> read_clock K;
                case due_slot Next (fire_base s) now of
                  None \<Rightarrow> State_Monad.return None
                | Some due \<Rightarrow> do {
                    x \<leftarrow> serve_slot K C s Next now due;
                    State_Monad.return (Some x)
                  }
              }
        })"

definition ScheduleReconcile :: "kube \<Rightarrow> cron_lib \<Rightarrow> string \<Rightarrow> string \<Rightarrow> outcome option kop" where
  "ScheduleReconcile K C ns name = do {
     r \<leftarrow> get_schedule K ns name;
     case r of Inl e \<Rightarrow> State_Monad.return (Some (IgnoreNotFound e)) | Inr s \<Rightarrow> reconcile_schedule K C s
   }"

end
