(* ===== verification/Schedule_Correct.thy ===== *)
theory Schedule_Correct
  imports Schedule_Controller
begin

text \<open>
  What the PBSSchedule reconciler promises: the catch-up loop finds the latest missed slot of any
  timetable, a reconcile creates at most one backup, of exactly that slot, and a slot is recorded
  only once its backup was created.  For an expression that never fires the loop does not end.
\<close>

section \<open>The catch-up loop\<close>

text \<open>The documented behaviour of \<open>Next\<close> for the slots \<open>S\<close> of a cron expression: the earliest slot
  after the given time.\<close>

definition timetable :: "time set \<Rightarrow> (time \<Rightarrow> time) \<Rightarrow> bool" where
  "timetable S Next \<longleftrightarrow> (\<forall>t. Next t \<in> S \<and> t < Next t \<and> (\<forall>u\<in>S. t < u \<longrightarrow> Next t \<le> u))"

lemma timetableD:
  assumes "timetable S Next"
  shows "Next t \<in> S" "t < Next t" "u \<in> S \<Longrightarrow> t < u \<Longrightarrow> Next t \<le> u"
  using assms by (auto simp: timetable_def)

lemma catch_up_latest:
  assumes "timetable S Next"
  shows "fire \<in> S \<Longrightarrow> fire \<le> now \<Longrightarrow>
    \<exists>f. catch_up Next now fire = Some f \<and> f \<in> S \<and> fire \<le> f \<and> f \<le> now \<and> (\<forall>u\<in>S. u \<le> now \<longrightarrow> u \<le> f)"
proof (induction "nat (now - fire)" arbitrary: fire rule: less_induct)
  case less
  note tt = timetableD(1,2) [OF assms, of fire]
  show ?case
  proof (cases "Next fire > now")
    case True
    have "u \<le> fire" if "u \<in> S" "u \<le> now" for u
      using timetableD(3) [OF assms that(1), of fire] that(2) True by linarith
    with True less.prems show ?thesis by (subst catch_up.simps) auto
  next
    case False
    with tt(2) less.prems have "nat (now - Next fire) < nat (now - fire)" by simp
    from less.hyps [OF this tt(1)] False obtain f where
      "catch_up Next now (Next fire) = Some f" "f \<in> S" "Next fire \<le> f" "f \<le> now" "\<forall>u\<in>S. u \<le> now \<longrightarrow> u \<le> f"
      by auto
    with False tt(2) show ?thesis by (subst catch_up.simps) auto
  qed
qed

text \<open>An expression without any slot: \<open>Next\<close> answers the zero time, and the loop never ends.\<close>

lemma catch_up_stuck: "catch_up (\<lambda>_. z) now fire = Some f \<Longrightarrow> now < z"
proof -
  have "Next = (\<lambda>_. z) \<longrightarrow> now < z" if "catch_up Next now fire = Some f" for Next
  proof (rule catch_up.raw_induct [where P = "\<lambda>Next now fire f. Next = (\<lambda>_. z) \<longrightarrow> now < z", OF _ that])
    fix rec Next and now fire f :: time
    assume "\<And>Next now fire f. rec Next now fire = Some f \<Longrightarrow> Next = (\<lambda>_. z) \<longrightarrow> now < z"
      "(let next = Next fire in if now < next then Some fire else rec Next now next) = Some f"
    then show "Next = (\<lambda>_. z) \<longrightarrow> now < z" by (cases "now < z") (auto simp: Let_def)
  qed
  then show "catch_up (\<lambda>_. z) now fire = Some f \<Longrightarrow> now < z" by blast
qed

lemma due_slot_latest_lemma:
  assumes "timetable S Next"
  shows "\<exists>d. due_slot Next base now = Some d \<and>
    (case d of
       None \<Rightarrow> \<forall>u\<in>S. base < u \<longrightarrow> now < u
     | Some f \<Rightarrow> f \<in> S \<and> base < f \<and> f \<le> now \<and> (\<forall>u\<in>S. u \<le> now \<longrightarrow> u \<le> f))"
proof (cases "Next base > now")
  case True
  with timetableD(3) [OF assms, of _ base] show ?thesis by (force simp: due_slot_def)
next
  case False
  with catch_up_latest [OF assms timetableD(1) [OF assms], of base now] timetableD(2) [OF assms, of base]
  show ?thesis by (auto simp: due_slot_def)
qed

section \<open>The contract of one reconcile\<close>

definition due_fire :: "kube \<Rightarrow> cron_lib \<Rightarrow> PBSSchedule \<Rightarrow> time \<Rightarrow> bool" where
  "due_fire K C s f \<longleftrightarrow> (\<exists>Next hist. cl_ParseStandard C (sch_schedule (s_spec s)) = Inr Next \<and>
     due_slot Next (fire_base s) (k_now K hist) = Some (Some f))"

definition slot_created :: "kube \<Rightarrow> PBSSchedule \<Rightarrow> time \<Rightarrow> PBSBackup \<Rightarrow> bool" where
  "slot_created K s f b \<longleftrightarrow> (\<exists>m. b = (slot_backup s f)\<lparr>b_meta := m\<rparr> \<and>
     set_owner K ''PBSSchedule'' (s_meta s) (b_meta (slot_backup s f)) = Inr m)"

fun schedule_write :: "kube \<Rightarrow> cron_lib \<Rightarrow> PBSSchedule \<Rightarrow> kwrite \<Rightarrow> bool" where
  "schedule_write K C s (CreateBackup b) \<longleftrightarrow>
     \<not> sch_suspend (s_spec s) \<and> (\<exists>f. due_fire K C s f \<and> slot_created K s f b)"
| "schedule_write K C s (PatchScheduleStatus ns n st) \<longleftrightarrow>
     ns = om_namespace (s_meta s) \<and> n = om_name (s_meta s)"
| "schedule_write K C s _ \<longleftrightarrow> False"

fun schedule_call :: "kube \<Rightarrow> cron_lib \<Rightarrow> PBSSchedule \<Rightarrow> kcall \<Rightarrow> bool" where
  "schedule_call K C s (Write w) \<longleftrightarrow> schedule_write K C s w"
| "schedule_call K C s (ExecHook ns p ct cmd t) \<longleftrightarrow> False"
| "schedule_call K C s (Http r) \<longleftrightarrow> False"
| "schedule_call K C s _ \<longleftrightarrow> True"

fun creates_backup :: "kcall \<Rightarrow> bool" where
  "creates_backup (Write (CreateBackup b)) \<longleftrightarrow> True"
| "creates_backup _ \<longleftrightarrow> False"

text \<open>The last slot a patch records is the old one or one whose backup was created before.\<close>

definition records_served :: "PBSSchedule \<Rightarrow> kcall list \<Rightarrow> bool" where
  "records_served s calls \<longleftrightarrow>
     (\<forall>ns n st. Write (PatchScheduleStatus ns n st) \<in> set calls \<longrightarrow>
        scs_lastSchedule st = scs_lastSchedule (s_status s) \<or>
        (\<exists>f b. scs_lastSchedule st = Some f \<and> Write (CreateBackup b) \<in> set calls \<and> b_name b = slot_name s f))"

definition good_wait :: "outcome option \<Rightarrow> bool" where
  "good_wait x \<longleftrightarrow> (case x of Some (Inr NoRequeue) \<Rightarrow> False
     | Some (Inr (RequeueAfter w)) \<Rightarrow> 0 < w \<and> w \<le> 5 * minute | _ \<Rightarrow> True)"

definition schedule_run :: "kube \<Rightarrow> cron_lib \<Rightarrow> PBSSchedule \<Rightarrow> kcall list \<Rightarrow> bool" where
  "schedule_run K C s calls \<longleftrightarrow> list_all (schedule_call K C s) calls \<and>
     length (filter creates_backup calls) \<le> 1 \<and> records_served s calls"

lemma schedule_run_Nil [simp]: "schedule_run K C s []"
  by (simp add: schedule_run_def records_served_def)

lemma schedule_run_Cons [simp]:
  "schedule_run K C s (Read r # cs) \<longleftrightarrow> schedule_run K C s cs"
  "schedule_run K C s (Clock # cs) \<longleftrightarrow> schedule_run K C s cs"
  "schedule_run K C s (Event a b c d e f # cs) \<longleftrightarrow> schedule_run K C s cs"
  by (simp_all add: schedule_run_def records_served_def)

lemma schedule_run_patch:
  "scs_lastSchedule st = scs_lastSchedule (s_status s) \<Longrightarrow> schedule_run K C s cs \<Longrightarrow>
   schedule_run K C s (Write (PatchScheduleStatus (om_namespace (s_meta s)) (om_name (s_meta s)) st) # cs)"
  by (auto simp: schedule_run_def records_served_def)

lemma schedule_wait_range: "0 < schedule_wait next now \<and> schedule_wait next now \<le> 5 * minute"
  by (auto simp: schedule_wait_def Let_def scheduleRequeueCap_def minute_def second_def)

lemma hold_schedule_gives:
  assumes "0 < w" "w \<le> 5 * minute"
  shows "gives (\<lambda>x n. schedule_run K C s n \<and> good_wait (Some x)) (hold_schedule K s reason message w)"
  unfolding hold_schedule_def patchScheduleIfChanged_def do_write_def emit_def skipE_def
  using assms
  by (auto intro!: gives_rules gives_invoke schedule_run_patch simp: good_wait_def split_beta)

text \<open>What firing the due slot leaves: nothing, or the creation of the slot's backup.\<close>

definition served :: "kube \<Rightarrow> cron_lib \<Rightarrow> PBSSchedule \<Rightarrow> PBSSchedule \<Rightarrow> kcall list \<Rightarrow> bool" where
  "served K C s s' calls \<longleftrightarrow> s_spec s' = s_spec s \<and> s_meta s' = s_meta s \<and>
     (s' = s \<and> calls = [] \<or>
      (\<exists>f b evs. scs_lastSchedule (s_status s') = Some f \<and> due_fire K C s f \<and> slot_created K s f b \<and>
         \<not> sch_suspend (s_spec s) \<and> calls = Write (CreateBackup b) # evs \<and> schedule_run K C s evs \<and>
         list_all (\<lambda>c. \<not> is_write c) evs))"

definition fired :: "kube \<Rightarrow> cron_lib \<Rightarrow> PBSSchedule \<Rightarrow> (gerr + PBSSchedule) \<Rightarrow> kcall list \<Rightarrow> bool" where
  "fired K C s x calls \<longleftrightarrow> schedule_run K C s calls \<and> (\<forall>s'. x = Inr s' \<longrightarrow> served K C s s' calls)"

lemma fired_create:
  assumes "due_fire K C s f" "slot_created K s f b" "\<not> sch_suspend (s_spec s)" "list_all (\<lambda>c. \<not> is_write c) evs"
    "schedule_run K C s evs"
  shows "schedule_run K C s (Write (CreateBackup b) # evs)"
    "served K C s (s\<lparr>s_status := (s_status s)\<lparr>scs_lastSchedule := Some f\<rparr>\<rparr>) (Write (CreateBackup b) # evs)"
proof -
  have none: "filter creates_backup evs = []"
  proof -
    have "\<not> is_write c \<Longrightarrow> \<not> creates_backup c" for c
      by (cases c rule: creates_backup.cases) (simp_all add: is_write_def)
    with assms(4) show ?thesis by (auto simp: filter_empty_conv list_all_iff)
  qed
  have "records_served s (Write (CreateBackup b) # evs)"
    using assms(4) by (auto simp: records_served_def list_all_iff is_write_def)
  with assms none show "schedule_run K C s (Write (CreateBackup b) # evs)"
    by (auto simp: schedule_run_def)
  show "served K C s (s\<lparr>s_status := (s_status s)\<lparr>scs_lastSchedule := Some f\<rparr>\<rparr>) (Write (CreateBackup b) # evs)"
    unfolding served_def using assms by simp
qed

lemma fire_slot_gives:
  assumes "\<forall>f. due = Some f \<longrightarrow> due_fire K C s f"
  shows "gives (fired K C s) (fire_slot K C s due)"
proof (cases due)
  case None
  then show ?thesis
    by (auto simp: fire_slot_def fired_def served_def intro!: gives_rules)
next
  case (Some f)
  show ?thesis
  proof (cases "set_owner K ''PBSSchedule'' (s_meta s) (b_meta (slot_backup s f))")
    case (Inl e)
    with Some show ?thesis
      by (auto simp: fire_slot_def fireBackup_def bindE_def fired_def served_def Let_def intro!: gives_rules)
  next
    case (Inr m)
    let ?b = "(slot_backup s f)\<lparr>b_meta := m\<rparr>"
    have b: "slot_created K s f ?b" using Inr by (auto simp: slot_created_def)
    have due: "due_fire K C s f" using assms Some by simp
    have nw: "\<not> is_write (Event a c d e g h)" for a c d e g h by (simp add: is_write_def)
    show ?thesis
    proof (cases "sch_suspend (s_spec s)")
      case True
      with Some show ?thesis by (auto simp: fire_slot_def fired_def served_def intro!: gives_rules)
    next
      case False
      note cr = fired_create [OF due b False]
      have g: "gives (\<lambda>x n. (\<exists>evs. n = Write (CreateBackup ?b) # evs \<and> list_all (\<lambda>c. \<not> is_write c) evs \<and>
          schedule_run K C s evs)) (fireBackup K C s f)"
        unfolding fireBackup_def Let_def Inr do_write_def emit_def
        by (simp, intro gives_rules gives_invoke) (auto simp: nw)
      show ?thesis unfolding fire_slot_def Some
        by (simp add: False, rule gives_bindE [OF g]) (auto simp: fired_def cr intro!: gives_rules)
    qed
  qed
qed

lemma slot_created_name: "slot_created K s f b \<Longrightarrow> b_name b = slot_name s f"
  by (auto simp: slot_created_def slot_backup_def Let_def dest!: set_owner_fields)

text \<open>The rest of the reconcile appends reads, the clock and one patch.\<close>

lemma schedule_run_patched:
  assumes run: "served K C s s' calls" "schedule_run K C s calls"
    and st: "scs_lastSchedule st = scs_lastSchedule (s_status s')"
  shows "schedule_run K C s (calls @ Read r # Write (PatchScheduleStatus (om_namespace (s_meta s)) (om_name (s_meta s)) st) # Clock # [])"
    and "schedule_run K C s (calls @ [Read r])" and "schedule_run K C s (calls @ [Read r, Clock])"
    and "schedule_run K C s (calls @ [Read r, Write (PatchScheduleStatus (om_namespace (s_meta s)) (om_name (s_meta s)) st)])"
proof -
  have rec: "scs_lastSchedule st = scs_lastSchedule (s_status s) \<or>
      (\<exists>f b. scs_lastSchedule st = Some f \<and> Write (CreateBackup b) \<in> set calls \<and> b_name b = slot_name s f)"
    using run(1) st unfolding served_def by (fastforce dest: slot_created_name)
  then have rec': "records_served s (calls @ [Write (PatchScheduleStatus (om_namespace (s_meta s)) (om_name (s_meta s)) st)])"
    using run(2) unfolding schedule_run_def records_served_def by fastforce
  show "schedule_run K C s (calls @ Read r # Write (PatchScheduleStatus (om_namespace (s_meta s)) (om_name (s_meta s)) st) # Clock # [])"
    "schedule_run K C s (calls @ [Read r, Write (PatchScheduleStatus (om_namespace (s_meta s)) (om_name (s_meta s)) st)])"
    using run(2) rec' by (auto simp: schedule_run_def records_served_def)
  show "schedule_run K C s (calls @ [Read r])" "schedule_run K C s (calls @ [Read r, Clock])"
    using run(2) by (auto simp: schedule_run_def records_served_def)
qed

lemma good_wait_simps [simp]:
  "good_wait None" "good_wait (Some (Inl e))" "\<not> good_wait (Some (Inr NoRequeue))"
  "good_wait (Some (Inr (RequeueAfter w))) \<longleftrightarrow> 0 < w \<and> w \<le> 5 * minute"
  by (simp_all add: good_wait_def)

lemma activeBackups_gives:
  "gives (\<lambda>_ n. n = [Read (ListBackups (om_namespace (s_meta s)) (''pbsschedule'', om_name (s_meta s)))]) (activeBackups K s)"
  unfolding activeBackups_def list_backups_def by (intro gives_rules) (simp_all add: gives_return)

lemma patchSchedule_gives:
  "gives (\<lambda>_ n. n = [] \<or> (\<exists>st. scs_lastSchedule st = scs_lastSchedule (s_status s) \<and>
      n = [Write (PatchScheduleStatus (om_namespace (s_meta s)) (om_name (s_meta s)) st)]))
    (patchSchedule K C before s next)"
  unfolding patchSchedule_def patchScheduleIfChanged_def do_write_def Let_def
  by (intro gives_rules gives_bind_observe) (auto intro!: gives_rules gives_invoke split: prod.split)

lemma serve_slot_gives:
  assumes "\<forall>f. due = Some f \<longrightarrow> due_fire K C s f"
  shows "gives (\<lambda>x n. schedule_run K C s n \<and> good_wait (Some x)) (serve_slot K C s Next now due)"
  unfolding serve_slot_def Let_def
proof (rule gives_bindE [OF fire_slot_gives [OF assms]], goal_cases)
  case (1 e n)
  then show ?case by (simp add: fired_def)
next
  case (2 s' n)
  then have s': "served K C s s' n" and n: "schedule_run K C s n" by (simp_all add: fired_def)
  then have same: "s_meta s' = s_meta s" by (simp add: served_def)
  note ends = schedule_run_patched [OF s' n] and r = schedule_run_patched(2) [OF s' n refl]
  show ?case
  proof (rule gives_bindE [OF activeBackups_gives], goal_cases)
    case (1 e n')
    then show ?case by (simp add: r)
  next
    case (2 active n')
    show ?case
      unfolding skipE_def read_clock_def
      by (rule gives_bind [OF patchSchedule_gives])
        (auto simp: 2 same ends r schedule_wait_range split: option.split intro!: gives_rules)
  qed
qed

definition catches_up :: "cron_lib \<Rightarrow> PBSSchedule \<Rightarrow> bool" where
  "catches_up C s \<longleftrightarrow> (\<forall>Next now. cl_ParseStandard C (sch_schedule (s_spec s)) = Inr Next \<longrightarrow>
     due_slot Next (fire_base s) now \<noteq> None)"

lemma reconcile_schedule_gives:
  "gives (\<lambda>x n. schedule_run K C s n \<and> good_wait x \<and> (catches_up C s \<longrightarrow> x \<noteq> None)) (reconcile_schedule K C s)"
proof -
  have five: "0 < 5 * minute" "0 < minute" "minute \<le> 5 * minute" by (simp_all add: minute_def second_def)
  have ret: "gives (\<lambda>x n. schedule_run K C s n \<and> good_wait (Some x)) m \<Longrightarrow>
      gives (\<lambda>x n. schedule_run K C s n \<and> good_wait x \<and> (catches_up C s \<longrightarrow> x \<noteq> None))
        (State_Monad.bind m (\<lambda>x. State_Monad.return (Some x)))" for m
    by (erule gives_bind) (simp add: gives_return)
  have serve: "gives (\<lambda>x n. schedule_run K C s n \<and> good_wait x \<and> (catches_up C s \<longrightarrow> x \<noteq> None))
      (case due_slot Next (fire_base s) (k_now K l) of None \<Rightarrow> State_Monad.return None
       | Some due \<Rightarrow> do { x \<leftarrow> serve_slot K C s Next (k_now K l) due; State_Monad.return (Some x) })"
    if "cl_ParseStandard C (sch_schedule (s_spec s)) = Inr Next" for Next l
  proof (cases "due_slot Next (fire_base s) (k_now K l)")
    case None
    with that have "\<not> catches_up C s" unfolding catches_up_def by blast
    with None show ?thesis by (simp add: gives_return)
  next
    case (Some due)
    with that have "\<forall>f. due = Some f \<longrightarrow> due_fire K C s f" by (auto simp: due_fire_def)
    from ret [OF serve_slot_gives [OF this]] Some show ?thesis by simp
  qed
  show ?thesis
  proof (cases "cl_ParseStandard C (sch_schedule (s_spec s))")
    case (Inl e)
    then show ?thesis by (auto simp: reconcile_schedule_def five simp del: not_None_eq intro!: ret hold_schedule_gives)
  next
    case (Inr Next)
    have "gives (\<lambda>x n. schedule_run K C s (Clock # n) \<and> good_wait x \<and> (catches_up C s \<longrightarrow> x \<noteq> None))
        (case due_slot Next (fire_base s) (k_now K l) of None \<Rightarrow> State_Monad.return None
         | Some due \<Rightarrow> do { x \<leftarrow> serve_slot K C s Next (k_now K l) due; State_Monad.return (Some x) })" for l
      using serve [OF Inr] by simp
    then show ?thesis
      unfolding reconcile_schedule_def get_repo_def read_clock_def
      by (auto simp: Inr five simp del: not_None_eq intro!: gives_bind_call gives_case_sum gives_if gives_return ret hold_schedule_gives
          gives_bind_answer [where c = Clock])
  qed
qed

lemma ScheduleReconcile_run:
  assumes "k_schedule K l ns n = Inr s"
  shows "schedule_run K C s (trace (ScheduleReconcile K C ns n) l) \<and> good_wait (result (ScheduleReconcile K C ns n) l) \<and>
    (catches_up C s \<longrightarrow> result (ScheduleReconcile K C ns n) l \<noteq> None)"
proof -
  note rest = givesD [OF reconcile_schedule_gives [of K C s], of "l @ [Read (GetSchedule ns n)]"]
  have "trace (ScheduleReconcile K C ns n) l =
      Read (GetSchedule ns n) # trace (reconcile_schedule K C s) (l @ [Read (GetSchedule ns n)])"
    using rest assms by (simp add: ScheduleReconcile_def get_schedule_def trace_def) (metis append_Cons append_assoc append_eq_conv_conj append_Nil)
  moreover have "result (ScheduleReconcile K C ns n) l = result (reconcile_schedule K C s) (l @ [Read (GetSchedule ns n)])"
    using assms by (simp add: ScheduleReconcile_def get_schedule_def result_def)
  ultimately show ?thesis using rest by simp
qed

lemma slot_name_inj: "slot_name s f = slot_name s f' \<longleftrightarrow> Unix f = Unix f'"
  by (auto simp: slot_name_def dest: Itoa_inj)

section \<open>The properties\<close>

text \<open>C24: catching up always ends and finds the right slot: for every timetable of cron slots, every
  base and every now, the due slot is the latest slot up to now when one came after the base, and
  there is none otherwise.\<close>

theorem due_slot_latest:
  assumes "timetable S Next"
  shows "\<exists>d. due_slot Next base now = Some d \<and>
    (case d of
       None \<Rightarrow> \<forall>u\<in>S. base < u \<longrightarrow> now < u
     | Some f \<Rightarrow> f \<in> S \<and> base < f \<and> f \<le> now \<and> (\<forall>u\<in>S. u \<le> now \<longrightarrow> u \<le> f))"
  using due_slot_latest_lemma [OF assms] .

text \<open>C15: a schedule creates only what it should: the backup of the latest slot that is due, which
  is after both the schedule's creation and its last served slot, never while suspended, under the
  name that identifies the slot, labelled, in the schedule's namespace and with the template's
  specification.\<close>

theorem schedule_creates_latest_slot:
  assumes "k_schedule K l ns n = Inr s" "Write (CreateBackup b) \<in> set (trace (ScheduleReconcile K C ns n) l)"
    and "\<forall>Next. cl_ParseStandard C (sch_schedule (s_spec s)) = Inr Next \<longrightarrow> timetable S Next"
  shows "\<not> sch_suspend (s_spec s) \<and>
    (\<exists>f hist. f \<in> S \<and> om_creation (s_meta s) < f \<and> (\<forall>t. scs_lastSchedule (s_status s) = Some t \<longrightarrow> t < f) \<and>
       f \<le> k_now K hist \<and> (\<forall>u\<in>S. u \<le> k_now K hist \<longrightarrow> u \<le> f) \<and>
       b_name b = om_name (s_meta s) @ ''-'' @ Itoa (Unix f)) \<and>
    b_ns b = om_namespace (s_meta s) \<and> om_labels (b_meta b) ''pbsschedule'' = Some (om_name (s_meta s)) \<and>
    bs_repoRef (b_spec b) = sch_repoRef (s_spec s) \<and> bs_pvcs (b_spec b) = bt_pvcs (sch_template (s_spec s)) \<and>
    bs_selector (b_spec b) = bt_selector (sch_template (s_spec s)) \<and>
    bs_notes (b_spec b) = bt_notes (sch_template (s_spec s))"
proof -
  from ScheduleReconcile_run [OF assms(1), of C] assms(2)
  have "schedule_call K C s (Write (CreateBackup b))" by (auto simp: schedule_run_def list_all_iff)
  then obtain f where f: "\<not> sch_suspend (s_spec s)" "due_fire K C s f" "slot_created K s f b" by auto
  then obtain Next hist where N: "cl_ParseStandard C (sch_schedule (s_spec s)) = Inr Next"
    "due_slot Next (fire_base s) (k_now K hist) = Some (Some f)" by (auto simp: due_fire_def)
  with assms(3) have "timetable S Next" by blast
  from due_slot_latest_lemma [OF this, of "fire_base s" "k_now K hist"] N(2)
  have slot: "f \<in> S" "fire_base s < f" "f \<le> k_now K hist" "\<forall>u\<in>S. u \<le> k_now K hist \<longrightarrow> u \<le> f" by auto
  have "om_creation (s_meta s) < f" "\<forall>t. scs_lastSchedule (s_status s) = Some t \<longrightarrow> t < f"
    using slot(2) by (auto simp: fire_base_def Let_def split: option.splits if_splits)
  with slot have "\<exists>f hist. f \<in> S \<and> om_creation (s_meta s) < f \<and> (\<forall>t. scs_lastSchedule (s_status s) = Some t \<longrightarrow> t < f) \<and>
       f \<le> k_now K hist \<and> (\<forall>u\<in>S. u \<le> k_now K hist \<longrightarrow> u \<le> f) \<and>
       b_name b = om_name (s_meta s) @ ''-'' @ Itoa (Unix f)"
    using slot_created_name [OF f(3)] unfolding slot_name_def by blast
  moreover have "b_ns b = om_namespace (s_meta s) \<and> om_labels (b_meta b) ''pbsschedule'' = Some (om_name (s_meta s)) \<and>
    bs_repoRef (b_spec b) = sch_repoRef (s_spec s) \<and> bs_pvcs (b_spec b) = bt_pvcs (sch_template (s_spec s)) \<and>
    bs_selector (b_spec b) = bt_selector (sch_template (s_spec s)) \<and> bs_notes (b_spec b) = bt_notes (sch_template (s_spec s))"
    using f(3) by (auto simp: slot_created_def slot_backup_def Let_def dest!: set_owner_fields)
  ultimately show ?thesis using f(1) by blast
qed


text \<open>C33: a cron expression that parses but never fires hangs the controller: when \<open>Next\<close> answers
  the zero time, which is before every clock reading, the reconcile of a schedule with a Ready
  repository never returns, suspended or not.\<close>

theorem schedule_never_returns:
  assumes "k_schedule K l ns n = Inr s" "cl_ParseStandard C (sch_schedule (s_spec s)) = Inr (\<lambda>_. zero_time)"
    and "\<forall>l. k_repo K l (sch_repoRef (s_spec s)) = Inr repo"
    and "k_conditionTrue K (rps_conditions (repo_status repo)) condReady" "\<forall>l. zero_time \<le> k_now K l"
  shows "result (ScheduleReconcile K C ns n) l = None"
proof -
  have "catch_up (\<lambda>_. zero_time) (k_now K l) zero_time = None" for l
    using catch_up_stuck [of zero_time "k_now K l" zero_time] assms(5)
    by (meson leD not_None_eq)
  with assms(5) have "due_slot (\<lambda>_. zero_time) base (k_now K l) = None" for base l
    by (simp add: due_slot_def not_less)
  with assms(1-4) show ?thesis
    by (simp add: ScheduleReconcile_def reconcile_schedule_def result_def client_defs)
qed

end
