(* ===== verification/Schedule_Examples.thy ===== *)
theory Schedule_Examples
  imports Schedule_Correct
begin

text \<open>
  The schedule's properties at a concrete schedule: every minute, created at the epoch, read ten
  minutes later with its repository Ready.
\<close>

definition every_minute :: "time \<Rightarrow> time" where
  "every_minute t = (t div minute + 1) * minute"

definition sample_cron :: "string \<Rightarrow> cron_lib" where
  "sample_cron never = \<lparr>cl_ParseStandard = (\<lambda>e. if e = never then Inr (\<lambda>_. zero_time) else Inr every_minute), cl_zone = (\<lambda>_. 0)\<rparr>"

definition sample_schedule :: PBSSchedule where
  "sample_schedule = \<lparr>s_meta = (new_meta ''nightly'' ''app'' Map.empty)\<lparr>om_creation := 0\<rparr>,
     s_spec = \<lparr>sch_repoRef = ''main'', sch_schedule = ''* * * * *'',
       sch_template = \<lparr>bt_pvcs = [''data''], bt_selector = None, bt_notes = ''keep''\<rparr>, sch_suspend = False\<rparr>,
     s_status = \<lparr>scs_lastSchedule = None, scs_nextSchedule = None, scs_active = [], scs_conditions = []\<rparr>\<rparr>"

definition ready_repo :: PBSRepo where
  "ready_repo = \<lparr>repo_meta = new_meta ''main'' '''' Map.empty,
     repo_spec = \<lparr>rp_host = ''pbs'', rp_port = 8007, rp_datastore = ''ds'', rp_namespace = ''k8s'', rp_fingerprint = '''',
       rp_secretRef = \<lparr>ref_name = ''creds'', ref_namespace = ''''\<rparr>, rp_bootstrapRef = \<lparr>ref_name = '''', ref_namespace = ''''\<rparr>\<rparr>,
     repo_status = \<lparr>rps_conditions = [\<lparr>cond_type = condReady, cond_status = CondTrue, cond_reason = ''Ready'',
       cond_message = '''', cond_generation = 0, cond_transition = 0\<rparr>], rps_lastProbe = None\<rparr>\<rparr>"

definition schedule_world :: kube where
  "schedule_world = empty_world\<lparr>k_now := (\<lambda>_. 10 * minute), k_schedule := (\<lambda>_ _ _. Inr sample_schedule),
     k_repo := (\<lambda>_ _. Inr ready_repo)\<rparr>"

lemma every_minute_timetable: "timetable {t. t mod minute = 0} every_minute"
proof -
  have m: "minute > 0" by (simp add: minute_def second_def)
  have "t < every_minute t" for t
  proof -
    have "t div minute * minute + t mod minute = t" by simp
    moreover have "t mod minute < minute" using m by simp
    moreover have "every_minute t = t div minute * minute + minute" by (simp add: every_minute_def distrib_right)
    ultimately show ?thesis by linarith
  qed
  moreover have "every_minute t \<le> u" if "u mod minute = 0" "t < u" for t u
  proof -
    have u: "u = (u div minute) * minute" using that(1) div_mult_mod_eq [of u minute] by simp
    have "(t div minute) * minute \<le> t" using div_mult_mod_eq [of t minute] pos_mod_sign [OF m, of t] by linarith
    with that(2) u have "(t div minute) * minute < (u div minute) * minute" by linarith
    with m have "t div minute < u div minute" by (simp add: mult_less_cancel_right_pos)
    then have "(t div minute + 1) * minute \<le> (u div minute) * minute"
      using m by (intro mult_right_mono) simp_all
    with u show ?thesis by (simp add: every_minute_def)
  qed
  ultimately show ?thesis by (auto simp: timetable_def every_minute_def)
qed

lemma sample_timetable:
  "\<forall>Next. cl_ParseStandard (sample_cron '''') (sch_schedule (s_spec sample_schedule)) = Inr Next \<longrightarrow>
     timetable {t. t mod minute = 0} Next"
  by (simp add: sample_cron_def sample_schedule_def every_minute_timetable)

lemma sample_schedule_read: "k_schedule schedule_world l ns n = Inr sample_schedule"
  by (simp add: schedule_world_def)

lemma due_slot_latest_witness:
  "due_slot every_minute 30 (10 * minute + 5) \<noteq> None"
  using due_slot_latest [OF every_minute_timetable, of 30 "10 * minute + 5"] by auto

lemma sample_schedule_fires:
  "filter creates_backup (trace (ScheduleReconcile schedule_world (sample_cron '''') ''app'' ''nightly'') []) \<noteq> []"
  by code_simp

lemma creates_backupE: "creates_backup c \<Longrightarrow> (\<And>b. c = Write (CreateBackup b) \<Longrightarrow> thesis) \<Longrightarrow> thesis"
  by (cases c rule: creates_backup.cases) auto

lemma schedule_creates_latest_slot_witness:
  "\<exists>b. Write (CreateBackup b) \<in> set (trace (ScheduleReconcile schedule_world (sample_cron '''') ''app'' ''nightly'') []) \<and>
     b_ns b = ''app'' \<and> bs_pvcs (b_spec b) = [''data'']"
proof -
  let ?t = "trace (ScheduleReconcile schedule_world (sample_cron '''') ''app'' ''nightly'') []"
  obtain b where b: "Write (CreateBackup b) \<in> set ?t"
    using sample_schedule_fires by (auto simp: filter_empty_conv elim: creates_backupE)
  from schedule_creates_latest_slot [OF sample_schedule_read this sample_timetable] b show ?thesis
    by (auto simp: sample_schedule_def)
qed


lemma schedule_never_returns_witness:
  "result (ScheduleReconcile schedule_world (sample_cron ''* * * * *'') ''app'' ''nightly'') [] = None"
  by (rule schedule_never_returns [OF sample_schedule_read, where repo = ready_repo])
    (simp_all add: sample_cron_def sample_schedule_def schedule_world_def empty_world_def condition_true_def
      ready_repo_def zero_time_def minute_def second_def)

end
