(* ===== verification/Repo_Controller.thy ===== *)
theory Repo_Controller
  imports Controller_Common Pbs_Client
begin

text \<open>
  The PBSRepo reconciler (\<open>internal/controller/pbsrepo_controller.go\<close>): the credentials from the
  referenced Secret and the spec, the ping of the server, the optional bootstrap of the namespace,
  and the Ready condition.
\<close>

section \<open>Constants\<close>

definition reasonReachable :: string where "reasonReachable = ''Reachable''"
definition reasonUnreachable :: string where "reasonUnreachable = ''Unreachable''"
definition reasonSecretMissing :: string where "reasonSecretMissing = ''SecretMissing''"
definition reasonBootstrapFailed :: string where "reasonBootstrapFailed = ''BootstrapFailed''"
definition requeueFailure :: int where "requeueFailure = 2 * minute"
definition requeueSteady :: int where "requeueSteady = 5 * minute"
definition lastProbeFreshFor :: int where "lastProbeFreshFor = minute"
definition defaultPort :: int where "defaultPort = 8007"

section \<open>Credentials\<close>

record repoCreds =
  rc_tokenID :: string
  rc_tokenSecret :: string
  rc_fingerprint :: string
  rc_host :: string
  rc_port :: int
  rc_datastore :: string
  rc_namespace :: string

definition pick :: "string \<Rightarrow> string \<Rightarrow> string" where
  "pick crValue secretValue = (if crValue \<noteq> '''' then crValue else secretValue)"

definition fetchSecret :: "kube \<Rightarrow> secret_ref \<Rightarrow> (gerr + string + secret) kop" where
  "fetchSecret K ref =
     (if ref_name ref = '''' then State_Monad.return (Inr (Inl ''secretRef.name is empty''))
      else
        let ns = (if ref_namespace ref = '''' then operatorNamespace K else ref_namespace ref)
        in do {
          r \<leftarrow> get_secret K ns (ref_name ref);
          State_Monad.return (case r of
            Inl e \<Rightarrow> if e = NotFound then Inr (Inl (''secret '' @ ns @ ''/'' @ ref_name ref @ '' not found''))
                     else Inl e
          | Inr s \<Rightarrow> Inr (Inr s))
        })"

text \<open>The keys a secret must have, given the fingerprint of the spec.\<close>

definition missing_keys :: "PBSRepoSpec \<Rightarrow> secret \<Rightarrow> string list" where
  "missing_keys spec s =
     filter (\<lambda>k. label (sec_data s) k = '''') [''tokenID'', ''tokenSecret''] @
     (if rp_fingerprint spec = '''' \<and> label (sec_data s) ''fingerprint'' = ''''
      then [''fingerprint (or spec.fingerprint)''] else [])"

definition resolve_port :: "PBSRepoSpec \<Rightarrow> secret \<Rightarrow> string + int" where
  "resolve_port spec s =
     (if rp_port spec \<noteq> 0 then Inr (rp_port spec)
      else
        let v = label (sec_data s) ''port''
        in if v = '''' then Inr defaultPort
           else (case Atoi v of
             None \<Rightarrow> Inl (''secret '' @ om_namespace (sec_meta s) @ ''/'' @ om_name (sec_meta s) @
               '': invalid port '' @ Quote v)
           | Some p \<Rightarrow> Inr p))"

definition resolve_creds :: "PBSRepoSpec \<Rightarrow> secret \<Rightarrow> string + repoCreds" where
  "resolve_creds spec s =
     (let get = label (sec_data s); missing = missing_keys spec s
      in if length missing > 0
         then Inl (''secret '' @ om_namespace (sec_meta s) @ ''/'' @ om_name (sec_meta s) @
           '' missing keys: '' @ Join missing '', '')
         else (case resolve_port spec s of
           Inl problem \<Rightarrow> Inl problem
         | Inr port \<Rightarrow> Inr \<lparr>rc_tokenID = get ''tokenID'', rc_tokenSecret = get ''tokenSecret'',
             rc_fingerprint = (if rp_fingerprint spec = '''' then get ''fingerprint'' else rp_fingerprint spec),
             rc_host = pick (rp_host spec) (get ''host''), rc_port = port,
             rc_datastore = pick (rp_datastore spec) (get ''datastore''),
             rc_namespace = pick (rp_namespace spec) (get ''namespace'')\<rparr>))"

definition producerCreds :: "kube \<Rightarrow> PBSRepo \<Rightarrow> (gerr + string + repoCreds) kop" where
  "producerCreds K repo =
     bindE (fetchSecret K (rp_secretRef (repo_spec repo))) (\<lambda>r.
       State_Monad.return (Inr (case r of Inl problem \<Rightarrow> Inl problem | Inr s \<Rightarrow> resolve_creds (repo_spec repo) s)))"

definition token_of :: "secret \<Rightarrow> string + string \<times> string" where
  "token_of s =
     (case List.find (\<lambda>k. label (sec_data s) k = '''') [''tokenID'', ''tokenSecret''] of
        Some k \<Rightarrow> Inl (''missing key '' @ k)
      | None \<Rightarrow> Inr (label (sec_data s) ''tokenID'', label (sec_data s) ''tokenSecret''))"

definition bootstrapToken :: "kube \<Rightarrow> secret_ref \<Rightarrow> (gerr + string + string \<times> string) kop" where
  "bootstrapToken K ref =
     bindE (fetchSecret K ref) (\<lambda>r.
       State_Monad.return (Inr (case r of Inl problem \<Rightarrow> Inl problem | Inr s \<Rightarrow> token_of s)))"

section \<open>The Ready condition\<close>

text \<open>Refreshing the probe time, unless it is fresh: the time it is set to, if any.\<close>

definition probe_time :: "kube \<Rightarrow> PBSRepo \<Rightarrow> bool \<Rightarrow> time option kop" where
  "probe_time K repo stampProbe =
     (if \<not> stampProbe then State_Monad.return None
      else (case rps_lastProbe (repo_status repo) of
        None \<Rightarrow> do { now \<leftarrow> read_clock K; State_Monad.return (Some now) }
      | Some t \<Rightarrow> do {
          since \<leftarrow> read_clock K;
          if since - t > lastProbeFreshFor then do { now \<leftarrow> read_clock K; State_Monad.return (Some now) }
          else State_Monad.return None
        }))"

definition setCondition :: "kube \<Rightarrow> PBSRepo \<Rightarrow> condition \<Rightarrow> bool \<Rightarrow> (gerr + bool) kop" where
  "setCondition K repo cond stampProbe = do {
     (conds, transitioned) \<leftarrow> observe (\<lambda>l. k_setCondition K l (rps_conditions (repo_status repo))
        (cond\<lparr>cond_generation := om_generation (repo_meta repo)\<rparr>));
     probe \<leftarrow> probe_time K repo stampProbe;
     if \<not> (transitioned \<or> probe \<noteq> None) then State_Monad.return (Inr False)
     else
       let st = (repo_status repo)\<lparr>rps_conditions := conds,
             rps_lastProbe := (case probe of None \<Rightarrow> rps_lastProbe (repo_status repo) | Some t \<Rightarrow> Some t)\<rparr>
       in skipE (do_write K (PatchRepoStatus (om_name (repo_meta repo)) st)) (State_Monad.return (Inr transitioned))
   }"

definition notify_repo :: "PBSRepo \<Rightarrow> bool \<Rightarrow> event_type \<Rightarrow> string \<Rightarrow> string \<Rightarrow> unit kop" where
  "notify_repo repo transitioned ty reason note =
     (if transitioned then emit (Event ''PBSRepo'' (om_name (repo_meta repo)) ty reason '''' note)
      else State_Monad.return ())"

definition fail_repo :: "kube \<Rightarrow> PBSRepo \<Rightarrow> string \<Rightarrow> string \<Rightarrow> int \<Rightarrow> outcome kop" where
  "fail_repo K repo reason message requeue =
     bindE (setCondition K repo (new_condition CondFalse reason message) False) (\<lambda>transitioned. do {
       notify_repo repo transitioned EventWarning reason message;
       State_Monad.return (Inr (RequeueAfter requeue))
     })"

definition succeed_repo :: "kube \<Rightarrow> PBSRepo \<Rightarrow> outcome kop" where
  "succeed_repo K repo =
     bindE (setCondition K repo (new_condition CondTrue reasonReachable ''PBS server reachable'') True)
       (\<lambda>transitioned. do {
         notify_repo repo transitioned EventNormal reasonReachable ''PBS server is reachable'';
         State_Monad.return (Inr (RequeueAfter requeueSteady))
       })"

section \<open>Reconcile\<close>

definition producer_client :: "repoCreds \<Rightarrow> pbs_client" where
  "producer_client c = NewClient (rc_host c) (rc_port c) (rc_tokenID c) (rc_tokenSecret c) (rc_fingerprint c)"

definition bootstrap_client :: "repoCreds \<Rightarrow> string \<times> string \<Rightarrow> pbs_client" where
  "bootstrap_client c token = NewClient (rc_host c) (rc_port c) (fst token) (snd token) (rc_fingerprint c)"

text \<open>With a bootstrap reference, its token ensures the namespace before the repo is Ready.\<close>

definition bootstrap :: "kube \<Rightarrow> PBSRepo \<Rightarrow> repoCreds \<Rightarrow> outcome kop" where
  "bootstrap K repo creds =
     (let ref = rp_bootstrapRef (repo_spec repo)
      in if ref_name ref = '''' then succeed_repo K repo
         else bindE (bootstrapToken K ref) (\<lambda>r. case r of
           Inl problem \<Rightarrow> fail_repo K repo reasonSecretMissing
             (''bootstrap secret '' @ ref_name ref @ '': '' @ problem) requeueFailure
         | Inr token \<Rightarrow> do {
             err \<leftarrow> EnsureNamespace K (bootstrap_client creds token) (rc_datastore creds) (rc_namespace creds);
             case err of
               Some e \<Rightarrow> fail_repo K repo reasonBootstrapFailed e requeueSteady
             | None \<Rightarrow> succeed_repo K repo
           }))"

definition reconcile_repo :: "kube \<Rightarrow> PBSRepo \<Rightarrow> outcome kop" where
  "reconcile_repo K repo =
     bindE (producerCreds K repo) (\<lambda>r. case r of
       Inl problem \<Rightarrow> fail_repo K repo reasonSecretMissing problem requeueFailure
     | Inr creds \<Rightarrow> do {
         ping \<leftarrow> ListSnapshots K (producer_client creds) (rc_datastore creds) (rc_namespace creds);
         case ping of
           Inl e \<Rightarrow> fail_repo K repo reasonUnreachable e requeueFailure
         | Inr _ \<Rightarrow> bootstrap K repo creds
       })"

definition RepoReconcile :: "kube \<Rightarrow> string \<Rightarrow> outcome kop" where
  "RepoReconcile K name = do {
     r \<leftarrow> get_repo K name;
     case r of Inl e \<Rightarrow> State_Monad.return (IgnoreNotFound e) | Inr repo \<Rightarrow> reconcile_repo K repo
   }"

end
