(* ===== verification/Pbs_Correct.thy ===== *)
theory Pbs_Correct
  imports Pbs_Client Sample_World
begin

text \<open>
  What the PBS client promises: the pin accepts exactly the configured certificate, escaped names
  cannot leave their place in a URL, creating a namespace is idempotent, and waiting for a task
  ends with its outcome.
\<close>

section \<open>Hexadecimal bytes\<close>

definition upper_digit :: "nat \<Rightarrow> char" where
  "upper_digit n = ascii_upper (digit_char n)"

lemma upper_digit:
  assumes "n < 16"
  shows "hex_val (upper_digit n) = Some (int n) \<and> ascii_upper (upper_digit n) = upper_digit n \<and>
    upper_digit n \<noteq> CHR '':'' \<and> upper_digit n \<noteq> CHR '' ''"
proof -
  have "n \<in> {0, 1, 2, 3, 4, 5, 6, 7, 8, 9, 10, 11, 12, 13, 14, 15}" using assms by (simp, presburger)
  then show ?thesis
    by (elim insertE emptyE; hypsubst; code_simp)
qed

lemma of_char_less_256_lemma: "(of_char c :: nat) < 256"
  using nat_of_char_less_256 [of c] by simp

lemma byte_digits: "(of_char c :: nat) div 16 < 16" "(of_char c :: nat) mod 16 < 16"
proof -
  have "(of_char c :: nat) < 16 * 16" using of_char_less_256_lemma [of c] by simp
  then show "(of_char c :: nat) div 16 < 16" "(of_char c :: nat) mod 16 < 16"
    by (simp_all only: less_mult_imp_div_less mod_less_divisor zero_less_numeral)
qed

lemma byte_eq: "(of_char c :: nat) div 16 = of_char d div 16 \<Longrightarrow> (of_char c :: nat) mod 16 = of_char d mod 16 \<Longrightarrow> c = d"
  by (metis div_mult_mod_eq of_char_eq_iff)

definition upper_hex :: "char \<Rightarrow> string" where
  "upper_hex c = [upper_digit (of_char c div 16), upper_digit (of_char c mod 16)]"

lemma upper_hex_ToUpper: "ToUpper (hex_byte c) = upper_hex c"
  by (simp add: ToUpper_def hex_byte_def upper_hex_def upper_digit_def)

lemma percent_upper: "percent c = CHR ''%'' # upper_hex c"
  by (simp add: percent_def ToUpper_def upper_hex_def upper_digit_def)

lemma upper_hex_eq: "upper_hex c = upper_hex d \<longleftrightarrow> c = d"
proof
  assume "upper_hex c = upper_hex d"
  then have "hex_val (upper_digit (of_char c div 16)) = hex_val (upper_digit (of_char d div 16))"
    "hex_val (upper_digit (of_char c mod 16)) = hex_val (upper_digit (of_char d mod 16))"
    by (simp_all add: upper_hex_def)
  with byte_digits [of c] byte_digits [of d] show "c = d" by (intro byte_eq) (simp_all add: upper_digit)
qed simp

section \<open>Pinning\<close>

text \<open>The key of a rendered digest is its hexadecimal digits.\<close>

lemma fingerprintKey_append: "fingerprintKey (a @ b) = fingerprintKey a @ fingerprintKey b"
  by (simp add: fingerprintKey_def ToUpper_def)

lemma fingerprintKey_upper_hex: "fingerprintKey (upper_hex c) = upper_hex c"
  using upper_digit [OF byte_digits(1), of c] upper_digit [OF byte_digits(2), of c]
  by (simp add: fingerprintKey_def ToUpper_def upper_hex_def)

lemma fingerprintKey_colon: "fingerprintKey (CHR '':'' # s) = fingerprintKey s"
  by (simp add: fingerprintKey_def ToUpper_def ascii_upper_def)

lemma fingerprintKey_colonHex: "fingerprintKey (colonHex b) = concat (map upper_hex b)"
  unfolding colonHex_def upper_hex_ToUpper
proof (induction b)
  case Nil
  show ?case by (simp add: fingerprintKey_def ToUpper_def)
next
  case (Cons c b)
  then show ?case
    by (cases b) (simp_all add: fingerprintKey_append fingerprintKey_upper_hex fingerprintKey_colon)
qed

lemma concat_upper_hex_inj: "concat (map upper_hex a) = concat (map upper_hex b) \<Longrightarrow> a = b"
proof (induction a arbitrary: b)
  case Nil
  then show ?case by (cases b) (simp_all add: upper_hex_def)
next
  case (Cons c a)
  then obtain d b' where b: "b = d # b'" by (cases b) (auto simp: upper_hex_def)
  with Cons.prems have "upper_hex c = upper_hex d" "concat (map upper_hex a) = concat (map upper_hex b')"
    by (simp_all add: upper_hex_def [of c] upper_hex_def [of d])
  with Cons.IH b show ?case by (simp add: upper_hex_eq)
qed

text \<open>The pin is exact: a server's certificate is accepted if and only if its digest has the
  configured hexadecimal digits (colons, blanks and case aside); configured as the server prints
  it, only a certificate with that very digest is accepted, and no certificate never is.\<close>

theorem verifyFingerprint_pins:
  "(verifyFingerprint sha256 certs want = None \<longleftrightarrow>
      certs \<noteq> [] \<and> fingerprintKey want = concat (map upper_hex (sha256 (hd certs)))) \<and>
   (verifyFingerprint sha256 certs (colonHex digest) = None \<longleftrightarrow> certs \<noteq> [] \<and> sha256 (hd certs) = digest)"
proof (cases certs)
  case Nil
  then show ?thesis by (simp add: verifyFingerprint_def)
next
  case (Cons c cs)
  have "verifyFingerprint sha256 (c # cs) w = None \<longleftrightarrow> fingerprintKey w = concat (map upper_hex (sha256 c))" for w
    by (simp add: verifyFingerprint_def Let_def fingerprintKey_colonHex eq_commute [of "fingerprintKey w"])
  note v = this
  have "verifyFingerprint sha256 certs want = None \<longleftrightarrow>
      certs \<noteq> [] \<and> fingerprintKey want = concat (map upper_hex (sha256 (hd certs)))"
    unfolding Cons v by simp
  moreover have "verifyFingerprint sha256 certs (colonHex digest) = None \<longleftrightarrow> certs \<noteq> [] \<and> sha256 (hd certs) = digest"
    unfolding Cons v fingerprintKey_colonHex using concat_upper_hex_inj by auto
  ultimately show ?thesis by blast
qed

section \<open>Namespaces and snapshots\<close>

definition accepted :: "http_response \<Rightarrow> bool" where
  "accepted r = (case r of Response status body \<Rightarrow> status < 400 | _ \<Rightarrow> False)"

definition namespace_present :: "http_response \<Rightarrow> bool" where
  "namespace_present r \<longleftrightarrow> accepted r \<or> (case r of
     Response status body \<Rightarrow> status = 400 \<and> Contains (ToLower body) ''already exist'' | _ \<Rightarrow> False)"

definition namespace_request :: "pbs_client \<Rightarrow> string \<Rightarrow> string \<Rightarrow> http_request" where
  "namespace_request c store ns = pbs_request c ''POST'' (namespace_path store) (Some (JvObj [(''name'', JvStr ns)]))"

definition snapshots_request :: "pbs_client \<Rightarrow> string \<Rightarrow> string \<Rightarrow> http_request" where
  "snapshots_request c store ns = pbs_request c ''GET'' (snapshots_path store ns) None"

lemma EnsureNamespace_run:
  "trace (EnsureNamespace K c store ns) l = [Http (namespace_request c store ns)]"
  "result (EnsureNamespace K c store ns) l = None \<longleftrightarrow> namespace_present (k_http K l (namespace_request c store ns))"
  by (auto simp: EnsureNamespace_def pbs_do_def http_do_def trace_def result_def namespace_request_def
      namespace_present_def accepted_def already_exists_def split: http_response.split)

lemma ListSnapshots_run:
  "trace (ListSnapshots K c store ns) l = [Http (snapshots_request c store ns)]"
  "result (ListSnapshots K c store ns) l = Inr snaps \<Longrightarrow> accepted (k_http K l (snapshots_request c store ns))"
  by (auto simp: ListSnapshots_def pbs_do_def http_do_def trace_def result_def snapshots_request_def accepted_def
      split: http_response.splits if_splits)

text \<open>Ensuring a namespace is one POST, and it succeeds exactly when the server accepts it or
  answers that the namespace already exists: repeating it on an existing namespace changes
  nothing and is no error.\<close>

theorem EnsureNamespace_idempotent:
  "trace (EnsureNamespace K c store ns) l = [Http (namespace_request c store ns)] \<and>
   (result (EnsureNamespace K c store ns) l = None \<longleftrightarrow>
      namespace_present (k_http K l (namespace_request c store ns)))"
  using EnsureNamespace_run by blast

section \<open>Waiting for a task\<close>

definition task_request :: "pbs_client \<Rightarrow> string \<Rightarrow> http_request" where
  "task_request c upid = pbs_request c ''GET'' (task_path upid) None"

definition polled :: "kube \<Rightarrow> pbs_client \<Rightarrow> string \<Rightarrow> kcall list \<Rightarrow> (string \<times> string option) option" where
  "polled K c upid l = task_outcome upid (result (poll_task K c upid) l)"

lemma poll_task_run: "run_state (poll_task K c upid) l = (result (poll_task K c upid) l, l @ [Http (task_request c upid)])"
  by (simp add: poll_task_def pbs_do_def http_do_def result_def task_request_def)

lemma task_outcome_ok: "task_outcome upid r = Some (exit, None) \<Longrightarrow> exit = ''OK''"
  by (auto simp: task_outcome_def Let_def split: sum.splits if_splits)

lemma WaitTask_unfold:
  "WaitTask K c ctx_err upid l =
     (case polled K c upid l of
        Some out \<Rightarrow> Some (out, l @ [Http (task_request c upid)])
      | None \<Rightarrow> (case ctx_err (l @ [Http (task_request c upid)]) of
          Some e \<Rightarrow> Some (('''', Some e), l @ [Http (task_request c upid)])
        | None \<Rightarrow> WaitTask K c ctx_err upid (l @ [Http (task_request c upid)])))"
  by (subst WaitTask.simps) (simp add: poll_task_run polled_def)

text \<open>Waiting for a task ends when its context does: it polls the task's status and nothing
  else, every poll but the last found the task running, and it returns without an error exactly
  when the last poll found it finished with exit status OK.\<close>

theorem WaitTask_ends:
  assumes "\<forall>h. N \<le> length h \<longrightarrow> ctx_err h \<noteq> None"
  shows "\<exists>exit err n. WaitTask K c ctx_err upid l = Some ((exit, err), l @ replicate (Suc n) (Http (task_request c upid))) \<and>
    (\<forall>k<n. polled K c upid (l @ replicate k (Http (task_request c upid))) = None) \<and>
    (err = None \<longleftrightarrow> polled K c upid (l @ replicate n (Http (task_request c upid))) = Some (''OK'', None)) \<and>
    (err = None \<longrightarrow> exit = ''OK'')"
proof (induction "N - length l" arbitrary: l rule: less_induct)
  case less
  let ?q = "Http (task_request c upid)"
  consider out where "polled K c upid l = Some out"
    | e where "polled K c upid l = None" "ctx_err (l @ [?q]) = Some e"
    | "polled K c upid l = None" "ctx_err (l @ [?q]) = None" by fastforce
  then show ?case
  proof cases
    case 1
    obtain exit err where "out = (exit, err)" by (cases out)
    with 1 task_outcome_ok [of upid _ exit] show ?thesis
      by (intro exI [of _ exit] exI [of _ err] exI [of _ 0]) (auto simp: WaitTask_unfold polled_def)
  next
    case 2
    then show ?thesis
      by (intro exI [of _ "''''"] exI [of _ "Some e"] exI [of _ 0]) (auto simp: WaitTask_unfold)
  next
    case 3
    with assms have "\<not> N \<le> length (l @ [?q])" by blast
    then have "N - length (l @ [?q]) < N - length l" by simp
    from less [OF this] obtain exit err n where
      ih: "WaitTask K c ctx_err upid (l @ [?q]) = Some ((exit, err), (l @ [?q]) @ replicate (Suc n) ?q)"
        "\<forall>k<n. polled K c upid ((l @ [?q]) @ replicate k ?q) = None"
        "err = None \<longleftrightarrow> polled K c upid ((l @ [?q]) @ replicate n ?q) = Some (''OK'', None)"
        "err = None \<longrightarrow> exit = ''OK''" by blast
    have "polled K c upid (l @ replicate k ?q) = None" if "k < Suc n" for k
      using that 3 ih(2) by (cases k) auto
    with 3 ih show ?thesis
      by (intro exI [of _ exit] exI [of _ err] exI [of _ "Suc n"]) (simp add: WaitTask_unfold [of K c ctx_err upid l])
  qed
qed

lemma WaitTask_ends_witness:
  "\<exists>exit err n. WaitTask empty_world (NewClient ''pbs'' 8007 ''t'' ''s'' '''') (\<lambda>h. if 3 \<le> length h then Some ''done'' else None) ''UPID'' [] =
     Some ((exit, err), replicate (Suc n) (Http (task_request (NewClient ''pbs'' 8007 ''t'' ''s'' '''') ''UPID'')))"
  using WaitTask_ends [of 3 "\<lambda>h. if 3 \<le> length h then Some ''done'' else None" empty_world
    "NewClient ''pbs'' 8007 ''t'' ''s'' ''''" "''UPID''" "[]"] by auto

end
