(* ===== verification/Repo_Correct.thy ===== *)
theory Repo_Correct
  imports Repo_Controller Pbs_Correct Controller_Logic
begin

text \<open>
  What the PBSRepo reconciler promises: how the credentials are resolved, which requests are made
  with which token, when a repository becomes Ready, and that a steady repository is left alone.
\<close>

section \<open>Credentials\<close>

definition field_of :: "string \<Rightarrow> secret \<Rightarrow> string \<Rightarrow> string" where
  "field_of crValue s key = (if crValue = '''' then label (sec_data s) key else crValue)"


section \<open>The contract of one reconcile\<close>

definition secret_ns :: "kube \<Rightarrow> secret_ref \<Rightarrow> string" where
  "secret_ns K ref = (if ref_namespace ref = '''' then operatorNamespace K else ref_namespace ref)"

definition secret_read :: "kube \<Rightarrow> secret_ref \<Rightarrow> kcall list \<Rightarrow> secret \<Rightarrow> bool" where
  "secret_read K ref h s \<longleftrightarrow> k_secret K h (secret_ns K ref) (ref_name ref) = Inr s"

text \<open>The credentials and the bootstrap token a reconcile may have resolved.\<close>

definition creds_of :: "kube \<Rightarrow> PBSRepo \<Rightarrow> repoCreds \<Rightarrow> bool" where
  "creds_of K repo c \<longleftrightarrow> (\<exists>h s. secret_read K (rp_secretRef (repo_spec repo)) h s \<and> resolve_creds (repo_spec repo) s = Inr c)"

definition bootstrap_of :: "kube \<Rightarrow> PBSRepo \<Rightarrow> string \<times> string \<Rightarrow> bool" where
  "bootstrap_of K repo token \<longleftrightarrow> (\<exists>h s. secret_read K (rp_bootstrapRef (repo_spec repo)) h s \<and> token_of s = Inr token)"

definition ping_request :: "repoCreds \<Rightarrow> http_request" where
  "ping_request c = snapshots_request (producer_client c) (rc_datastore c) (rc_namespace c)"

definition bootstrap_request :: "repoCreds \<Rightarrow> string \<times> string \<Rightarrow> http_request" where
  "bootstrap_request c token = namespace_request (bootstrap_client c token) (rc_datastore c) (rc_namespace c)"

definition repo_request :: "kube \<Rightarrow> PBSRepo \<Rightarrow> http_request \<Rightarrow> bool" where
  "repo_request K repo r \<longleftrightarrow> (\<exists>c. creds_of K repo c \<and>
     (r = ping_request c \<or>
      ref_name (rp_bootstrapRef (repo_spec repo)) \<noteq> '''' \<and> (\<exists>token. bootstrap_of K repo token \<and> r = bootstrap_request c token)))"

fun repo_call :: "kube \<Rightarrow> PBSRepo \<Rightarrow> kcall \<Rightarrow> bool" where
  "repo_call K repo (Http r) \<longleftrightarrow> repo_request K repo r"
| "repo_call K repo (Write (PatchRepoStatus n st)) \<longleftrightarrow> n = om_name (repo_meta repo)"
| "repo_call K repo (Write w) \<longleftrightarrow> False"
| "repo_call K repo (ExecHook ns p ct cmd t) \<longleftrightarrow> False"
| "repo_call K repo c \<longleftrightarrow> True"

definition marks_ready :: "kube \<Rightarrow> kcall list \<Rightarrow> bool" where
  "marks_ready K calls \<longleftrightarrow>
     (\<exists>n st. Write (PatchRepoStatus n st) \<in> set calls \<and> k_conditionTrue K (rps_conditions st) condReady)"

definition reachable_with :: "kube \<Rightarrow> PBSRepo \<Rightarrow> kcall list \<Rightarrow> bool" where
  "reachable_with K repo calls \<longleftrightarrow>
     (\<exists>c h. creds_of K repo c \<and> Http (ping_request c) \<in> set calls \<and> accepted (k_http K h (ping_request c)) \<and>
        (ref_name (rp_bootstrapRef (repo_spec repo)) \<noteq> '''' \<longrightarrow>
           (\<exists>token h. bootstrap_of K repo token \<and> Http (bootstrap_request c token) \<in> set calls \<and>
              namespace_present (k_http K h (bootstrap_request c token)))))"

fun repo_wait :: "outcome \<Rightarrow> bool" where
  "repo_wait (Inl e) \<longleftrightarrow> True"
| "repo_wait (Inr NoRequeue) \<longleftrightarrow> False"
| "repo_wait (Inr (RequeueAfter w)) \<longleftrightarrow> w = 2 * minute \<or> w = 5 * minute"

definition repo_run :: "kube \<Rightarrow> PBSRepo \<Rightarrow> outcome \<Rightarrow> kcall list \<Rightarrow> bool" where
  "repo_run K repo x calls \<longleftrightarrow> list_all (repo_call K repo) calls \<and> repo_wait x \<and>
     (condition_laws K \<and> marks_ready K calls \<longrightarrow> reachable_with K repo calls)"

lemma setCondition_true:
  "condition_laws K \<Longrightarrow> k_setCondition K l cs c = (conds, b) \<Longrightarrow> cond_type c = condReady \<Longrightarrow>
   k_conditionTrue K conds condReady \<longleftrightarrow> cond_status c = CondTrue"
  unfolding condition_laws_def by (metis fst_conv)

lemma probe_time_gives: "gives (\<lambda>_. list_all (\<lambda>c. c = Clock)) (probe_time K repo stamp)"
  unfolding probe_time_def read_clock_def by (intro gives_rules gives_return | simp)+

text \<open>Recording a condition: clock readings and at most one patch, which has the condition's status.\<close>

definition patch_tail :: "kube \<Rightarrow> PBSRepo \<Rightarrow> bool \<Rightarrow> kcall list \<Rightarrow> bool" where
  "patch_tail K repo ready calls \<longleftrightarrow> list_all (repo_call K repo) calls \<and> list_all (\<lambda>c. case c of Http r \<Rightarrow> False | _ \<Rightarrow> True) calls \<and>
     (condition_laws K \<and> marks_ready K calls \<longrightarrow> ready)"

lemma patch_tail_simps [simp]:
  "patch_tail K repo ready []"
  "patch_tail K repo ready (Clock # cs) \<longleftrightarrow> patch_tail K repo ready cs"
  "patch_tail K repo ready (Read r # cs) \<longleftrightarrow> patch_tail K repo ready cs"
  "patch_tail K repo ready (Event a b c d e f # cs) \<longleftrightarrow> patch_tail K repo ready cs"
  by (simp_all add: patch_tail_def marks_ready_def)

lemma patch_tail_clock: "list_all (\<lambda>c. c = Clock) n \<Longrightarrow> patch_tail K repo ready (n @ cs) \<longleftrightarrow> patch_tail K repo ready cs"
  by (induction n) auto

lemma patch_tail_patch:
  "condition_laws K \<longrightarrow> (k_conditionTrue K (rps_conditions st) condReady \<longrightarrow> ready) \<Longrightarrow> patch_tail K repo ready cs \<Longrightarrow>
   patch_tail K repo ready (Write (PatchRepoStatus (om_name (repo_meta repo)) st) # cs)"
  by (auto simp: patch_tail_def marks_ready_def)

lemma setCondition_gives:
  assumes "cond_type c = condReady" "cond_status c = (if ready then CondTrue else CondFalse)"
  shows "gives (\<lambda>_ n. \<forall>m. patch_tail K repo ready m \<longrightarrow> patch_tail K repo ready (n @ m)) (setCondition K repo c stamp)"
proof -
  have "gives (\<lambda>_ n. \<forall>m. patch_tail K repo ready m \<longrightarrow> patch_tail K repo ready (n @ m))
     (do { probe \<leftarrow> probe_time K repo stamp;
        if \<not> (transitioned \<or> probe \<noteq> None) then State_Monad.return (Inr False)
        else
          let st = (repo_status repo)\<lparr>rps_conditions := conds,
                rps_lastProbe := (case probe of None \<Rightarrow> rps_lastProbe (repo_status repo) | Some t \<Rightarrow> Some t)\<rparr>
          in skipE (do_write K (PatchRepoStatus (om_name (repo_meta repo)) st)) (State_Monad.return (Inr transitioned)) })"
    if "k_setCondition K l (rps_conditions (repo_status repo)) (c\<lparr>cond_generation := om_generation (repo_meta repo)\<rparr>) = (conds, transitioned)"
    for l conds transitioned
  proof (rule gives_bind [OF probe_time_gives])
    fix probe n assume n: "list_all (\<lambda>c. c = Clock) n"
    have true: "condition_laws K \<longrightarrow> (k_conditionTrue K conds condReady \<longrightarrow> ready)"
      using setCondition_true [OF _ that] assms by (cases ready) auto
    show "gives (\<lambda>_ n'. \<forall>m. patch_tail K repo ready m \<longrightarrow> patch_tail K repo ready ((n @ n') @ m))
      (if \<not> (transitioned \<or> probe \<noteq> None) then State_Monad.return (Inr False)
        else
          let st = (repo_status repo)\<lparr>rps_conditions := conds,
                rps_lastProbe := (case probe of None \<Rightarrow> rps_lastProbe (repo_status repo) | Some t \<Rightarrow> Some t)\<rparr>
          in skipE (do_write K (PatchRepoStatus (om_name (repo_meta repo)) st)) (State_Monad.return (Inr transitioned)))"
      unfolding do_write_def skipE_def
      by (auto simp: patch_tail_clock [OF n] true intro!: gives_rules patch_tail_patch)
  qed
  then show ?thesis
    unfolding setCondition_def by (auto intro!: gives_bind_observe split: prod.split)
qed

lemma fail_repo_gives:
  assumes "w = 2 * minute \<or> w = 5 * minute"
  shows "gives (\<lambda>x n. patch_tail K repo False n \<and> repo_wait x) (fail_repo K repo reason message w)"
  unfolding fail_repo_def notify_repo_def emit_def
  by (rule gives_bindE [OF setCondition_gives [where ready = False]])
    (use assms in \<open>auto intro!: gives_rules dest: spec [of _ "[]"]\<close>)

lemma succeed_repo_gives:
  "gives (\<lambda>x n. patch_tail K repo True n \<and> repo_wait x) (succeed_repo K repo)"
  unfolding succeed_repo_def notify_repo_def emit_def
  by (rule gives_bindE [OF setCondition_gives [where ready = True]])
    (auto simp: requeueSteady_def intro!: gives_rules dest: spec [of _ "[]"])

section \<open>The requests\<close>

lemma ListSnapshots_gives:
  "gives (\<lambda>x n. n = [Http (snapshots_request c store ns)] \<and>
     (isl x \<or> (\<exists>h. accepted (k_http K h (snapshots_request c store ns))))) (ListSnapshots K c store ns)"
proof (rule givesI)
  fix l
  have "snd (run_state (ListSnapshots K c store ns) l) = l @ [Http (snapshots_request c store ns)]"
    by (simp add: ListSnapshots_def pbs_do_def http_do_def snapshots_request_def)
  moreover have "isl (fst (run_state (ListSnapshots K c store ns) l)) \<or> accepted (k_http K l (snapshots_request c store ns))"
    using ListSnapshots_run(2) [of K c store ns l] unfolding result_def
    by (cases "fst (run_state (ListSnapshots K c store ns) l)") auto
  ultimately show "\<exists>new. snd (run_state (ListSnapshots K c store ns) l) = l @ new \<and> new = [Http (snapshots_request c store ns)] \<and>
      (isl (fst (run_state (ListSnapshots K c store ns) l)) \<or> (\<exists>h. accepted (k_http K h (snapshots_request c store ns))))" by blast
qed

lemma EnsureNamespace_gives:
  "gives (\<lambda>x n. n = [Http (namespace_request c store ns)] \<and>
     (x = None \<longrightarrow> (\<exists>h. namespace_present (k_http K h (namespace_request c store ns))))) (EnsureNamespace K c store ns)"
proof (rule givesI)
  fix l
  have "snd (run_state (EnsureNamespace K c store ns) l) = l @ [Http (namespace_request c store ns)]"
    by (simp add: EnsureNamespace_def pbs_do_def http_do_def namespace_request_def)
  then show "\<exists>new. snd (run_state (EnsureNamespace K c store ns) l) = l @ new \<and> new = [Http (namespace_request c store ns)] \<and>
      (fst (run_state (EnsureNamespace K c store ns) l) = None \<longrightarrow>
        (\<exists>h. namespace_present (k_http K h (namespace_request c store ns))))"
    using EnsureNamespace_run(2) [of K c store ns l] unfolding result_def by (intro exI conjI) auto
qed

lemma fetchSecret_gives:
  "gives (\<lambda>x n. list_all is_read n \<and> (\<forall>s. x = Inr (Inr s) \<longrightarrow> (\<exists>h. secret_read K ref h s)))
     (fetchSecret K ref)"
  unfolding fetchSecret_def get_secret_def Let_def secret_ns_def secret_read_def
  by (auto intro!: gives_return gives_bind_answer gives_if split: sum.splits if_splits)

lemma creds_ofI:
  "secret_read K (rp_secretRef (repo_spec repo)) h s \<Longrightarrow> resolve_creds (repo_spec repo) s = Inr c \<Longrightarrow> creds_of K repo c"
  unfolding creds_of_def by blast

lemma bootstrap_ofI:
  "secret_read K (rp_bootstrapRef (repo_spec repo)) h s \<Longrightarrow> token_of s = Inr t \<Longrightarrow> bootstrap_of K repo t"
  unfolding bootstrap_of_def by blast

lemma producerCreds_gives:
  "gives (\<lambda>x n. list_all is_read n \<and> (\<forall>c. x = Inr (Inr c) \<longrightarrow> creds_of K repo c)) (producerCreds K repo)"
  unfolding producerCreds_def
  by (rule gives_bindE [OF fetchSecret_gives]) (auto intro!: gives_return intro: creds_ofI split: sum.split)

lemma bootstrapToken_gives:
  "gives (\<lambda>x n. list_all is_read n \<and> (\<forall>t. x = Inr (Inr t) \<longrightarrow> bootstrap_of K repo t))
     (bootstrapToken K (rp_bootstrapRef (repo_spec repo)))"
  unfolding bootstrapToken_def
  by (rule gives_bindE [OF fetchSecret_gives]) (auto intro!: gives_return intro: bootstrap_ofI split: sum.split)

section \<open>Reconcile\<close>

text \<open>Calls before the condition is recorded: reads and requests.\<close>

definition probes :: "kube \<Rightarrow> PBSRepo \<Rightarrow> kcall list \<Rightarrow> bool" where
  "probes K repo calls \<longleftrightarrow> list_all (\<lambda>c. is_read c \<or> (\<exists>r. c = Http r \<and> repo_request K repo r)) calls"

lemma probes_append [simp]: "probes K repo (a @ b) \<longleftrightarrow> probes K repo a \<and> probes K repo b"
  by (simp add: probes_def)

lemma probes_reads: "list_all is_read n \<Longrightarrow> probes K repo n"
  by (simp add: probes_def list_all_iff)

lemma probes_http [simp]: "probes K repo [Http r] \<longleftrightarrow> repo_request K repo r"
  by (simp add: probes_def)

lemma probes_calls: "probes K repo n \<Longrightarrow> list_all (repo_call K repo) n \<and> \<not> marks_ready K n"
  by (auto simp: probes_def list_all_iff marks_ready_def is_read_iff)

lemma reachable_with_mono: "reachable_with K repo n \<Longrightarrow> set n \<subseteq> set m \<Longrightarrow> reachable_with K repo m"
  unfolding reachable_with_def by (meson subset_iff)

lemma repo_run_tail:
  assumes "probes K repo n" "patch_tail K repo ready m" "repo_wait x" "ready \<Longrightarrow> reachable_with K repo n"
  shows "repo_run K repo x (n @ m)"
proof -
  have "marks_ready K (n @ m) \<longleftrightarrow> marks_ready K m"
    using probes_calls [OF assms(1)] by (auto simp: marks_ready_def)
  moreover have "reachable_with K repo n \<Longrightarrow> reachable_with K repo (n @ m)"
    by (erule reachable_with_mono) simp
  ultimately show ?thesis
    using assms probes_calls [OF assms(1)] by (auto simp: repo_run_def patch_tail_def)
qed

lemma run_fail:
  "probes K repo n \<Longrightarrow> w = 2 * minute \<or> w = 5 * minute \<Longrightarrow>
   gives (\<lambda>x m. repo_run K repo x (n @ m)) (fail_repo K repo reason message w)"
  by (rule gives_mono [OF fail_repo_gives]) (auto intro: repo_run_tail)

lemma run_succeed:
  "probes K repo n \<Longrightarrow> reachable_with K repo n \<Longrightarrow> gives (\<lambda>x m. repo_run K repo x (n @ m)) (succeed_repo K repo)"
  by (rule gives_mono [OF succeed_repo_gives]) (auto intro: repo_run_tail)

lemma repo_run_error: "probes K repo n \<Longrightarrow> repo_run K repo (Inl e) n"
  using repo_run_tail [of K repo n False "[]" "Inl e"] by simp

lemma bootstrap_gives:
  assumes n: "probes K repo n" "creds_of K repo c" "Http (ping_request c) \<in> set n" "accepted (k_http K h (ping_request c))"
  shows "gives (\<lambda>x m. repo_run K repo x (n @ m)) (bootstrap K repo c)"
proof (cases "ref_name (rp_bootstrapRef (repo_spec repo)) = ''''")
  case True
  then have "reachable_with K repo n" using n unfolding reachable_with_def by blast
  with True n(1) show ?thesis by (simp add: bootstrap_def run_succeed)
next
  case False
  have "gives (\<lambda>x m. repo_run K repo x (n @ m))
    (bindE (bootstrapToken K (rp_bootstrapRef (repo_spec repo))) (\<lambda>r. case r of
       Inl problem \<Rightarrow> fail_repo K repo reasonSecretMissing
         (''bootstrap secret '' @ ref_name (rp_bootstrapRef (repo_spec repo)) @ '': '' @ problem) requeueFailure
     | Inr token \<Rightarrow> do {
         err \<leftarrow> EnsureNamespace K (bootstrap_client c token) (rc_datastore c) (rc_namespace c);
         case err of
           Some e \<Rightarrow> fail_repo K repo reasonBootstrapFailed e requeueSteady
         | None \<Rightarrow> succeed_repo K repo }))"
  proof (rule gives_bindE [OF bootstrapToken_gives], goal_cases)
    case (1 e m)
    with n(1) show ?case by (simp add: repo_run_error probes_reads)
  next
    case (2 r m)
    then have m: "probes K repo (n @ m)" using n(1) by (simp add: probes_reads)
    show ?case
    proof (cases r)
      case (Inl problem)
      then show ?thesis using run_fail [OF m, of "2 * minute"] by (simp add: requeueFailure_def)
    next
      case (Inr token)
      with 2 have t: "bootstrap_of K repo token" by simp
      then have q: "repo_request K repo (bootstrap_request c token)"
        using n(2) False unfolding repo_request_def by blast
      have "gives (\<lambda>x m'. repo_run K repo x ((n @ m) @ m'))
        (do { err \<leftarrow> EnsureNamespace K (bootstrap_client c token) (rc_datastore c) (rc_namespace c);
           case err of
             Some e \<Rightarrow> fail_repo K repo reasonBootstrapFailed e requeueSteady
           | None \<Rightarrow> succeed_repo K repo })"
      proof (rule gives_bind [OF EnsureNamespace_gives], goal_cases)
        case (1 err k)
        then have k: "k = [Http (bootstrap_request c token)]" by (simp add: bootstrap_request_def)
        with m q have p: "probes K repo ((n @ m) @ k)" by simp
        show ?case
        proof (cases err)
          case (Some e)
          then show ?thesis using run_fail [OF p, of "5 * minute"] by (simp add: requeueSteady_def)
        next
          case None
          with 1 obtain h' where "namespace_present (k_http K h' (bootstrap_request c token))"
            by (auto simp: bootstrap_request_def)
          moreover have "Http (bootstrap_request c token) \<in> set ((n @ m) @ k)" "Http (ping_request c) \<in> set ((n @ m) @ k)"
            using k n(3) by simp_all
          ultimately have "reachable_with K repo ((n @ m) @ k)"
            using n(2,4) t unfolding reachable_with_def by blast
          with None p show ?thesis using run_succeed [OF p] by simp
        qed
      qed
      with Inr show ?thesis by simp
    qed
  qed
  then show ?thesis unfolding bootstrap_def Let_def by (subst if_not_P [OF False])
qed

lemma reconcile_repo_gives: "gives (repo_run K repo) (reconcile_repo K repo)"
  unfolding reconcile_repo_def
proof (rule gives_bindE [OF producerCreds_gives], goal_cases)
  case (1 e n)
  then show ?case by (simp add: repo_run_error probes_reads)
next
  case (2 r n)
  then have n: "probes K repo n" by (simp add: probes_reads)
  show ?case
  proof (cases r)
    case (Inl problem)
    then show ?thesis using run_fail [OF n, of "2 * minute"] by (simp add: requeueFailure_def)
  next
    case (Inr c)
    with 2 have c: "creds_of K repo c" by simp
    have "gives (\<lambda>x m. repo_run K repo x (n @ m))
      (do { ping \<leftarrow> ListSnapshots K (producer_client c) (rc_datastore c) (rc_namespace c);
         case ping of
           Inl e \<Rightarrow> fail_repo K repo reasonUnreachable e requeueFailure
         | Inr _ \<Rightarrow> bootstrap K repo c })"
    proof (rule gives_bind [OF ListSnapshots_gives], goal_cases)
      case (1 ping m)
      then have m: "m = [Http (ping_request c)]" by (simp add: ping_request_def)
      with n c have p: "probes K repo (n @ m)" by (auto simp: repo_request_def)
      show ?case
      proof (cases ping)
        case (Inl e)
        then show ?thesis using run_fail [OF p, of "2 * minute"] by (simp add: requeueFailure_def)
      next
        case (Inr snaps)
        with 1 obtain h where "accepted (k_http K h (ping_request c))" by (auto simp: ping_request_def)
        from bootstrap_gives [OF p c _ this] m Inr show ?thesis by simp
      qed
    qed
    with Inr show ?thesis by simp
  qed
qed

lemma RepoReconcile_run:
  assumes "k_repo K l n = Inr repo"
  shows "repo_run K repo (result (RepoReconcile K n) l) (trace (RepoReconcile K n) l)"
proof -
  let ?l = "l @ [Read (GetRepo n)]"
  note rest = givesD [OF reconcile_repo_gives [of K repo], of ?l]
  obtain new where new: "snd (run_state (reconcile_repo K repo) ?l) = ?l @ new" using rest by blast
  with assms have "trace (RepoReconcile K n) l = Read (GetRepo n) # trace (reconcile_repo K repo) ?l"
    by (simp add: RepoReconcile_def get_repo_def trace_def)
  moreover have "result (RepoReconcile K n) l = result (reconcile_repo K repo) ?l"
    using assms by (simp add: RepoReconcile_def get_repo_def result_def)
  moreover have "repo_run K repo x (Read r # calls)" if "repo_run K repo x calls" for x r calls
    using that reachable_with_mono [of K repo calls "Read r # calls"]
    by (auto simp: repo_run_def marks_ready_def)
  ultimately show ?thesis using rest by simp
qed

text \<open>C16: a repository is marked Ready only when it is: the server accepted a snapshot listing with
  the producer token the credentials resolve to, and, when a bootstrap token is configured, the
  namespace was accepted or already there for that token; the reconcile always comes back after
  two or five minutes unless it failed.\<close>

theorem repo_ready_sound:
  assumes "k_repo K l n = Inr repo" "condition_laws K"
  shows "(marks_ready K (trace (RepoReconcile K n) l) \<longrightarrow> reachable_with K repo (trace (RepoReconcile K n) l)) \<and>
    repo_wait (result (RepoReconcile K n) l)"
  using RepoReconcile_run [OF assms(1)] assms(2) by (simp add: repo_run_def)

text \<open>C25: tokens keep to their duties: every request of a reconcile pins the resolved fingerprint
  and is either the snapshot listing with the producer token or the namespace creation with the
  bootstrap token; the only object written is the repository's own status.\<close>

theorem repo_requests_separated:
  assumes "k_repo K l n = Inr repo" "c \<in> set (trace (RepoReconcile K n) l)"
  shows "(\<forall>r. c = Http r \<longrightarrow> (\<exists>creds. creds_of K repo creds \<and> hr_fingerprint r = rc_fingerprint creds \<and>
      (hr_method r = ''GET'' \<and> hr_auth r = ''PBSAPIToken='' @ rc_tokenID creds @ '':'' @ rc_tokenSecret creds \<or>
       hr_method r = ''POST'' \<and> ref_name (rp_bootstrapRef (repo_spec repo)) \<noteq> '''' \<and>
         (\<exists>token. bootstrap_of K repo token \<and> hr_auth r = ''PBSAPIToken='' @ fst token @ '':'' @ snd token)))) \<and>
    (\<forall>w. c = Write w \<longrightarrow> (\<exists>st. w = PatchRepoStatus (om_name (repo_meta repo)) st)) \<and> \<not> is_exec c"
proof -
  have call: "repo_call K repo c"
    using RepoReconcile_run [OF assms(1)] assms(2) by (auto simp: repo_run_def list_all_iff)
  have ping: "hr_method (ping_request cr) = ''GET''" "hr_fingerprint (ping_request cr) = rc_fingerprint cr"
    "hr_auth (ping_request cr) = ''PBSAPIToken='' @ rc_tokenID cr @ '':'' @ rc_tokenSecret cr" for cr
    by (simp_all add: ping_request_def snapshots_request_def pbs_request_def producer_client_def NewClient_def)
  have boot: "hr_method (bootstrap_request cr t) = ''POST''" "hr_fingerprint (bootstrap_request cr t) = rc_fingerprint cr"
    "hr_auth (bootstrap_request cr t) = ''PBSAPIToken='' @ fst t @ '':'' @ snd t" for cr t
    by (simp_all add: bootstrap_request_def namespace_request_def pbs_request_def bootstrap_client_def NewClient_def)
  show ?thesis
  proof (intro conjI allI impI)
    fix r assume "c = Http r"
    with call obtain cr where "creds_of K repo cr" "r = ping_request cr \<or>
       ref_name (rp_bootstrapRef (repo_spec repo)) \<noteq> '''' \<and> (\<exists>t. bootstrap_of K repo t \<and> r = bootstrap_request cr t)"
      by (auto simp: repo_request_def)
    with ping boot show "\<exists>creds. creds_of K repo creds \<and> hr_fingerprint r = rc_fingerprint creds \<and>
      (hr_method r = ''GET'' \<and> hr_auth r = ''PBSAPIToken='' @ rc_tokenID creds @ '':'' @ rc_tokenSecret creds \<or>
       hr_method r = ''POST'' \<and> ref_name (rp_bootstrapRef (repo_spec repo)) \<noteq> '''' \<and>
         (\<exists>token. bootstrap_of K repo token \<and> hr_auth r = ''PBSAPIToken='' @ fst token @ '':'' @ snd token))"
      by metis
  next
    fix w assume "c = Write w"
    with call show "\<exists>st. w = PatchRepoStatus (om_name (repo_meta repo)) st" by (cases w) auto
  next
    show "\<not> is_exec c" using call by (cases c) (auto simp: is_exec_def)
  qed
qed

section \<open>Steady repositories\<close>

definition repo_condition :: "PBSRepo \<Rightarrow> cond_status \<Rightarrow> string \<Rightarrow> string \<Rightarrow> condition" where
  "repo_condition repo st reason message = (new_condition st reason message)\<lparr>cond_generation := om_generation (repo_meta repo)\<rparr>"

text \<open>The conditions already say so: an earlier reconcile of this generation recorded the same.\<close>

definition already_says :: "kube \<Rightarrow> PBSRepo \<Rightarrow> condition \<Rightarrow> bool" where
  "already_says K repo c \<longleftrightarrow> (\<exists>h cs. rps_conditions (repo_status repo) = fst (k_setCondition K h cs c))"

lemma already_says_unchanged:
  "condition_laws K \<Longrightarrow> already_says K repo c \<Longrightarrow>
   k_setCondition K l (rps_conditions (repo_status repo)) c = (rps_conditions (repo_status repo), False)"
  unfolding already_says_def condition_laws_def using same_content_refl by metis

text \<open>A steady repository causes no traffic: when the conditions already record a failure, or
  record the success and the last probe is at most a minute old, recording it again patches
  nothing and emits no event, so a status patch cannot trigger the next reconcile for ever.\<close>

theorem repo_steady_quiet:
  assumes "condition_laws K"
  shows "(already_says K repo (repo_condition repo CondFalse reason message) \<longrightarrow>
      trace (fail_repo K repo reason message w) l = [] \<and> result (fail_repo K repo reason message w) l = Inr (RequeueAfter w)) \<and>
    (already_says K repo (repo_condition repo CondTrue reasonReachable ''PBS server reachable'') \<and>
      rps_lastProbe (repo_status repo) = Some t \<and> k_now K l - t \<le> minute \<longrightarrow>
      trace (succeed_repo K repo) l = [Clock] \<and> result (succeed_repo K repo) l = Inr (RequeueAfter requeueSteady))"
proof (intro conjI impI)
  assume "already_says K repo (repo_condition repo CondFalse reason message)"
  note same = already_says_unchanged [OF assms this, unfolded repo_condition_def]
  show "trace (fail_repo K repo reason message w) l = []"
    "result (fail_repo K repo reason message w) l = Inr (RequeueAfter w)"
    by (simp_all add: fail_repo_def setCondition_def probe_time_def notify_repo_def bindE_def trace_def result_def same)
next
  assume a: "already_says K repo (repo_condition repo CondTrue reasonReachable ''PBS server reachable'') \<and>
      rps_lastProbe (repo_status repo) = Some t \<and> k_now K l - t \<le> minute"
  note same = already_says_unchanged [OF assms conjunct1 [OF a], unfolded repo_condition_def]
  show "trace (succeed_repo K repo) l = [Clock]"
    "result (succeed_repo K repo) l = Inr (RequeueAfter requeueSteady)"
    using a by (simp_all add: succeed_repo_def setCondition_def probe_time_def read_clock_def notify_repo_def bindE_def
        trace_def result_def same lastProbeFreshFor_def)
qed

text \<open>The server is asked for snapshots of the namespace before the bootstrap may create it: when
  that listing is refused, a reconcile never sends the creation, so a missing namespace is never
  bootstrapped.\<close>

theorem repo_never_bootstraps_missing_namespace:
  assumes "k_repo K l n = Inr repo"
    and "\<forall>h c. creds_of K repo c \<longrightarrow> \<not> accepted (k_http K h (ping_request c))"
  shows "\<forall>r. Http r \<in> set (trace (RepoReconcile K n) l) \<longrightarrow> hr_method r = ''GET''"
proof -
  have fail: "gives (\<lambda>x m. \<forall>r. Http r \<in> set (k @ m) \<longrightarrow> hr_method r = ''GET'') (fail_repo K repo reason message w)"
    if "\<forall>r. Http r \<in> set k \<longrightarrow> hr_method r = ''GET''" "w = 2 * minute" for k reason message w
  proof (rule gives_mono [OF fail_repo_gives [of w K repo reason message]])
    fix x m assume "patch_tail K repo False m \<and> repo_wait x"
    then have "Http r \<notin> set m" for r by (auto simp: patch_tail_def list_all_iff)
    with that(1) show "\<forall>r. Http r \<in> set (k @ m) \<longrightarrow> hr_method r = ''GET''" by auto
  qed (simp add: that(2))
  have "gives (\<lambda>x m. \<forall>r. Http r \<in> set m \<longrightarrow> hr_method r = ''GET'') (reconcile_repo K repo)"
    unfolding reconcile_repo_def
  proof (rule gives_bindE [OF producerCreds_gives], goal_cases)
    case (1 e m)
    then show ?case by (auto simp: list_all_iff)
  next
    case (2 x m)
    then have m: "\<forall>r. Http r \<in> set m \<longrightarrow> hr_method r = ''GET''" by (auto simp: list_all_iff)
    show ?case
    proof (cases x)
      case (Inl p)
      then show ?thesis using fail [OF m] by (simp add: requeueFailure_def)
    next
      case (Inr c)
      with 2 have c: "creds_of K repo c" by simp
      have "gives (\<lambda>x m'. \<forall>r. Http r \<in> set (m @ m') \<longrightarrow> hr_method r = ''GET'')
        (do { ping \<leftarrow> ListSnapshots K (producer_client c) (rc_datastore c) (rc_namespace c);
           case ping of
             Inl e \<Rightarrow> fail_repo K repo reasonUnreachable e requeueFailure
           | Inr _ \<Rightarrow> bootstrap K repo c })"
      proof (rule gives_bind [OF ListSnapshots_gives], goal_cases)
        case (1 ping m')
        with assms(2) c obtain e where e: "ping = Inl e" by (cases ping) (auto simp: ping_request_def)
        from 1 have "\<forall>r. Http r \<in> set (m @ m') \<longrightarrow> hr_method r = ''GET''"
          using m by (auto simp: snapshots_request_def pbs_request_def)
        from fail [OF this] e show ?case by (simp add: requeueFailure_def)
      qed
      with Inr show ?thesis by simp
    qed
  qed
  from givesD [OF this, of "l @ [Read (GetRepo n)]"] obtain new where
    "snd (run_state (reconcile_repo K repo) (l @ [Read (GetRepo n)])) = l @ Read (GetRepo n) # new"
    "\<forall>r. Http r \<in> set new \<longrightarrow> hr_method r = ''GET''" by auto
  with assms(1) show ?thesis by (auto simp: RepoReconcile_def get_repo_def trace_def)
qed

end
