(* ===== verification/Repo_Examples.thy ===== *)
theory Repo_Examples
  imports Repo_Correct Schedule_Examples
begin

text \<open>
  The repository's properties at a concrete world: complete credentials and a server that answers
  every request with the same response.
\<close>

definition repo_secret :: secret where
  "repo_secret = \<lparr>sec_meta = new_meta ''creds'' ''pbs-system'' Map.empty,
     sec_data = [''tokenID'' \<mapsto> ''op@pbs!p'', ''tokenSecret'' \<mapsto> ''x'', ''fingerprint'' \<mapsto> ''AA:BB'']\<rparr>"

definition repo_world :: "http_response \<Rightarrow> kube" where
  "repo_world r = empty_world\<lparr>k_repo := (\<lambda>_ _. Inr ready_repo), k_secret := (\<lambda>_ _ _. Inr repo_secret), k_http := (\<lambda>_ _. r)\<rparr>"

definition no_snapshots :: http_response where
  "no_snapshots = Response 200 (enc_val (JvObj [(''data'', JvArr [])]))"

lemma repo_world_read: "k_repo (repo_world r) l n = Inr ready_repo"
  by (simp add: repo_world_def)

lemma repo_world_conditions: "condition_laws (repo_world r)"
  using empty_world_conditions by (simp add: condition_laws_def repo_world_def)

lemma repo_world_ready:
  "list_ex (\<lambda>c. case c of Write (PatchRepoStatus n st) \<Rightarrow> k_conditionTrue (repo_world no_snapshots) (rps_conditions st) condReady
     | _ \<Rightarrow> False) (trace (RepoReconcile (repo_world no_snapshots) ''main'') [])"
  by code_simp

lemma repo_ready_sound_witness:
  "marks_ready (repo_world no_snapshots) (trace (RepoReconcile (repo_world no_snapshots) ''main'') []) \<and>
   reachable_with (repo_world no_snapshots) ready_repo (trace (RepoReconcile (repo_world no_snapshots) ''main'') [])"
proof -
  have "marks_ready (repo_world no_snapshots) (trace (RepoReconcile (repo_world no_snapshots) ''main'') [])"
    using repo_world_ready unfolding list_ex_iff marks_ready_def by (fastforce split: kcall.splits kwrite.splits)
  with repo_ready_sound [OF repo_world_read repo_world_conditions] show ?thesis by blast
qed

lemma repo_requests_separated_witness:
  "list_all (\<lambda>c. \<not> is_exec c) (trace (RepoReconcile (repo_world no_snapshots) ''main'') [])"
  using repo_requests_separated [OF repo_world_read] unfolding list_all_iff by blast

lemma repo_steady_quiet_witness:
  "trace (fail_repo empty_world (ready_repo\<lparr>repo_status := \<lparr>rps_conditions =
       fst (set_condition [] (repo_condition ready_repo CondFalse ''Unreachable'' ''down'')), rps_lastProbe = None\<rparr>\<rparr>)
     ''Unreachable'' ''down'' minute) [] = []"
proof -
  let ?repo = "ready_repo\<lparr>repo_status := \<lparr>rps_conditions =
    fst (set_condition [] (repo_condition ready_repo CondFalse ''Unreachable'' ''down'')), rps_lastProbe = None\<rparr>\<rparr>"
  have "already_says empty_world ?repo (repo_condition ?repo CondFalse ''Unreachable'' ''down'')"
    unfolding already_says_def
    by (rule exI [of _ "[]"], rule exI [of _ "[]"]) (simp add: empty_world_def repo_condition_def)
  with repo_steady_quiet [OF empty_world_conditions, of ?repo "''Unreachable''" "''down''"] show ?thesis by blast
qed

lemma repo_never_bootstraps_missing_namespace_witness:
  "list_all (\<lambda>c. case c of Http r \<Rightarrow> hr_method r = ''GET'' | _ \<Rightarrow> True)
     (trace (RepoReconcile (repo_world (Response 404 ''no such namespace'')) ''main'') [])"
proof -
  have "\<forall>r. Http r \<in> set (trace (RepoReconcile (repo_world (Response 404 ''no such namespace'')) ''main'') []) \<longrightarrow>
      hr_method r = ''GET''"
    by (rule repo_never_bootstraps_missing_namespace [OF repo_world_read]) (simp add: repo_world_def accepted_def)
  then show ?thesis by (auto simp: list_all_iff split: kcall.split)
qed

end
