(* ===== verification/Restore_Examples.thy ===== *)
theory Restore_Examples
  imports Restore_Correct
begin

text \<open>
  A cluster with one restore to make, into the namespace \<open>app\<close> the restore lives in: the
  repository is ready, the staged manifest has one claim.  Each world has the Jobs up to one
  stage complete; the examples instantiate the properties of the reconciler there.
\<close>

definition restore_repo :: PBSRepo where
  "restore_repo = \<lparr>repo_meta = new_meta ''main'' '''' Map.empty,
     repo_spec = \<lparr>rp_host = ''pbs.example'', rp_port = 8007, rp_datastore = ''ds'', rp_namespace = ''ns'',
       rp_fingerprint = ''AA'', rp_secretRef = \<lparr>ref_name = ''creds'', ref_namespace = ''pbs-system''\<rparr>,
       rp_bootstrapRef = \<lparr>ref_name = '''', ref_namespace = ''''\<rparr>\<rparr>,
     repo_status = \<lparr>rps_conditions = [new_condition CondTrue ''Reachable'' ''PBS server reachable''],
       rps_lastProbe = None\<rparr>\<rparr>"

definition restore_secret :: secret where
  "restore_secret = \<lparr>sec_meta = new_meta ''creds'' ''pbs-system'' Map.empty,
     sec_data = [''tokenID'' \<mapsto> ''operator@pbs!producer'', ''admin'' \<mapsto> ''root'']\<rparr>"

definition claim_doc :: jobject where
  "claim_doc = [(''kind'', JStr ''PersistentVolumeClaim''), (''metadata'', JObj [(''name'', JStr ''data'')])]"

definition restore_machinery :: apimachinery where
  "restore_machinery = \<lparr>am_docs = (\<lambda>s. ([s], None)), am_unmarshal = (\<lambda>_. Inr claim_doc),
     am_marshal = (\<lambda>_. Some ''''), am_parseGV = (\<lambda>_. Inl ''unused''), am_gkString = (\<lambda>g k. k),
     am_label = (\<lambda>_ _. ''''), am_name = (\<lambda>_. '''')\<rparr>"

definition staged_manifest :: config_map where
  "staged_manifest = \<lparr>cm_meta = new_meta ''again-api'' ''app'' Map.empty,
     cm_data = [''api.yaml'' \<mapsto> ''kind: PersistentVolumeClaim'']\<rparr>"

definition new_restore :: PBSRestoreStatus where
  "new_restore = \<lparr>rst_phase = RestorePhaseNew, rst_conditions = [], rst_startedAt = None,
     rst_completedAt = None, rst_jobs = []\<rparr>"

definition restore_with :: "PBSRestoreStatus \<Rightarrow> PBSRestore" where
  "restore_with st = \<lparr>r_meta = new_meta ''again'' ''app'' Map.empty,
     r_spec = \<lparr>rs_repoRef = ''main'', rs_snapshotRef = ''host/nightly-n1/2024-01-01T00:00:00Z'',
       rs_targetNamespace = ''app'', rs_dropKinds = [], rs_keepKinds = []\<rparr>,
     r_status = st\<rparr>"

definition complete_job :: job where
  "complete_job = (BuildAPIFetchJob (restore_spec '''' (restore_with new_restore) ''pbsrepo-main'') ''again-api'')
     \<lparr>job_conditions := [(JobComplete, CondTrue)]\<rparr>"

definition failed_job :: job where
  "failed_job = complete_job\<lparr>job_conditions := [(JobFailed, CondTrue)]\<rparr>"

text \<open>The Jobs in \<open>finished\<close> are read as complete, no others exist.\<close>

definition restore_world :: "PBSRestoreStatus \<Rightarrow> string list \<Rightarrow> kube" where
  "restore_world st finished = empty_world\<lparr>k_restore := (\<lambda>_ _ _. Inr (restore_with st)),
     k_repo := (\<lambda>_ _. Inr restore_repo),
     k_secret := (\<lambda>_ ns n. if n = ''creds'' then Inr restore_secret else Inl NotFound),
     k_configMap := (\<lambda>_ _ _. Inr staged_manifest), k_nodes := (\<lambda>_. Inr [''n1'']),
     k_job := (\<lambda>_ _ n. if n \<in> set finished then Inr complete_job else Inl NotFound),
     k_jobs := (\<lambda>_ _ _. Inr (map (\<lambda>n. complete_job\<lparr>job_meta := (job_meta complete_job)\<lparr>om_name := n\<rparr>\<rparr>) finished))\<rparr>"

abbreviation "restore_trace st finished \<equiv>
  trace (RestoreReconcile restore_machinery '''' (restore_world st finished) ''app'' ''again'') []"

abbreviation "stages \<equiv> [''again-api-fetch'', ''again-api-pre'', ''again-vol-n1'', ''again-api-workload'']"

lemma restore_world_restore [simp]: "k_restore (restore_world st c) l ns n = Inr (restore_with st)"
  by (simp add: restore_world_def)

fun created_names :: "kcall list \<Rightarrow> string list" where
  "created_names [] = []"
| "created_names (Write (CreateJob j) # cs) = job_name j # created_names cs"
| "created_names (_ # cs) = created_names cs"

lemma stage_runs:
  "created_names (restore_trace new_restore []) = [''again-api-fetch'']"
  "created_names (restore_trace new_restore (take 2 stages)) = [''again-vol-n1'']"
  "created_names (restore_trace new_restore (take 3 stages)) = [''again-api-workload'']"
  by code_simp+

fun patched_status :: "kcall list \<Rightarrow> PBSRestoreStatus option" where
  "patched_status [] = None"
| "patched_status (Write (PatchRestoreStatus ns n st) # cs) = Some st"
| "patched_status (_ # cs) = patched_status cs"

lemma created_in: "created_names cs = n # ns \<Longrightarrow> \<exists>before j after. cs = before @ Write (CreateJob j) # after \<and> job_name j = n"
proof (induction cs rule: created_names.induct)
  case (2 j cs)
  then show ?case by (intro exI [of _ "[]"]) auto
qed (simp, (metis append_Cons created_names.simps)+)

lemma patched_in:
  "patched_status cs = Some st \<Longrightarrow> \<exists>before ns n after. cs = before @ Write (PatchRestoreStatus ns n st) # after"
proof (induction cs rule: patched_status.induct)
  case (2 ns n st' cs)
  then have "Write (PatchRestoreStatus ns n st') # cs = [] @ Write (PatchRestoreStatus ns n st) # cs" by simp
  then show ?case by blast
qed (simp, (metis append_Cons patched_status.simps)+)

lemma patched_phases:
  "map_option rst_phase (patched_status (restore_trace new_restore (take 3 stages))) = Some RestorePhaseApplyingWorkloads"
  "map_option rst_phase (patched_status (restore_trace new_restore stages)) = Some RestorePhaseCompleted"
  by code_simp+

lemma stage_names:
  "fetch_name (restore_with st) = ''again-api-fetch''" "pre_name (restore_with st) = ''again-api-pre''"
  "workload_name (restore_with st) = ''again-api-workload''"
  by (simp_all add: fetch_name_def pre_name_def workload_name_def restore_with_def jobName_def)

lemma restore_terminal_final_witness:
  "result (RestoreReconcile restore_machinery '''' (restore_world (new_restore\<lparr>rst_phase := RestorePhaseFailed\<rparr>) [])
     ''app'' ''again'') [] = Inr NoRequeue \<and>
   restore_trace (new_restore\<lparr>rst_phase := RestorePhaseFailed\<rparr>) [] = [Read (GetRestore ''app'' ''again'')]"
  by (rule restore_terminal_final [OF restore_world_restore]) (simp add: restore_with_def)

lemma restore_pipeline_order_witness:
  "\<exists>before j after. restore_trace new_restore (take 3 stages) = before @ Write (CreateJob j) # after \<and>
     job_name j = ''again-api-workload'' \<and> om_namespace (job_meta j) = ''app'' \<and>
     job_done (restore_world new_restore (take 3 stages)) (restore_with new_restore) ''again-api-fetch'' before"
proof -
  obtain before j after where t: "restore_trace new_restore (take 3 stages) = before @ Write (CreateJob j) # after"
    and j: "job_name j = ''again-api-workload''"
    using created_in [OF stage_runs(3)] by blast
  have target: "r_target (restore_with new_restore) = ''app''" by (simp add: restore_with_def)
  have "om_namespace (job_meta j) = ''app'' \<and>
      job_done (restore_world new_restore (take 3 stages)) (restore_with new_restore) ''again-api-fetch'' before"
    using restore_pipeline_order [OF restore_world_restore t] unfolding j stage_names target by simp
  with t j show ?thesis by blast
qed

lemma restore_creates_runnable_jobs_witness:
  "\<exists>j. Write (CreateJob j) \<in> set (restore_trace new_restore (take 2 stages)) \<and>
     (case agent_main (\<lambda>_. '''') (job_command j) of DoRestoreVolume a \<Rightarrow> True | DoApplyManifests a \<Rightarrow> True | _ \<Rightarrow> False)"
proof -
  obtain j where j: "Write (CreateJob j) \<in> set (restore_trace new_restore (take 2 stages))"
    using created_in [OF stage_runs(2)] by force
  from restore_creates_runnable_jobs [OF restore_world_restore j, of "\<lambda>_. ''''"] j show ?thesis
    by (intro exI [of _ j]) (auto simp: restore_with_def)
qed

fun is_rbac_call :: "kcall \<Rightarrow> bool" where
  "is_rbac_call (Write (CreateClusterRoleBinding b)) \<longleftrightarrow> True"
| "is_rbac_call _ \<longleftrightarrow> False"

fun is_copy :: "kcall \<Rightarrow> bool" where
  "is_copy (Write (CreateSecret s)) \<longleftrightarrow> True"
| "is_copy _ \<longleftrightarrow> False"

lemma first_calls:
  "list_ex is_rbac_call (restore_trace new_restore [])" "list_ex is_copy (restore_trace new_restore [])"
  by code_simp+

lemma restore_rbac_least_privilege_witness:
  "\<exists>b. Write (CreateClusterRoleBinding b) \<in> set (restore_trace new_restore []) \<and>
     rb_role b = ''pbs-operator-pbs-restore-cluster'' \<and> rb_subject b = (''app'', ''pbs-restore'')"
proof -
  obtain c where "c \<in> set (restore_trace new_restore [])" "is_rbac_call c" using first_calls(1) by (auto simp: list_ex_iff)
  then obtain b where b: "Write (CreateClusterRoleBinding b) \<in> set (restore_trace new_restore [])"
    by (auto elim!: is_rbac_call.elims)
  from restore_rbac_least_privilege [OF restore_world_restore b] b show ?thesis
    by (intro exI [of _ b]) (auto simp: restore_with_def)
qed

lemma restore_copies_contract_only_witness:
  "\<exists>s. Write (CreateSecret s) \<in> set (restore_trace new_restore []) \<and> dom (sec_data s) \<subseteq> set repoSecretKeys \<and>
     om_namespace (sec_meta s) = ''app''"
proof -
  obtain c where "c \<in> set (restore_trace new_restore [])" "is_copy c" using first_calls(2) by (auto simp: list_ex_iff)
  then obtain s where s: "Write (CreateSecret s) \<in> set (restore_trace new_restore [])"
    by (auto elim!: is_copy.elims)
  from restore_copies_contract_only [OF restore_world_restore disjI1 [OF s]] s show ?thesis
    by (intro exI [of _ s]) (auto simp: restore_with_def)
qed

lemma restore_progress_witness:
  "case result (RestoreReconcile restore_machinery '''' (restore_world new_restore []) ''app'' ''again'') [] of
      Inl e \<Rightarrow> True
    | Inr (RequeueAfter w) \<Rightarrow> w = requeueWait
    | Inr NoRequeue \<Rightarrow> list_ex (restore_patch rterminal) (restore_trace new_restore [])"
  by (rule restore_progress [OF restore_world_restore]) (simp_all add: restore_with_def new_restore_def)

lemma restore_phase_honest_witness:
  "\<exists>before after ns n st. restore_trace new_restore stages = before @ Write (PatchRestoreStatus ns n st) # after \<and>
     rst_phase st = RestorePhaseCompleted \<and>
     vols_done restore_machinery (restore_world new_restore stages) (restore_with new_restore) before"
proof -
  obtain st where st: "patched_status (restore_trace new_restore stages) = Some st" "rst_phase st = RestorePhaseCompleted"
    using patched_phases(2) by auto
  obtain before ns n after where t: "restore_trace new_restore stages = before @ Write (PatchRestoreStatus ns n st) # after"
    using patched_in [OF st(1)] by blast
  have "rst_phase st \<noteq> holdPhase (rst_phase (r_status (restore_with new_restore)))"
    using st(2) by (simp add: holdPhase_def restore_with_def new_restore_def)
  from restore_phase_honest [OF restore_world_restore t this]
  have "vols_done restore_machinery (restore_world new_restore stages) (restore_with new_restore) before"
    unfolding st(2) by simp
  with t st(2) show ?thesis by blast
qed

text \<open>The status after the reconcile that launched the workload apply.\<close>

definition later_status :: PBSRestoreStatus where
  "later_status = stored_restore_status (the (patched_status (restore_trace new_restore (take 3 stages))))"

lemma later_patched: "restore_patched new_restore later_status"
proof -
  obtain st where st: "patched_status (restore_trace new_restore (take 3 stages)) = Some st"
    using patched_phases(1) by auto
  obtain before ns n after where "restore_trace new_restore (take 3 stages) = before @ Write (PatchRestoreStatus ns n st) # after"
    using patched_in [OF st] by blast
  then have "Write (PatchRestoreStatus ns n st) \<in> set (restore_trace new_restore (take 3 stages))" by simp
  from restore_patched.patched [OF restore_world_restore this] show ?thesis
    unfolding later_status_def st by (simp add: restore_with_def)
qed


lemma later_run:
  "created_names (restore_trace later_status (take 3 stages)) = [''again-api-workload'']"
  "map rj_job (rst_jobs later_status) = [''again-api-fetch'', ''again-api-pre'', ''again-vol-n1'']"
  by code_simp+


end
