(* ===== verification/Restore_Progress.thy ===== *)
theory Restore_Progress
  imports Restore_Examples
begin

text \<open>
  That a restore arrives: in a cluster that answers, once the Jobs of the pipeline are finished
  (complete, or recorded as complete and reaped since), one reconcile completes the restore.
\<close>

section \<open>A cluster that answers\<close>

definition secret_source :: "kube \<Rightarrow> PBSRepo \<Rightarrow> string" where
  "secret_source K repo = (if ref_namespace (rp_secretRef (repo_spec repo)) = '''' then operatorNamespace K
     else ref_namespace (rp_secretRef (repo_spec repo)))"

definition found_or_missing :: "gerr + 'a \<Rightarrow> bool" where
  "found_or_missing r \<longleftrightarrow> (\<forall>e. r = Inl e \<longrightarrow> e = NotFound)"

definition gates_open :: "kube \<Rightarrow> PBSRestore \<Rightarrow> bool" where
  "gates_open K rs \<longleftrightarrow>
     (\<forall>l w. k_write K l w = None) \<and>
     (\<forall>l. \<exists>repo. k_repo K l (rs_repoRef (r_spec rs)) = Inr repo \<and>
        k_conditionTrue K (rps_conditions (repo_status repo)) condReady \<and>
        (\<forall>l'. (\<exists>s. k_secret K l' (secret_source K repo) (ref_name (rp_secretRef (repo_spec repo))) = Inr s) \<and>
          found_or_missing (k_secret K l' (r_target rs) (''pbsrepo-'' @ om_name (repo_meta repo))))) \<and>
     (\<forall>l. found_or_missing (k_namespace K l (r_target rs)) \<and>
        (\<forall>m. k_namespace K l (r_target rs) = Inr m \<longrightarrow> om_deletion m = None) \<and>
        found_or_missing (k_serviceAccount K l (r_target rs) restoreSA) \<and>
        found_or_missing (k_roleBinding K l (r_target rs) restoreSA) \<and>
        found_or_missing (k_clusterRoleBinding K l (''pbs-restore-'' @ r_target rs)))"

definition job_finished :: "kube \<Rightarrow> PBSRestore \<Rightarrow> string \<Rightarrow> bool" where
  "job_finished K rs name \<longleftrightarrow> (\<forall>l. reads_done K rs name l (Read (GetJob (r_target rs) name)))"

definition pipeline_finished :: "apimachinery \<Rightarrow> kube \<Rightarrow> PBSRestore \<Rightarrow> string \<Rightarrow> bool" where
  "pipeline_finished A K rs data \<longleftrightarrow>
     (\<forall>l. \<exists>cm. k_configMap K l (r_target rs) (staged_name rs) = Inr cm \<and> label (cm_data cm) ''api.yaml'' = data) \<and>
     job_finished K rs (fetch_name rs) \<and> job_finished K rs (pre_name rs) \<and> job_finished K rs (workload_name rs) \<and>
     (\<exists>docs. ParseAPIManifests A data (r_target rs) = Inr docs \<and>
        (\<forall>l. \<exists>names gs. k_nodes K l = Inr names \<and>
           place_volumes docs (first_name names) (planned_claims A rs docs) [] = Inr gs \<and>
           list_all (\<lambda>node. job_finished K rs (vol_jobName rs node)) (map fst gs)))"

text \<open>Before that, a Job of the pipeline may be fresh: absent and never recorded.  \<open>F\<close> are the names that
  may be.  Up to the first fresh one every Job is finished, and then its stage can be read.\<close>

definition job_fresh :: "kube \<Rightarrow> PBSRestore \<Rightarrow> string \<Rightarrow> bool" where
  "job_fresh K rs name \<longleftrightarrow> (\<forall>l. k_job K l (r_target rs) name = Inl NotFound) \<and> \<not> knownJob rs name"

definition job_settled :: "kube \<Rightarrow> PBSRestore \<Rightarrow> string set \<Rightarrow> string \<Rightarrow> bool" where
  "job_settled K rs F name \<longleftrightarrow> job_finished K rs name \<or> name \<in> F \<and> job_fresh K rs name"

definition pipeline_settled :: "apimachinery \<Rightarrow> kube \<Rightarrow> PBSRestore \<Rightarrow> string set \<Rightarrow> string \<Rightarrow> bool" where
  "pipeline_settled A K rs F data \<longleftrightarrow>
     (job_finished K rs (fetch_name rs) \<longrightarrow>
        (\<forall>l. \<exists>cm. k_configMap K l (r_target rs) (staged_name rs) = Inr cm \<and> label (cm_data cm) ''api.yaml'' = data)) \<and>
     job_settled K rs F (fetch_name rs) \<and> job_settled K rs F (pre_name rs) \<and> job_settled K rs F (workload_name rs) \<and>
     (\<exists>docs. ParseAPIManifests A data (r_target rs) = Inr docs \<and>
        (\<forall>l. \<exists>names gs. k_nodes K l = Inr names \<and>
           place_volumes docs (first_name names) (planned_claims A rs docs) [] = Inr gs \<and>
           list_all (\<lambda>node. job_settled K rs F (vol_jobName rs node)) (map fst gs)))"

lemma pipeline_finished_settled: "pipeline_finished A K rs data \<Longrightarrow> pipeline_settled A K rs {} data"
  by (simp add: pipeline_finished_def pipeline_settled_def job_settled_def)

section \<open>Every part gives what the next one needs\<close>

abbreviation always :: "'a \<Rightarrow> 'a kop \<Rightarrow> bool" where
  "always v m \<equiv> gives (\<lambda>x n. x = v) m"

lemma always_bindE: "always (Inr v) m \<Longrightarrow> gives (\<lambda>y n. R y) (f v) \<Longrightarrow> gives (\<lambda>y n. R y) (bindE m f)"
  by (erule gives_bindE) auto

text \<open>The outcomes of a reconcile that gets on: Completed is the last status it records, or it creates
  a fresh Job.\<close>

definition completes :: "outcome \<Rightarrow> kcall list \<Rightarrow> bool" where
  "completes x n \<longleftrightarrow> x = Inr NoRequeue \<and>
     (\<exists>m ns nm st m'. n = m @ Write (PatchRestoreStatus ns nm st) # m' \<and> rst_phase st = RestorePhaseCompleted \<and>
        list_all (\<lambda>c. \<not> restore_patch (\<lambda>_. True) c) m')"

definition launches :: "kube \<Rightarrow> PBSRestore \<Rightarrow> string set \<Rightarrow> kcall list \<Rightarrow> bool" where
  "launches K rs F n \<longleftrightarrow> (\<exists>j. Write (CreateJob j) \<in> set n \<and> om_namespace (job_meta j) = r_target rs \<and>
     job_name j \<in> F \<and> job_fresh K rs (job_name j))"

definition advances :: "kube \<Rightarrow> PBSRestore \<Rightarrow> string set \<Rightarrow> outcome \<Rightarrow> kcall list \<Rightarrow> bool" where
  "advances K rs F x n \<longleftrightarrow> completes x n \<or> launches K rs F n"

lemma launches_append [simp]: "launches K rs F (n @ n') \<longleftrightarrow> launches K rs F n \<or> launches K rs F n'"
  by (auto simp: launches_def)

lemma advances_after: "advances K rs F x n' \<Longrightarrow> advances K rs F x (n @ n')"
  unfolding advances_def completes_def by (auto, metis append_assoc)

lemma advances_call: "advances K rs F x n' \<Longrightarrow> advances K rs F x (c # n')"
  using advances_after [of K rs F x n' "[c]"] by simp

lemma advances_none: "advances K rs {} x n \<longleftrightarrow> completes x n"
  by (simp add: advances_def launches_def)

lemma completes_patch: "completes x n \<Longrightarrow> x = Inr NoRequeue \<and> list_ex (restore_patch ((=) RestorePhaseCompleted)) n"
  by (auto simp: completes_def)

text \<open>A step that is done, or has created a fresh Job.\<close>

definition step_settled :: "kube \<Rightarrow> PBSRestore \<Rightarrow> string set \<Rightarrow> (restore_error + bool) \<Rightarrow> kcall list \<Rightarrow> bool" where
  "step_settled K rs F x n \<longleftrightarrow> x = Inr True \<or> x = Inr False \<and> launches K rs F n"

definition owners_total :: "kube \<Rightarrow> bool" where
  "owners_total K \<longleftrightarrow> (\<forall>kind owner m. \<exists>m'. set_owner K kind owner m = Inr m')"

lemma ensureJob_finished: "job_finished K rs name \<Longrightarrow> always (Inr True) (ensureJob K rs name build)"
  unfolding ensureJob_def get_job_def job_finished_def reads_done_def
  by (rule gives_bind_answer) (auto intro!: gives_rules split: sum.splits)

lemma ensureJob_fresh:
  assumes "job_fresh K rs name" "name \<in> F" "owners_total K" "\<forall>l w. k_write K l w = None"
    and "om_namespace (job_meta build) = r_target rs"
  shows "gives (\<lambda>x n. x = Inr False \<and> launches K rs F n) (ensureJob K rs name build)"
proof -
  have "owned_job K rs name build \<noteq> Inl e" for e
    using assms(3) unfolding owners_total_def owned_job_def Let_def by (auto split: sum.splits) (metis sum.distinct(1))
  then obtain j where j: "owned_job K rs name build = Inr j" by (cases "owned_job K rs name build") auto
  have "job_name j = name" "om_namespace (job_meta j) = r_target rs" using owned_job_fields [OF j] assms(5) by simp_all
  then have launched: "launches K rs F [c, Write (CreateJob j)]" for c using assms(1,2) by (auto simp: launches_def)
  have fresh: "k_job K l (r_target rs) name = Inl NotFound" "\<not> knownJob rs name" for l
    using assms(1) by (simp_all add: job_fresh_def)
  show ?thesis
    unfolding ensureJob_def get_job_def do_write_def
    by (rule gives_bind_answer, simp add: fresh j, rule gives_bind_answer) (simp add: assms(4) create_ok_def gives_return launched)
qed

lemma ensureJob_settled:
  assumes "job_settled K rs F name" "F \<noteq> {} \<Longrightarrow> owners_total K" "\<forall>l w. k_write K l w = None"
    and "om_namespace (job_meta build) = r_target rs"
  shows "gives (\<lambda>x n. step_settled K rs F x n \<and> (x = Inr True \<longrightarrow> job_finished K rs name)) (ensureJob K rs name build)"
proof (cases "job_finished K rs name")
  case True
  then show ?thesis by (intro gives_mono [OF ensureJob_finished [OF True]]) (simp add: step_settled_def)
next
  case False
  then have "name \<in> F" "job_fresh K rs name" using assms(1) by (auto simp: job_settled_def)
  moreover from this(1) have "owners_total K" using assms(2) by blast
  ultimately show ?thesis
    by (intro gives_mono [OF ensureJob_fresh [OF _ _ _ assms(3,4)]]) (simp_all add: step_settled_def)
qed

lemma volume_jobs_settled:
  assumes "F \<noteq> {} \<Longrightarrow> owners_total K" "\<forall>l w. k_write K l w = None" "rjs_Namespace spec = r_target rs"
  shows "list_all (\<lambda>node. job_settled K rs F (vol_jobName rs node)) nodes \<Longrightarrow>
    gives (step_settled K rs F) (volume_jobs K rs spec gs nodes)"
proof (induction nodes)
  case (Cons node nodes)
  have one: "gives (\<lambda>x n. step_settled K rs F x n \<and> (x = Inr True \<longrightarrow> job_finished K rs (vol_jobName rs node)))
      (ensureJob K rs (vol_jobName rs node) (BuildRestoreVolumeJob spec node ps))" for ps
    using Cons.prems assms by (intro ensureJob_settled) simp_all
  have rest: "gives (\<lambda>y n'. step_settled K rs F y (n @ n')) (volume_jobs K rs spec gs nodes)" for n
    by (rule gives_mono [OF Cons.IH]) (use Cons.prems in \<open>auto simp: step_settled_def\<close>)
  show ?case
    unfolding volume_jobs.simps
  proof (rule gives_bind [OF one], goal_cases)
    case (1 x n)
    then show ?case using rest [of n] by (auto simp: step_settled_def intro!: gives_return)
  qed
qed (simp add: gives_return step_settled_def)

lemma await_settled:
  assumes "gives (\<lambda>x n. step_settled K rs F x n \<and> (x = Inr True \<longrightarrow> Q)) step" "Q \<Longrightarrow> gives (advances K rs F) rest"
  shows "gives (advances K rs F) (await K rs phase step rest)"
  unfolding await_def
proof (rule gives_bind [OF assms(1)], goal_cases)
  case (1 x n)
  then consider (finished) "x = Inr True" Q | (launched) "x = Inr False" "launches K rs F n"
    by (auto simp: step_settled_def)
  then show ?case
  proof cases
    case finished
    with gives_mono [OF assms(2) advances_after] show ?thesis by simp
  next
    case launched
    have "emits (\<lambda>_. True) (requeueOrHold K rs phase None)"
      unfolding requeueOrHold_def recordRestore_def progress_status_def liveJobs_def do_write_def client_defs skipE_def bindE_def
      by (intro emits_bind emits_rules | simp)+
    then have "gives (\<lambda>_ _. True) (requeueOrHold K rs phase None)" unfolding gives_def emits_def by meson
    from gives_mono [OF this] launched show ?thesis by (simp add: advances_def)
  qed
qed

lemma completeRestore_completes:
  assumes "\<forall>l w. k_write K l w = None" "\<not> rterminal (rst_phase (r_status rs))"
  shows "gives completes (completeRestore K rs)"
proof -
  have extra: "gives (\<lambda>x n. rst_phase (fst x) = rst_phase s) (end_status K rs s)" for s
    unfolding end_status_def read_clock_def
    by (rule gives_bind [OF liveJobs_gives]) (auto intro!: gives_rules split: option.split)
  have "gives (\<lambda>x n. (\<exists>t. x = Inr t) \<and> (\<exists>m ns nm st. n = m @ [Write (PatchRestoreStatus ns nm st)] \<and> rst_phase st = RestorePhaseCompleted))
      (recordRestore K rs RestorePhaseCompleted c (end_status K rs))" for c
    unfolding recordRestore_def
  proof (rule gives_bind_observe, rule gives_case_prod, rule gives_bind [OF extra], rule gives_case_prod, goal_cases)
    case (1 l conds t x n s js)
    then have "rst_phase (set_jobs s js) = RestorePhaseCompleted" by simp
    moreover from this have "set_jobs s js \<noteq> r_status rs" using assms(2) by metis
    ultimately show ?case
      unfolding skipE_def do_write_def
      by (simp, intro gives_bind_answer) (auto intro!: gives_rules simp: assms(1))
  qed
  then show ?thesis
    unfolding completeRestore_def Let_def
  proof (rule gives_bindE, goal_cases)
    case (2 t n)
    then obtain m ns nm st where n: "n = m @ [Write (PatchRestoreStatus ns nm st)]" "rst_phase st = RestorePhaseCompleted" by auto
    have "gives (\<lambda>y n'. list_all (\<lambda>c. \<not> restore_patch (\<lambda>_. True) c) n' \<and> y = Inr NoRequeue)
      (do { notifyRestore rs t EventNormal reasonCompleted msg; State_Monad.return (Inr NoRequeue) })" for msg :: string
      unfolding notifyRestore_def emit_def by (auto intro!: gives_rules)
    then show ?case by (rule gives_mono) (use n in \<open>simp add: completes_def, blast\<close>)
  qed auto
qed

lemma adoptConfigMap_data:
  assumes "\<forall>l cm. k_configMap K l (r_target rs) (staged_name rs) = Inr cm \<longrightarrow> label (cm_data cm) ''api.yaml'' = data"
    and "label (cm_data cm) ''api.yaml'' = data"
  shows "gives (\<lambda>c n. label (cm_data c) ''api.yaml'' = data) (adoptConfigMap K rs cm)"
  unfolding adoptConfigMap_def do_write_def
  using assms by (auto intro!: gives_rules simp: gives_def split: sum.split)

lemma pipeline_advances:
  assumes "pipeline_settled A K rs F data" "\<forall>l w. k_write K l w = None" "\<not> rterminal (rst_phase (r_status rs))"
    and owners: "F \<noteq> {} \<Longrightarrow> owners_total K" and ns: "rjs_Namespace spec = r_target rs"
  shows "gives (advances K rs F) (run_pipeline A K rs spec)"
proof -
  from assms(1) obtain docs where docs: "ParseAPIManifests A data (r_target rs) = Inr docs"
    and nodes: "\<And>l. \<exists>names gs. k_nodes K l = Inr names \<and>
        place_volumes docs (first_name names) (planned_claims A rs docs) [] = Inr gs \<and>
        list_all (\<lambda>node. job_settled K rs F (vol_jobName rs node)) (map fst gs)"
    and cm: "\<And>l. job_finished K rs (fetch_name rs) \<Longrightarrow>
        \<exists>cm. k_configMap K l (r_target rs) (staged_name rs) = Inr cm \<and> label (cm_data cm) ''api.yaml'' = data"
    and jobs: "job_settled K rs F (fetch_name rs)" "job_settled K rs F (pre_name rs)" "job_settled K rs F (workload_name rs)"
    unfolding pipeline_settled_def by blast
  note ensure = ensureJob_settled [OF _ owners assms(2)]
  have built: "om_namespace (job_meta (apply_build rs spec ph)) = r_target rs"
    "om_namespace (job_meta (BuildAPIFetchJob spec c)) = r_target rs" for ph c
    using ns by (simp_all add: apply_build_def)
  have work: "gives (advances K rs F) (apply_workloads K rs spec)"
    unfolding apply_workloads_def
    by (rule await_settled [OF ensure [OF jobs(3)]])
      (use gives_mono [OF completeRestore_completes [OF assms(2,3)]] in \<open>simp_all add: built advances_def\<close>)
  have vols: "gives (\<lambda>x n. step_settled K rs F x n \<and> (x = Inr True \<longrightarrow> True))
      (ensureVolumeJobs K rs spec docs (planned_claims A rs docs))"
    unfolding ensureVolumeJobs_def firstNode_def list_nodes_def bindE_def State_Monad.bind_assoc
  proof (rule gives_bind_answer, goal_cases)
    case (1 l)
    obtain names gs where n: "k_nodes K l = Inr names"
      "place_volumes docs (first_name names) (planned_claims A rs docs) [] = Inr gs"
      "list_all (\<lambda>node. job_settled K rs F (vol_jobName rs node)) (map fst gs)" using nodes by blast
    then have "gives (step_settled K rs F) (volume_jobs K rs spec gs (sort (map fst gs)))"
      using owners assms(2) ns by (intro volume_jobs_settled) (simp_all add: list_all_iff)
    then have "gives (\<lambda>x n. step_settled K rs F x (Read ListNodes # n)) (volume_jobs K rs spec gs (sort (map fst gs)))"
      by (rule gives_mono) (auto simp: step_settled_def launches_def)
    then show ?case using n by (auto intro!: gives_rules)
  qed
  have volumes: "gives (advances K rs F) (restore_volumes A K rs spec c)" if "label (cm_data c) ''api.yaml'' = data" for c :: config_map
    unfolding restore_volumes_def that docs sum.case Let_def
    by (intro gives_if await_settled [OF vols] work)
  have pre: "gives (advances K rs F) (apply_pre A K rs spec)" if fetched: "job_finished K rs (fetch_name rs)"
    unfolding apply_pre_def get_configMap_def
  proof (rule gives_bind_answer, goal_cases)
    case (1 l)
    obtain c where c: "k_configMap K l (r_target rs) (staged_name rs) = Inr c" "label (cm_data c) ''api.yaml'' = data"
      using cm [OF fetched] by blast
    have all: "\<forall>l c. k_configMap K l (r_target rs) (staged_name rs) = Inr c \<longrightarrow> label (cm_data c) ''api.yaml'' = data"
      using cm [OF fetched] by (metis sum.inject(2))
    have rest: "gives (advances K rs F) (await K rs RestorePhaseStagingAPI
        (ensureJob K rs (pre_name rs) (apply_build rs spec ''pre'')) (restore_volumes A K rs spec c'))"
      if "label (cm_data c') ''api.yaml'' = data" for c' :: config_map
      by (rule await_settled [OF ensure [OF jobs(2)]]) (simp_all add: built volumes that)
    show ?case
      unfolding c(1) sum.case
      by (rule gives_bind [OF adoptConfigMap_data [OF all c(2)]])
        (rule gives_mono [OF rest], simp, intro advances_call advances_after)
  qed
  show ?thesis
    unfolding run_pipeline_def
    by (rule await_settled [OF ensure [OF jobs(1)]]) (simp_all add: ns pre)
qed

section \<open>The gates\<close>

lemma create_missing_ok: "\<forall>l w. k_write K l w = None \<Longrightarrow> always (Inr ()) (create_missing K w)"
  unfolding create_missing_def do_write_def
  by (rule gives_bind_answer) (auto intro!: gives_rules simp: create_ok_def)

lemma ensure_object_ok:
  assumes "\<forall>l w. k_write K l w = None" "\<forall>l. found_or_missing (f l)"
  shows "always (Inr ()) (ensure_object K (invoke c f) w)"
  unfolding ensure_object_def
  by (rule gives_bind_answer)
    (use assms in \<open>auto intro!: gives_rules gives_mono [OF create_missing_ok] simp: found_or_missing_def\<close>)

lemma ensureJobRBAC_ok: "gates_open K rs \<Longrightarrow> always (Inr ()) (ensureJobRBAC K rs)"
  unfolding ensureJobRBAC_def client_defs
  by (intro always_bindE [OF ensure_object_ok] ensure_object_ok) (simp_all add: gates_open_def)

lemma ensureTargetNamespace_ok:
  assumes "gates_open K rs"
  shows "always (Inr '''') (ensureTargetNamespace K rs)"
proof -
  have w: "\<forall>l w. k_write K l w = None" using assms by (simp add: gates_open_def)
  show ?thesis
    unfolding ensureTargetNamespace_def get_namespace_def
  proof (rule gives_bind_answer)
    fix l
    have "found_or_missing (k_namespace K l (r_target rs))"
      "\<forall>m. k_namespace K l (r_target rs) = Inr m \<longrightarrow> om_deletion m = None"
      using assms by (simp_all add: gates_open_def)
    then show "always (Inr '''') (case k_namespace K l (r_target rs) of
        Inl e \<Rightarrow> if e = NotFound
          then bindE (create_missing K (CreateNamespace (r_target rs))) (\<lambda>_. State_Monad.return (Inr ''''))
          else State_Monad.return (Inl e)
      | Inr m \<Rightarrow> if om_deletion m \<noteq> None
          then State_Monad.return (Inr (''target namespace '' @ om_name m @ '' is terminating''))
          else State_Monad.return (Inr ''''))"
      by (auto intro!: gives_rules always_bindE [OF create_missing_ok [OF w]] simp: found_or_missing_def)
  qed
qed

lemma ensureTargetRepoSecret_ok:
  assumes w: "\<forall>l w. k_write K l w = None"
    and src: "\<forall>l. \<exists>s. k_secret K l (secret_source K repo) (ref_name (rp_secretRef (repo_spec repo))) = Inr s"
    and old: "\<forall>l. found_or_missing (k_secret K l (r_target rs) (''pbsrepo-'' @ om_name (repo_meta repo)))"
  shows "gives (\<lambda>x n. \<exists>name. x = Inr (Inr name)) (ensureTargetRepoSecret K rs repo)"
  unfolding ensureTargetRepoSecret_def Let_def get_secret_def secret_source_def [symmetric]
proof (rule gives_bind_answer)
  fix l
  obtain s where s: "k_secret K l (secret_source K repo) (ref_name (rp_secretRef (repo_spec repo))) = Inr s"
    using src by blast
  show "gives (\<lambda>x n. \<exists>name. x = Inr (Inr name))
    (case k_secret K l (secret_source K repo) (ref_name (rp_secretRef (repo_spec repo))) of
       Inl e \<Rightarrow>
         if e = NotFound
         then State_Monad.return (Inr (Inl (''repo secret '' @ secret_source K repo @ ''/'' @
           ref_name (rp_secretRef (repo_spec repo)) @ '' not found'')))
         else State_Monad.return (Inl e)
     | Inr src \<Rightarrow> State_Monad.bind (invoke (Read (GetSecret (r_target rs) (''pbsrepo-'' @ om_name (repo_meta repo))))
           (\<lambda>l. k_secret K l (r_target rs) (''pbsrepo-'' @ om_name (repo_meta repo))))
         (\<lambda>old. case old of
            Inl e \<Rightarrow>
              if e = NotFound
              then bindE (create_missing K (CreateSecret (copy_secret (''pbsrepo-'' @ om_name (repo_meta repo))
                     (r_target rs) (contract_data (sec_data src)))))
                   (\<lambda>_. State_Monad.return (Inr (Inr (''pbsrepo-'' @ om_name (repo_meta repo)))))
              else State_Monad.return (Inl e)
          | Inr existing \<Rightarrow>
              if contractEqual (sec_data existing) (contract_data (sec_data src)) \<and>
                 label (om_labels (sec_meta existing)) ManagedLabel \<noteq> ''''
              then State_Monad.return (Inr (Inr (''pbsrepo-'' @ om_name (repo_meta repo))))
              else skipE (do_write K (UpdateSecret (existing\<lparr>sec_data := contract_data (sec_data src),
                      sec_meta := (sec_meta existing)\<lparr>om_labels := (om_labels (sec_meta existing))(ManagedLabel \<mapsto> ''true'')\<rparr>\<rparr>)))
                   (State_Monad.return (Inr (Inr (''pbsrepo-'' @ om_name (repo_meta repo))))))
     )"
    unfolding s sum.case skipE_def do_write_def
  proof (rule gives_bind_answer, goal_cases)
    case (1 l')
    have "found_or_missing (k_secret K l' (r_target rs) (''pbsrepo-'' @ om_name (repo_meta repo)))" using old by blast
    then show ?case
      by (intro gives_case_sum gives_if gives_return always_bindE [OF create_missing_ok [OF w]] gives_bind_answer)
        (auto simp: found_or_missing_def w intro!: gives_rules)
  qed
qed

text \<open>With the gates open and every Job finished or fresh, a reconcile gets on.\<close>

lemma reconcile_advances:
  assumes "k_restore K l ns n = Inr rs" "\<not> rterminal (rst_phase (r_status rs))" "validateSpec rs = ''''"
    and "gates_open K rs" "pipeline_settled A K rs F data" "F \<noteq> {} \<Longrightarrow> owners_total K"
  shows "advances K rs F (result (RestoreReconcile A img K ns n) l) (trace (RestoreReconcile A img K ns n) l)"
proof -
  have w: "\<forall>l w. k_write K l w = None" using assms(4) by (simp add: gates_open_def)
  have target: "gives (advances K rs F) (prepare_target A img K rs repo)"
    if "\<forall>l. (\<exists>s. k_secret K l (secret_source K repo) (ref_name (rp_secretRef (repo_spec repo))) = Inr s) \<and>
      found_or_missing (k_secret K l (r_target rs) (''pbsrepo-'' @ om_name (repo_meta repo)))" for repo
  proof -
    have rest: "gives (\<lambda>y m. advances K rs F y (m' @ m)) (run_pipeline A K rs (restore_spec img rs sec))"
      for sec and m' :: "kcall list"
      by (rule gives_mono [OF pipeline_advances [OF assms(5) w assms(2)]])
        (simp_all add: restore_spec_def assms(6) advances_after)
    show ?thesis
      unfolding prepare_target_def
      by (rule gives_bindE [OF ensureTargetNamespace_ok [OF assms(4)]], simp, simp,
          rule gives_bindE [OF ensureTargetRepoSecret_ok [OF w]], use that in simp, use that in simp, simp, clarsimp,
          rule gives_bindE [OF ensureJobRBAC_ok [OF assms(4)]], simp)
        (use rest in \<open>simp add: append_assoc [symmetric] del: append_assoc\<close>)
  qed
  have rec: "gives (advances K rs F) (reconcile_restore A img K rs)"
  proof -
    have "gives (advances K rs F) (State_Monad.bind (get_repo K (rs_repoRef (r_spec rs))) (\<lambda>r. case r of
          Inl e \<Rightarrow>
            if e \<noteq> NotFound then State_Monad.return (Inl e)
            else holdRestore K rs reasonRepoNotReady
                   (''PBSRepo '' @ rs_repoRef (r_spec rs) @ '' not found'') requeueWait
        | Inr repo \<Rightarrow>
            if \<not> k_conditionTrue K (rps_conditions (repo_status repo)) condReady
            then holdRestore K rs reasonRepoNotReady
                   (''PBSRepo '' @ om_name (repo_meta repo) @ '' is not Ready'') requeueWait
            else prepare_target A img K rs repo))"
      unfolding get_repo_def
    proof (rule gives_bind_answer, goal_cases)
      case (1 l)
      obtain repo where repo: "k_repo K l (rs_repoRef (r_spec rs)) = Inr repo"
        "k_conditionTrue K (rps_conditions (repo_status repo)) condReady"
        "\<forall>l. (\<exists>s. k_secret K l (secret_source K repo) (ref_name (rp_secretRef (repo_spec repo))) = Inr s) \<and>
          found_or_missing (k_secret K l (r_target rs) (''pbsrepo-'' @ om_name (repo_meta repo)))"
        using assms(4) unfolding gates_open_def by blast
      show ?case using gives_mono [OF target [OF repo(3)] advances_call] repo(1,2) by simp
    qed
    then show ?thesis using assms(2,3) by (simp add: reconcile_restore_def)
  qed
  let ?l = "l @ [Read (GetRestore ns n)]"
  have run: "run_state (RestoreReconcile A img K ns n) l = run_state (reconcile_restore A img K rs) ?l"
    by (simp add: RestoreReconcile_def get_restore_def assms(1))
  obtain t where t: "snd (run_state (reconcile_restore A img K rs) ?l) = ?l @ t"
    "advances K rs F (fst (run_state (reconcile_restore A img K rs) ?l)) t"
    using rec unfolding gives_def by blast
  then show ?thesis unfolding result_def trace_def run t(1) by (simp add: advances_call)
qed

text \<open>A restore arrives: when the cluster answers and every Job of the pipeline is finished, complete
  or recorded as complete and reaped since, one reconcile of a valid restore takes it to
  Completed, from whatever phase it was in.\<close>

theorem restore_completes:
  assumes "k_restore K l ns n = Inr rs" "\<not> rterminal (rst_phase (r_status rs))" "validateSpec rs = ''''"
    and "gates_open K rs" "pipeline_finished A K rs data"
  shows "result (RestoreReconcile A img K ns n) l = Inr NoRequeue \<and>
    list_ex (restore_patch ((=) RestorePhaseCompleted)) (trace (RestoreReconcile A img K ns n) l)"
  using reconcile_advances [OF assms(1-4) pipeline_finished_settled [OF assms(5)], of img]
  by (simp add: advances_none completes_patch)

lemma restore_completes_witness:
  "result (RestoreReconcile restore_machinery '''' (restore_world new_restore stages) ''app'' ''again'') [] = Inr NoRequeue \<and>
   list_ex (restore_patch ((=) RestorePhaseCompleted)) (restore_trace new_restore stages)"
proof (rule restore_completes [OF restore_world_restore])
  have names: "vol_jobName (restore_with new_restore) ''n1'' = ''again-vol-n1''"
    by (simp add: vol_jobName_def restore_with_def jobName_def)
  have complete: "jobCondition complete_job JobComplete" "\<not> jobCondition complete_job JobFailed"
    by (simp_all add: complete_job_def jobCondition_def)
  have job: "job_finished (restore_world new_restore stages) (restore_with new_restore) name" if "name \<in> set stages" for name
    using that complete by (simp add: job_finished_def reads_done_def restore_world_def)
  have docs: "ParseAPIManifests restore_machinery ''kind: PersistentVolumeClaim'' (r_target (restore_with new_restore)) =
      Inr [\<lparr>pd_Kind = ''PersistentVolumeClaim'', pd_Namespace = ''app'', pd_Name = ''data'',
        pd_Obj = stripPVCBinding (set_namespace ''app'' claim_doc)\<rparr>]"
    by code_simp
  have place: "place_volumes [\<lparr>pd_Kind = ''PersistentVolumeClaim'', pd_Namespace = ''app'', pd_Name = ''data'',
        pd_Obj = stripPVCBinding (set_namespace ''app'' claim_doc)\<rparr>] (first_name [''n1''])
      (planned_claims restore_machinery (restore_with new_restore)
        [\<lparr>pd_Kind = ''PersistentVolumeClaim'', pd_Namespace = ''app'', pd_Name = ''data'',
        pd_Obj = stripPVCBinding (set_namespace ''app'' claim_doc)\<rparr>]) [] = Inr [(''n1'', [''data''])]"
    by code_simp
  show "pipeline_finished restore_machinery (restore_world new_restore stages) (restore_with new_restore)
      ''kind: PersistentVolumeClaim''"
    unfolding pipeline_finished_def docs stage_names
    using job place by (simp add: restore_world_def staged_manifest_def label_def names)
  show "gates_open (restore_world new_restore stages) (restore_with new_restore)"
    by (simp add: gates_open_def restore_world_def restore_with_def found_or_missing_def restore_repo_def
        secret_source_def empty_world_def condition_true_def new_condition_def condReady_def)
  show "validateSpec (restore_with new_restore) = ''''" by code_simp
qed (simp add: restore_with_def new_restore_def)

end
