(* ===== verification/Backup_Progress.thy ===== *)
theory Backup_Progress
  imports Backup_Examples Restore_Progress
begin

text \<open>
  That a backup arrives: in a cluster that answers, once the Jobs of the plan are complete and their
  results can be read, one reconcile completes the backup; and before that, one reconcile launches
  what is missing.
\<close>

section \<open>A cluster that answers\<close>

definition backup_gates_open :: "kube \<Rightarrow> PBSBackup \<Rightarrow> bool" where
  "backup_gates_open K b \<longleftrightarrow>
     (\<forall>l w. k_write K l w = None) \<and>
     (\<forall>kind owner m. \<exists>m'. set_owner K kind owner m = Inr m') \<and>
     (\<forall>l. \<exists>repo. k_repo K l (bs_repoRef (b_spec b)) = Inr repo \<and>
        k_conditionTrue K (rps_conditions (repo_status repo)) condReady \<and>
        (\<forall>l'. (\<exists>s. k_secret K l' (secret_source K repo) (ref_name (rp_secretRef (repo_spec repo))) = Inr s) \<and>
          found_or_missing (k_secret K l' (b_ns b) (''pbsrepo-'' @ om_name (repo_meta repo)))))"

text \<open>The selection, the staging and the placement answer with these claims, this ConfigMap (empty
  when nothing is staged), these pods and these groups.\<close>

definition backup_plan_answers :: "PBSBackupReconciler \<Rightarrow> kube \<Rightarrow> PBSBackup \<Rightarrow> pvc list \<Rightarrow> string \<Rightarrow> groups \<Rightarrow> bool" where
  "backup_plan_answers R K b cs staging gs \<longleftrightarrow>
     always (Inr (Inr cs)) (selectPVCs K b) \<and> always (Inr staging) (stage R K b) \<and> (cs \<noteq> [] \<or> staging \<noteq> '''') \<and>
     (\<exists>pods. (\<forall>l. k_pods K l (b_ns b) None = Inr pods) \<and>
        (if cs = [] then \<exists>names. (\<forall>l. k_nodes K l = Inr names) \<and> first_name names \<noteq> '''' \<and> gs = [(first_name names, [])]
         else always (Inr (Inr gs)) (place_all K cs pods [])))"

definition result_readable :: "kube \<Rightarrow> PBSBackup \<Rightarrow> job \<Rightarrow> bool" where
  "result_readable K b j \<longleftrightarrow> jobCondition j JobComplete \<and> \<not> jobCondition j JobFailed \<and>
     (\<forall>l. \<exists>pods ref n. k_pods K l (b_ns b) (Some (''pbsbackup'', job_name j)) = Inr pods \<and>
        read_result (job_name j) pods = Inr (ref, n))"

definition backup_job_finished :: "kube \<Rightarrow> PBSBackup \<Rightarrow> string \<Rightarrow> bool" where
  "backup_job_finished K b node \<longleftrightarrow> (\<forall>l. \<exists>j. k_job K l (b_ns b) (jobName (b_name b) node) = Inr j \<and> result_readable K b j)"

text \<open>Before that the Job of a node may be fresh: absent and not recorded.\<close>

definition backup_job_fresh :: "kube \<Rightarrow> PBSBackup \<Rightarrow> string \<Rightarrow> bool" where
  "backup_job_fresh K b node \<longleftrightarrow> (\<forall>l. k_job K l (b_ns b) (jobName (b_name b) node) = Inl NotFound) \<and>
     \<not> known_job b (jobName (b_name b) node)"

definition backup_job_settled :: "kube \<Rightarrow> PBSBackup \<Rightarrow> string \<Rightarrow> bool" where
  "backup_job_settled K b node \<longleftrightarrow> backup_job_finished K b node \<or> backup_job_fresh K b node"

text \<open>The hooks of the pods succeed, or have run before.\<close>

definition hooks_pass :: "PBSBackupReconciler \<Rightarrow> kube \<Rightarrow> PBSBackup \<Rightarrow> pvc list \<Rightarrow> bool" where
  "hooks_pass R K b cs \<longleftrightarrow> bst_jobs (b_status b) \<noteq> [] \<or>
     (\<forall>pods. (\<forall>l. k_pods K l (b_ns b) None = Inr pods) \<longrightarrow> always None (runPreHooks R K cs pods))"

section \<open>The outcomes\<close>

text \<open>What completing a backup leaves: Completed is the last status recorded, nothing is requeued.\<close>

definition backup_completes :: "outcome \<Rightarrow> kcall list \<Rightarrow> bool" where
  "backup_completes x n \<longleftrightarrow> x = Inr NoRequeue \<and>
     (\<exists>m ns nm st m'. n = m @ Write (PatchBackupStatus ns nm st) # m' \<and> bst_phase st = BackupPhaseCompleted \<and>
        list_all (\<lambda>c. \<forall>p. \<not> patch_to p c) m')"

definition launched :: "PBSBackup \<Rightarrow> string \<Rightarrow> kcall list \<Rightarrow> bool" where
  "launched b node n \<longleftrightarrow> (\<exists>j. Write (CreateJob j) \<in> set n \<and> om_namespace (job_meta j) = b_ns b \<and>
     job_name j = jobName (b_name b) node)"

text \<open>A reconcile that gets on: every node's Job is finished or was created, and when all were finished
  the backup is completed.\<close>

definition node_advanced :: "kube \<Rightarrow> PBSBackup \<Rightarrow> kcall list \<Rightarrow> string \<Rightarrow> bool" where
  "node_advanced K b n node \<longleftrightarrow> backup_job_finished K b node \<or> launched b node n"

definition backup_advances :: "kube \<Rightarrow> PBSBackup \<Rightarrow> groups \<Rightarrow> outcome \<Rightarrow> kcall list \<Rightarrow> bool" where
  "backup_advances K b gs x n \<longleftrightarrow> (\<forall>node\<in>fst ` set gs. node_advanced K b n node) \<and>
     ((\<forall>node\<in>fst ` set gs. backup_job_finished K b node) \<longrightarrow> backup_completes x n)"

lemma backup_completes_after: "backup_completes x n' \<Longrightarrow> backup_completes x (n @ n')"
  unfolding backup_completes_def by (auto, metis append_assoc)

lemma backup_completes_patches: "backup_completes x n \<Longrightarrow> x = Inr NoRequeue \<and> patches BackupPhaseCompleted n"
  by (auto simp: backup_completes_def patches_def)

lemma node_advanced_append:
  "node_advanced K b n node \<Longrightarrow> node_advanced K b (n @ n') node"
  "node_advanced K b n' node \<Longrightarrow> node_advanced K b (n @ n') node"
  by (auto simp: node_advanced_def launched_def)

lemma backup_advances_after: "backup_advances K b gs x n' \<Longrightarrow> backup_advances K b gs x (n @ n')"
  unfolding backup_advances_def by (auto intro: node_advanced_append backup_completes_after)

lemma backup_advances_call: "backup_advances K b gs x n' \<Longrightarrow> backup_advances K b gs x (c # n')"
  using backup_advances_after [of K b gs x n' "[c]"] by simp

section \<open>Every part gives what the next one needs\<close>

lemma ensureRepoSecret_ok:
  assumes w: "\<forall>l w. k_write K l w = None" and o: "\<forall>kind owner m. \<exists>m'. set_owner K kind owner m = Inr m'"
    and src: "\<forall>l. \<exists>s. k_secret K l (secret_source K repo) (ref_name (rp_secretRef (repo_spec repo))) = Inr s"
    and old: "\<forall>l. found_or_missing (k_secret K l (b_ns b) (''pbsrepo-'' @ om_name (repo_meta repo)))"
  shows "gives (\<lambda>x n. \<exists>name. x = Inr (Inr name)) (ensureRepoSecret K b repo)"
  unfolding ensureRepoSecret_def Let_def get_secret_def secret_source_def [symmetric]
proof (rule gives_bind_answer, goal_cases)
  have owner: "set_owner K kind ow m \<noteq> Inl e" for kind ow m e using o by (metis sum.distinct(1))
  case (1 l)
  obtain s where s: "k_secret K l (secret_source K repo) (ref_name (rp_secretRef (repo_spec repo))) = Inr s"
    using src by blast
  show ?case
    unfolding s sum.case skipE_def do_write_def
  proof (rule gives_bind_answer, goal_cases)
    case (1 l')
    have "found_or_missing (k_secret K l' (b_ns b) (''pbsrepo-'' @ om_name (repo_meta repo)))" using old by blast
    then show ?case
      by (intro gives_case_sum gives_if gives_return gives_bind_answer)
        (auto simp: found_or_missing_def w create_ok_def owner intro!: gives_rules)
  qed
qed

lemma place_job_settled:
  assumes "backup_job_settled K b node" "\<forall>l w. k_write K l w = None" "\<forall>kind owner m. \<exists>m'. set_owner K kind owner m = Inr m'"
  shows "gives (\<lambda>x n. \<exists>j. x = Inr (Inr \<lparr>pj_node = node, pj_job = j\<rparr>) \<and> node_advanced K b n node \<and>
      (backup_job_finished K b node \<longrightarrow> result_readable K b j)) (place_job R K b sec staging gs node)"
proof (cases "backup_job_finished K b node")
  case True
  show ?thesis
    unfolding place_job_def Let_def get_job_def
  proof (rule gives_bind_answer, goal_cases)
    case (1 l)
    from True obtain j where "k_job K l (b_ns b) (jobName (b_name b) node) = Inr j" "result_readable K b j"
      unfolding backup_job_finished_def by blast
    with True show ?case by (auto intro!: gives_rules simp: node_advanced_def)
  qed
next
  case False
  with assms(1) have fresh: "\<And>l. k_job K l (b_ns b) (jobName (b_name b) node) = Inl NotFound" "\<not> known_job b (jobName (b_name b) node)"
    by (auto simp: backup_job_settled_def backup_job_fresh_def)
  let ?spec = "backup_spec R b sec staging node (sort (group_get gs node))"
  obtain m where m: "set_owner K ''PBSBackup'' (b_meta b) (job_meta (BuildBackupJob ?spec)) = Inr m" using assms(3) by blast
  from set_owner_fields [OF m] have "launched b node [c, Write (CreateJob ((BuildBackupJob ?spec)\<lparr>job_meta := m\<rparr>))]" for c
    by (auto simp: launched_def backup_spec_def)
  then have "node_advanced K b [c, Write (CreateJob ((BuildBackupJob ?spec)\<lparr>job_meta := m\<rparr>))] node" for c
    by (simp add: node_advanced_def)
  then show ?thesis
    unfolding place_job_def Let_def get_job_def create_backup_job_def do_write_def bindE_def
    by (intro gives_bind_answer)
      (use False fresh m assms(2) in \<open>auto intro!: gives_rules gives_bind_answer\<close>)
qed

lemma place_jobs_settled:
  assumes "\<forall>l w. k_write K l w = None" "\<forall>kind owner m. \<exists>m'. set_owner K kind owner m = Inr m'"
  shows "\<forall>node\<in>set nodes. backup_job_settled K b node \<Longrightarrow>
   gives (\<lambda>x n. \<exists>pjs. x = Inr (Inr pjs) \<and> (\<forall>node\<in>set nodes. node_advanced K b n node) \<and>
       ((\<forall>node\<in>set nodes. backup_job_finished K b node) \<longrightarrow> list_all (\<lambda>pj. result_readable K b (pj_job pj)) pjs))
     (place_jobs R K b sec staging gs nodes)"
proof (induction nodes)
  case (Cons node nodes)
  show ?case
    unfolding place_jobs.simps
  proof (rule gives_bindE [OF place_job_settled [OF _ assms]], goal_cases)
    case (3 x n)
    then obtain j where x: "x = Inr \<lparr>pj_node = node, pj_job = j\<rparr>" and n: "node_advanced K b n node"
      "backup_job_finished K b node \<longrightarrow> result_readable K b j" by auto
    have rest: "\<forall>node\<in>set nodes. backup_job_settled K b node" using Cons.prems by simp
    show ?case
      unfolding x sum.case
      by (rule gives_bindE [OF Cons.IH [OF rest]])
        (use n in \<open>auto intro!: gives_rules simp: node_advanced_append\<close>)
  qed (use Cons.prems in auto)
qed (simp add: gives_return)

lemma collect_results_finished:
  "list_all (\<lambda>pj. result_readable K b (pj_job pj)) pjs \<Longrightarrow>
   gives (\<lambda>x n. \<exists>t ref sts. x = Inr (Inr (t, ref, sts))) (collect_results K (b_ns b) pjs bytes r sts)"
proof (induction pjs arbitrary: bytes r sts)
  case (Cons pj pjs)
  have one: "gives (\<lambda>x n. \<exists>ref k. x = Inr (Inr (ref, k))) (jobResult K (b_ns b) (pj_job pj))"
    unfolding jobResult_def list_pods_def bindE_def
  proof (rule gives_bind_answer, goal_cases)
    case (1 l)
    obtain pods ref n where "k_pods K l (b_ns b) (Some (''pbsbackup'', job_name (pj_job pj))) = Inr pods"
      "read_result (job_name (pj_job pj)) pods = Inr (ref, n)"
      using Cons.prems unfolding result_readable_def list.pred_inject by blast
    then show ?case by (auto intro!: gives_rules)
  qed
  show ?case
    unfolding collect_results.simps
    by (rule gives_bindE [OF one]) (use Cons in auto)
qed (simp add: gives_return)

lemma stamp_completed_phase:
  "gives (\<lambda>x n. bst_phase x = bst_phase s) (stamp_completed K s)"
  unfolding stamp_completed_def read_clock_def by (auto intro!: gives_rules split: option.split)

lemma recordOutcome_completes:
  assumes w: "\<forall>l w. k_write K l w = None" and b: "bst_phase (b_status b) \<noteq> BackupPhaseCompleted"
    and extra: "\<And>s. bst_phase s = BackupPhaseCompleted \<Longrightarrow> gives (\<lambda>x n. bst_phase x = BackupPhaseCompleted) (extra s)"
  shows "gives (\<lambda>x n. (\<exists>y. x = Inr y) \<and>
      (\<exists>m ns nm st. n = m @ [Write (PatchBackupStatus ns nm st)] \<and> bst_phase st = BackupPhaseCompleted))
    (recordOutcome K b BackupPhaseCompleted c extra)"
  unfolding recordOutcome_def
proof (rule gives_bind_observe, rule gives_case_prod, rule gives_bind [OF extra], simp, goal_cases)
  case (1 l conds t st n)
  then have "st \<noteq> b_status b" using b by auto
  then show ?case
    unfolding skipE_def do_write_def using 1
    by (simp, intro gives_bind_answer) (auto intro!: gives_rules simp: w)
qed

lemma completeBackup_completes:
  assumes w: "\<forall>l w. k_write K l w = None" and b: "bst_phase (b_status b) \<noteq> BackupPhaseCompleted"
    and pjs: "list_all (\<lambda>pj. result_readable K b (pj_job pj)) pjs"
  shows "gives backup_completes (completeBackup R K b pjs)"
proof -
  have extra: "gives (\<lambda>x n. bst_phase x = BackupPhaseCompleted) (stamp_completed K (s\<lparr>bst_jobs := sts, bst_bytes := t, bst_snapshotRef := r\<rparr>))"
    if "bst_phase s = BackupPhaseCompleted" for s sts t r
    by (rule gives_mono [OF stamp_completed_phase]) (simp add: that)
  have rest: "gives (\<lambda>y n'. backup_completes y (n @ m @ n')) (do {
        notify b' tr EventNormal reasonCompleted msg; observeCompleted R b'; State_Monad.return (Inr NoRequeue) })"
    if m: "m = m' @ [Write (PatchBackupStatus ns nm st)]" "bst_phase st = BackupPhaseCompleted" for n m m' b' tr msg ns nm st
  proof -
    have "gives (\<lambda>y n'. y = Inr NoRequeue \<and> list_all (\<lambda>c. \<forall>p. \<not> patch_to p c) n') (do {
        notify b' tr EventNormal reasonCompleted msg; observeCompleted R b'; State_Monad.return (Inr NoRequeue) })"
      unfolding notify_def observeCompleted_def emit_def by (auto intro!: gives_rules split: option.split)
    then show ?thesis by (rule gives_mono) (use m in \<open>auto simp: backup_completes_def, metis append_assoc\<close>)
  qed
  show ?thesis
    unfolding completeBackup_def
  proof (rule gives_bindE [OF collect_results_finished [OF pjs]], goal_cases)
    case (2 x n)
    then obtain t ref sts where x: "x = Inr (t, ref, sts)" by auto
    show ?case
      unfolding x sum.case prod.case Let_def
    proof (rule gives_bindE [OF recordOutcome_completes [OF w b extra]], goal_cases)
      case (3 y m)
      then show ?case by (cases y) (use rest [where m = m and n = n] in auto)
    qed auto
  qed auto
qed

text \<open>Without a failed Job, and all complete, the backup is completed.\<close>

lemma settle_completes:
  assumes "\<forall>l w. k_write K l w = None" "bst_phase (b_status b) \<noteq> BackupPhaseCompleted"
    and pjs: "list_all (\<lambda>pj. result_readable K b (pj_job pj)) pjs"
  shows "gives backup_completes (settle R K b pjs)"
proof -
  have "first_failed pjs = None"
    using pjs by (auto simp: first_failed_def find_None_iff result_readable_def list_all_iff)
  moreover have "all_complete pjs" using pjs by (auto simp: all_complete_def result_readable_def list_all_iff)
  ultimately show ?thesis by (simp add: settle_def completeBackup_completes [OF assms])
qed

lemma settle_gives: "gives (\<lambda>_ _. True) (settle R K b pjs)"
proof -
  have "emits no_exec (settle R K b pjs)"
    unfolding settle_def by (intro emits_rules ends_no_exec completeBackup_no_exec)
  then show ?thesis unfolding gives_emits [symmetric] by (rule gives_mono) simp
qed

lemma launch_advances:
  assumes w: "\<forall>l w. k_write K l w = None" "\<forall>kind owner m. \<exists>m'. set_owner K kind owner m = Inr m'"
    and "bst_phase (b_status b) \<noteq> BackupPhaseCompleted" "\<forall>node\<in>fst ` set gs. backup_job_settled K b node"
  shows "gives (backup_advances K b gs) (launch R K b sec staging gs)"
  unfolding launch_def
proof (rule gives_bindE [OF place_jobs_settled [OF w]], goal_cases)
  case (3 x n)
  then obtain pjs where x: "x = Inr pjs" and n: "\<forall>node\<in>fst ` set gs. node_advanced K b n node"
    "(\<forall>node\<in>fst ` set gs. backup_job_finished K b node) \<Longrightarrow> list_all (\<lambda>pj. result_readable K b (pj_job pj)) pjs" by auto
  show ?case
  proof (cases "\<forall>node\<in>fst ` set gs. backup_job_finished K b node")
    case True
    from gives_mono [OF settle_completes [OF w(1) assms(3) n(2) [OF True]] backup_completes_after] show ?thesis
      unfolding x sum.case by (rule gives_mono) (use True in \<open>auto simp: backup_advances_def node_advanced_def\<close>)
  next
    case False
    show ?thesis
      unfolding x sum.case
      by (rule gives_mono [OF settle_gives]) (use n(1) False in \<open>auto simp: backup_advances_def intro: node_advanced_append\<close>)
  qed
qed (use assms(4) in auto)

text \<open>Once Jobs are recorded no hook runs; the placement leads to the launch.\<close>

lemma place_and_launch_advances:
  assumes w: "\<forall>l w. k_write K l w = None" "\<forall>kind owner m. \<exists>m'. set_owner K kind owner m = Inr m'"
    and b: "bst_phase (b_status b) \<noteq> BackupPhaseCompleted" "hooks_pass R K b cs"
    and plan: "backup_plan_answers R K b cs staging gs" and jobs: "\<forall>node\<in>fst ` set gs. backup_job_settled K b node"
  shows "gives (backup_advances K b gs) (place_and_launch R K b sec staging cs)"
proof -
  note fin = launch_advances [OF w b(1) jobs, of R sec staging]
  from plan obtain pods where pods: "\<forall>l. k_pods K l (b_ns b) None = Inr pods"
    and place: "if cs = [] then \<exists>names. (\<forall>l. k_nodes K l = Inr names) \<and> first_name names \<noteq> '''' \<and> gs = [(first_name names, [])]
      else always (Inr (Inr gs)) (place_all K cs pods [])"
    unfolding backup_plan_answers_def by blast
  have go: "gives (backup_advances K b gs) (hooks_then_launch R K b sec staging cs pods gs)"
  proof (cases "bst_jobs (b_status b) = []")
    case True
    with b(2) pods have "always None (runPreHooks R K cs pods)" by (auto simp: hooks_pass_def)
    with True show ?thesis
      unfolding hooks_then_launch_def
      by simp (erule gives_bind, use gives_mono [OF fin backup_advances_after] in simp)
  qed (use fin in \<open>simp add: hooks_then_launch_def\<close>)
  have go_after: "gives (\<lambda>y n'. backup_advances K b gs y (c # n @ n')) (hooks_then_launch R K b sec staging cs pods gs)" for c n
    by (rule gives_mono [OF go]) (intro backup_advances_call backup_advances_after)
  show ?thesis
  proof (cases "cs = []")
    case True
    with place obtain names where names: "\<forall>l. k_nodes K l = Inr names" "first_name names \<noteq> ''''"
      "gs = [(first_name names, [])]" by auto
    have node: "always (Inr (first_name names)) (firstNode K)"
      unfolding firstNode_def list_nodes_def bindE_def
      by (rule gives_bind_answer) (use names(1) in \<open>auto intro!: gives_rules\<close>)
    show ?thesis
      unfolding place_and_launch_def list_pods_def bindE_def [of "invoke _ _"]
    proof (rule gives_bind_answer, goal_cases)
      case (1 l)
      have "gives (\<lambda>y n. backup_advances K b gs y (Read (ListPods (b_ns b) None) # n)) (bindE (firstNode K) (\<lambda>node.
          if node = '''' then hold K b reasonUnplaceable ''no nodes found to run the API-only backup job'' requeueWait
          else hooks_then_launch R K b sec staging cs pods [(node, [])]))"
        by (rule gives_bindE [OF node]) (use names(2,3) go_after in auto)
      then show ?case using pods True by simp
    qed
  next
    case False
    with place have place: "always (Inr (Inr gs)) (place_all K cs pods [])" by simp
    show ?thesis
      unfolding place_and_launch_def list_pods_def bindE_def [of "invoke _ _"]
    proof (rule gives_bind_answer, goal_cases)
      case (1 l)
      have "gives (\<lambda>y n. backup_advances K b gs y (Read (ListPods (b_ns b) None) # n)) (bindE (place_all K cs pods []) (\<lambda>r. case r of
           Inl problem \<Rightarrow> hold K b reasonUnplaceable problem requeueWait
         | Inr gs \<Rightarrow> hooks_then_launch R K b sec staging cs pods gs))"
        by (rule gives_bindE [OF place]) (use go_after in auto)
      then show ?case using pods False by simp
    qed
  qed
qed

lemma reconcile_ready_advances:
  assumes gates: "backup_gates_open K b" and b: "bst_phase (b_status b) \<noteq> BackupPhaseCompleted" "hooks_pass R K b cs"
    and plan: "backup_plan_answers R K b cs staging gs" and jobs: "\<forall>node\<in>fst ` set gs. backup_job_settled K b node"
    and repo: "\<forall>l. (\<exists>s. k_secret K l (secret_source K repo) (ref_name (rp_secretRef (repo_spec repo))) = Inr s) \<and>
      found_or_missing (k_secret K l (b_ns b) (''pbsrepo-'' @ om_name (repo_meta repo)))"
  shows "gives (backup_advances K b gs) (reconcile_ready R K b repo)"
proof -
  have w: "\<forall>l w. k_write K l w = None" "\<forall>kind owner m. \<exists>m'. set_owner K kind owner m = Inr m'"
    using gates by (auto simp: backup_gates_open_def)
  have sel: "always (Inr (Inr cs)) (selectPVCs K b)" "always (Inr staging) (stage R K b)" "cs \<noteq> [] \<or> staging \<noteq> ''''"
    using plan by (auto simp: backup_plan_answers_def)
  have go: "gives (\<lambda>y n'. backup_advances K b gs y (n @ m @ k @ n')) (place_and_launch R K b sec staging cs)" for n m k sec
    by (rule gives_mono [OF place_and_launch_advances [OF w b plan jobs]]) (intro backup_advances_after)
  show ?thesis
    unfolding reconcile_ready_def
  proof (rule gives_bindE [OF ensureRepoSecret_ok [OF w]], goal_cases)
    case (4 x n)
    then obtain sec where x: "x = Inr sec" by auto
    show ?case
      unfolding x sum.case
    proof (rule gives_bindE [OF sel(1)], goal_cases)
      case (2 y m)
      then have y: "y = Inr cs" by simp
      show ?case
        unfolding y sum.case by (rule gives_bindE [OF sel(2)]) (use sel(3) go in auto)
    qed auto
  qed (use repo in auto)
qed

text \<open>With the gates open and the Job of every node finished or fresh, a reconcile gets on.\<close>

lemma backup_reconcile_advances:
  assumes "k_backup K l ns n = Inr b" "\<not> terminal (bst_phase (b_status b))" "backup_gates_open K b"
    and "hooks_pass R K b cs" "backup_plan_answers R K b cs staging gs" "\<forall>node\<in>fst ` set gs. backup_job_settled K b node"
  shows "backup_advances K b gs (result (BackupReconcile R K ns n) l) (trace (BackupReconcile R K ns n) l)"
proof -
  have open_phase: "bst_phase (b_status b) \<noteq> BackupPhaseCompleted" "bst_phase (b_status b) \<noteq> BackupPhaseFailed"
    using assms(2) by auto
  have rec: "gives (backup_advances K b gs) (reconcile_backup R K b)"
    unfolding reconcile_backup_def get_repo_def
  proof (simp add: open_phase, rule gives_bind_answer, goal_cases)
    case (1 l)
    obtain repo where repo: "k_repo K l (bs_repoRef (b_spec b)) = Inr repo"
      "k_conditionTrue K (rps_conditions (repo_status repo)) condReady"
      "\<forall>l. (\<exists>s. k_secret K l (secret_source K repo) (ref_name (rp_secretRef (repo_spec repo))) = Inr s) \<and>
        found_or_missing (k_secret K l (b_ns b) (''pbsrepo-'' @ om_name (repo_meta repo)))"
      using assms(3) unfolding backup_gates_open_def by blast
    have "gives (\<lambda>y n. backup_advances K b gs y (c # n)) (reconcile_ready R K b repo)" for c
      by (rule gives_mono [OF reconcile_ready_advances [OF assms(3) open_phase(1) assms(4-6) repo(3)]])
        (rule backup_advances_call)
    then show ?case using repo(1,2) by simp
  qed
  show ?thesis
    using givesD [OF rec, of "l @ [Read (GetBackup ns n)]"]
    unfolding BackupReconcile_trace [OF assms(1,2)] by (intro backup_advances_call) simp
qed

text \<open>A backup arrives.  When the cluster answers, and the Job of every node of the plan is complete
  with a result its pods report, one reconcile takes a backup whose Jobs are recorded to Completed,
  from whatever phase it was in, and does not come back.\<close>

theorem backup_completes_once_finished:
  assumes "k_backup K l ns n = Inr b" "bst_phase (b_status b) \<notin> {BackupPhaseCompleted, BackupPhaseFailed}"
    and "bst_jobs (b_status b) \<noteq> []" "backup_gates_open K b" "backup_plan_answers R K b cs staging gs"
    and "\<forall>node\<in>fst ` set gs. backup_job_finished K b node"
  shows "result (BackupReconcile R K ns n) l = Inr NoRequeue \<and>
    patches BackupPhaseCompleted (trace (BackupReconcile R K ns n) l)"
  using backup_reconcile_advances [OF assms(1) _ assms(4) _ assms(5)] assms(2,3,6)
  by (auto simp: hooks_pass_def backup_job_settled_def backup_advances_def dest: backup_completes_patches)

lemma sample_plan_answers:
  assumes "k_pvc K = k_pvc sample_world" "k_pv K = k_pv sample_world" "b_meta b = b_meta sample_backup" "b_spec b = b_spec sample_backup"
    and "\<And>l. k_pods K l (b_ns b) None = Inr pods"
  shows "backup_plan_answers sample_R K b [sample_claim] '''' [(''n1'', [''data''])]"
  unfolding backup_plan_answers_def
proof (intro conjI exI [of _ pods])
  have node: "nodeFromAffinity (Some sample_pv) = Some ''n1''" by code_simp
  show "always (Inr (Inr [sample_claim])) (selectPVCs K b)"
    using assms(1,3,4) by (simp add: gives_def selectPVCs_def get_pvc_def bindE_def world_with_def sample_backup_def)
  show "always (Inr '''') (stage sample_R K b)" by (simp add: gives_def stage_def sample_R_def)
  show "if [sample_claim] = [] then \<exists>names. (\<forall>l. k_nodes K l = Inr names) \<and> first_name names \<noteq> '''' \<and>
      [(''n1'', [''data''])] = [(first_name names, [])]
    else always (Inr (Inr [(''n1'', [''data''])])) (place_all K [sample_claim] pods [])"
    using node assms(2)
    by (simp add: gives_def placePVC_def get_pv_def bindE_def world_with_def ResolveNode_def sample_claim_def)
qed (use assms(5) in simp_all)

lemma sample_gates_open:
  "backup_gates_open (world_with b) sample_backup" "backup_gates_open finished_world running_backup"
proof -
  have ready: "condition_true (rps_conditions (repo_status sample_repo)) condReady" by code_simp
  have creds: "ref_name (rp_secretRef (repo_spec sample_repo)) = ''creds''" by code_simp
  have copy: "''pbsrepo-'' @ om_name (repo_meta sample_repo) \<noteq> ''creds''" by (simp add: sample_repo_def)
  show "backup_gates_open (world_with b) sample_backup" "backup_gates_open finished_world running_backup"
    using ready creds copy
    by (auto simp: backup_gates_open_def finished_world_def running_backup_def world_with_def empty_world_def set_owner_def found_or_missing_def split: sum.split)
qed

theorem backup_completes_once_finished_witness:
  "result (BackupReconcile sample_R finished_world ''app'' ''nightly'') [] = Inr NoRequeue \<and>
   patches BackupPhaseCompleted finished_trace"
proof (rule backup_completes_once_finished [OF finished_backup])
  show "bst_phase (b_status running_backup) \<notin> {BackupPhaseCompleted, BackupPhaseFailed}" "bst_jobs (b_status running_backup) \<noteq> []"
    by (simp_all add: running_backup_def)
  show "backup_gates_open finished_world running_backup"
    by (rule sample_gates_open)
  show "backup_plan_answers sample_R finished_world running_backup [sample_claim] '''' [(''n1'', [''data''])]"
    by (rule sample_plan_answers [where pods = "[reporting_pod]"]) (simp_all add: finished_world_def world_with_def running_backup_def)
  have result: "read_result (job_name finished_job) [reporting_pod] = Inr (''host/n/1970-01-01T00:00:00Z'', 7)" by code_simp
  have complete: "jobCondition finished_job JobComplete" "\<not> jobCondition finished_job JobFailed" by code_simp+
  show "\<forall>node\<in>fst ` set [(''n1'', [''data''])]. backup_job_finished finished_world running_backup node"
    using result complete by (auto simp: backup_job_finished_def result_readable_def finished_world_def)
qed

end
