(* ===== verification/Rounds.thy ===== *)
theory Rounds
  imports Main
begin

text \<open>
  Operations that are repeated until they are done: each round keeps an invariant and, unless it is
  done, makes a measure smaller.  The controllers' reconciles are such rounds once the cluster does
  its part in between.
\<close>

locale converging =
  fixes round :: "'s \<Rightarrow> 's" and inv :: "'s \<Rightarrow> bool" and finished :: "'s \<Rightarrow> bool" and left :: "'s \<Rightarrow> nat"
  assumes round_inv: "inv s \<Longrightarrow> inv (round s)"
    and finished_stays: "inv s \<Longrightarrow> finished s \<Longrightarrow> finished (round s)"
    and round_progress: "inv s \<Longrightarrow> \<not> finished s \<Longrightarrow> finished (round s) \<or> left (round s) < left s"
begin

lemma rounds_inv: "inv s \<Longrightarrow> inv ((round ^^ k) s)"
  by (induction k) (simp_all add: round_inv)

lemma rounds_finished: "inv s \<Longrightarrow> finished s \<Longrightarrow> finished ((round ^^ k) s)"
  by (induction k) (simp_all add: rounds_inv finished_stays)

lemma rounds_finish: "inv s \<Longrightarrow> left s < k \<Longrightarrow> finished ((round ^^ k) s)"
proof (induction k arbitrary: s)
  case (Suc k)
  have shift: "(round ^^ Suc k) s = (round ^^ k) (round s)" by (simp add: funpow_swap1)
  show ?case
  proof (cases "finished s")
    case True
    with Suc.prems(1) show ?thesis unfolding shift by (intro rounds_finished round_inv finished_stays)
  next
    case False
    with round_progress [OF Suc.prems(1)] Suc.prems Suc.IH [OF round_inv [OF Suc.prems(1)]]
      rounds_finished [OF round_inv [OF Suc.prems(1)]]
    show ?thesis unfolding shift by (metis less_Suc_eq_le order_less_le_trans)
  qed
qed simp

end

end
