(* ===== verification/Cluster_Jobs.thy ===== *)
theory Cluster_Jobs
  imports Controller_Common
begin

text \<open>
  The Jobs of a namespace over time, as the closed loops of the controllers use them: the server
  keeps a Job of a new name, a Job finishes, a Job is looked up by its name.
\<close>

definition find_job :: "job list \<Rightarrow> string \<Rightarrow> gerr + job" where
  "find_job js n = (case List.find (\<lambda>j. job_name j = n) js of None \<Rightarrow> Inl NotFound | Some j \<Rightarrow> Inr j)"

definition add_job :: "string \<Rightarrow> job \<Rightarrow> job list \<Rightarrow> job list" where
  "add_job ns j js = (if om_namespace (job_meta j) = ns \<and> job_name j \<notin> job_name ` set js then js @ [j] else js)"

definition completed :: "job \<Rightarrow> job" where
  "completed j = (if jobCondition j JobComplete then j else j\<lparr>job_conditions := (JobComplete, CondTrue) # job_conditions j\<rparr>)"

definition complete_jobs :: "(string \<Rightarrow> bool) \<Rightarrow> job list \<Rightarrow> job list" where
  "complete_jobs which js = map (\<lambda>j. if which (job_name j) then completed j else j) js"

definition lose_job :: "string \<Rightarrow> job list \<Rightarrow> job list" where
  "lose_job n js = filter (\<lambda>j. job_name j \<noteq> n) js"

lemma find_job_member: "find_job js n = Inr j \<Longrightarrow> j \<in> set js \<and> job_name j = n"
  by (auto simp: find_job_def find_Some_iff split: option.splits)

lemma find_job_missing: "find_job js n = Inl e \<Longrightarrow> e = NotFound \<and> n \<notin> job_name ` set js"
  by (auto simp: find_job_def find_None_iff split: option.splits)

lemma add_job_names: "job_name ` set js \<subseteq> job_name ` set (add_job ns j js)"
  "om_namespace (job_meta j) = ns \<Longrightarrow> job_name j \<in> job_name ` set (add_job ns j js)"
  by (auto simp: add_job_def)

text \<open>What a reconcile makes of the Jobs it found: new ones after them, without conditions.\<close>

definition grown_jobs :: "job list \<Rightarrow> job list \<Rightarrow> bool" where
  "grown_jobs js js' \<longleftrightarrow> distinct (map job_name js') \<and>
     (\<exists>new. js' = js @ new \<and> list_all (\<lambda>j. job_conditions j = []) new)"

lemma grown_jobs_refl: "distinct (map job_name js) \<Longrightarrow> grown_jobs js js"
  by (simp add: grown_jobs_def)

lemma grown_jobs_add: "grown_jobs js js' \<Longrightarrow> job_conditions j = [] \<Longrightarrow> grown_jobs js (add_job ns j js')"
  by (auto simp: grown_jobs_def add_job_def)

lemma grown_jobs_names: "grown_jobs js js' \<Longrightarrow> job_name ` set js \<subseteq> job_name ` set js'"
  by (auto simp: grown_jobs_def)

lemma grown_jobs_member: "grown_jobs js js' \<Longrightarrow> j \<in> set js' \<Longrightarrow> j \<in> set js \<or> \<not> jobCondition j t"
  by (auto simp: grown_jobs_def jobCondition_def list_all_iff)

lemma completed_simps [simp]:
  "job_name (completed j) = job_name j" "jobCondition (completed j) JobComplete"
  "jobCondition (completed j) JobFailed \<longleftrightarrow> jobCondition j JobFailed"
  "om_labels (job_meta (completed j)) = om_labels (job_meta j)"
  by (auto simp: completed_def jobCondition_def)

lemma complete_jobs_names [simp]: "map job_name (complete_jobs which js) = map job_name js"
  by (simp add: complete_jobs_def)

lemma complete_jobs_name_set [simp]: "job_name ` set (complete_jobs which js) = job_name ` set js"
  using complete_jobs_names by (metis list.set_map)

lemma complete_jobs_all: "\<forall>j\<in>set (complete_jobs (\<lambda>_. True) js). jobCondition j JobComplete"
  by (simp add: complete_jobs_def)

lemma complete_jobs_member:
  "j \<in> set (complete_jobs which js) \<Longrightarrow> \<exists>i\<in>set js. j = (if which (job_name i) then completed i else i)"
  by (auto simp: complete_jobs_def)

lemma lose_job_simps [simp]:
  "job_name ` set (lose_job n js) = job_name ` set js - {n}" "j \<in> set (lose_job n js) \<longleftrightarrow> j \<in> set js \<and> job_name j \<noteq> n"
  "distinct (map job_name js) \<Longrightarrow> distinct (map job_name (lose_job n js))"
  by (auto simp: lose_job_def distinct_map_filter)

end
