(* ===== verification/Backup_Loop.thy ===== *)
theory Backup_Loop
  imports Backup_Progress Rounds Cluster_Jobs
begin

text \<open>
  A backup in a cluster, from its creation to the end: reconciles run against the state the earlier
  ones left, the Jobs they created finish and report in between, and the operator may stop in the
  middle of a reconcile and start again.
\<close>

section \<open>The cluster\<close>

text \<open>What changes during the life of one backup: its status and the Jobs of its namespace.\<close>

record backup_cluster =
  bc_status :: PBSBackupStatus
  bc_jobs :: "job list"

definition current_backup :: "PBSBackup \<Rightarrow> backup_cluster \<Rightarrow> PBSBackup" where
  "current_backup b C = b\<lparr>b_status := bc_status C\<rparr>"

text \<open>The world a reconcile sees; the Pods of a complete Job report \<open>rep\<close>.\<close>

definition backup_view :: "kube \<Rightarrow> PBSBackup \<Rightarrow> (string \<Rightarrow> pod list) \<Rightarrow> backup_cluster \<Rightarrow> kube" where
  "backup_view K b rep C = K\<lparr>
     k_backup := (\<lambda>l ns n. if ns = b_ns b \<and> n = b_name b then Inr (current_backup b C) else k_backup K l ns n),
     k_job := (\<lambda>l ns n. if ns = b_ns b then find_job (bc_jobs C) n else k_job K l ns n),
     k_pods := (\<lambda>l ns sel. case sel of
        Some (k, n) \<Rightarrow> if ns = b_ns b \<and> k = ''pbsbackup''
          then Inr (if (case find_job (bc_jobs C) n of Inl e \<Rightarrow> False | Inr j \<Rightarrow> jobCondition j JobComplete) then rep n else [])
          else k_pods K l ns sel
      | None \<Rightarrow> k_pods K l ns None)\<rparr>"

fun backup_effect :: "PBSBackup \<Rightarrow> kcall \<Rightarrow> backup_cluster \<Rightarrow> backup_cluster" where
  "backup_effect b (Write (CreateJob j)) C = C\<lparr>bc_jobs := add_job (b_ns b) j (bc_jobs C)\<rparr>"
| "backup_effect b (Write (PatchBackupStatus ns n st)) C = C\<lparr>bc_status := stored_backup_status st\<rparr>"
| "backup_effect b c C = C"

definition backup_effects :: "PBSBackup \<Rightarrow> kcall list \<Rightarrow> backup_cluster \<Rightarrow> backup_cluster" where
  "backup_effects b n C = fold (backup_effect b) n C"

definition backup_calls :: "PBSBackupReconciler \<Rightarrow> kube \<Rightarrow> PBSBackup \<Rightarrow> (string \<Rightarrow> pod list) \<Rightarrow> backup_cluster \<Rightarrow> kcall list" where
  "backup_calls R K b rep C = trace (BackupReconcile R (backup_view K b rep C) (b_ns b) (b_name b)) []"

definition finish_backup_jobs :: "(string \<Rightarrow> bool) \<Rightarrow> backup_cluster \<Rightarrow> backup_cluster" where
  "finish_backup_jobs which C = C\<lparr>bc_jobs := complete_jobs which (bc_jobs C)\<rparr>"

text \<open>The steps: a reconcile up to some call, Jobs finishing, and the disappearance of a Job the status
  does not record yet.  (That a recorded one blocks the backup is \<open>backup_reaped_job_blocks\<close>.)\<close>

inductive backup_cluster_step :: "PBSBackupReconciler \<Rightarrow> kube \<Rightarrow> PBSBackup \<Rightarrow> (string \<Rightarrow> pod list) \<Rightarrow>
    backup_cluster \<Rightarrow> backup_cluster \<Rightarrow> bool" for R K b rep where
  reconciles: "backup_cluster_step R K b rep C (backup_effects b (take k (backup_calls R K b rep C)) C)"
| finishes: "backup_cluster_step R K b rep C (finish_backup_jobs which C)"
| lost: "\<not> known_job (current_backup b C) n \<Longrightarrow> backup_cluster_step R K b rep C (C\<lparr>bc_jobs := lose_job n (bc_jobs C)\<rparr>)"

inductive_cases backup_cluster_stepE: "backup_cluster_step R K b rep C C'"

definition new_backup_cluster :: "PBSBackup \<Rightarrow> backup_cluster" where
  "new_backup_cluster b = \<lparr>bc_status = b_status b, bc_jobs = []\<rparr>"

text \<open>A round: the Jobs that are there finish, then one reconcile.\<close>

definition backup_round :: "PBSBackupReconciler \<Rightarrow> kube \<Rightarrow> PBSBackup \<Rightarrow> (string \<Rightarrow> pod list) \<Rightarrow> backup_cluster \<Rightarrow> backup_cluster" where
  "backup_round R K b rep C = (let C' = finish_backup_jobs (\<lambda>_. True) C in backup_effects b (backup_calls R K b rep C') C')"

section \<open>The hypotheses\<close>

text \<open>A hook that runs and succeeds, or no hook.\<close>

definition hook_succeeds :: "PBSBackupReconciler \<Rightarrow> kube \<Rightarrow> pod \<Rightarrow> bool" where
  "hook_succeeds R K p \<longleftrightarrow> (case ParseHook (k_jsonError K) p of
       NoHook \<Rightarrow> True
     | BadHook e \<Rightarrow> False
     | Hook c cmd \<Rightarrow> br_HookExecutor R \<and> (\<forall>l. k_exec K l (om_namespace (pod_meta p)) (pod_name p) c cmd HookTimeout = None))"

text \<open>The cluster answers, the plan is \<open>gs\<close>, the hooks succeed and complete Jobs report.\<close>

definition backup_ready :: "PBSBackupReconciler \<Rightarrow> kube \<Rightarrow> PBSBackup \<Rightarrow> (string \<Rightarrow> pod list) \<Rightarrow> pvc list \<Rightarrow> string \<Rightarrow> groups \<Rightarrow> bool" where
  "backup_ready R K b rep cs staging gs \<longleftrightarrow> backup_gates_open K b \<and> backup_plan_answers R K b cs staging gs \<and>
     (\<forall>l pods. k_pods K l (b_ns b) None = Inr pods \<longrightarrow> (\<forall>p\<in>set pods. hook_succeeds R K p)) \<and>
     (\<forall>n. \<exists>ref k. read_result n (rep n) = Inr (ref, k))"

definition plan_names :: "PBSBackup \<Rightarrow> groups \<Rightarrow> string set" where
  "plan_names b gs = (\<lambda>g. jobName (b_name b) (fst g)) ` set gs"

section \<open>What the view changes\<close>

lemma current_backup_simps [simp]:
  "b_status (current_backup b C) = bc_status C" "b_spec (current_backup b C) = b_spec b" "b_meta (current_backup b C) = b_meta b"
  by (simp_all add: current_backup_def)

lemma backup_view_simps [simp]:
  "k_write (backup_view K b rep C) = k_write K" "k_repo (backup_view K b rep C) = k_repo K"
  "k_secret (backup_view K b rep C) = k_secret K" "k_nodes (backup_view K b rep C) = k_nodes K"
  "k_backup (backup_view K b rep C) l (b_ns b) (b_name b) = Inr (current_backup b C)"
  "k_job (backup_view K b rep C) l (b_ns b) n = find_job (bc_jobs C) n"
  "k_pods (backup_view K b rep C) l ns None = k_pods K l ns None"
  "k_pods (backup_view K b rep C) l (b_ns b) (Some (''pbsbackup'', n)) =
     Inr (if (case find_job (bc_jobs C) n of Inl e \<Rightarrow> False | Inr j \<Rightarrow> jobCondition j JobComplete) then rep n else [])"
  by (simp_all add: backup_view_def)

text \<open>The operations on everything else see what they saw.\<close>

lemma view_operations [simp]:
  "get_pvc (backup_view K b rep C) = get_pvc K" "list_pvcs (backup_view K b rep C) = list_pvcs K"
  "get_pv (backup_view K b rep C) = get_pv K" "get_configMap (backup_view K b rep C) = get_configMap K"
  "do_write (backup_view K b rep C) = do_write K" "set_owner (backup_view K b rep C) = set_owner K"
  "discover (backup_view K b rep C) = discover K" "list_resource (backup_view K b rep C) = list_resource K"
  "k_selector (backup_view K b rep C) = k_selector K" "k_conditionTrue (backup_view K b rep C) = k_conditionTrue K"
  "secret_source (backup_view K b rep C) = secret_source K" "k_exec (backup_view K b rep C) = k_exec K"
  "k_jsonError (backup_view K b rep C) = k_jsonError K"
  by (simp_all add: client_defs do_write_def set_owner_def discover_def list_resource_def secret_source_def operatorNamespace_def
      backup_view_def fun_eq_iff)

lemma view_selects: "selectPVCs (backup_view K b rep C) (current_backup b C) = selectPVCs K b"
proof -
  have "get_pvcs (backup_view K b rep C) ns names = get_pvcs K ns names" for ns names
    by (induction names) simp_all
  then show ?thesis by (simp add: selectPVCs_def cong: option.case_cong sum.case_cong)
qed

lemma view_places: "place_all (backup_view K b rep C) cs pods gs = place_all K cs pods gs"
proof -
  have "placePVC (backup_view K b rep C) c pods = placePVC K c pods" for c by (simp add: placePVC_def)
  then show ?thesis by (induction cs arbitrary: gs) simp_all
qed

lemma view_stages: "stage R (backup_view K b rep C) (current_backup b C) = stage R K b"
proof -
  have "list_resources (backup_view K b rep C) A ns gv ars = list_resources K A ns gv ars" for A ns gv ars
    by (induction ars) (simp_all cong: if_cong sum.case_cong)
  then have "list_groups (backup_view K b rep C) A ns ls = list_groups K A ns ls" for A ns ls
    by (induction ls) (simp_all split: sum.split)
  then have "list_groups (backup_view K b rep C) = list_groups K" by (intro ext)
  then have serialized: "SerializeNamespace (backup_view K b rep C) A ns = SerializeNamespace K A ns" for A ns
    by (simp only: SerializeNamespace_def view_operations)
  have "ensureStagingConfigMap (backup_view K b rep C) (current_backup b C) = ensureStagingConfigMap K b"
    by (rule ext) (simp only: ensureStagingConfigMap_def view_operations current_backup_simps)
  with serialized show ?thesis by (simp only: stage_def current_backup_simps)
qed

lemma view_plan [simp]:
  "backup_plan_answers R (backup_view K b rep C) (current_backup b C) cs staging gs \<longleftrightarrow> backup_plan_answers R K b cs staging gs"
  by (simp add: backup_plan_answers_def view_selects view_places view_stages)

lemma view_backup_gates [simp]:
  "backup_gates_open (backup_view K b rep C) (current_backup b C) \<longleftrightarrow> backup_gates_open K b"
  by (simp add: backup_gates_open_def)

lemma run_hooks_pass: "\<forall>p\<in>set ps. hook_succeeds R K p \<Longrightarrow> always None (run_hooks R K ps)"
proof (induction ps)
  case (Cons p ps)
  then have ok: "hook_succeeds R K p" and rest: "always None (run_hooks R K ps)" by simp_all
  show ?case
    unfolding run_hooks.simps exec_hook_def
    using ok rest by (auto simp: hook_succeeds_def intro!: gives_bind_answer split: hook.splits)
qed (simp add: gives_return)

lemma view_hooks:
  assumes "backup_ready R K b rep cs staging gs"
  shows "hooks_pass R (backup_view K b rep C) (current_backup b C) cs"
proof -
  have "hook_succeeds R (backup_view K b rep C) p \<longleftrightarrow> hook_succeeds R K p" for p
    by (simp only: hook_succeeds_def view_operations)
  then have "always None (runPreHooks R (backup_view K b rep C) cs pods)" if "\<forall>l. k_pods K l (b_ns b) None = Inr pods" for pods
    unfolding runPreHooks_def using assms that hooked_pods_mount
    by (intro run_hooks_pass) (fastforce simp: backup_ready_def)
  then show ?thesis by (simp add: hooks_pass_def)
qed

section \<open>What one reconcile records\<close>

text \<open>While the backup is under way a patched status names only Jobs it named before, Jobs that were
  read, and Jobs this reconcile has created.\<close>

definition job_here :: "kube \<Rightarrow> PBSBackup \<Rightarrow> kcall list \<Rightarrow> string \<Rightarrow> bool" where
  "job_here K b h n \<longleftrightarrow> (\<exists>l j m. k_job K l (b_ns b) m = Inr j \<and> job_name j = n) \<or>
     (\<exists>j. Write (CreateJob j) \<in> set h \<and> om_namespace (job_meta j) = b_ns b \<and> job_name j = n)"

fun records :: "kube \<Rightarrow> PBSBackup \<Rightarrow> kcall list \<Rightarrow> kcall \<Rightarrow> bool" where
  "records K b h (Write (PatchBackupStatus ns n st)) \<longleftrightarrow> terminal (bst_phase st) \<or>
     (\<forall>js\<in>set (bst_jobs st). js \<in> set (bst_jobs (b_status b)) \<or> job_here K b h (bj_job js))"
| "records K b h _ \<longleftrightarrow> True"

abbreviation recording :: "kube \<Rightarrow> PBSBackup \<Rightarrow> kcall list \<Rightarrow> 'a kop \<Rightarrow> bool" where
  "recording K b l m \<equiv> walks (records K b) (\<lambda>_ _. True) l m"

lemma no_patch_records: "no_patch c \<Longrightarrow> records K b h c"
  by (cases "(K, b, h, c)" rule: records.cases) auto

lemma job_here_extends: "job_here K b l n \<Longrightarrow> extends h l \<Longrightarrow> job_here K b h n"
  by (auto simp: job_here_def extends_def)

lemma quiet_records: "emits no_patch m \<Longrightarrow> recording K b l m"
  by (rule emits_walks [of no_patch]) (auto intro: no_patch_records)

lemma hold_records: "recording K b l (hold K b reason msg wait)"
  by (rule hold_steps) (auto intro: no_patch_records)

lemma failBackup_records: "recording K b l (failBackup R K b reason msg placed)"
  unfolding failBackup_def
  by (rule record_end_steps [OF no_patch_records], assumption,
      rule recordOutcome_steps [OF no_patch_records, where G = "\<lambda>st. bst_phase st = BackupPhaseFailed"])
    (auto intro!: stamp_completed_gives emits_rules ends_emit dest: stamped_fields)

lemma completeBackup_records: "recording K b l (completeBackup R K b placed)"
proof -
  have collect: "emits no_patch (collect_results K ns pjs n ref sts)" for ns pjs n ref sts
    by (induction pjs arbitrary: n ref sts)
      (auto intro!: emits_rules safely_emits [OF jobResult_gives no_patch_calls(1)])
  show ?thesis
    unfolding completeBackup_def
  proof (rule walks_bindE [OF quiet_records [OF collect]], simp, goal_cases)
    case (1 x h)
    have "recording K b h (bindE (recordOutcome K b BackupPhaseCompleted c
        (\<lambda>s. stamp_completed K (s\<lparr>bst_jobs := sts, bst_bytes := n, bst_snapshotRef := f s\<rparr>))) (\<lambda>(t, b'). do {
           notify b' t EventNormal reasonCompleted msg; observeCompleted R b'; State_Monad.return (Inr NoRequeue) }))"
      for c sts n f msg
      by (rule record_end_steps [OF no_patch_records], assumption,
          rule recordOutcome_steps [OF no_patch_records, where G = "\<lambda>st. bst_phase st = BackupPhaseCompleted"])
        (auto intro!: stamp_completed_gives emits_rules ends_emit dest: stamped_fields)
    then show ?case by (auto simp: Let_def intro: failBackup_records split: sum.split prod.split)
  qed
qed

lemma runBackup_records:
  assumes "\<forall>pj\<in>set placed. job_here K b l (job_name (pj_job pj))"
  shows "recording K b l (runBackup K b placed)"
  unfolding runBackup_def
  by (rule record_end_steps [OF no_patch_records], assumption,
      rule recordOutcome_steps [OF no_patch_records, where G = "\<lambda>st. bst_jobs st = jobStatuses placed"])
    (use assms in \<open>auto intro!: gives_safely_return gives_safely_bind [OF clock_gives] emits_rules ends_emit
      intro: job_here_extends simp: jobStatuses_def split: option.split\<close>)

lemma settle_records:
  "\<forall>pj\<in>set placed. job_here K b l (job_name (pj_job pj)) \<Longrightarrow> recording K b l (settle R K b placed)"
  by (auto simp: settle_def intro: failBackup_records runBackup_records completeBackup_records split: option.split)

lemma place_job_records:
  "walks (records K b) (\<lambda>r h. \<forall>pj. r = Inr (Inr pj) \<longrightarrow> job_here K b h (job_name (pj_job pj))) l
     (place_job R K b sec staging gs node)"
proof -
  let ?spec = "backup_spec R b sec staging node (sort (group_get gs node))"
  have read: "job_here K b h (job_name j)" if "k_job K l' (b_ns b) m = Inr j" for h j l' m
    using that by (auto simp: job_here_def)
  have made: "job_here K b (h @ [Write (CreateJob ((BuildBackupJob ?spec)\<lparr>job_meta := m\<rparr>))]) (om_name m)"
    if "set_owner K ''PBSBackup'' (b_meta b) (job_meta (BuildBackupJob ?spec)) = Inr m" for h m
    unfolding job_here_def
    by (intro disjI2 exI [of _ "(BuildBackupJob ?spec)\<lparr>job_meta := m\<rparr>"])
      (use set_owner_fields [OF that] in \<open>simp add: backup_spec_def\<close>)
  have create: "walks (records K b) (\<lambda>r h. \<forall>j. r = Inr j \<longrightarrow> job_here K b h (job_name j)) h (create_backup_job K b ?spec)" for h
    unfolding create_backup_job_def Let_def do_write_def get_job_def
    by (auto intro!: walks_rules walks_invoke intro: read made split: sum.split option.split)
  show ?thesis
    unfolding place_job_def Let_def get_job_def
    by (intro walks_rules walks_bindE [OF create]) (use read in auto)
qed

lemma place_jobs_records:
  "walks (records K b) (\<lambda>r h. \<forall>pjs. r = Inr (Inr pjs) \<longrightarrow> (\<forall>pj\<in>set pjs. job_here K b h (job_name (pj_job pj)))) l
     (place_jobs R K b sec staging gs nodes)"
proof (induction nodes arbitrary: l)
  case (Cons node nodes)
  show ?case
    unfolding place_jobs.simps
    by (rule walks_bindE [OF place_job_records])
      (auto intro!: walks_rules walks_bindE [OF Cons.IH] intro: job_here_extends split: sum.split)
qed (auto intro: walks_return)

lemma launch_records: "recording K b l (launch R K b sec staging gs)"
  unfolding launch_def
  by (rule walks_bindE [OF place_jobs_records]) (auto intro: hold_records settle_records split: sum.split)

lemma hooks_then_launch_records: "recording K b l (hooks_then_launch R K b sec staging cs pods gs)"
proof -
  have "emits no_patch (run_hooks R K ps)" for ps
    by (rule safely_emits [OF run_hooks_gives]) (auto elim: hook_call.elims)
  then show ?thesis
    unfolding hooks_then_launch_def runPreHooks_def
    by (auto intro!: walks_bind [OF quiet_records] launch_records failBackup_records split: option.split)
qed

lemma place_and_launch_records: "recording K b l (place_and_launch R K b sec staging cs)"
proof -
  have reads: "emits no_patch (place_all K cs pods [])" "emits no_patch (firstNode K)" "emits no_patch (list_pods K (b_ns b) None)" for pods
    by (rule safely_emits [OF place_all_gives no_patch_calls(1)], rule full_groups_Nil)
      (auto simp: firstNode_def client_defs intro!: emits_rules)
  show ?thesis
    unfolding place_and_launch_def
    by (auto intro!: walks_bindE [OF quiet_records [OF reads(1)]] walks_bindE [OF quiet_records [OF reads(2)]]
        walks_bindE [OF quiet_records [OF reads(3)]] hold_records hooks_then_launch_records split: sum.split)
qed

lemma reconcile_backup_records: "recording K b l (reconcile_backup R K b)"
proof -
  note secret = quiet_records [OF safely_emits [OF ensureRepoSecret_gives no_patch_calls(2)]]
    and select = quiet_records [OF safely_emits [OF selectPVCs_gives no_patch_calls(1)]]
    and staging = quiet_records [OF safely_emits [OF stage_gives no_patch_calls(2)]]
  have "recording K b h (reconcile_ready R K b repo)" for h repo
    unfolding reconcile_ready_def
    by (auto intro!: walks_bindE [OF secret] walks_bindE [OF select] walks_bindE [OF staging] hold_records
        place_and_launch_records split: sum.split)
  then show ?thesis
    unfolding reconcile_backup_def get_repo_def by (intro walks_rules hold_records) simp_all
qed

section \<open>The invariant\<close>

definition backup_cluster_inv :: "PBSBackup \<Rightarrow> backup_cluster \<Rightarrow> bool" where
  "backup_cluster_inv b C \<longleftrightarrow> bst_phase (bc_status C) \<noteq> BackupPhaseFailed \<and> distinct (map job_name (bc_jobs C)) \<and>
     list_all (\<lambda>j. \<not> jobCondition j JobFailed) (bc_jobs C) \<and>
     (\<not> terminal (bst_phase (bc_status C)) \<longrightarrow> bj_job ` set (bst_jobs (bc_status C)) \<subseteq> job_name ` set (bc_jobs C))"

text \<open>In a cluster that is ready no reconcile records Failed.\<close>

lemma backup_never_fails:
  assumes "backup_ready R K b rep cs staging gs" "backup_cluster_inv b C"
    and "failed_honestly R (backup_view K b rep C) (current_backup b C) l0 h"
  shows False
proof -
  let ?K = "backup_view K b rep C" and ?b = "current_backup b C"
  from assms(3) consider node j where "job_read ?K ?b l0 node j h" "jobCondition j JobFailed"
    | node j problem where "job_read ?K ?b l0 node j h" "jobCondition j JobComplete"
      "result_read ?K (b_ns b) l0 j (Inl problem) h"
    | pods p where "pods_listed ?K ?b l0 pods h" "p \<in> set pods" "hook_problem R ?K l0 p h"
    unfolding failed_honestly_def by auto
  then show False
  proof cases
    case 1
    from askedD [OF 1(1)] have "j \<in> set (bc_jobs C)" by (auto dest: find_job_member)
    with 1(2) assms(2) show False by (auto simp: backup_cluster_inv_def list_all_iff)
  next
    case 2
    from askedD [OF 2(1)] have "find_job (bc_jobs C) (job_name j) = Inr j" using find_job_member by fastforce
    with askedD [OF 2(3)] 2(2) have "read_result (job_name j) (rep (job_name j)) = Inl problem"
      by (auto simp: pods_result_def)
    moreover obtain ref k where "read_result (job_name j) (rep (job_name j)) = Inr (ref, k)"
      using assms(1) unfolding backup_ready_def by blast
    ultimately show False by simp
  next
    case 3
    from askedD [OF 3(1)] obtain l where "k_pods K l (b_ns b) None = Inr pods" by auto
    with assms(1) 3(2) have "hook_succeeds R K p" unfolding backup_ready_def by blast
    with 3(3) show False
      by (auto simp: hook_problem_def hook_succeeds_def split: hook.splits dest!: askedD)
  qed
qed

text \<open>What the calls of a reconcile may be, each with the calls before it.\<close>

lemma backup_calls_at:
  assumes "backup_ready R K b rep cs staging gs" "backup_cluster_inv b C"
    and "backup_calls R K b rep C = m @ c # m'" "\<not> is_read c"
  shows "\<not> terminal (bst_phase (bc_status C))"
    "\<And>j. c = Write (CreateJob j) \<Longrightarrow> job_conditions j = []"
    "\<And>ns n st. c = Write (PatchBackupStatus ns n st) \<Longrightarrow> bst_phase st \<noteq> BackupPhaseFailed \<and>
       (terminal (bst_phase st) \<or> (\<forall>js\<in>set (bst_jobs st). js \<in> set (bst_jobs (bc_status C)) \<or>
          job_here (backup_view K b rep C) (current_backup b C) m (bj_job js)))"
proof -
  let ?K = "backup_view K b rep C" and ?b = "current_backup b C"
  note run = assms(3) [unfolded backup_calls_def]
  from run have c: "c \<in> set (trace (BackupReconcile R ?K (b_ns b) (b_name b)) [])" by simp
  have made: "\<not> terminal (bst_phase (b_status ?b)) \<and> backup_call R ?K ?b c"
    by (rule BackupReconcile_calls [OF backup_view_simps(5) c assms(4)])
  then show "\<not> terminal (bst_phase (bc_status C))" by simp
  show "job_conditions j = []" if "c = Write (CreateJob j)" for j
    using made that by (auto simp: created_job_def)
  obtain h where honest: "end_honest R ?K ?b [] h c" using BackupReconcile_honest [OF backup_view_simps(5) c] by auto
  have "recording ?K ?b [] (BackupReconcile R ?K (b_ns b) (b_name b))"
    unfolding BackupReconcile_def get_backup_def
    by (intro walks_rules) (simp_all add: reconcile_backup_records)
  then have "records ?K ?b m c"
    using walksD unfolding run [symmetric] by (metis all_at.simps(2) all_at_append append_Nil run)
  then show "bst_phase st \<noteq> BackupPhaseFailed \<and> (terminal (bst_phase st) \<or> (\<forall>js\<in>set (bst_jobs st).
      js \<in> set (bst_jobs (bc_status C)) \<or> job_here ?K ?b m (bj_job js)))" if "c = Write (PatchBackupStatus ns n st)" for ns n st
    using that honest backup_never_fails [OF assms(1,2)] by (auto simp: end_honest_def)
qed

text \<open>What a reconcile that began at \<open>C\<close> has made of it after the calls \<open>n\<close>.\<close>

definition backup_grown :: "PBSBackup \<Rightarrow> backup_cluster \<Rightarrow> kcall list \<Rightarrow> backup_cluster \<Rightarrow> bool" where
  "backup_grown b C n C' \<longleftrightarrow> bst_phase (bc_status C') \<noteq> BackupPhaseFailed \<and> grown_jobs (bc_jobs C) (bc_jobs C') \<and>
     (\<forall>j. Write (CreateJob j) \<in> set n \<longrightarrow> om_namespace (job_meta j) = b_ns b \<longrightarrow> job_name j \<in> job_name ` set (bc_jobs C')) \<and>
     (\<not> terminal (bst_phase (bc_status C')) \<longrightarrow> bj_job ` set (bst_jobs (bc_status C')) \<subseteq> job_name ` set (bc_jobs C'))"

lemma backup_effects_snoc: "backup_effects b (n @ [c]) C = backup_effect b c (backup_effects b n C)"
  by (simp add: backup_effects_def)

lemma backup_reconcile_grown:
  assumes "backup_ready R K b rep cs staging gs" "backup_cluster_inv b C"
  shows "backup_grown b C (take k (backup_calls R K b rep C)) (backup_effects b (take k (backup_calls R K b rep C)) C)"
proof (induction k)
  case 0
  show ?case using assms(2) by (simp add: backup_grown_def backup_effects_def backup_cluster_inv_def grown_jobs_refl)
next
  case (Suc k)
  let ?n = "backup_calls R K b rep C"
  let ?C = "backup_effects b (take k ?n) C"
  show ?case
  proof (cases "k < length ?n")
    case True
    note step = take_Suc_conv_app_nth [OF True]
    have run: "?n = take k ?n @ ?n ! k # drop (Suc k) ?n" using True by (simp add: id_take_nth_drop [symmetric])
    note at = backup_calls_at [OF assms run]
    note IH = Suc.IH [unfolded backup_grown_def]
    have "backup_grown b C (take k ?n @ [?n ! k]) (backup_effect b (?n ! k) ?C)"
    proof (cases "(b, ?n ! k, ?C)" rule: backup_effect.cases)
      case (1 b' j C')
      then have c: "?n ! k = Write (CreateJob j)" unfolding prod.inject by (elim conjE)
      then have new: "job_conditions j = []" using at(2) [OF _ c] by simp
      note more = subsetD [OF add_job_names(1) [of "bc_jobs ?C" "b_ns b" j]]
      show ?thesis
        unfolding backup_grown_def c backup_effect.simps using IH new more
        by (auto intro: grown_jobs_add add_job_names(2) [THEN subsetD [OF equalityD1 [OF refl]]])
    next
      case (2 b' ns n st C')
      then have c: "?n ! k = Write (PatchBackupStatus ns n st)" unfolding prod.inject by (elim conjE)
      have names: "job_name ` set (bc_jobs C) \<subseteq> job_name ` set (bc_jobs ?C)" using IH grown_jobs_names by blast
      have "bj_job ` set (bst_jobs (bc_status C)) \<subseteq> job_name ` set (bc_jobs C)"
        using at(1) c assms(2) by (simp add: backup_cluster_inv_def)
      with names have old: "bj_job ` set (bst_jobs (bc_status C)) \<subseteq> job_name ` set (bc_jobs ?C)" by (rule subset_trans [rotated])
      have "job_here (backup_view K b rep C) (current_backup b C) (take k ?n) x \<Longrightarrow> x \<in> job_name ` set (bc_jobs ?C)" for x
        using IH names by (auto simp: job_here_def dest!: find_job_member)
      then have here: "bj_job js \<in> job_name ` set (bc_jobs ?C)"
        if "js \<in> set (bst_jobs (bc_status C)) \<or> job_here (backup_view K b rep C) (current_backup b C) (take k ?n) (bj_job js)" for js
        using old that by blast
      have "bst_phase st \<noteq> BackupPhaseFailed" "\<not> terminal (bst_phase st) \<Longrightarrow> bj_job ` set (bst_jobs st) \<subseteq> job_name ` set (bc_jobs ?C)"
        using at(3) [OF _ c] c here by (simp, intro subsetI, elim imageE) auto
      with c IH show ?thesis by (simp add: backup_grown_def)
    qed (use IH in \<open>auto simp: backup_grown_def\<close>)
    then show ?thesis unfolding step backup_effects_snoc .
  qed (use Suc.IH in simp)
qed

lemma backup_grown_inv: "backup_cluster_inv b C \<Longrightarrow> backup_grown b C n C' \<Longrightarrow> backup_cluster_inv b C'"
  using grown_jobs_member [of "bc_jobs C" "bc_jobs C'" _ JobFailed]
  by (auto simp: backup_cluster_inv_def backup_grown_def list_all_iff grown_jobs_def)

lemma finish_backup_jobs_inv: "backup_cluster_inv b C \<Longrightarrow> backup_cluster_inv b (finish_backup_jobs which C)"
  by (auto simp: backup_cluster_inv_def finish_backup_jobs_def list_all_iff dest!: complete_jobs_member split: if_splits)

lemma lost_job_inv:
  assumes "backup_cluster_inv b C" "\<not> known_job (current_backup b C) n"
  shows "backup_cluster_inv b (C\<lparr>bc_jobs := lose_job n (bc_jobs C)\<rparr>)"
  using assms by (auto simp: backup_cluster_inv_def known_job_def list_all_iff)

lemma backup_cluster_step_inv:
  assumes "backup_ready R K b rep cs staging gs" "backup_cluster_step R K b rep C C'" "backup_cluster_inv b C"
  shows "backup_cluster_inv b C'"
  using assms(2)
  by (rule backup_cluster_stepE)
    (use assms(3) backup_grown_inv [OF assms(3) backup_reconcile_grown [OF assms(1,3)]] in
      \<open>auto intro: finish_backup_jobs_inv lost_job_inv\<close>)

section \<open>A round gets on\<close>

text \<open>Once the Jobs that are there have finished, the Job of every node is finished or fresh.\<close>

lemma backup_finished_settled:
  assumes "backup_ready R K b rep cs staging gs" "backup_cluster_inv b C" "\<not> terminal (bst_phase (bc_status C))"
    and "\<forall>j\<in>set (bc_jobs C). jobCondition j JobComplete"
  shows "backup_job_settled (backup_view K b rep C) (current_backup b C) node"
    and "jobName (b_name b) node \<in> job_name ` set (bc_jobs C) \<longleftrightarrow>
      backup_job_finished (backup_view K b rep C) (current_backup b C) node"
proof -
  let ?n = "jobName (b_name b) node"
  have "backup_job_finished (backup_view K b rep C) (current_backup b C) node" if j: "find_job (bc_jobs C) ?n = Inr j" for j
  proof -
    obtain ref k where ref: "read_result ?n (rep ?n) = Inr (ref, k)" using assms(1) unfolding backup_ready_def by blast
    from find_job_member [OF j] have m: "j \<in> set (bc_jobs C)" "job_name j = ?n" by blast+
    with assms(2,4) have "jobCondition j JobComplete" "\<not> jobCondition j JobFailed"
      by (auto simp: backup_cluster_inv_def list_all_iff)
    with j m ref show ?thesis by (simp add: backup_job_finished_def result_readable_def)
  qed
  moreover have "backup_job_fresh (backup_view K b rep C) (current_backup b C) node \<and> ?n \<notin> job_name ` set (bc_jobs C)"
    if e: "find_job (bc_jobs C) ?n = Inl e" for e
    using find_job_missing [OF e] e assms(2,3)
    by (auto simp: backup_job_fresh_def known_job_def backup_cluster_inv_def)
  moreover have "\<not> backup_job_finished (backup_view K b rep C) (current_backup b C) node"
    if "find_job (bc_jobs C) ?n = Inl e" for e
    using that by (simp add: backup_job_finished_def)
  moreover have "?n \<in> job_name ` set (bc_jobs C)" if "find_job (bc_jobs C) ?n = Inr j" for j
    using find_job_member [OF that] by (metis imageI)
  ultimately show "backup_job_settled (backup_view K b rep C) (current_backup b C) node"
    "?n \<in> job_name ` set (bc_jobs C) \<longleftrightarrow> backup_job_finished (backup_view K b rep C) (current_backup b C) node"
    unfolding backup_job_settled_def by (cases "find_job (bc_jobs C) ?n"; blast)+
qed

lemma backup_effects_status: "list_all (\<lambda>c. \<forall>p. \<not> patch_to p c) n \<Longrightarrow> bc_status (backup_effects b n C) = bc_status C"
  unfolding backup_effects_def
proof (induction n arbitrary: C)
  case (Cons c n)
  have "bc_status (backup_effect b c C) = bc_status C" using Cons.prems by (cases "(b, c, C)" rule: backup_effect.cases) auto
  with Cons show ?case by simp
qed simp

lemma backup_effects_completes:
  assumes "backup_completes x n"
  shows "bst_phase (bc_status (backup_effects b n C)) = BackupPhaseCompleted"
proof -
  from assms obtain m ns nm st m' where n: "n = (m @ [Write (PatchBackupStatus ns nm st)]) @ m'"
    "bst_phase st = BackupPhaseCompleted" "list_all (\<lambda>c. \<forall>p. \<not> patch_to p c) m'"
    by (auto simp: backup_completes_def)
  have "backup_effects b n C = backup_effects b m' (backup_effects b (m @ [Write (PatchBackupStatus ns nm st)]) C)"
    unfolding n(1) by (simp add: backup_effects_def)
  with backup_effects_status [OF n(3)] n(2) show ?thesis by (simp add: backup_effects_snoc)
qed

definition launched_all :: "PBSBackup \<Rightarrow> groups \<Rightarrow> backup_cluster \<Rightarrow> bool" where
  "launched_all b gs C \<longleftrightarrow> (\<forall>node\<in>fst ` set gs. jobName (b_name b) node \<in> job_name ` set (bc_jobs C))"

lemma backup_round_progress:
  assumes "backup_ready R K b rep cs staging gs" "backup_cluster_inv b C" "bst_phase (bc_status C) \<noteq> BackupPhaseCompleted"
  shows "backup_cluster_inv b (backup_round R K b rep C) \<and> launched_all b gs (backup_round R K b rep C) \<and>
    (launched_all b gs C \<longrightarrow> bst_phase (bc_status (backup_round R K b rep C)) = BackupPhaseCompleted)"
proof -
  let ?C = "finish_backup_jobs (\<lambda>_. True) C"
  let ?K = "backup_view K b rep ?C" and ?b = "current_backup b ?C" and ?n = "backup_calls R K b rep ?C"
  have inv: "backup_cluster_inv b ?C" by (rule finish_backup_jobs_inv [OF assms(2)])
  have nt: "\<not> terminal (bst_phase (bc_status ?C))"
    using assms(2,3) by (auto simp: backup_cluster_inv_def finish_backup_jobs_def)
  have "\<forall>j\<in>set (bc_jobs ?C). jobCondition j JobComplete" by (simp add: finish_backup_jobs_def complete_jobs_all)
  note fin = backup_finished_settled [OF assms(1) inv nt this]
  have round: "backup_round R K b rep C = backup_effects b ?n ?C" by (simp add: backup_round_def Let_def)
  have grown: "backup_grown b ?C ?n (backup_effects b ?n ?C)"
    using backup_reconcile_grown [OF assms(1) inv, of "length ?n"] by simp
  have "backup_gates_open K b" "backup_plan_answers R K b cs staging gs" using assms(1) by (simp_all add: backup_ready_def)
  then have adv: "backup_advances ?K ?b gs (result (BackupReconcile R ?K (b_ns b) (b_name b)) []) ?n"
    unfolding backup_calls_def
    by (intro backup_reconcile_advances [OF backup_view_simps(5) _ _ view_hooks [OF assms(1)]])
      (use nt fin(1) in simp_all)
  have names: "job_name ` set (bc_jobs ?C) \<subseteq> job_name ` set (bc_jobs (backup_effects b ?n ?C))"
    using grown grown_jobs_names by (simp add: backup_grown_def)
  have "launched_all b gs (backup_effects b ?n ?C)"
    unfolding launched_all_def
  proof
    fix node assume "node \<in> fst ` set gs"
    with adv have "backup_job_finished ?K ?b node \<or> launched ?b node ?n"
      by (auto simp: backup_advances_def node_advanced_def)
    then show "jobName (b_name b) node \<in> job_name ` set (bc_jobs (backup_effects b ?n ?C))"
    proof
      assume "backup_job_finished ?K ?b node"
      with fin(2) names show ?thesis by blast
    next
      assume "launched ?b node ?n"
      then obtain j where "Write (CreateJob j) \<in> set ?n" "om_namespace (job_meta j) = b_ns b" "job_name j = jobName (b_name b) node"
        by (auto simp: launched_def)
      then show ?thesis using grown unfolding backup_grown_def by metis
    qed
  qed
  moreover have "bst_phase (bc_status (backup_effects b ?n ?C)) = BackupPhaseCompleted" if all: "launched_all b gs C"
  proof -
    have "backup_job_finished ?K ?b node" if "node \<in> fst ` set gs" for node
      using fin(2) [of node] bspec [OF all [unfolded launched_all_def] that] by (simp add: finish_backup_jobs_def)
    then show ?thesis using adv backup_effects_completes by (auto simp: backup_advances_def)
  qed
  ultimately show ?thesis unfolding round using backup_grown_inv [OF inv grown] by blast
qed

lemma backup_round_completed:
  assumes "bst_phase (bc_status C) = BackupPhaseCompleted"
  shows "bc_status (backup_round R K b rep C) = bc_status C \<and> bc_jobs (backup_round R K b rep C) = complete_jobs (\<lambda>_. True) (bc_jobs C)"
proof -
  let ?C = "finish_backup_jobs (\<lambda>_. True) C"
  have "backup_calls R K b rep ?C = [Read (GetBackup (b_ns b) (b_name b))]"
    unfolding backup_calls_def using terminal_run [OF backup_view_simps(5)] assms by (simp add: finish_backup_jobs_def)
  then show ?thesis by (simp add: backup_round_def Let_def backup_effects_def finish_backup_jobs_def)
qed

section \<open>The backup arrives\<close>

interpretation backup_loop: converging "backup_round R K b rep" "\<lambda>C. backup_ready R K b rep cs staging gs \<and> backup_cluster_inv b C"
  "\<lambda>C. bst_phase (bc_status C) = BackupPhaseCompleted" "\<lambda>C. if launched_all b gs C then 0 else 1" for R K b rep cs staging gs
proof unfold_locales
  fix C assume C: "backup_ready R K b rep cs staging gs \<and> backup_cluster_inv b C"
  show "backup_ready R K b rep cs staging gs \<and> backup_cluster_inv b (backup_round R K b rep C)"
  proof (cases "bst_phase (bc_status C) = BackupPhaseCompleted")
    case True
    then have "backup_cluster_inv b (backup_round R K b rep C)"
      using C finish_backup_jobs_inv [of b C "\<lambda>_. True"] backup_round_completed [OF True, of R K b rep]
      by (simp add: backup_cluster_inv_def finish_backup_jobs_def)
    with C show ?thesis by blast
  qed (use C backup_round_progress in blast)
next
  fix C assume "backup_ready R K b rep cs staging gs \<and> backup_cluster_inv b C" "bst_phase (bc_status C) \<noteq> BackupPhaseCompleted"
  then show "bst_phase (bc_status (backup_round R K b rep C)) = BackupPhaseCompleted \<or>
      (if launched_all b gs (backup_round R K b rep C) then 0 else 1) < (if launched_all b gs C then 0 else (1 :: nat))"
    using backup_round_progress [of R K b rep cs staging gs C] by auto
qed (simp add: backup_round_completed)

lemma backup_cluster_reachable_inv:
  assumes "(backup_cluster_step R K b rep)\<^sup>*\<^sup>* C C'" "backup_ready R K b rep cs staging gs" "backup_cluster_inv b C"
  shows "backup_cluster_inv b C'"
  using assms by (induction) (auto intro: backup_cluster_step_inv)

text \<open>C9: a backup arrives whatever happened on the way: from any state that reconciles, each of them cut
  off at any of its calls by a restart of the operator, finishing Jobs and the disappearance of Jobs
  the status does not record have led to, it never is Failed, and two rounds of Jobs finishing and
  one undisturbed reconcile complete it.\<close>

theorem backup_converges:
  assumes "backup_ready R K b rep cs staging gs" "bst_phase (b_status b) \<noteq> BackupPhaseFailed" "bst_jobs (b_status b) = []"
    and "(backup_cluster_step R K b rep)\<^sup>*\<^sup>* (new_backup_cluster b) C"
  shows "bst_phase (bc_status C) \<noteq> BackupPhaseFailed \<and>
    bst_phase (bc_status ((backup_round R K b rep ^^ 2) C)) = BackupPhaseCompleted"
proof -
  have "backup_cluster_inv b (new_backup_cluster b)"
    using assms(2,3) by (simp add: backup_cluster_inv_def new_backup_cluster_def)
  from backup_cluster_reachable_inv [OF assms(4,1) this] have inv: "backup_cluster_inv b C" .
  with backup_loop.rounds_finish [of R K b rep cs staging gs C 2] assms(1) show ?thesis
    by (auto simp: backup_cluster_inv_def)
qed

section \<open>An example\<close>

abbreviation "sample_reports \<equiv> (\<lambda>n :: string. [reporting_pod])"

lemma sample_backup_ready:
  "backup_ready sample_R sample_world sample_backup sample_reports [sample_claim] '''' [(''n1'', [''data''])]"
proof -
  have plan: "backup_plan_answers sample_R sample_world sample_backup [sample_claim] '''' [(''n1'', [''data''])]"
    by (rule sample_plan_answers [where pods = "[hooked_pod]"]) (simp_all add: world_with_def)
  have parsed: "\<exists>c cmd. ParseHook (k_jsonError sample_world) hooked_pod = Hook c cmd"
  proof (cases "ParseHook (k_jsonError sample_world) hooked_pod")
    case NoHook
    moreover have "ParseHook (k_jsonError sample_world) hooked_pod \<noteq> NoHook" by code_simp
    ultimately show ?thesis by blast
  next
    case (BadHook e)
    moreover have "\<not> (case ParseHook (k_jsonError sample_world) hooked_pod of BadHook e \<Rightarrow> True | _ \<Rightarrow> False)" by code_simp
    ultimately show ?thesis by simp
  qed auto
  have hook: "hook_succeeds sample_R sample_world hooked_pod"
    using parsed by (auto simp: hook_succeeds_def sample_R_def) (simp add: world_with_def empty_world_def)
  have result: "read_result n [reporting_pod] = Inr (''host/n/1970-01-01T00:00:00Z'', 7)" for n
    unfolding read_result_def by code_simp
  have pods: "k_pods sample_world l ns None = Inr [hooked_pod]" for l ns by (simp add: world_with_def)
  show ?thesis using sample_gates_open(1) plan hook result by (simp add: backup_ready_def pods)
qed

text \<open>The operator stops right after it created the Job: the status knows no Job yet.\<close>

definition stopped_cluster :: backup_cluster where
  "stopped_cluster = (let C = new_backup_cluster sample_backup
     in backup_effects sample_backup (take 11 (backup_calls sample_R sample_world sample_backup sample_reports C)) C)"

lemma stopped_reachable:
  "(backup_cluster_step sample_R sample_world sample_backup sample_reports)\<^sup>*\<^sup>* (new_backup_cluster sample_backup) stopped_cluster"
  unfolding stopped_cluster_def Let_def by (rule r_into_rtranclp) (rule backup_cluster_step.reconciles)

lemma backup_converges_witness:
  "bst_phase (bc_status ((backup_round sample_R sample_world sample_backup sample_reports ^^ 2) stopped_cluster)) =
   BackupPhaseCompleted"
  using backup_converges [OF sample_backup_ready _ _ stopped_reachable] by (simp add: sample_backup_def empty_backup_status_def)

text \<open>Then the next reconcile runs the hook again, beside the Job.\<close>

lemma hook_runs_beside_job:
  "map job_name (bc_jobs stopped_cluster) = [''nightly-n1'']"
  "list_ex is_exec (backup_calls sample_R sample_world sample_backup sample_reports stopped_cluster)"
  by code_simp+

end
