(* ===== verification/Restore_Loop.thy ===== *)
theory Restore_Loop
  imports Restore_Progress Rounds Cluster_Jobs
begin

text \<open>
  A restore in a cluster, from its creation to the end: the reconciles run against the state the
  earlier ones left, the Jobs they created finish in between, finished Jobs are reaped, and the
  operator may stop in the middle of a reconcile and start again.  Whatever happened that way, the
  restore arrives.
\<close>

section \<open>The cluster\<close>

text \<open>What changes during the life of one restore: its status, the Jobs of its target namespace, and
  whether the manifest has been uploaded there.\<close>

record cluster =
  cl_status :: PBSRestoreStatus
  cl_jobs :: "job list"
  cl_uploaded :: bool

definition current :: "PBSRestore \<Rightarrow> cluster \<Rightarrow> PBSRestore" where
  "current rs C = rs\<lparr>r_status := cl_status C\<rparr>"

definition labelled_jobs :: "cluster \<Rightarrow> string \<times> string \<Rightarrow> job list" where
  "labelled_jobs C lb = filter (\<lambda>j. om_labels (job_meta j) (fst lb) = Some (snd lb)) (cl_jobs C)"

text \<open>The world a reconcile sees: everything else is as in \<open>K\<close>.\<close>

definition view :: "kube \<Rightarrow> PBSRestore \<Rightarrow> config_map \<Rightarrow> cluster \<Rightarrow> kube" where
  "view K rs cm C = K\<lparr>
     k_restore := (\<lambda>l ns n. if ns = r_ns rs \<and> n = r_name rs then Inr (current rs C) else k_restore K l ns n),
     k_job := (\<lambda>l ns n. if ns = r_target rs then find_job (cl_jobs C) n else k_job K l ns n),
     k_jobs := (\<lambda>l ns lb. if ns = r_target rs then Inr (labelled_jobs C lb) else k_jobs K l ns lb),
     k_configMap := (\<lambda>l ns n. if ns = r_target rs \<and> n = staged_name rs
       then (if cl_uploaded C then Inr cm else Inl NotFound) else k_configMap K l ns n)\<rparr>"

text \<open>What the calls of a reconcile do: the server keeps a Job of a new name, and the patched status.\<close>

fun take_effect :: "PBSRestore \<Rightarrow> kcall \<Rightarrow> cluster \<Rightarrow> cluster" where
  "take_effect rs (Write (CreateJob j)) C =
     C\<lparr>cl_jobs := add_job (r_target rs) j (cl_jobs C)\<rparr>"
| "take_effect rs (Write (PatchRestoreStatus ns n st)) C = C\<lparr>cl_status := stored_restore_status st\<rparr>"
| "take_effect rs c C = C"

definition effects :: "PBSRestore \<Rightarrow> kcall list \<Rightarrow> cluster \<Rightarrow> cluster" where
  "effects rs n C = fold (take_effect rs) n C"

definition reconcile_calls :: "apimachinery \<Rightarrow> string \<Rightarrow> kube \<Rightarrow> PBSRestore \<Rightarrow> config_map \<Rightarrow> cluster \<Rightarrow> kcall list" where
  "reconcile_calls A img K rs cm C = trace (RestoreReconcile A img (view K rs cm C) (r_ns rs) (r_name rs)) []"

text \<open>Jobs finish; the fetch Job has uploaded the manifest then.\<close>

definition finish_jobs :: "PBSRestore \<Rightarrow> (string \<Rightarrow> bool) \<Rightarrow> cluster \<Rightarrow> cluster" where
  "finish_jobs rs which C = C\<lparr>cl_jobs := complete_jobs which (cl_jobs C),
     cl_uploaded := cl_uploaded C \<or> which (fetch_name rs) \<and> fetch_name rs \<in> job_name ` set (cl_jobs C)\<rparr>"

text \<open>The steps: a reconcile up to some call (the operator may stop there), Jobs finishing, and the
  disappearance of a Job, finished or not, that the status does not record as still open.\<close>

inductive cluster_step :: "apimachinery \<Rightarrow> string \<Rightarrow> kube \<Rightarrow> PBSRestore \<Rightarrow> config_map \<Rightarrow> cluster \<Rightarrow> cluster \<Rightarrow> bool"
  for A img K rs cm where
  reconciles: "cluster_step A img K rs cm C (effects rs (take k (reconcile_calls A img K rs cm C)) C)"
| finishes: "cluster_step A img K rs cm C (finish_jobs rs which C)"
| reaped: "\<not> knownJob (current rs C) n \<or> recordedJobState (current rs C) n = ''complete'' \<Longrightarrow>
    cluster_step A img K rs cm C (C\<lparr>cl_jobs := lose_job n (cl_jobs C)\<rparr>)"

inductive_cases cluster_stepE: "cluster_step A img K rs cm C C'"

definition new_cluster :: "PBSRestore \<Rightarrow> cluster" where
  "new_cluster rs = \<lparr>cl_status = r_status rs, cl_jobs = [], cl_uploaded = False\<rparr>"

text \<open>A round: the Jobs that are there finish, then one reconcile.\<close>

definition cluster_round :: "apimachinery \<Rightarrow> string \<Rightarrow> kube \<Rightarrow> PBSRestore \<Rightarrow> config_map \<Rightarrow> cluster \<Rightarrow> cluster" where
  "cluster_round A img K rs cm C = (let C' = finish_jobs rs (\<lambda>_. True) C in effects rs (reconcile_calls A img K rs cm C') C')"

section \<open>The hypotheses\<close>

text \<open>The cluster answers, the manifest can be read, and its volumes have the nodes of \<open>gs\<close>.\<close>

definition restorable :: "apimachinery \<Rightarrow> kube \<Rightarrow> PBSRestore \<Rightarrow> config_map \<Rightarrow> (string \<times> string list) list \<Rightarrow> bool" where
  "restorable A K rs cm gs \<longleftrightarrow> gates_open K rs \<and> owners_total K \<and> validateSpec rs = '''' \<and>
     (\<exists>docs names. ParseAPIManifests A (label (cm_data cm) ''api.yaml'') (r_target rs) = Inr docs \<and>
        (\<forall>l. k_nodes K l = Inr names) \<and> place_volumes docs (first_name names) (planned_claims A rs docs) [] = Inr gs)"

definition pipeline_names :: "PBSRestore \<Rightarrow> (string \<times> string list) list \<Rightarrow> string list" where
  "pipeline_names rs gs = [fetch_name rs, pre_name rs, workload_name rs] @ map (\<lambda>g. vol_jobName rs (fst g)) gs"

text \<open>The names of the pipeline that are neither there nor recorded.\<close>

definition fresh_names :: "PBSRestore \<Rightarrow> (string \<times> string list) list \<Rightarrow> cluster \<Rightarrow> string set" where
  "fresh_names rs gs C = {n \<in> set (pipeline_names rs gs). n \<notin> job_name ` set (cl_jobs C) \<and> \<not> knownJob (current rs C) n}"

section \<open>The invariant\<close>

definition recorded_ok :: "PBSRestore \<Rightarrow> cluster \<Rightarrow> RestoreJobStatus \<Rightarrow> bool" where
  "recorded_ok rs C js \<longleftrightarrow> (rj_job js \<in> job_name ` set (cl_jobs C) \<or> rj_state js = ''complete'') \<and>
     (rj_job js = fetch_name rs \<and> rj_state js = ''complete'' \<longrightarrow> cl_uploaded C)"

definition live_ok :: "PBSRestore \<Rightarrow> cluster \<Rightarrow> job \<Rightarrow> bool" where
  "live_ok rs C j \<longleftrightarrow> \<not> jobCondition j JobFailed \<and>
     (job_name j = fetch_name rs \<and> jobCondition j JobComplete \<longrightarrow> cl_uploaded C)"

definition cluster_inv :: "PBSRestore \<Rightarrow> cluster \<Rightarrow> bool" where
  "cluster_inv rs C \<longleftrightarrow> rst_phase (cl_status C) \<noteq> RestorePhaseFailed \<and>
     distinct (map job_name (cl_jobs C)) \<and> distinct (map rj_job (rst_jobs (cl_status C))) \<and>
     list_all (live_ok rs C) (cl_jobs C) \<and> list_all (recorded_ok rs C) (rst_jobs (cl_status C))"

lemma view_simps [simp]:
  "k_write (view K rs cm C) = k_write K" "k_repo (view K rs cm C) = k_repo K" "k_nodes (view K rs cm C) = k_nodes K"
  "k_restore (view K rs cm C) l (r_ns rs) (r_name rs) = Inr (current rs C)"
  "k_job (view K rs cm C) l (r_target rs) n = find_job (cl_jobs C) n"
  "k_jobs (view K rs cm C) l (r_target rs) lb = Inr (labelled_jobs C lb)"
  "k_configMap (view K rs cm C) l (r_target rs) (staged_name rs) = (if cl_uploaded C then Inr cm else Inl NotFound)"
  by (simp_all add: view_def)

lemma current_simps [simp]:
  "r_status (current rs C) = cl_status C" "r_spec (current rs C) = r_spec rs" "r_meta (current rs C) = r_meta rs"
  "fetch_name (current rs C) = fetch_name rs" "pre_name (current rs C) = pre_name rs"
  "workload_name (current rs C) = workload_name rs" "vol_jobName (current rs C) = vol_jobName rs"
  "staged_name (current rs C) = staged_name rs" "validateSpec (current rs C) = validateSpec rs"
  "planned_claims A (current rs C) = planned_claims A rs"
  by (simp_all add: current_def fetch_name_def pre_name_def workload_name_def vol_jobName_def staged_name_def
      validateSpec_def planned_claims_def fun_eq_iff)

lemma view_gates [simp]:
  "gates_open (view K rs cm C) (current rs C) \<longleftrightarrow> gates_open K rs" "owners_total (view K rs cm C) \<longleftrightarrow> owners_total K"
  by (simp_all add: gates_open_def owners_total_def view_def current_def secret_source_def operatorNamespace_def set_owner_def)

section \<open>What one reconcile records\<close>

text \<open>A patched status keeps the recorded Jobs, or merges the listed ones into them.\<close>

definition tracked :: "kube \<Rightarrow> PBSRestore \<Rightarrow> RestoreJobStatus list \<Rightarrow> bool" where
  "tracked K rs js \<longleftrightarrow> js = rst_jobs (r_status rs) \<or>
     (\<exists>l items. k_jobs K l (r_target rs) (''pbsrestore'', r_name rs) = Inr items \<and> js = merge_jobs rs items)"

fun tracks :: "kube \<Rightarrow> PBSRestore \<Rightarrow> kcall \<Rightarrow> bool" where
  "tracks K rs (Write (PatchRestoreStatus ns n st)) \<longleftrightarrow> tracked K rs (rst_jobs st)"
| "tracks K rs _ \<longleftrightarrow> True"

lemma liveJobs_tracked:
  "gives (\<lambda>js n. list_all (tracks K rs) n \<and> (\<forall>v. js = Some v \<longrightarrow> tracked K rs v)) (liveJobs K rs)"
  unfolding liveJobs_def list_jobs_def
  by (rule gives_bind_answer) (auto intro!: gives_rules simp: tracked_def)

lemma recordRestore_tracks:
  assumes "\<And>s. rst_jobs s = rst_jobs (r_status rs) \<Longrightarrow>
    gives (\<lambda>x n. list_all (tracks K rs) n \<and> tracked K rs (rst_jobs (set_jobs (fst x) (snd x)))) (extra s)"
  shows "emits (tracks K rs) (recordRestore K rs phase c extra)"
  unfolding gives_emits [symmetric] recordRestore_def
proof (rule gives_bind_observe, rule gives_case_prod, rule gives_bind [OF assms], simp, goal_cases)
  case (1 l conds t x n)
  then show ?case
    by (cases x) (auto simp: skipE_def do_write_def intro!: gives_rules gives_bind_answer)
qed

lemma tracked_kept [simp]: "tracked K rs (rst_jobs (r_status rs))"
  by (simp add: tracked_def)

lemma set_jobs_tracked:
  "rst_jobs s = rst_jobs (r_status rs) \<Longrightarrow> \<forall>v. js = Some v \<longrightarrow> tracked K rs v \<Longrightarrow> tracked K rs (rst_jobs (set_jobs s js))"
  by (cases js) (simp_all add: tracked_def set_jobs_def)

lemma restore_ends_track:
  "emits (tracks K rs) (holdRestore K rs reason msg wait)" "emits (tracks K rs) (failRestore K rs reason msg)"
  "emits (tracks K rs) (completeRestore K rs)" "emits (tracks K rs) (requeueOrHold K rs phase err)"
proof -
  have ended: "gives (\<lambda>x n. list_all (tracks K rs) n \<and> tracked K rs (rst_jobs (set_jobs (fst x) (snd x)))) (end_status K rs s)"
    if "rst_jobs s = rst_jobs (r_status rs)" for s
    unfolding end_status_def read_clock_def
    by (rule gives_bind [OF liveJobs_tracked])
      (use that in \<open>auto intro!: gives_rules set_jobs_tracked split: option.splits\<close>)
  have under_way: "gives (\<lambda>x n. list_all (tracks K rs) n \<and> tracked K rs (rst_jobs (set_jobs (fst x) (snd x)))) (progress_status K rs s)"
    if "rst_jobs s = rst_jobs (r_status rs)" for s
    unfolding progress_status_def read_clock_def
    by (cases "rst_startedAt s")
      (auto intro!: gives_rules gives_bind [OF liveJobs_tracked] simp: that split: option.split)
  have tell: "emits (tracks K rs) (notifyRestore rs t ty r m)" for t ty r m
    unfolding notifyRestore_def emit_def by (auto intro!: emits_rules)
  show hold: "emits (tracks K rs) (holdRestore K rs reason msg wait)" for reason msg wait
    unfolding holdRestore_def bindE_def
    by (intro emits_bind recordRestore_tracks emits_rules tell) (auto simp: gives_return tracked_def)
  show failed: "emits (tracks K rs) (failRestore K rs reason msg)" for reason msg
    unfolding failRestore_def bindE_def by (intro emits_bind recordRestore_tracks ended emits_rules tell)
  show "emits (tracks K rs) (completeRestore K rs)"
    unfolding completeRestore_def bindE_def Let_def by (intro emits_bind recordRestore_tracks ended emits_rules tell)
  show "emits (tracks K rs) (requeueOrHold K rs phase err)"
    unfolding requeueOrHold_def bindE_def
    by (auto intro!: emits_bind recordRestore_tracks under_way emits_rules hold failed split: option.split restore_error.split sum.split)
qed

lemma ensureJob_tracks: "emits (tracks K rs) (ensureJob K rs name build)"
  unfolding ensureJob_def by (auto intro!: emits_bind emits_rules split: sum.split)

lemma volume_jobs_track: "emits (tracks K rs) (volume_jobs K rs spec gs nodes)"
  by (induction nodes) (auto intro!: emits_bind emits_rules ensureJob_tracks split: sum.split)

lemma await_tracks:
  "emits (tracks K rs) step \<Longrightarrow> emits (tracks K rs) rest \<Longrightarrow> emits (tracks K rs) (await K rs phase step rest)"
  unfolding await_def by (auto intro!: emits_bind emits_rules restore_ends_track split: sum.split)

lemma run_pipeline_tracks: "emits (tracks K rs) (run_pipeline A K rs spec)"
proof -
  have work: "emits (tracks K rs) (apply_workloads K rs spec)"
    unfolding apply_workloads_def by (intro await_tracks ensureJob_tracks restore_ends_track)
  have vols: "emits (tracks K rs) (ensureVolumeJobs K rs spec docs pvcs)" for docs pvcs
    unfolding ensureVolumeJobs_def firstNode_def bindE_def
    by (auto intro!: emits_bind emits_rules volume_jobs_track split: sum.split)
  have volumes: "emits (tracks K rs) (restore_volumes A K rs spec cm)" for cm
    unfolding restore_volumes_def Let_def
    by (auto intro!: emits_rules await_tracks vols work restore_ends_track split: sum.split)
  have adopt: "emits (tracks K rs) (adoptConfigMap K rs cm)" for cm
    unfolding adoptConfigMap_def by (auto intro!: emits_bind emits_rules split: sum.split)
  have "emits (tracks K rs) (apply_pre A K rs spec)"
    unfolding apply_pre_def
    by (auto intro!: emits_bind emits_rules adopt await_tracks ensureJob_tracks volumes restore_ends_track split: sum.split)
  then show ?thesis unfolding run_pipeline_def by (intro await_tracks ensureJob_tracks)
qed

lemma reconcile_restore_tracks: "emits (tracks K rs) (reconcile_restore A img K rs)"
proof -
  have "emits (tracks K rs) (prepare_target A img K rs repo)" for repo
    unfolding prepare_target_def ensureTargetNamespace_def ensureTargetRepoSecret_def ensureJobRBAC_def ensure_object_def
      create_missing_def bindE_def skipE_def Let_def
    by (intro emits_bind emits_rules restore_ends_track run_pipeline_tracks | simp)+
  then show ?thesis
    unfolding reconcile_restore_def by (auto intro!: emits_bind emits_rules restore_ends_track split: sum.split)
qed

section \<open>The calls of a reconcile\<close>

text \<open>In a restorable cluster no reconcile records Failed, and a created Job is new.\<close>

fun call_ok :: "PBSRestore \<Rightarrow> cluster \<Rightarrow> kcall \<Rightarrow> bool" where
  "call_ok rs C (Write (CreateJob j)) \<longleftrightarrow> job_conditions j = []"
| "call_ok rs C (Write (PatchRestoreStatus ns n st)) \<longleftrightarrow> rst_phase st \<noteq> RestorePhaseFailed \<and>
     (rst_jobs st = rst_jobs (cl_status C) \<or>
      rst_jobs st = merge_jobs (current rs C) (labelled_jobs C (''pbsrestore'', r_name rs)))"
| "call_ok rs C c \<longleftrightarrow> True"

lemma pipeline_job_new: "pipeline_job A K rs spec h name build \<Longrightarrow> job_conditions build = []"
  by (cases rule: pipeline_job.cases) (auto simp: apply_build_def restore_builder_defs split: prod.split)

lemma owned_job_conditions: "owned_job K rs name build = Inr j \<Longrightarrow> job_conditions j = job_conditions build"
  by (auto simp: owned_job_def Let_def split: if_splits sum.splits)

lemma never_fails:
  assumes "restorable A K rs cm gs" "cluster_inv rs C"
    and "phase_justified A (view K rs cm C) (current rs C) h RestorePhaseFailed" "\<not> rterminal (rst_phase (cl_status C))"
  shows False
proof -
  have "holdPhase (rst_phase (cl_status C)) \<noteq> RestorePhaseFailed" using assms(4) by (simp add: holdPhase_def)
  with assms(1,3) consider data err where "staged (view K rs cm C) (current rs C) data h"
      "ParseAPIManifests A data (r_target rs) = Inl err"
    | name where "job_failed (view K rs cm C) (current rs C) name h"
    by (auto simp: phase_justified_def restorable_def)
  then show False
  proof cases
    case 1
    then show False using assms(1) by (auto simp: staged_def restorable_def split: if_splits)
  next
    case 2
    then obtain j where "find_job (cl_jobs C) name = Inr j" "jobCondition j JobFailed" by (auto simp: seen_def reads_failed_def)
    then show False using assms(2) find_job_member by (fastforce simp: cluster_inv_def live_ok_def list_all_iff)
  qed
qed

lemma reconcile_calls_ok:
  assumes "restorable A K rs cm gs" "cluster_inv rs C" "c \<in> set (reconcile_calls A img K rs cm C)"
  shows "call_ok rs C c"
proof -
  let ?K = "view K rs cm C" and ?r = "current rs C"
  have made: "\<not> rterminal (rst_phase (cl_status C)) \<and> (\<exists>h. restore_call A img ?K ?r h c)" if "\<not> is_read c"
    using RestoreReconcile_calls [OF view_simps(4) _ that] assms(3) unfolding reconcile_calls_def by fastforce
  have "emits (tracks ?K ?r) (RestoreReconcile A img ?K (r_ns rs) (r_name rs))"
    unfolding gives_emits [symmetric] RestoreReconcile_def get_restore_def
    using reconcile_restore_tracks [of ?K ?r A img]
    by (intro gives_bind_answer) (simp add: gives_emits [symmetric])
  then have "tracks ?K ?r c" using assms(3) unfolding reconcile_calls_def by (rule emits_traceD)
  show ?thesis
  proof (cases "(rs, C, c)" rule: call_ok.cases)
    case (1 rs' C' j)
    then show ?thesis using made by (auto simp: created_pipeline_job_def pipeline_job_new owned_job_conditions)
  next
    case (2 rs' C' ns n st)
    then show ?thesis
      using made \<open>tracks ?K ?r c\<close> never_fails [OF assms(1,2)] by (auto simp: tracked_def)
  qed auto
qed

section \<open>The invariant is kept\<close>

text \<open>What a reconcile that began at \<open>C\<close> may have made of it, at any of its calls.\<close>

definition grown :: "PBSRestore \<Rightarrow> cluster \<Rightarrow> cluster \<Rightarrow> bool" where
  "grown rs C C' \<longleftrightarrow> rst_phase (cl_status C') \<noteq> RestorePhaseFailed \<and> cl_uploaded C' = cl_uploaded C \<and>
     (rst_jobs (cl_status C') = rst_jobs (cl_status C) \<or>
      rst_jobs (cl_status C') = merge_jobs (current rs C) (labelled_jobs C (''pbsrestore'', r_name rs))) \<and>
     grown_jobs (cl_jobs C) (cl_jobs C')"

lemma take_effect_grown:
  assumes "grown rs C C'" "call_ok rs C c"
  shows "grown rs C (take_effect rs c C')"
proof (cases "(rs, c, C')" rule: take_effect.cases)
  case (1 rs' j C'')
  then show ?thesis using assms by (auto simp: grown_def intro: grown_jobs_add)
qed (use assms in \<open>auto simp: grown_def\<close>)

lemma effects_grown: "grown rs C C' \<Longrightarrow> list_all (call_ok rs C) n \<Longrightarrow> grown rs C (effects rs n C')"
  unfolding effects_def by (induction n arbitrary: C') (simp_all add: take_effect_grown)

lemma merged_names: "rj_job ` set (rst_jobs (r_status rs)) \<subseteq> rj_job ` set (merge_jobs rs items)"
  using merge_jobs_kept [of rs items] by (simp add: jobs_kept_def)

lemma distinct_map_sort_key: "distinct (map f (sort_key f xs)) \<longleftrightarrow> distinct (map f xs)"
  by (rule mset_eq_imp_distinct_iff) simp

lemma merged_ok:
  assumes "cluster_inv rs C"
  shows "distinct (map rj_job (merge_jobs (current rs C) (labelled_jobs C lb)))"
    "list_all (recorded_ok rs C) (merge_jobs (current rs C) (labelled_jobs C lb))"
proof -
  have "distinct (map rj_job (map (live_entry (current rs C)) (labelled_jobs C lb) @
      filter (\<lambda>js. rj_job js \<notin> set (map job_name (labelled_jobs C lb))) (rst_jobs (cl_status C))))"
    using assms by (auto simp: cluster_inv_def labelled_jobs_def live_entry_def comp_def distinct_map_filter image_iff)
  then show "distinct (map rj_job (merge_jobs (current rs C) (labelled_jobs C lb)))"
    unfolding merge_jobs_def Let_def current_simps distinct_map_sort_key .
  show "list_all (recorded_ok rs C) (merge_jobs (current rs C) (labelled_jobs C lb))"
    using assms
    by (auto simp: cluster_inv_def merge_jobs_def Let_def list_all_iff labelled_jobs_def live_entry_def recorded_ok_def
        live_ok_def jobState_def split: if_splits)
qed

lemma grown_inv:
  assumes "cluster_inv rs C" "grown rs C C'"
  shows "cluster_inv rs C'"
proof -
  have jobs: "grown_jobs (cl_jobs C) (cl_jobs C')" and up: "cl_uploaded C' = cl_uploaded C"
    using assms(2) by (simp_all add: grown_def)
  have live: "list_all (live_ok rs C') (cl_jobs C')"
    using assms(1) grown_jobs_member [OF jobs] up by (auto simp: cluster_inv_def list_all_iff live_ok_def)
  have rec: "list_all (recorded_ok rs C') js" if "list_all (recorded_ok rs C) js" for js
    using that grown_jobs_names [OF jobs] up by (auto simp: list_all_iff recorded_ok_def)
  have "distinct (map job_name (cl_jobs C'))" using jobs by (simp add: grown_jobs_def)
  then show ?thesis
    using assms live rec merged_ok [OF assms(1)] by (auto simp: cluster_inv_def grown_def)
qed

lemma reconcile_inv:
  assumes "restorable A K rs cm gs" "cluster_inv rs C"
  shows "grown rs C (effects rs (take k (reconcile_calls A img K rs cm C)) C)"
  by (rule effects_grown)
    (use assms reconcile_calls_ok [OF assms] in \<open>auto simp: grown_def cluster_inv_def list_all_iff grown_jobs_refl dest: in_set_takeD\<close>)

lemma finish_jobs_names [simp]:
  "map job_name (cl_jobs (finish_jobs rs which C)) = map job_name (cl_jobs C)"
  "cl_status (finish_jobs rs which C) = cl_status C"
  by (simp_all add: finish_jobs_def)

lemma finish_jobs_inv:
  assumes "cluster_inv rs C"
  shows "cluster_inv rs (finish_jobs rs which C)"
proof -
  let ?C = "finish_jobs rs which C"
  have up: "cl_uploaded C \<Longrightarrow> cl_uploaded ?C" by (simp add: finish_jobs_def)
  have "live_ok rs ?C j" if j: "j \<in> set (complete_jobs which (cl_jobs C))" for j
  proof -
    obtain i where i: "i \<in> set (cl_jobs C)" "j = (if which (job_name i) then completed i else i)"
      using complete_jobs_member [OF j] by blast
    with assms have "live_ok rs C i" "job_name i \<in> job_name ` set (cl_jobs C)" by (auto simp: cluster_inv_def list_all_iff)
    with i(2) up show ?thesis by (cases "job_name i = fetch_name rs") (auto simp: live_ok_def finish_jobs_def)
  qed
  then have "list_all (live_ok rs ?C) (cl_jobs ?C)" by (simp add: list_all_iff) (simp add: finish_jobs_def)
  moreover have "list_all (recorded_ok rs ?C) (rst_jobs (cl_status ?C))"
    using assms up by (auto simp: cluster_inv_def list_all_iff recorded_ok_def finish_jobs_def)
  ultimately show ?thesis using assms by (simp add: cluster_inv_def)
qed

lemma reaped_inv:
  assumes "cluster_inv rs C" "\<not> knownJob (current rs C) n \<or> recordedJobState (current rs C) n = ''complete''"
  shows "cluster_inv rs (C\<lparr>cl_jobs := lose_job n (cl_jobs C)\<rparr>)"
proof -
  let ?C = "C\<lparr>cl_jobs := lose_job n (cl_jobs C)\<rparr>"
  have "recorded_ok rs ?C e" if e: "e \<in> set (rst_jobs (cl_status C))" for e
  proof -
    have "rj_state e = ''complete''" if n: "rj_job e = n"
    proof -
      have "knownJob (current rs C) n" using e n by (auto simp: knownJob_def list_ex_iff)
      with assms(2) obtain js where js: "js \<in> set (rst_jobs (cl_status C))" "rj_job js = n" "rj_state js = ''complete''"
        by (auto simp: recordedJobState_def find_Some_iff split: option.splits) (metis nth_mem)
      moreover have "e = js"
        using n js assms(1) e by (auto simp: cluster_inv_def distinct_map dest: inj_onD)
      ultimately show ?thesis by simp
    qed
    moreover have "recorded_ok rs C e" using assms(1) e by (simp add: cluster_inv_def list_all_iff)
    ultimately show ?thesis by (auto simp: recorded_ok_def)
  qed
  then show ?thesis
    using assms(1) by (auto simp: cluster_inv_def list_all_iff distinct_map_filter live_ok_def)
qed

lemma cluster_step_inv:
  assumes "restorable A K rs cm gs" "cluster_step A img K rs cm C C'" "cluster_inv rs C"
  shows "cluster_inv rs C'"
  using assms(2)
  by (rule cluster_stepE)
    (use assms(3) grown_inv [OF assms(3) reconcile_inv [OF assms(1,3)]] in \<open>auto intro: finish_jobs_inv reaped_inv\<close>)

section \<open>A round gets on\<close>

text \<open>Once the Jobs that are there have finished, every name of the pipeline is done or fresh.\<close>

lemma finished_settled:
  assumes "cluster_inv rs C" "\<forall>j\<in>set (cl_jobs C). jobCondition j JobComplete" "name \<in> set (pipeline_names rs gs)"
  shows "job_settled (view K rs cm C) (current rs C) (fresh_names rs gs C) name \<and>
    (job_finished (view K rs cm C) (current rs C) name \<longrightarrow> name = fetch_name rs \<longrightarrow> cl_uploaded C)"
proof (cases "find_job (cl_jobs C) name")
  case (Inr j)
  then have j: "j \<in> set (cl_jobs C)" "job_name j = name" using find_job_member by blast+
  with assms(1,2) have "live_ok rs C j" "jobCondition j JobComplete" by (auto simp: cluster_inv_def list_all_iff)
  with Inr j show ?thesis by (auto simp: job_settled_def job_finished_def reads_done_def live_ok_def)
next
  case (Inl e)
  then have e: "e = NotFound" "name \<notin> job_name ` set (cl_jobs C)"
    using find_job_missing by blast+
  show ?thesis
  proof (cases "knownJob (current rs C) name")
    case True
    then obtain js where js: "List.find (\<lambda>js. rj_job js = name) (rst_jobs (cl_status C)) = Some js"
      by (cases "List.find (\<lambda>js. rj_job js = name) (rst_jobs (cl_status C))")
        (auto simp: knownJob_def find_None_iff list_ex_iff)
    then have "js \<in> set (rst_jobs (cl_status C))" "rj_job js = name" by (auto simp: find_Some_iff)
    with assms(1) e(2) have "rj_state js = ''complete''" "name = fetch_name rs \<longrightarrow> cl_uploaded C"
      by (auto simp: cluster_inv_def list_all_iff recorded_ok_def)
    with True js Inl e show ?thesis
      by (simp add: job_settled_def job_finished_def reads_done_def recordedJobState_def)
  next
    case False
    with Inl e assms(3) have "job_settled (view K rs cm C) (current rs C) (fresh_names rs gs C) name"
      by (simp add: job_settled_def job_fresh_def fresh_names_def)
    moreover have "\<not> job_finished (view K rs cm C) (current rs C) name"
      using Inl False by (simp add: job_finished_def reads_done_def)
    ultimately show ?thesis by blast
  qed
qed

lemma finished_pipeline_settled:
  assumes "restorable A K rs cm gs" "cluster_inv rs C" "\<forall>j\<in>set (cl_jobs C). jobCondition j JobComplete"
  shows "pipeline_settled A (view K rs cm C) (current rs C) (fresh_names rs gs C) (label (cm_data cm) ''api.yaml'')"
proof -
  from assms(1) obtain docs names where d: "ParseAPIManifests A (label (cm_data cm) ''api.yaml'') (r_target rs) = Inr docs"
    "\<And>l. k_nodes K l = Inr names" "place_volumes docs (first_name names) (planned_claims A rs docs) [] = Inr gs"
    by (auto simp: restorable_def)
  note s = finished_settled [OF assms(2,3), of _ gs K cm]
  have "list_all (\<lambda>node. job_settled (view K rs cm C) (current rs C) (fresh_names rs gs C) (vol_jobName rs node)) (map fst gs)"
    using s by (auto simp: list_all_iff pipeline_names_def)
  then show ?thesis
    using s [of "fetch_name rs"] s [of "pre_name rs"] s [of "workload_name rs"] d
    by (auto simp: pipeline_settled_def pipeline_names_def)
qed

lemma effects_append: "effects rs (n @ n') C = effects rs n' (effects rs n C)"
  by (simp add: effects_def)

lemma effects_status: "list_all (\<lambda>c. \<not> restore_patch (\<lambda>_. True) c) n \<Longrightarrow> cl_status (effects rs n C) = cl_status C"
  unfolding effects_def
proof (induction n arbitrary: C)
  case (Cons c n)
  have "cl_status (take_effect rs c C) = cl_status C" using Cons.prems by (cases "(rs, c, C)" rule: take_effect.cases) auto
  with Cons show ?case by simp
qed simp

lemma effects_completes:
  assumes "completes x n"
  shows "rst_phase (cl_status (effects rs n C)) = RestorePhaseCompleted"
proof -
  from assms obtain m ns nm st m' where n: "n = (m @ [Write (PatchRestoreStatus ns nm st)]) @ m'"
    "rst_phase st = RestorePhaseCompleted" "list_all (\<lambda>c. \<not> restore_patch (\<lambda>_. True) c) m'"
    by (auto simp: completes_def)
  then show ?thesis unfolding n(1) effects_append [of rs _ m'] effects_status [OF n(3)] by (simp add: effects_def)
qed

lemma effects_created:
  assumes "Write (CreateJob j) \<in> set n" "om_namespace (job_meta j) = r_target rs"
  shows "job_name j \<in> job_name ` set (cl_jobs (effects rs n C))"
proof -
  have stays: "job_name ` set (cl_jobs C) \<subseteq> job_name ` set (cl_jobs (effects rs m C))" for m C
    unfolding effects_def
  proof (induction m arbitrary: C)
    case (Cons c m)
    have "job_name ` set (cl_jobs C) \<subseteq> job_name ` set (cl_jobs (take_effect rs c C))"
      by (cases "(rs, c, C)" rule: take_effect.cases) (auto intro: subsetD [OF add_job_names(1)])
    with Cons [of "take_effect rs c C"] show ?case by simp
  qed simp
  obtain a b where n: "n = (a @ [Write (CreateJob j)]) @ b" using assms(1) by (auto dest: split_list)
  have "job_name j \<in> job_name ` set (cl_jobs (effects rs (a @ [Write (CreateJob j)]) C))"
    using assms(2) by (simp add: effects_append) (simp add: effects_def add_job_names(2))
  then show ?thesis unfolding n effects_append [of rs _ b] using stays by blast
qed

lemma grown_fresh:
  assumes "grown rs C C'"
  shows "fresh_names rs gs C' \<subseteq> fresh_names rs gs C"
proof -
  have "job_name ` set (cl_jobs C) \<subseteq> job_name ` set (cl_jobs C')" using assms by (simp add: grown_def grown_jobs_names)
  moreover have "rj_job ` set (rst_jobs (cl_status C)) \<subseteq> rj_job ` set (rst_jobs (cl_status C'))"
    using assms merged_names [of "current rs C"] unfolding grown_def by (metis current_simps(1) subset_refl)
  ultimately show ?thesis unfolding fresh_names_def knownJob_def by (auto simp: list_ex_iff image_subset_iff) (metis imageE)+
qed

lemma cluster_round_progress:
  assumes "restorable A K rs cm gs" "cluster_inv rs C" "rst_phase (cl_status C) \<noteq> RestorePhaseCompleted"
  shows "rst_phase (cl_status (cluster_round A img K rs cm C)) = RestorePhaseCompleted \<or>
    card (fresh_names rs gs (cluster_round A img K rs cm C)) < card (fresh_names rs gs C)"
proof -
  let ?C = "finish_jobs rs (\<lambda>_. True) C"
  let ?n = "reconcile_calls A img K rs cm ?C" and ?F = "fresh_names rs gs ?C"
  have inv: "cluster_inv rs ?C" by (rule finish_jobs_inv [OF assms(2)])
  have F: "?F = fresh_names rs gs C"
    unfolding fresh_names_def current_def list.set_map [symmetric] finish_jobs_names ..
  have "\<forall>j\<in>set (cl_jobs ?C). jobCondition j JobComplete" by (simp add: finish_jobs_def complete_jobs_all)
  note settled = finished_pipeline_settled [OF assms(1) inv this]
  have round: "cluster_round A img K rs cm C = effects rs ?n ?C" by (simp add: cluster_round_def Let_def)
  have "advances (view K rs cm ?C) (current rs ?C) ?F
      (result (RestoreReconcile A img (view K rs cm ?C) (r_ns rs) (r_name rs)) []) ?n"
    unfolding reconcile_calls_def
  proof (rule reconcile_advances [OF view_simps(4) _ _ _ settled])
    show "\<not> rterminal (rst_phase (r_status (current rs ?C)))" using assms(2,3) by (simp add: cluster_inv_def)
  qed (use assms(1) in \<open>simp_all add: restorable_def\<close>)
  then consider (completes) x where "completes x ?n" | (launches) "launches (view K rs cm ?C) (current rs ?C) ?F ?n"
    unfolding advances_def by blast
  then show ?thesis
  proof cases
    case completes
    from effects_completes [OF this] show ?thesis unfolding round by blast
  next
    case launches
    then obtain j where j: "Write (CreateJob j) \<in> set ?n" "om_namespace (job_meta j) = r_target rs" "job_name j \<in> ?F"
      by (auto simp: launches_def)
    have "grown rs ?C (effects rs ?n ?C)" using reconcile_inv [OF assms(1) inv, of "length ?n" img] by simp
    from grown_fresh [OF this] have "fresh_names rs gs (effects rs ?n ?C) \<subseteq> ?F" .
    moreover have "job_name j \<notin> fresh_names rs gs (effects rs ?n ?C)"
      using effects_created [OF j(1,2)] by (simp add: fresh_names_def)
    moreover have "finite ?F" by (simp add: fresh_names_def)
    ultimately show ?thesis unfolding round F [symmetric] using j(3) by (metis psubsetI psubset_card_mono)
  qed
qed

lemma cluster_round_completed:
  assumes "rst_phase (cl_status C) = RestorePhaseCompleted"
  shows "rst_phase (cl_status (cluster_round A img K rs cm C)) = RestorePhaseCompleted"
proof -
  let ?C = "finish_jobs rs (\<lambda>_. True) C"
  have "reconcile_calls A img K rs cm ?C = [Read (GetRestore (r_ns rs) (r_name rs))]"
    unfolding reconcile_calls_def using restore_terminal_run [OF view_simps(4)] assms by simp
  then show ?thesis using assms by (simp add: cluster_round_def Let_def effects_def)
qed

section \<open>The restore arrives\<close>

interpretation restore_loop: converging "cluster_round A img K rs cm" "\<lambda>C. restorable A K rs cm gs \<and> cluster_inv rs C"
  "\<lambda>C. rst_phase (cl_status C) = RestorePhaseCompleted" "\<lambda>C. card (fresh_names rs gs C)" for A img K rs cm gs
proof unfold_locales
  fix C assume "restorable A K rs cm gs \<and> cluster_inv rs C"
  then have r: "restorable A K rs cm gs" and inv: "cluster_inv rs C" by blast+
  let ?C = "finish_jobs rs (\<lambda>_. True) C"
  let ?n = "reconcile_calls A img K rs cm ?C"
  have kept: "cluster_inv rs ?C" by (rule finish_jobs_inv [OF inv])
  have "cluster_inv rs (effects rs (take (length ?n) ?n) ?C)"
    by (rule grown_inv [OF kept reconcile_inv [OF r kept]])
  then have "cluster_inv rs (cluster_round A img K rs cm C)" by (simp add: cluster_round_def Let_def)
  with r show "restorable A K rs cm gs \<and> cluster_inv rs (cluster_round A img K rs cm C)" by blast
next
  fix C assume "restorable A K rs cm gs \<and> cluster_inv rs C" "rst_phase (cl_status C) \<noteq> RestorePhaseCompleted"
  then show "rst_phase (cl_status (cluster_round A img K rs cm C)) = RestorePhaseCompleted \<or>
      card (fresh_names rs gs (cluster_round A img K rs cm C)) < card (fresh_names rs gs C)"
    by (intro cluster_round_progress) auto
qed (rule cluster_round_completed)

lemma fresh_names_few: "card (fresh_names rs gs C) < length gs + 4"
proof -
  have "card (fresh_names rs gs C) \<le> card (set (pipeline_names rs gs))" by (rule card_mono) (auto simp: fresh_names_def)
  also have "\<dots> \<le> length (pipeline_names rs gs)" by (rule card_length)
  finally show ?thesis by (simp add: pipeline_names_def)
qed

lemma cluster_reachable_inv:
  assumes "(cluster_step A img K rs cm)\<^sup>*\<^sup>* C C'" "restorable A K rs cm gs" "cluster_inv rs C"
  shows "cluster_inv rs C'"
  using assms by (induction) (auto intro: cluster_step_inv)

text \<open>C8: a restore arrives whatever happened on the way: from any state that reconciles, each of them cut
  off at any of its calls by a restart of the operator, finishing Jobs and the disappearance of Jobs
  not recorded as open have led to, it never is Failed, and at most as many rounds of Jobs finishing
  and one undisturbed reconcile as the plan has nodes, plus four, complete it.\<close>

theorem restore_converges:
  assumes "restorable A K rs cm gs" "rst_phase (r_status rs) \<noteq> RestorePhaseFailed" "rst_jobs (r_status rs) = []"
    and "(cluster_step A img K rs cm)\<^sup>*\<^sup>* (new_cluster rs) C"
  shows "rst_phase (cl_status C) \<noteq> RestorePhaseFailed \<and>
    rst_phase (cl_status ((cluster_round A img K rs cm ^^ (length gs + 4)) C)) = RestorePhaseCompleted"
proof -
  have "cluster_inv rs (new_cluster rs)" using assms(2,3) by (simp add: cluster_inv_def new_cluster_def)
  from cluster_reachable_inv [OF assms(4,1) this] have inv: "cluster_inv rs C" .
  with restore_loop.rounds_finish [OF _ fresh_names_few] assms(1) show ?thesis by (auto simp: cluster_inv_def)
qed

lemma sample_restorable:
  "restorable restore_machinery (restore_world new_restore []) (restore_with new_restore) staged_manifest [(''n1'', [''data''])]"
proof -
  have "gates_open (restore_world new_restore []) (restore_with new_restore)"
    by (simp add: gates_open_def restore_world_def restore_with_def found_or_missing_def restore_repo_def
        secret_source_def empty_world_def condition_true_def new_condition_def condReady_def)
  moreover have "owners_total (restore_world new_restore [])"
    by (auto simp: owners_total_def set_owner_def restore_world_def empty_world_def)
  moreover have "validateSpec (restore_with new_restore) = ''''" by code_simp
  moreover have "ParseAPIManifests restore_machinery (label (cm_data staged_manifest) ''api.yaml'')
      (r_target (restore_with new_restore)) = Inr [\<lparr>pd_Kind = ''PersistentVolumeClaim'', pd_Namespace = ''app'',
        pd_Name = ''data'', pd_Obj = stripPVCBinding (set_namespace ''app'' claim_doc)\<rparr>]" by code_simp
  moreover have "place_volumes [\<lparr>pd_Kind = ''PersistentVolumeClaim'', pd_Namespace = ''app'', pd_Name = ''data'',
        pd_Obj = stripPVCBinding (set_namespace ''app'' claim_doc)\<rparr>] (first_name [''n1''])
      (planned_claims restore_machinery (restore_with new_restore)
        [\<lparr>pd_Kind = ''PersistentVolumeClaim'', pd_Namespace = ''app'', pd_Name = ''data'',
        pd_Obj = stripPVCBinding (set_namespace ''app'' claim_doc)\<rparr>]) [] = Inr [(''n1'', [''data''])]" by code_simp
  ultimately show ?thesis by (auto simp: restorable_def restore_world_def)
qed

lemma restore_converges_witness:
  "rst_phase (cl_status ((cluster_round restore_machinery '''' (restore_world new_restore []) (restore_with new_restore)
     staged_manifest ^^ 5) (effects (restore_with new_restore)
       (take 15 (reconcile_calls restore_machinery '''' (restore_world new_restore []) (restore_with new_restore)
         staged_manifest (new_cluster (restore_with new_restore)))) (new_cluster (restore_with new_restore))))) =
   RestorePhaseCompleted"
proof -
  let ?rs = "restore_with new_restore" and ?K = "restore_world new_restore []"
  let ?cut = "\<lambda>C. effects ?rs (take 15 (reconcile_calls restore_machinery '''' ?K ?rs staged_manifest C)) C"
  have "(cluster_step restore_machinery '''' ?K ?rs staged_manifest)\<^sup>*\<^sup>* (new_cluster ?rs) (?cut (new_cluster ?rs))"
    by (rule r_into_rtranclp) (rule cluster_step.reconciles)
  from restore_converges [OF sample_restorable _ _ this] show ?thesis by (simp add: restore_with_def new_restore_def)
qed

end
