(* ===== verification/Agent_Restore_Examples.thy ===== *)
theory Agent_Restore_Examples
  imports Agent_Restore_Correct Result_Contract Restore_Examples
begin

text \<open>
  The restore subcommands on a concrete host, reading the manifest the sample restore staged.
\<close>

definition restore_proc :: proc where
  "restore_proc = sample_proc\<lparr>p_readFile := (\<lambda>_ _. Inr ''kind: PersistentVolumeClaim'')\<rparr>"

definition sample_volume :: volume_args where
  "sample_volume = \<lparr>va_ref = ''host/n/2024-01-01T00:00:00Z'',
     va_pairs = [\<lparr>rp_archive = ''pvc-data.pxar.didx'', rp_target = ''/backup/data''\<rparr>],
     va_configMap = '''', va_termlog = ''/t''\<rparr>"

definition sample_apply :: apply_args where
  "sample_apply = \<lparr>aa_phase = ''pre'', aa_file = ''/staging/api/api.yaml'', aa_drop = [], aa_keep = [], aa_termlog = ''/t''\<rparr>"

lemma restore_proc_exits: "failing_exits restore_proc"
  using sample_proc_exits by (simp add: failing_exits_def restore_proc_def)

lemma restore_exits:
  "result (RunRestoreVolume restore_proc sample_volume) [] = 0"
  "result (RunApplyManifests restore_machinery restore_proc sample_apply) [] = 0"
  by code_simp+

lemma RunRestoreVolume_faithful_witness:
  "\<exists>k. data_calls (trace (RunRestoreVolume restore_proc sample_volume) []) = [EmptyDir ''/backup/data'',
     Run (restoreArgv (c_NS (fst (loadConfig (p_getenv restore_proc)))) k ''host/n/2024-01-01T00:00:00Z''
       ''pvc-data.pxar.didx'' ''/backup/data'')
       (Some (p_environ restore_proc @ clientEnv (fst (loadConfig (p_getenv restore_proc)))))]"
  using RunRestoreVolume_faithful [OF restore_proc_exits, of sample_volume "[]"]
  unfolding restore_exits(1) Let_def by (auto simp: sample_volume_def)


end
