(* ===== verification/Agent_Files.thy ===== *)
theory Agent_Files
  imports Agent_Backup "HOL-Library.Sublist"
begin

text \<open>
  The files of the agent: emptying a restore target (\<open>emptyDir\<close>), measuring it (\<open>dirSize\<close>), and
  the temporary keyfile (\<open>materializeKeyfile\<close> with its cleanup), on an explicit file system.  A
  process whose file calls are answered from such a file system is one of the processes of
  \<open>Agent_Env\<close>; \<open>RunBackup\<close> run on it shows what happens to the key.
\<close>

section \<open>File systems\<close>

text \<open>A file system is the list of its entries by path; the target directory of an operation is a
  mount point, not a link, and paths are written without dots.  What the operating system may refuse is a parameter: directories it
  cannot read, entries it cannot remove, files it cannot create, write or close, and entries it
  cannot stat.\<close>

type_synonym path = "string list"

datatype entry = EDir | EFile string | ELink string

type_synonym files = "(path \<times> entry) list"

record osys =
  o_readError :: "path \<Rightarrow> string option"
  o_pinned :: "path \<Rightarrow> bool"
  o_removeError :: "path \<Rightarrow> string"
  o_noInfo :: "path \<Rightarrow> bool"
  o_tempDir :: string
  o_random :: "nat \<Rightarrow> string"
  o_createError :: "path \<Rightarrow> string option"
  o_writeError :: "path \<Rightarrow> string option"
  o_closeError :: "path \<Rightarrow> string option"
  o_child :: "string list \<Rightarrow> files \<Rightarrow> files"

definition comps :: "string \<Rightarrow> path" where
  "comps p = filter (\<lambda>c. c \<noteq> '''') (Split CHR ''/'' p)"

text \<open>\<open>os.ReadDir\<close>: the names in a directory, sorted.\<close>

definition children :: "files \<Rightarrow> path \<Rightarrow> string list" where
  "children fs dir = map last (filter (\<lambda>q. q \<noteq> [] \<and> butlast q = dir) (map fst fs))"

definition ReadDir :: "osys \<Rightarrow> files \<Rightarrow> path \<Rightarrow> string + string list" where
  "ReadDir S fs dir = (case map_of fs dir of
     Some EDir \<Rightarrow> (case o_readError S dir of Some e \<Rightarrow> Inl e | None \<Rightarrow> Inr (sort (remdups (children fs dir))))
   | Some _ \<Rightarrow> Inl ''not a directory''
   | None \<Rightarrow> Inl ''no such file or directory'')"

text \<open>\<open>os.RemoveAll\<close>: everything below and at the path that can be removed; an error when something
  had to stay.  \<open>os.Remove\<close> of a file.\<close>

definition stuck :: "osys \<Rightarrow> files \<Rightarrow> path \<Rightarrow> path list" where
  "stuck S fs p = filter (\<lambda>q. prefix p q \<and> o_pinned S q) (map fst fs)"

definition RemoveAll :: "osys \<Rightarrow> files \<Rightarrow> path \<Rightarrow> files \<times> string option" where
  "RemoveAll S fs p =
     (filter (\<lambda>x. \<not> prefix p (fst x) \<or> list_ex (prefix (fst x)) (stuck S fs p)) fs,
      if stuck S fs p = [] then None else Some (o_removeError S p))"

definition Remove :: "osys \<Rightarrow> files \<Rightarrow> path \<Rightarrow> files" where
  "Remove S fs p = (if o_pinned S p then fs else filter (\<lambda>x. fst x \<noteq> p) fs)"

section \<open>The operations\<close>

text \<open>\<open>emptyDir\<close>: every entry of the directory, up to the first error.\<close>

fun remove_entries :: "osys \<Rightarrow> path \<Rightarrow> string list \<Rightarrow> files \<Rightarrow> files \<times> string option" where
  "remove_entries S dir [] fs = (fs, None)"
| "remove_entries S dir (n # ns) fs = (case RemoveAll S fs (dir @ [n]) of
     (fs', Some e) \<Rightarrow> (fs', Some e)
   | (fs', None) \<Rightarrow> remove_entries S dir ns fs')"

definition emptyDir_files :: "osys \<Rightarrow> files \<Rightarrow> path \<Rightarrow> files \<times> string option" where
  "emptyDir_files S fs dir = (case ReadDir S fs dir of
     Inl e \<Rightarrow> (fs, Some e)
   | Inr names \<Rightarrow> remove_entries S dir names fs)"

text \<open>\<open>dirSize\<close>: \<open>filepath.WalkDir\<close> visits what lies below readable directories; the sizes of the
  visited entries that are no directories add up in an \<open>int64\<close>.\<close>

definition visited :: "osys \<Rightarrow> path \<Rightarrow> path \<Rightarrow> bool" where
  "visited S dir q \<longleftrightarrow> prefix dir q \<and> list_all (\<lambda>a. prefix dir a \<longrightarrow> a \<noteq> q \<longrightarrow> o_readError S a = None) (prefixes q)"

definition entry_size :: "entry \<Rightarrow> int" where
  "entry_size e = (case e of EDir \<Rightarrow> 0 | EFile c \<Rightarrow> int (length c) | ELink t \<Rightarrow> int (length t))"

definition dirSize_files :: "osys \<Rightarrow> files \<Rightarrow> path \<Rightarrow> int" where
  "dirSize_files S fs dir = foldl add64 0
     (map (\<lambda>x. entry_size (snd x)) (filter (\<lambda>x. visited S dir (fst x) \<and> snd x \<noteq> EDir \<and> \<not> o_noInfo S (fst x)) fs))"

text \<open>\<open>os.CreateTemp\<close>: the first of at most 10000 random names that is not taken.\<close>

definition temp_name :: "osys \<Rightarrow> nat \<Rightarrow> string" where
  "temp_name S k = o_tempDir S @ ''/pbs-agent-keyfile-'' @ o_random S k @ ''.json''"

fun find_temp :: "osys \<Rightarrow> files \<Rightarrow> nat \<Rightarrow> nat \<Rightarrow> string option" where
  "find_temp S fs k 0 = None"
| "find_temp S fs k (Suc tries) =
     (if map_of fs (comps (temp_name S k)) = None then Some (temp_name S k) else find_temp S fs (Suc k) tries)"

definition CreateTemp :: "osys \<Rightarrow> files \<Rightarrow> files \<times> (string + string)" where
  "CreateTemp S fs = (case find_temp S fs 0 10000 of
     None \<Rightarrow> (fs, Inl ''file exists'')
   | Some p \<Rightarrow> (case o_createError S (comps p) of
       Some e \<Rightarrow> (fs, Inl e)
     | None \<Rightarrow> ((comps p, EFile '''') # fs, Inr p)))"

definition WriteString :: "osys \<Rightarrow> files \<Rightarrow> path \<Rightarrow> string \<Rightarrow> files \<times> string option" where
  "WriteString S fs p content = (case o_writeError S p of
     Some e \<Rightarrow> (fs, Some e)
   | None \<Rightarrow> ((p, EFile content) # filter (\<lambda>x. fst x \<noteq> p) fs, None))"

definition materializeKeyfile :: "osys \<Rightarrow> files \<Rightarrow> string \<Rightarrow> files \<times> (string + string)" where
  "materializeKeyfile S fs content = (case CreateTemp S fs of
     (fs, Inl e) \<Rightarrow> (fs, Inl e)
   | (fs, Inr p) \<Rightarrow> (case WriteString S fs (comps p) content of
       (fs, Some e) \<Rightarrow> (Remove S fs (comps p), Inl e)
     | (fs, None) \<Rightarrow> (case o_closeError S (comps p) of
         Some e \<Rightarrow> (Remove S fs (comps p), Inl e)
       | None \<Rightarrow> (fs, Inr p))))"

text \<open>\<open>DefaultPodNS\<close>: the namespace of the pod, from the service account's file.\<close>

definition saNamespaceFile :: string where
  "saNamespaceFile = ''/var/run/secrets/kubernetes.io/serviceaccount/namespace''"

definition DefaultPodNS :: "(string \<Rightarrow> string + string) \<Rightarrow> string + string" where
  "DefaultPodNS readFile = (case readFile saNamespaceFile of
     Inl err \<Rightarrow> Inl (''read '' @ saNamespaceFile @ '': '' @ err)
   | Inr b \<Rightarrow> Inr (TrimSpace b))"

section \<open>Emptying a target\<close>

text \<open>The entries of a file system form a tree.\<close>

definition tree :: "files \<Rightarrow> bool" where
  "tree fs \<longleftrightarrow> (\<forall>q\<in>fst ` set fs. q \<noteq> [] \<longrightarrow> map_of fs (butlast q) = Some EDir)"

lemma map_of_filter_key: "map_of (filter (\<lambda>x. P (fst x)) fs) q = (if P q then map_of fs q else None)"
  by (induction fs) auto

lemma RemoveAll_map:
  "map_of (fst (RemoveAll S fs p)) q = (if \<not> prefix p q \<or> list_ex (prefix q) (stuck S fs p) then map_of fs q else None)"
  using map_of_filter_key [of "\<lambda>q. \<not> prefix p q \<or> list_ex (prefix q) (stuck S fs p)" fs q] by (simp add: RemoveAll_def)

text \<open>Only what is below the directory changes, and entries only disappear.\<close>

lemma remove_entries_outside:
  "(\<And>n. n \<in> set ns \<Longrightarrow> \<not> prefix (dir @ [n]) q) \<Longrightarrow> map_of (fst (remove_entries S dir ns fs)) q = map_of fs q"
proof (induction ns arbitrary: fs)
  case (Cons n ns)
  obtain fs' r where r: "RemoveAll S fs (dir @ [n]) = (fs', r)" by fastforce
  have "map_of fs' q = map_of fs q" using RemoveAll_map [of S fs "dir @ [n]" q] Cons.prems [of n] r by simp
  with Cons r show ?case by (cases r) auto
qed simp

lemma stuck_Nil: "stuck S fs p = [] \<longleftrightarrow> (\<forall>q\<in>fst ` set fs. prefix p q \<longrightarrow> \<not> o_pinned S q)"
  by (auto simp: stuck_def filter_empty_conv)

lemma RemoveAll_clear:
  assumes "RemoveAll S fs p = (fs', None)"
  shows "stuck S fs p = []" "fst ` set fs' = {q \<in> fst ` set fs. \<not> prefix p q}"
  using assms by (auto simp: RemoveAll_def split: if_splits)

lemma remove_entries_shrink: "fst ` set (fst (remove_entries S dir ns fs)) \<subseteq> fst ` set fs"
proof (induction ns arbitrary: fs)
  case (Cons n ns)
  obtain fs' r where r: "RemoveAll S fs (dir @ [n]) = (fs', r)" by fastforce
  then have "fst ` set fs' \<subseteq> fst ` set fs" by (auto simp: RemoveAll_def)
  with Cons.IH [of fs'] r show ?case by (cases r) auto
qed simp

lemma stuck_apart:
  assumes "RemoveAll S fs (dir @ [m]) = (k, None)"
  shows "stuck S k (dir @ [n]) = [] \<longleftrightarrow> stuck S fs (dir @ [n]) = []"
proof (cases "n = m")
  case True
  have "stuck S k (dir @ [m]) = []" using RemoveAll_clear(2) [OF assms] by (simp add: stuck_Nil)
  with RemoveAll_clear(1) [OF assms] True show ?thesis by simp
next
  case False
  then have "\<not> (prefix (dir @ [n]) q \<and> prefix (dir @ [m]) q)" for q by (auto simp: prefix_def)
  then show ?thesis using RemoveAll_clear(2) [OF assms] by (auto simp: stuck_Nil)
qed

lemma remove_entries_ends:
  "snd (remove_entries S dir ns fs) = None \<longleftrightarrow> (\<forall>n\<in>set ns. stuck S fs (dir @ [n]) = [])"
proof (induction ns arbitrary: fs)
  case (Cons m ns)
  obtain k r where r: "RemoveAll S fs (dir @ [m]) = (k, r)" by fastforce
  show ?case
  proof (cases r)
    case None
    with r stuck_apart [of S fs dir m k] RemoveAll_clear(1) [of S fs "dir @ [m]" k] Cons.IH [of k] show ?thesis by simp
  next
    case (Some e)
    with r have "stuck S fs (dir @ [m]) \<noteq> []" by (auto simp: RemoveAll_def split: if_splits)
    with r Some show ?thesis by auto
  qed
qed simp

lemma remove_entries_gone:
  "remove_entries S dir ns fs = (fs', None) \<Longrightarrow> n \<in> set ns \<Longrightarrow> prefix (dir @ [n]) q \<Longrightarrow> q \<notin> fst ` set fs'"
proof (induction ns arbitrary: fs)
  case (Cons m ns)
  obtain k r where r: "RemoveAll S fs (dir @ [m]) = (k, r)" by fastforce
  with Cons.prems(1) have none: "r = None" by (cases r) auto
  with Cons.prems(1) r have rest: "remove_entries S dir ns k = (fs', None)" by simp
  have "fst ` set fs' \<subseteq> fst ` set k" using remove_entries_shrink [of S dir ns k] rest by simp
  with Cons.prems(2,3) Cons.IH [OF rest] RemoveAll_clear(2) [OF r [unfolded none]] show ?case by auto
qed simp

text \<open>Below a directory of a tree every entry lies below a child of the directory.\<close>

lemma below_child:
  assumes "tree fs"
  shows "dir @ n # rest \<in> fst ` set fs \<Longrightarrow> dir @ [n] \<in> fst ` set fs"
proof (induction rest rule: rev_induct)
  case (snoc x xs)
  have "map_of fs (dir @ n # xs) = Some EDir"
    using bspec [OF assms [unfolded tree_def] snoc.prems] by (simp add: butlast_append)
  with snoc.IH show ?case by (force dest: map_of_SomeD)
qed simp

lemma children_set: "n \<in> set (children fs dir) \<longleftrightarrow> dir @ [n] \<in> fst ` set fs"
proof
  assume "n \<in> set (children fs dir)"
  then obtain q where "q \<in> fst ` set fs" "q \<noteq> []" "butlast q = dir" "n = last q" by (auto simp: children_def)
  then show "dir @ [n] \<in> fst ` set fs" by (metis append_butlast_last_id)
qed (force simp: children_def)

text \<open>C29: emptying a target is confined and complete.  Nothing outside the directory changes, the
  directory (a mount point) itself included; it succeeds exactly when the directory can be read and
  nothing below it has to stay, and then nothing below it is left, at any depth.\<close>

theorem emptyDir_confined:
  assumes "tree fs" and "emptyDir_files S fs dir = (fs', r)"
  shows "(\<forall>q. \<not> strict_prefix dir q \<longrightarrow> map_of fs' q = map_of fs q) \<and>
    (r = None \<longleftrightarrow> map_of fs dir = Some EDir \<and> o_readError S dir = None \<and>
       (\<forall>q\<in>fst ` set fs. strict_prefix dir q \<longrightarrow> \<not> o_pinned S q)) \<and>
    (r = None \<longrightarrow> (\<forall>q. strict_prefix dir q \<longrightarrow> map_of fs' q = None))"
proof (cases "map_of fs dir = Some EDir \<and> o_readError S dir = None")
  case False
  then have "fs' = fs" "r \<noteq> None"
    using assms(2) by (cases "o_readError S dir"; auto simp: emptyDir_files_def ReadDir_def split: option.splits entry.splits)+
  with False show ?thesis by auto
next
  case True
  let ?ns = "sort (remdups (children fs dir))"
  have run: "remove_entries S dir ?ns fs = (fs', r)"
    using True assms(2) by (simp add: emptyDir_files_def ReadDir_def)
  have child: "\<exists>n\<in>set ?ns. prefix (dir @ [n]) q" if "q \<in> fst ` set fs" "strict_prefix dir q" for q
  proof -
    from that(2) obtain n rest where q: "q = dir @ n # rest" by (auto elim: strict_prefixE')
    with that(1) below_child [OF assms(1), of dir n rest] have "dir @ [n] \<in> fst ` set fs" by simp
    then show ?thesis using q by (intro bexI [of _ n]) (auto simp: children_set)
  qed
  have outside: "map_of fs' q = map_of fs q" if "\<not> strict_prefix dir q" for q
  proof -
    have "\<not> prefix (dir @ [n]) q" for n
      using that by (auto simp: prefix_def strict_prefix_def)
    with remove_entries_outside [of ?ns dir q S fs] run show ?thesis by simp
  qed
  have ends: "r = None \<longleftrightarrow> (\<forall>q\<in>fst ` set fs. strict_prefix dir q \<longrightarrow> \<not> o_pinned S q)"
  proof -
    have "prefix (dir @ [n]) q \<Longrightarrow> strict_prefix dir q" for n q by (auto simp: prefix_def strict_prefix_def)
    then have "(\<forall>n\<in>set ?ns. stuck S fs (dir @ [n]) = []) \<longleftrightarrow> (\<forall>q\<in>fst ` set fs. strict_prefix dir q \<longrightarrow> \<not> o_pinned S q)"
      using child unfolding stuck_Nil by meson
    then show ?thesis using remove_entries_ends [of S dir ?ns fs] run by simp
  qed
  have gone: "map_of fs' q = None" if ok: "r = None" and below: "strict_prefix dir q" for q
  proof (rule ccontr)
    assume "map_of fs' q \<noteq> None"
    then have q: "q \<in> fst ` set fs'" by (auto dest: map_of_SomeD intro: rev_image_eqI)
    moreover have "fst ` set fs' \<subseteq> fst ` set fs" using remove_entries_shrink [of S dir ?ns fs] run by simp
    ultimately obtain n where "n \<in> set ?ns" "prefix (dir @ [n]) q" using child below by blast
    with remove_entries_gone [of S dir ?ns fs fs' n q] run ok q show False by simp
  qed
  show ?thesis using True outside ends gone by blast
qed

section \<open>A process on a file system\<close>

text \<open>What a call of the agent does to the files: \<open>o_child\<close> is the effect of a child process.  The
  file calls of a process answer from the files its own history left.\<close>

fun step_files :: "osys \<Rightarrow> acall \<Rightarrow> files \<Rightarrow> files" where
  "step_files S (Run argv env) fs = o_child S argv fs"
| "step_files S (WriteTemp content) fs = fst (materializeKeyfile S fs content)"
| "step_files S (RemoveTemp p) fs = Remove S fs (comps p)"
| "step_files S (EmptyDir dir) fs = fst (emptyDir_files S fs (comps dir))"
| "step_files S _ fs = fs"

definition fs_after :: "osys \<Rightarrow> files \<Rightarrow> acall list \<Rightarrow> files" where
  "fs_after S fs calls = fold (step_files S) calls fs"

definition with_files :: "osys \<Rightarrow> files \<Rightarrow> proc \<Rightarrow> proc" where
  "with_files S fs P = P\<lparr>
     p_temp := \<lambda>l content. snd (materializeKeyfile S (fs_after S fs l) content),
     p_emptyDir := \<lambda>l dir. snd (emptyDir_files S (fs_after S fs l) (comps dir)),
     p_dirSize := \<lambda>l dir. dirSize_files S (fs_after S fs l) (comps dir)\<rparr>"

text \<open>The paths a keyfile may have, and an operating system where the agent can remove its own
  keyfile and its children leave it alone.\<close>

definition key_path :: "osys \<Rightarrow> path \<Rightarrow> bool" where
  "key_path S q \<longleftrightarrow> (\<exists>i. q = comps (temp_name S i))"

definition spares_keys :: "osys \<Rightarrow> bool" where
  "spares_keys S \<longleftrightarrow> (\<forall>q. key_path S q \<longrightarrow> \<not> o_pinned S q \<and> (\<forall>argv fs. map_of (o_child S argv fs) q = map_of fs q))"

subsection \<open>The keyfile\<close>

lemma find_temp_free: "find_temp S fs k n = Some p \<Longrightarrow> map_of fs (comps p) = None \<and> key_path S (comps p)"
  by (induction S fs k n rule: find_temp.induct) (auto simp: key_path_def split: if_splits)

lemma Remove_map: "map_of (Remove S fs p) q = (if q = p \<and> \<not> o_pinned S p then None else map_of fs q)"
  using map_of_filter_key [of "\<lambda>q. q \<noteq> p" fs q] by (auto simp: Remove_def)

lemma WriteString_map:
  "map_of (fst (WriteString S fs p content)) q = (if q = p \<and> o_writeError S p = None then Some (EFile content) else map_of fs q)"
  using map_of_filter_key [of "\<lambda>q. q \<noteq> p" fs q] by (auto simp: WriteString_def split: option.split)

text \<open>A keyfile is a new file with the key; when it cannot be had, nothing of it stays behind.\<close>

lemma materializeKeyfile_new:
  assumes "materializeKeyfile S fs content = (fs', Inr p)"
  shows "key_path S (comps p)" "map_of fs (comps p) = None" "map_of fs' = (map_of fs)(comps p \<mapsto> EFile content)"
proof -
  from assms obtain q where q: "find_temp S fs 0 10000 = Some q"
    by (auto simp: materializeKeyfile_def CreateTemp_def split: option.splits)
  with assms have "p = q" "fs' = fst (WriteString S ((comps q, EFile '''') # fs) (comps q) content)"
    "o_writeError S (comps q) = None"
    by (auto simp: materializeKeyfile_def CreateTemp_def WriteString_def split: option.splits)
  with find_temp_free [OF q] show "key_path S (comps p)" "map_of fs (comps p) = None"
    "map_of fs' = (map_of fs)(comps p \<mapsto> EFile content)"
    by (auto simp: fun_eq_iff WriteString_map)
qed

lemma materializeKeyfile_failed:
  assumes "materializeKeyfile S fs content = (fs', Inl e)" "spares_keys S"
  shows "map_of fs' = map_of fs"
proof (cases "find_temp S fs 0 10000")
  case None
  with assms(1) show ?thesis by (auto simp: materializeKeyfile_def CreateTemp_def)
next
  case (Some q)
  let ?made = "(comps q, EFile '''') # fs"
  from find_temp_free [OF Some] assms(2) have free: "map_of fs (comps q) = None" "\<not> o_pinned S (comps q)"
    by (auto simp: spares_keys_def)
  have "fs' = fs \<or> fs' = Remove S (fst (WriteString S ?made (comps q) content)) (comps q)"
    using assms(1) Some by (auto simp: materializeKeyfile_def CreateTemp_def WriteString_def split: option.splits)
  with free show ?thesis by (auto simp: fun_eq_iff Remove_map WriteString_map)
qed

subsection \<open>The calls of a backup run\<close>

definition backup_argv :: "config \<Rightarrow> string \<Rightarrow> backup_args \<Rightarrow> string list \<Rightarrow> bool" where
  "backup_argv c path a argv \<longleftrightarrow> argv = backupArgv (c_NS c) path (ba_pvcs a) (ba_apiDir a) \<or>
     argv = listArgv (c_NS c) \<or> (\<exists>ref. argv = notesArgv (c_NS c) ref (ba_notes a))"

fun bare :: "(string list \<Rightarrow> bool) \<Rightarrow> acall \<Rightarrow> bool" where
  "bare ok (Run argv env) = ok argv"
| "bare ok (Termlog _ _) = True"
| "bare ok (Out _) = True"
| "bare ok (Err _) = True"
| "bare ok _ = False"

lemma fail_bare: "emits (bare ok) (fail P path code msg)"
  unfolding fail_def writeTermlog_def print_err_def by (intro emits_bind emits_rules | simp)+

lemma backup_with_key_bare: "emits (bare (backup_argv c path a)) (backup_with_key P c h path a)"
  unfolding backup_with_key_def set_notes_def fail_def writeTermlog_def run_def print_err_def print_out_def Let_def
  by (intro emits_bind emits_rules | auto simp: backup_argv_def)+

lemma RunBackup_calls:
  fixes P a
  defines "c \<equiv> fst (loadConfig (p_getenv P))"
  shows "list_all (bare (\<lambda>_. False)) (trace (RunBackup P a) l) \<or>
   (\<exists>e n. p_temp P l (c_Keyfile c) = Inl e \<and> trace (RunBackup P a) l = WriteTemp (c_Keyfile c) # n \<and>
      list_all (bare (\<lambda>_. False)) n) \<or>
   (\<exists>path n. p_temp P l (c_Keyfile c) = Inr path \<and>
      trace (RunBackup P a) l = WriteTemp (c_Keyfile c) # n @ [RemoveTemp path] \<and> list_all (bare (backup_argv c path a)) n)"
proof (cases "snd (loadConfig (p_getenv P)) = [] \<and> (\<exists>h. p_hostname P = Inr h)")
  case False
  have "list_all (bare (\<lambda>_. False)) (trace (fail P path code msg) l)" for path code msg
    using emits_trace [OF fail_bare] by blast
  with False show ?thesis by (auto simp: RunBackup_def split_beta split: sum.split)
next
  case True
  then obtain h where h: "snd (loadConfig (p_getenv P)) = []" "p_hostname P = Inr h" by blast
  let ?l = "l @ [WriteTemp (c_Keyfile c)]"
  show ?thesis
  proof (cases "p_temp P l (c_Keyfile c)")
    case (Inl e)
    with h have "trace (RunBackup P a) l = WriteTemp (c_Keyfile c) # trace (fail P (ba_termlog a) 1 (''keyfile: '' @ e)) ?l"
      by (simp add: RunBackup_def split_beta write_temp_def c_def [symmetric] trace_after fail_calls)
    with Inl emits_trace [OF fail_bare] show ?thesis by blast
  next
    case (Inr path)
    let ?m = "backup_with_key P c h path a"
    obtain mid where mid: "snd (run_state ?m ?l) = ?l @ mid" "list_all (bare (backup_argv c path a)) mid"
      using backup_with_key_bare unfolding emits_def by blast
    with h Inr have "trace (RunBackup P a) l = WriteTemp (c_Keyfile c) # mid @ [RemoveTemp path]"
      by (simp add: RunBackup_def split_beta write_temp_def remove_temp_def c_def [symmetric] trace_def)
    with Inr mid(2) show ?thesis by blast
  qed
qed

lemma bare_files:
  assumes "spares_keys S" "key_path S q" "list_all (bare ok) n"
  shows "map_of (fs_after S fs n) q = map_of fs q"
  using assms(3)
proof (induction n arbitrary: fs)
  case (Cons x n)
  have "map_of (step_files S x fs) q = map_of fs q"
    using Cons.prems assms(1,2) by (cases x) (auto simp: spares_keys_def)
  with Cons show ?case by (simp add: fs_after_def)
qed (simp add: fs_after_def)

text \<open>C31: the key never outlives a backup run.  On a file system where the agent may remove its own
  temporary files and its children leave them alone, whatever else fails (creating, writing or closing
  the keyfile included), every path a keyfile may have is afterwards as it was before; and whenever a
  child process is started, a file that did not exist before holds exactly the key, and it is the one
  the backup command is given.\<close>

theorem keyfile_hygiene:
  assumes "spares_keys S"
  shows "let c = fst (loadConfig (p_getenv P)); calls = trace (RunBackup (with_files S fs P) a) []
    in (\<forall>q. key_path S q \<longrightarrow> map_of (fs_after S fs calls) q = map_of fs q) \<and>
      (\<forall>pre argv env post. calls = pre @ Run argv env # post \<longrightarrow>
        (\<exists>path. map_of fs (comps path) = None \<and> map_of (fs_after S fs pre) (comps path) = Some (EFile (c_Keyfile c)) \<and>
           backup_argv c path a argv))"
proof -
  define c where "c = fst (loadConfig (p_getenv P))"
  define calls where "calls = trace (RunBackup (with_files S fs P) a) []"
  obtain fs' r where key: "materializeKeyfile S fs (c_Keyfile c) = (fs', r)" by fastforce
  note after = fs_after_def [of S fs] fs_after_def [of S fs']
  have env: "p_getenv (with_files S fs P) = p_getenv P" "p_temp (with_files S fs P) [] (c_Keyfile c) = r"
    by (simp_all add: with_files_def key fs_after_def)
  consider (none) "list_all (bare (\<lambda>_. False)) calls"
    | (failed) e n where "r = Inl e" "calls = WriteTemp (c_Keyfile c) # n" "list_all (bare (\<lambda>_. False)) n"
    | (new) path n where "r = Inr path" "calls = WriteTemp (c_Keyfile c) # n @ [RemoveTemp path]"
        "list_all (bare (backup_argv c path a)) n"
    using RunBackup_calls [of "with_files S fs P" a "[]"] unfolding calls_def [symmetric] env(1) c_def [symmetric] env(2)
    by blast
  then have "(\<forall>q. key_path S q \<longrightarrow> map_of (fs_after S fs calls) q = map_of fs q) \<and>
      (\<forall>pre argv env post. calls = pre @ Run argv env # post \<longrightarrow>
        (\<exists>path. map_of fs (comps path) = None \<and> map_of (fs_after S fs pre) (comps path) = Some (EFile (c_Keyfile c)) \<and>
           backup_argv c path a argv))"
  proof cases
    case none
    with bare_files [OF assms] show ?thesis by auto
  next
    case failed
    then have "fs_after S fs calls = fs_after S fs' n" by (simp add: after key)
    moreover have "map_of fs' = map_of fs" using materializeKeyfile_failed [OF key [unfolded failed(1)] assms] .
    ultimately show ?thesis
      using bare_files [OF assms _ failed(3)] failed(2,3) by (auto simp: Cons_eq_append_conv)
  next
    case (new path n)
    note fresh = materializeKeyfile_new [OF key [unfolded new(1)]]
    have free: "\<not> o_pinned S (comps path)" using assms fresh(1) by (simp add: spares_keys_def)
    have "fs_after S fs calls = Remove S (fs_after S fs' n) (comps path)"
      using new(2) key by (simp add: after)
    then have restored: "map_of (fs_after S fs calls) q = map_of fs q" if "key_path S q" for q
      using that free bare_files [OF assms that new(3), of fs'] fresh(2,3) by (simp add: Remove_map)
    have "\<exists>path. map_of fs (comps path) = None \<and> map_of (fs_after S fs pre) (comps path) = Some (EFile (c_Keyfile c)) \<and>
        backup_argv c path a argv" if split: "calls = pre @ Run argv e # post" for pre argv e post
    proof -
      from split new(2) obtain n1 n2 where n: "pre = WriteTemp (c_Keyfile c) # n1" "n = n1 @ Run argv e # n2"
        by (auto simp: Cons_eq_append_conv append_eq_append_conv2 append_eq_Cons_conv)
      then have "fs_after S fs pre = fs_after S fs' n1"
        using key by (simp add: after)
      with n new(3) bare_files [OF assms fresh(1), of "backup_argv c path a" n1 fs'] fresh(2,3)
      show ?thesis by (intro exI [of _ path]) simp
    qed
    with restored show ?thesis by blast
  qed
  then show ?thesis by (simp add: Let_def c_def calls_def)
qed

end
