(* ===== verification/Agent_Targets.thy ===== *)
theory Agent_Targets
  imports Agent_Files Agent_Restore History_Logic
begin

text \<open>
  A volume restore on a file system (\<open>RunRestoreVolume\<close> over \<open>Agent_Files\<close>): the client refuses to
  extract over existing entries, so every extraction has to start in an empty directory.  Each call
  is judged with the history, and so with the files, before it.
\<close>

text \<open>An emptied directory is there, and has no entries.\<close>

lemma emptyDir_files_done:
  assumes "emptyDir_files S k dir = (k', None)"
  shows "ReadDir S k' dir = Inr []"
proof -
  let ?names = "sort (remdups (children k dir))"
  from assms have dir: "map_of k dir = Some EDir" "o_readError S dir = None"
    by (auto simp: emptyDir_files_def ReadDir_def split: sum.splits option.splits entry.splits)
  with assms have run: "remove_entries S dir ?names k = (k', None)" by (simp add: emptyDir_files_def ReadDir_def)
  have "map_of k' dir = Some EDir"
    using remove_entries_outside [of ?names dir dir S k] run dir(1) by simp
  moreover have "children k' dir = []"
  proof (rule ccontr)
    assume "children k' dir \<noteq> []"
    then obtain n where n: "dir @ [n] \<in> fst ` set k'" using children_set [of "hd (children k' dir)" k' dir] by auto
    with remove_entries_shrink [of S dir ?names k] run have "n \<in> set ?names" by (auto simp: children_set)
    with remove_entries_gone [OF run this] n show False by blast
  qed
  ultimately show ?thesis using dir(2) by (simp add: ReadDir_def)
qed

text \<open>An extraction starts in an empty directory.\<close>

definition clean_start :: "osys \<Rightarrow> files \<Rightarrow> acall list \<Rightarrow> acall \<Rightarrow> bool" where
  "clean_start S fs l x \<longleftrightarrow> (\<forall>ns key ref archive target env.
     x = Run (restoreArgv ns key ref archive target) env \<longrightarrow> ReadDir S (fs_after S fs l) (comps target) = Inr [])"

lemma restoreArgv_inject: "restoreArgv ns k ref a t = restoreArgv ns' k' ref' a' t' \<Longrightarrow> t = t'"
  by (simp add: restoreArgv_def)

lemma fs_after_snoc: "fs_after S fs (l @ [x]) = step_files S x (fs_after S fs l)"
  by (simp add: fs_after_def)

lemma clean_start_other [simp]:
  "clean_start S fs l (Run (createArgv n src) e)" "clean_start S fs l (Run (applyArgv p) e)"
  "clean_start S fs l (WriteTemp s)" "clean_start S fs l (RemoveTemp p)" "clean_start S fs l (EmptyDir dir)"
  "clean_start S fs l (DirSize dir)" "clean_start S fs l (Termlog p s)" "clean_start S fs l (Out s)" "clean_start S fs l (Err s)"
  by (simp_all add: clean_start_def restoreArgv_def createArgv_def applyArgv_def kubectl_def clientBinary_def)

lemma clean_start_emptied:
  assumes "p_emptyDir (with_files S fs P) l target = None"
  shows "clean_start S fs (l @ [EmptyDir target]) (Run (restoreArgv ns k ref a target) env)"
proof -
  obtain k' where "emptyDir_files S (fs_after S fs l) (comps target) = (k', None)"
    using assms by (cases "emptyDir_files S (fs_after S fs l) (comps target)") (simp add: with_files_def)
  with emptyDir_files_done [OF this] show ?thesis
    by (auto simp: clean_start_def fs_after_snoc dest: restoreArgv_inject)
qed

lemma restore_pairs_clean:
  "walks (clean_start S fs) (\<lambda>_ _. True) l (restore_pairs (with_files S fs P) c k ref ps names bytes)"
proof (induction ps arbitrary: l names bytes)
  case (Cons p ps)
  show ?case
    unfolding restore_pairs.simps emptyDir_def run_def dirSize_def
    by (intro walks_rules Cons.IH clean_start_emptied | simp)+
qed (simp add: walks_return)

lemma clean_quiet:
  "emits (\<lambda>x. \<forall>l. clean_start S fs l x) (fail P path code msg)"
  "emits (\<lambda>x. \<forall>l. clean_start S fs l x) (restore_success P path names bytes)"
  "emits (\<lambda>x. \<forall>l. clean_start S fs l x) (uploadConfigMap P name src)"
  unfolding fail_def restore_success_def uploadConfigMap_def writeTermlog_def print_err_def print_out_def run_def
    write_temp_def remove_temp_def
  by (intro emits_bind emits_rules | simp)+

lemma volume_with_key_clean:
  "walks (clean_start S fs) (\<lambda>_ _. True) l (volume_with_key (with_files S fs P) c k a)"
proof -
  have rest: "walks (clean_start S fs) (\<lambda>_ _. True) h m" if "emits (\<lambda>x. \<forall>l. clean_start S fs l x) m"
    for h and m :: "int aop" by (rule emits_walks [OF that]) simp
  show ?thesis
    unfolding volume_with_key_def Let_def
    by (rule walks_bind [OF restore_pairs_clean], intro walks_case_sum walks_case_prod rest)
      (intro emits_bind emits_rules clean_quiet)+
qed

lemma RunRestoreVolume_clean: "walks (clean_start S fs) (\<lambda>_ _. True) l (RunRestoreVolume (with_files S fs P) a)"
proof -
  have bad: "walks (clean_start S fs) (\<lambda>_ _. True) h (fail (with_files S fs P) path code msg)" for h path code msg
    by (rule emits_walks [OF clean_quiet(1) [of S fs]]) simp
  have body: "walks (clean_start S fs) (\<lambda>_ _. True) h
      (do { code \<leftarrow> volume_with_key (with_files S fs P) c k a; remove_temp k; State_Monad.return code })" for h c k
    unfolding remove_temp_def
    by (rule walks_bind [OF volume_with_key_clean]) (intro walks_rules | simp)+
  show ?thesis
    unfolding RunRestoreVolume_def Let_def write_temp_def by (intro walks_rules bad body clean_start_other)
qed

text \<open>C28: extraction always starts in an empty directory.  Whatever the targets held, whichever
  entries cannot be removed, and whatever the client and the other child processes do to the files
  (a target given twice, or below another one, included), at the moment a volume restore starts the
  client for an archive its target exists and has no entries.\<close>

theorem restore_into_empty:
  assumes "trace (RunRestoreVolume (with_files S fs P) a) [] = pre @ Run (restoreArgv ns key ref archive target) env # post"
  shows "ReadDir S (fs_after S fs pre) (comps target) = Inr []"
proof -
  have "all_at (clean_start S fs) [] (pre @ Run (restoreArgv ns key ref archive target) env # post)"
    using walksD [OF RunRestoreVolume_clean, of S fs "[]" P a] unfolding assms by blast
  then show ?thesis by (simp add: all_at_append) (auto simp: clean_start_def)
qed

end
