(* ===== verification/Agent_Files_Examples.thy ===== *)
theory Agent_Files_Examples
  imports Agent_Targets Result_Contract
begin

text \<open>
  The properties of the agent's files at a small machine: a target with a hidden subtree, an
  unrelated file, and a taken temporary name.
\<close>

definition sample_os :: osys where
  "sample_os = \<lparr>o_readError = (\<lambda>_. None), o_pinned = (\<lambda>_. False), o_removeError = (\<lambda>_. ''busy''), o_noInfo = (\<lambda>_. False),
     o_tempDir = ''/tmp'', o_random = (\<lambda>k. dec_digits k), o_createError = (\<lambda>_. None), o_writeError = (\<lambda>_. None),
     o_closeError = (\<lambda>_. None), o_child = (\<lambda>_ fs. fs)\<rparr>"

definition sample_files :: files where
  "sample_files = [([], EDir), ([''backup''], EDir), ([''backup'', ''data''], EDir), ([''backup'', ''data'', ''.old''], EDir),
     ([''backup'', ''data'', ''.old'', ''x''], EFile ''1''), ([''backup'', ''data'', ''y''], ELink ''/etc''),
     ([''etc''], EDir), ([''etc'', ''z''], EFile ''2''), ([''tmp''], EDir), (comps (temp_name sample_os 0), EFile ''other'')]"

theorem emptyDir_confined_witness:
  "let fs' = fst (emptyDir_files sample_os sample_files [''backup'', ''data''])
   in map_of fs' [''etc'', ''z''] = Some (EFile ''2'') \<and> map_of fs' [''backup'', ''data''] = Some EDir \<and>
     map_of fs' [''backup'', ''data'', ''.old'', ''x''] = None"
proof -
  obtain fs' r where run: "emptyDir_files sample_os sample_files [''backup'', ''data''] = (fs', r)" by fastforce
  have tree: "tree sample_files" by (simp add: tree_def sample_files_def comps_def, code_simp)
  have "map_of sample_files [''etc'', ''z''] = Some (EFile ''2'')" "map_of sample_files [''backup'', ''data''] = Some EDir"
    by code_simp+
  moreover have "\<not> strict_prefix [''backup'', ''data''] [''etc'', ''z'']" "\<not> strict_prefix [''backup'', ''data''] [''backup'', ''data'']"
    "strict_prefix [''backup'', ''data''] [''backup'', ''data'', ''.old'', ''x'']" by code_simp+
  moreover have "r = None" using run emptyDir_confined [OF tree run]
    by (simp add: sample_os_def calculation)
  ultimately show ?thesis using emptyDir_confined [OF tree run] run by (simp add: Let_def)
qed

theorem keyfile_hygiene_witness:
  "let calls = trace (RunBackup (with_files sample_os sample_files sample_proc) sample_args) []
   in map_of (fs_after sample_os sample_files calls) (comps (temp_name sample_os 0)) = Some (EFile ''other'') \<and>
     map_of (fs_after sample_os sample_files calls) (comps (temp_name sample_os 1)) = None \<and>
     (\<forall>pre argv env post. calls = pre @ Run argv env # post \<longrightarrow>
        (\<exists>path. map_of (fs_after sample_os sample_files pre) (comps path) = Some (EFile ''x'')))"
proof -
  have "spares_keys sample_os" by (simp add: spares_keys_def sample_os_def)
  moreover have "map_of sample_files (comps (temp_name sample_os 0)) = Some (EFile ''other'')"
    "map_of sample_files (comps (temp_name sample_os 1)) = None"
    "c_Keyfile (fst (loadConfig (p_getenv sample_proc))) = ''x''" by code_simp+
  ultimately show ?thesis
    using keyfile_hygiene [of sample_os sample_proc sample_files sample_args] unfolding Let_def key_path_def by metis
qed

text \<open>The keyfile gets the first name that is free.\<close>

lemma sample_temp: "materializeKeyfile sample_os sample_files ''x'' =
  ((comps (temp_name sample_os 1), EFile ''x'') # sample_files, Inr (temp_name sample_os 1))"
proof -
  have names: "map_of sample_files (comps (temp_name sample_os 0)) \<noteq> None" "map_of sample_files (comps (temp_name sample_os 1)) = None"
    "filter (\<lambda>x. fst x \<noteq> comps (temp_name sample_os 1)) sample_files = sample_files" by code_simp+
  have second: "find_temp sample_os sample_files 0 (Suc (Suc n)) = Some (temp_name sample_os 1)" for n
    using names(1,2) by auto
  have "(10000::nat) = Suc (Suc 9998)" by simp
  then have "find_temp sample_os sample_files 0 10000 = Some (temp_name sample_os 1)" using second by metis
  then show ?thesis using names(3)
    by (simp add: materializeKeyfile_def CreateTemp_def WriteString_def sample_os_def)
qed

definition target_args :: volume_args where
  "target_args = \<lparr>va_ref = ''r'', va_pairs = [\<lparr>rp_archive = ''pvc-data.pxar'', rp_target = ''/backup/data''\<rparr>],
     va_configMap = '''', va_termlog = ''/t''\<rparr>"

definition target_client :: acall where
  "target_client = Run (restoreArgv ''k8s'' (temp_name sample_os 1) ''r'' ''pvc-data.pxar'' ''/backup/data'')
     (Some (clientEnv (fst (loadConfig (p_getenv sample_proc)))))"

theorem restore_into_empty_witness:
  "\<exists>pre post. trace (RunRestoreVolume (with_files sample_os sample_files sample_proc) target_args) [] = pre @ target_client # post \<and>
     ReadDir sample_os (fs_after sample_os sample_files pre) [''backup'', ''data''] = Inr []"
proof -
  let ?P = "with_files sample_os sample_files sample_proc"
  let ?c = "fst (loadConfig (p_getenv sample_proc))"
  have env: "p_getenv ?P = p_getenv sample_proc" "p_environ ?P = []" "p_run ?P = p_run sample_proc"
    "p_termlog ?P = p_termlog sample_proc"
    by (simp_all add: with_files_def sample_proc_def)
  have config: "snd (loadConfig (p_getenv sample_proc)) = []" "c_Keyfile ?c = ''x''" "c_NS ?c = ''k8s''"
    and dir: "comps ''/backup/data'' = [''backup'', ''data'']" by code_simp+
  have runs: "rr_error (p_run sample_proc l argv e) = None" "p_termlog sample_proc l p s = None" for l argv e p s
    by (simp_all add: sample_proc_def)
  have temp: "p_temp ?P [] ''x'' = Inr (temp_name sample_os 1)"
    by (simp add: with_files_def fs_after_def sample_temp)
  have "snd (emptyDir_files sample_os ((comps (temp_name sample_os 1), EFile ''x'') # sample_files) [''backup'', ''data'']) = None"
    by code_simp
  then have emptied: "p_emptyDir ?P [WriteTemp ''x''] ''/backup/data'' = None"
    by (simp add: with_files_def fs_after_def sample_temp dir)
  obtain post where "trace (RunRestoreVolume ?P target_args) [] = [WriteTemp ''x'', EmptyDir ''/backup/data''] @ target_client # post"
    unfolding trace_def RunRestoreVolume_def volume_with_key_def restore_success_def writeTermlog_def print_out_def
      target_client_def target_args_def
    by (simp add: split_beta write_temp_def remove_temp_def emptyDir_def run_def dirSize_def env config runs temp emptied)
  moreover note restore_into_empty [OF this [unfolded target_client_def]]
  ultimately show ?thesis unfolding dir by blast
qed

end
