(* ===== verification/Go_Memory.thy ===== *)
theory Go_Memory
  imports Kube_Objects History_Logic
begin

text \<open>
  Go's memory, as far as copying an object through its pointers and slices needs it: a memory is
  the list of its allocated cells, an address an index, and nil the absent address.  Allocating
  appends a cell; a fresh object is allocated with its final content, since nobody can read it
  before.  The locale \<open>deep_copy\<close> is what a deep copy promises; its combinators follow the shapes
  of the generated code (a flat value, \<open>make\<close> and \<open>copy\<close>, a loop over a slice, \<open>new\<close> and copy,
  a struct field by field), so that every copier satisfies it by composition.
\<close>

section \<open>Memory\<close>

type_synonym ('c, 'a) mem = "('c list, 'a) state"

definition new_cell :: "'c \<Rightarrow> ('c, nat) mem" where
  "new_cell c = State (\<lambda>m. (length m, m @ [c]))"

definition load :: "nat \<Rightarrow> ('c, 'c) mem" where
  "load a = State (\<lambda>m. (m ! a, m))"

definition store :: "nat \<Rightarrow> 'c \<Rightarrow> ('c, unit) mem" where
  "store a c = State (\<lambda>m. ((), m[a := c]))"

lemma run_state_mem [simp]:
  "run_state (new_cell c) m = (length m, m @ [c])" "run_state (load a) m = (m ! a, m)"
  "run_state (store a c) m = ((), m[a := c])"
  by (simp_all add: new_cell_def load_def store_def)

text \<open>Two memories agree on some addresses, which the second one has.\<close>

definition agree :: "nat set \<Rightarrow> 'c list \<Rightarrow> 'c list \<Rightarrow> bool" where
  "agree A m m' \<longleftrightarrow> (\<forall>a\<in>A. a < length m' \<and> m' ! a = m ! a)"

lemma agree_simps [simp]:
  "agree {} m m'" "agree (A \<union> B) m m' \<longleftrightarrow> agree A m m' \<and> agree B m m'"
  "agree (insert a A) m m' \<longleftrightarrow> a < length m' \<and> m' ! a = m ! a \<and> agree A m m'"
  by (auto simp: agree_def)

lemma agree_subset: "agree A m m' \<Longrightarrow> B \<subseteq> A \<Longrightarrow> agree B m m'"
  by (auto simp: agree_def)

lemma agree_extends: "A \<subseteq> {..<length m} \<Longrightarrow> extends m' m \<Longrightarrow> agree A m m'"
  by (auto simp: agree_def extends_def nth_append)

lemma extends_length: "extends m' m \<Longrightarrow> length m \<le> length m'"
  by (auto simp: extends_def)

section \<open>Deep copies\<close>

text \<open>\<open>val\<close> reads a structure as a value (\<open>None\<close> if an address in it dangles or holds a cell of
  another type); \<open>owns\<close> are the addresses its value is made of.  A copy only allocates, reads as
  the same value, and is made of new cells.\<close>

locale deep_copy =
  fixes copy :: "'g \<Rightarrow> ('c, 'g) mem" and val :: "'c list \<Rightarrow> 'g \<Rightarrow> 'v option" and owns :: "'c list \<Rightarrow> 'g \<Rightarrow> nat set"
  assumes owned: "val m g = Some v \<Longrightarrow> owns m g \<subseteq> {..<length m}"
    and frame: "val m g = Some v \<Longrightarrow> agree (owns m g) m m' \<Longrightarrow> val m' g = Some v \<and> owns m' g = owns m g"
    and copies: "val m g = Some v \<Longrightarrow> run_state (copy g) m = (g', m') \<Longrightarrow>
      extends m' m \<and> val m' g' = Some v \<and> owns m' g' \<inter> {..<length m} = {}"
begin

lemma frame_extends: "val m g = Some v \<Longrightarrow> extends m' m \<Longrightarrow> val m' g = Some v \<and> owns m' g = owns m g"
  by (rule frame) (auto intro: agree_extends dest: owned)

lemma original_kept:
  "val m g = Some v \<Longrightarrow> run_state (copy g) m = (g', m') \<Longrightarrow> val m' g = Some v \<and> owns m' g = owns m g"
  using copies frame_extends by blast

text \<open>Whatever is done to the memory the original lives in, the copy keeps its value.\<close>

lemma independent:
  assumes "val m g = Some v" "run_state (copy g) m = (g', m')"
    and "length m' \<le> length m''" "\<And>a. length m \<le> a \<Longrightarrow> a < length m' \<Longrightarrow> m'' ! a = m' ! a"
  shows "val m'' g' = Some v"
proof -
  have c: "val m' g' = Some v" "owns m' g' \<inter> {..<length m} = {}" using copies [OF assms(1,2)] by auto
  have "agree (owns m' g') m' m''"
    unfolding agree_def
  proof
    fix a assume "a \<in> owns m' g'"
    then have "length m \<le> a" "a < length m'" using c(2) owned [OF c(1)] by auto
    then show "a < length m'' \<and> m'' ! a = m' ! a" using assms(3,4) by simp
  qed
  with frame [OF c(1)] show ?thesis by blast
qed

text \<open>Whatever is done to the memory the copy allocated, the original keeps its value.\<close>

lemma original_independent:
  assumes v: "val m g = Some v" and run: "run_state (copy g) m = (g', m')"
    and m'': "length m' \<le> length m''" "\<And>a. a < length m \<Longrightarrow> m'' ! a = m ! a"
  shows "val m'' g = Some v"
proof -
  have "extends m' m" using copies [OF v run] by simp
  then have "agree (owns m g) m m''"
    using owned [OF v] m'' extends_length [of m' m] unfolding agree_def by (meson le_trans less_le_trans lessThan_iff subsetD)
  with frame [OF v] show ?thesis by blast
qed

lemma disjoint:
  "val m g = Some v \<Longrightarrow> run_state (copy g) m = (g', m') \<Longrightarrow> owns m' g' \<inter> owns m' g = {}"
  using copies original_kept owned by blast

end

named_theorems deep_copies "copiers that satisfy the contract of a deep copy"

subsection \<open>Flat values\<close>

lemma deep_flat [deep_copies]: "deep_copy State_Monad.return (\<lambda>m g. Some g) (\<lambda>m g. {})"
  by unfold_locales auto

subsection \<open>A slice of flat elements\<close>

text \<open>\<open>if in.F != nil { *out = make([]T, len(*in)); copy(*out, *in) }\<close>\<close>

definition copy_slice :: "nat option \<Rightarrow> ('c, nat option) mem" where
  "copy_slice p = (case p of None \<Rightarrow> State_Monad.return None
     | Some a \<Rightarrow> do { c \<leftarrow> load a; b \<leftarrow> new_cell c; State_Monad.return (Some b) })"

definition slice_val :: "('c \<Rightarrow> 'a option) \<Rightarrow> 'c list \<Rightarrow> nat option \<Rightarrow> 'a option option" where
  "slice_val get m p = (case p of None \<Rightarrow> Some None
     | Some a \<Rightarrow> if a < length m then map_option Some (get (m ! a)) else None)"

definition slice_owns :: "'c list \<Rightarrow> nat option \<Rightarrow> nat set" where
  "slice_owns m p = set_option p"

lemma slice_val_simps [simp]:
  "slice_val get m None = Some None" "slice_val get m (Some a) \<noteq> Some None"
  by (auto simp: slice_val_def)

lemma deep_slice [deep_copies]: "deep_copy copy_slice (slice_val get) slice_owns"
  by unfold_locales
    (auto simp: slice_val_def slice_owns_def copy_slice_def split: option.splits if_splits)

subsection \<open>A pointer to a struct\<close>

text \<open>\<open>if in.F != nil { *out = new(T); (*in).DeepCopyInto(*out) }\<close>, and the shape of every
  \<open>DeepCopy\<close>.\<close>

definition copy_new :: "('c \<Rightarrow> 'g option) \<Rightarrow> ('g \<Rightarrow> 'c) \<Rightarrow> ('g \<Rightarrow> ('c, 'g) mem) \<Rightarrow> nat option \<Rightarrow> ('c, nat option) mem" where
  "copy_new get mk into p = (case p of None \<Rightarrow> State_Monad.return None
     | Some a \<Rightarrow> do { c \<leftarrow> load a; g \<leftarrow> into (the (get c)); b \<leftarrow> new_cell (mk g); State_Monad.return (Some b) })"

definition ptr_val :: "('c \<Rightarrow> 'g option) \<Rightarrow> ('c list \<Rightarrow> 'g \<Rightarrow> 'v option) \<Rightarrow> 'c list \<Rightarrow> nat option \<Rightarrow> 'v option option" where
  "ptr_val get val m p = (case p of None \<Rightarrow> Some None
     | Some a \<Rightarrow> if a < length m then (case get (m ! a) of None \<Rightarrow> None | Some g \<Rightarrow> map_option Some (val m g)) else None)"

definition ptr_owns :: "('c \<Rightarrow> 'g option) \<Rightarrow> ('c list \<Rightarrow> 'g \<Rightarrow> nat set) \<Rightarrow> 'c list \<Rightarrow> nat option \<Rightarrow> nat set" where
  "ptr_owns get owns m p = (case p of None \<Rightarrow> {} | Some a \<Rightarrow> insert a (owns m (the (get (m ! a)))))"

lemma ptr_val_Some:
  "ptr_val get val m (Some a) = Some v \<longleftrightarrow> a < length m \<and> (\<exists>g w. get (m ! a) = Some g \<and> val m g = Some w \<and> v = Some w)"
  by (auto simp: ptr_val_def split: option.splits)

lemma deep_new:
  assumes into: "deep_copy into val owns" and mk: "\<And>g. get (mk g) = Some g"
  shows "deep_copy (copy_new get mk into) (ptr_val get val) (ptr_owns get owns)"
proof
  fix m p v assume v: "ptr_val get val m p = Some v"
  have old: "ptr_owns get owns m p \<subseteq> {..<length m} \<and>
      (agree (ptr_owns get owns m p) m m' \<longrightarrow> ptr_val get val m' p = Some v \<and> ptr_owns get owns m' p = ptr_owns get owns m p)" for m'
  proof (cases p)
    case (Some a)
    with v obtain g w where g: "a < length m" "get (m ! a) = Some g" "val m g = Some w" "v = Some w"
      by (auto simp: ptr_val_Some)
    with Some deep_copy.owned [OF into g(3)] deep_copy.frame [OF into g(3), of m'] show ?thesis
      by (auto simp: ptr_owns_def ptr_val_Some)
  qed (use v in \<open>auto simp: ptr_owns_def ptr_val_def\<close>)
  then show "ptr_owns get owns m p \<subseteq> {..<length m}" by blast
  show "ptr_val get val m' p = Some v \<and> ptr_owns get owns m' p = ptr_owns get owns m p"
    if "agree (ptr_owns get owns m p) m m'" for m'
    using old that by blast
  show "extends m' m \<and> ptr_val get val m' q = Some v \<and> ptr_owns get owns m' q \<inter> {..<length m} = {}"
    if run: "run_state (copy_new get mk into p) m = (q, m')" for q m'
  proof (cases p)
    case None
    with v run show ?thesis by (simp add: copy_new_def ptr_val_def ptr_owns_def)
  next
    case (Some a)
    with v obtain g w where g: "get (m ! a) = Some g" "val m g = Some w" "v = Some w" by (auto simp: ptr_val_Some)
    obtain g' k where k: "run_state (into g) m = (g', k)" by fastforce
    with run Some g(1) have q: "q = Some (length k)" "m' = k @ [mk g']" by (auto simp: copy_new_def)
    note c = deep_copy.copies [OF into g(2) k]
    then have "extends m' k" "extends m' m" "length m \<le> length k" using q by (auto simp: extends_def)
    moreover from this c have "val m' g' = Some w" "owns m' g' = owns k g'"
      using deep_copy.frame_extends [OF into, of k g' w m'] by auto
    ultimately show ?thesis
      using q g(3) c by (auto simp: ptr_val_Some ptr_owns_def mk)
  qed
qed

subsection \<open>A loop over a slice\<close>

text \<open>\<open>if in.F != nil { *out = make([]T, len(*in)); for i := range *in { (*in)[i].DeepCopyInto(&(*out)[i]) } }\<close>\<close>

fun copy_each :: "('g \<Rightarrow> ('c, 'g) mem) \<Rightarrow> 'g list \<Rightarrow> ('c, 'g list) mem" where
  "copy_each into [] = State_Monad.return []"
| "copy_each into (g # gs) = do { g' \<leftarrow> into g; gs' \<leftarrow> copy_each into gs; State_Monad.return (g' # gs') }"

definition copy_items :: "('c \<Rightarrow> 'g list option) \<Rightarrow> ('g list \<Rightarrow> 'c) \<Rightarrow> ('g \<Rightarrow> ('c, 'g) mem) \<Rightarrow> nat option \<Rightarrow> ('c, nat option) mem" where
  "copy_items get mk into = copy_new get mk (copy_each into)"

definition list_val :: "('c list \<Rightarrow> 'g \<Rightarrow> 'v option) \<Rightarrow> 'c list \<Rightarrow> 'g list \<Rightarrow> 'v list option" where
  "list_val val m gs = those (map (val m) gs)"

definition list_owns :: "('c list \<Rightarrow> 'g \<Rightarrow> nat set) \<Rightarrow> 'c list \<Rightarrow> 'g list \<Rightarrow> nat set" where
  "list_owns owns m gs = (\<Union>g\<in>set gs. owns m g)"

lemma list_val_simps [simp]:
  "list_val val m [] = Some []"
  "list_val val m (g # gs) = Some vs \<longleftrightarrow> (\<exists>w ws. val m g = Some w \<and> list_val val m gs = Some ws \<and> vs = w # ws)"
  by (auto simp: list_val_def split: option.splits)

lemma list_owns_simps [simp]:
  "list_owns owns m [] = {}" "list_owns owns m (g # gs) = owns m g \<union> list_owns owns m gs"
  by (auto simp: list_owns_def)

lemma deep_list:
  assumes into: "deep_copy into val owns"
  shows "deep_copy (copy_each into) (list_val val) (list_owns owns)"
proof
  fix m gs vs assume v: "list_val val m gs = Some vs"
  then show "list_owns owns m gs \<subseteq> {..<length m}"
    by (induction gs arbitrary: vs) (auto dest: deep_copy.owned [OF into])
  show "list_val val m' gs = Some vs \<and> list_owns owns m' gs = list_owns owns m gs"
    if "agree (list_owns owns m gs) m m'" for m'
    using v that by (induction gs arbitrary: vs) (auto dest: deep_copy.frame [OF into])
next
  fix m gs vs gs' m'
  assume "list_val val m gs = Some vs" "run_state (copy_each into gs) m = (gs', m')"
  then show "extends m' m \<and> list_val val m' gs' = Some vs \<and> list_owns owns m' gs' \<inter> {..<length m} = {}"
  proof (induction gs arbitrary: m vs gs' m')
    case (Cons g gs)
    from Cons.prems(1) obtain w ws where w: "val m g = Some w" "list_val val m gs = Some ws" "vs = w # ws" by auto
    obtain g' k where k: "run_state (into g) m = (g', k)" by fastforce
    obtain hs n where n: "run_state (copy_each into gs) k = (hs, n)" by fastforce
    from Cons.prems(2) k n have gs': "gs' = g' # hs" "m' = n" by auto
    note c = deep_copy.copies [OF into w(1) k]
    have "list_val val k gs = Some ws"
      using w(2) c by (induction gs arbitrary: ws) (auto dest: deep_copy.frame_extends [OF into])
    note d = Cons.IH [OF this n]
    have "val n g' = Some w" "owns n g' = owns k g'"
      using deep_copy.frame_extends [OF into, of k g' w n] c d by auto
    moreover have "length m \<le> length k" using c by (auto dest: extends_length)
    ultimately show ?case
      using c d w(3) extends_trans [of n k m] unfolding gs' by (auto simp: disjoint_iff)
  qed simp
qed

lemma deep_items:
  "deep_copy into val owns \<Longrightarrow> (\<And>gs. get (mk gs) = Some gs) \<Longrightarrow>
   deep_copy (copy_items get mk into) (ptr_val get (list_val val)) (ptr_owns get (list_owns owns))"
  unfolding copy_items_def by (rule deep_new [OF deep_list])

subsection \<open>The fields of a struct\<close>

definition copy_pair :: "('g \<Rightarrow> ('c, 'g) mem) \<Rightarrow> ('h \<Rightarrow> ('c, 'h) mem) \<Rightarrow> 'g \<times> 'h \<Rightarrow> ('c, 'g \<times> 'h) mem" where
  "copy_pair c d = (\<lambda>(g, h). do { g' \<leftarrow> c g; h' \<leftarrow> d h; State_Monad.return (g', h') })"

definition pair_val :: "('c list \<Rightarrow> 'g \<Rightarrow> 'v option) \<Rightarrow> ('c list \<Rightarrow> 'h \<Rightarrow> 'w option) \<Rightarrow> 'c list \<Rightarrow> 'g \<times> 'h \<Rightarrow> ('v \<times> 'w) option" where
  "pair_val v w m = (\<lambda>(g, h). case v m g of None \<Rightarrow> None | Some x \<Rightarrow> map_option (Pair x) (w m h))"

definition pair_owns :: "('c list \<Rightarrow> 'g \<Rightarrow> nat set) \<Rightarrow> ('c list \<Rightarrow> 'h \<Rightarrow> nat set) \<Rightarrow> 'c list \<Rightarrow> 'g \<times> 'h \<Rightarrow> nat set" where
  "pair_owns o1 o2 m = (\<lambda>(g, h). o1 m g \<union> o2 m h)"

lemma pair_val_Some: "pair_val v w m (g, h) = Some z \<longleftrightarrow> (\<exists>x y. v m g = Some x \<and> w m h = Some y \<and> z = (x, y))"
  by (auto simp: pair_val_def split: option.splits)

lemma deep_pair:
  assumes c: "deep_copy c v o1" and d: "deep_copy d w o2"
  shows "deep_copy (copy_pair c d) (pair_val v w) (pair_owns o1 o2)"
proof
  fix m z r assume r: "pair_val v w m z = Some r"
  obtain g h where z: "z = (g, h)" by fastforce
  from r obtain x y where xy: "v m g = Some x" "w m h = Some y" "r = (x, y)" by (auto simp: z pair_val_Some)
  show "pair_owns o1 o2 m z \<subseteq> {..<length m}"
    using deep_copy.owned [OF c xy(1)] deep_copy.owned [OF d xy(2)] by (auto simp: z pair_owns_def)
  show "pair_val v w m' z = Some r \<and> pair_owns o1 o2 m' z = pair_owns o1 o2 m z"
    if "agree (pair_owns o1 o2 m z) m m'" for m'
    using that deep_copy.frame [OF c xy(1)] deep_copy.frame [OF d xy(2)] xy(3)
    by (simp add: z pair_owns_def pair_val_Some)
  show "extends m' m \<and> pair_val v w m' z' = Some r \<and> pair_owns o1 o2 m' z' \<inter> {..<length m} = {}"
    if run: "run_state (copy_pair c d z) m = (z', m')" for z' m'
  proof -
    obtain g' k where k: "run_state (c g) m = (g', k)" by fastforce
    obtain h' n where n: "run_state (d h) k = (h', n)" by fastforce
    from run k n have z': "z' = (g', h')" "m' = n" by (auto simp: z copy_pair_def)
    note one = deep_copy.copies [OF c xy(1) k]
    have "w k h = Some y" using deep_copy.frame_extends [OF d xy(2)] one by blast
    note two = deep_copy.copies [OF d this n]
    have "v n g' = Some x" "o1 n g' = o1 k g'"
      using deep_copy.frame_extends [OF c, of k g' x n] one two by auto
    moreover have "length m \<le> length k" using one by (auto dest: extends_length)
    ultimately show ?thesis
      using one two xy(3) extends_trans [of n k m] unfolding z' by (auto simp: pair_val_Some pair_owns_def disjoint_iff)
  qed
qed

text \<open>A struct: its reference fields are copied, the rest is assigned (\<open>*out = *in\<close>).\<close>

lemma deep_struct:
  assumes c: "deep_copy c v owns" and put: "\<And>g x. flds (put g x) = x" "\<And>g x. mk (put g x) = mk g"
  shows "deep_copy (\<lambda>g. do { x \<leftarrow> c (flds g); State_Monad.return (put g x) })
    (\<lambda>m g. map_option (mk g) (v m (flds g))) (\<lambda>m g. owns m (flds g))"
proof
  fix m g r assume "map_option (mk g) (v m (flds g)) = Some r"
  then obtain x where x: "v m (flds g) = Some x" "r = mk g x" by auto
  show "owns m (flds g) \<subseteq> {..<length m}" by (rule deep_copy.owned [OF c x(1)])
  show "map_option (mk g) (v m' (flds g)) = Some r \<and> owns m' (flds g) = owns m (flds g)"
    if "agree (owns m (flds g)) m m'" for m'
    using deep_copy.frame [OF c x(1) that] x(2) by simp
  show "extends m' m \<and> map_option (mk g') (v m' (flds g')) = Some r \<and> owns m' (flds g') \<inter> {..<length m} = {}"
    if "run_state (do { x \<leftarrow> c (flds g); State_Monad.return (put g x) }) m = (g', m')" for g' m'
    using that deep_copy.copies [OF c x(1)] x(2) by (auto simp: put split: prod.splits)
qed

end
