(* ===== verification/Deep_Copy.thy ===== *)
theory Deep_Copy
  imports Go_Memory
begin

text \<open>
  The generated deep copies of the API types (\<open>api/v1/zz_generated.deepcopy.go\<close>) on an explicit
  memory.  The controllers rely on them: each takes a copy of the object it read before it changes
  the status, compares the two, and sends their difference.  A struct of Go is a record whose
  pointer, slice and map fields are addresses; the types without any are the records of
  \<open>Kube_Objects\<close>.  The methods of \<open>metav1\<close> that the code calls are the parameter \<open>library\<close>.
\<close>

section \<open>Structs with references\<close>

record gMeta =
  gm_name :: string
  gm_namespace :: string
  gm_uid :: string
  gm_generation :: int
  gm_creation :: time
  gm_deletion :: "nat option"
  gm_labels :: "nat option"
  gm_annotations :: "nat option"
  gm_owners :: "nat option"

record gListMeta =
  glm_resourceVersion :: string
  glm_continue :: string
  glm_remaining :: "nat option"

record gSelector =
  gsel_matchLabels :: "nat option"
  gsel_matchExpressions :: "nat option"

text \<open>The kind and the API version of an object (\<open>metav1.TypeMeta\<close>).\<close>

type_synonym typeMeta = "string \<times> string"

record gBackupSpec =
  gbs_repoRef :: string
  gbs_pvcs :: "nat option"
  gbs_selector :: "nat option"
  gbs_notes :: string

record gBackupStatus =
  gbst_phase :: backup_phase
  gbst_snapshotRef :: string
  gbst_jobs :: "nat option"
  gbst_startedAt :: "nat option"
  gbst_completedAt :: "nat option"
  gbst_bytes :: int
  gbst_conditions :: "nat option"

record gBackup =
  gb_type :: typeMeta
  gb_meta :: gMeta
  gb_spec :: gBackupSpec
  gb_status :: gBackupStatus

record gBackupTemplate =
  gbt_pvcs :: "nat option"
  gbt_selector :: "nat option"
  gbt_notes :: string

record gRepoStatus =
  grps_conditions :: "nat option"
  grps_lastProbe :: "nat option"

record gRepo =
  grp_type :: typeMeta
  grp_meta :: gMeta
  grp_spec :: PBSRepoSpec
  grp_status :: gRepoStatus

record gRestoreSpec =
  grs_repoRef :: string
  grs_snapshotRef :: string
  grs_targetNamespace :: string
  grs_dropKinds :: "nat option"
  grs_keepKinds :: "nat option"

record gRestoreStatus =
  grst_phase :: restore_phase
  grst_conditions :: "nat option"
  grst_startedAt :: "nat option"
  grst_completedAt :: "nat option"
  grst_jobs :: "nat option"

record gRestore =
  gr_type :: typeMeta
  gr_meta :: gMeta
  gr_spec :: gRestoreSpec
  gr_status :: gRestoreStatus

record gScheduleSpec =
  gsch_repoRef :: string
  gsch_schedule :: string
  gsch_template :: gBackupTemplate
  gsch_suspend :: bool

record gScheduleStatus =
  gscs_lastSchedule :: "nat option"
  gscs_nextSchedule :: "nat option"
  gscs_active :: "nat option"
  gscs_conditions :: "nat option"

record gSchedule =
  gs_type :: typeMeta
  gs_meta :: gMeta
  gs_spec :: gScheduleSpec
  gs_status :: gScheduleStatus

record gBackupList =
  gbl_type :: typeMeta
  gbl_meta :: gListMeta
  gbl_items :: "nat option"

record gRepoList =
  grpl_type :: typeMeta
  grpl_meta :: gListMeta
  grpl_items :: "nat option"

record gRestoreList =
  grl_type :: typeMeta
  grl_meta :: gListMeta
  grl_items :: "nat option"

record gScheduleList =
  gsl_type :: typeMeta
  gsl_meta :: gListMeta
  gsl_items :: "nat option"

text \<open>The cells: the arrays behind slices, the maps, and the structs behind pointers.\<close>

datatype cell =
    CStrings "string list"
  | CStringMap "string \<rightharpoonup> string"
  | COwners "owner_ref list"
  | CRequirements "(string \<times> string \<times> string list) list"
  | CInt64 "int"
  | CTime "time"
  | CConditions "condition list"
  | CBackupJobs "BackupJobStatus list"
  | CRestoreJobs "RestoreJobStatus list"
  | CSelector "gSelector"
  | CBackupJob "BackupJobStatus"
  | CRestoreJob "RestoreJobStatus"
  | CSecretRef "secret_ref"
  | CRepoSpec "PBSRepoSpec"
  | CBackupSpec "gBackupSpec"
  | CBackupStatus "gBackupStatus"
  | CBackup "gBackup"
  | CBackupTemplate "gBackupTemplate"
  | CRepoStatus "gRepoStatus"
  | CRepo "gRepo"
  | CRestoreSpec "gRestoreSpec"
  | CRestoreStatus "gRestoreStatus"
  | CRestore "gRestore"
  | CScheduleSpec "gScheduleSpec"
  | CScheduleStatus "gScheduleStatus"
  | CSchedule "gSchedule"
  | CBackups "gBackup list"
  | CBackupList "gBackupList"
  | CRepos "gRepo list"
  | CRepoList "gRepoList"
  | CRestores "gRestore list"
  | CRestoreList "gRestoreList"
  | CSchedules "gSchedule list"
  | CScheduleList "gScheduleList"

text \<open>Reading a cell as one of a type.\<close>

definition as_strings :: "cell \<Rightarrow> (string list) option" where
  "as_strings c = (case c of CStrings x \<Rightarrow> Some x | _ \<Rightarrow> None)"

definition as_stringMap :: "cell \<Rightarrow> (string \<rightharpoonup> string) option" where
  "as_stringMap c = (case c of CStringMap x \<Rightarrow> Some x | _ \<Rightarrow> None)"

definition as_owners :: "cell \<Rightarrow> (owner_ref list) option" where
  "as_owners c = (case c of COwners x \<Rightarrow> Some x | _ \<Rightarrow> None)"

definition as_requirements :: "cell \<Rightarrow> ((string \<times> string \<times> string list) list) option" where
  "as_requirements c = (case c of CRequirements x \<Rightarrow> Some x | _ \<Rightarrow> None)"

definition as_int64 :: "cell \<Rightarrow> (int) option" where
  "as_int64 c = (case c of CInt64 x \<Rightarrow> Some x | _ \<Rightarrow> None)"

definition as_time :: "cell \<Rightarrow> (time) option" where
  "as_time c = (case c of CTime x \<Rightarrow> Some x | _ \<Rightarrow> None)"

definition as_conditions :: "cell \<Rightarrow> (condition list) option" where
  "as_conditions c = (case c of CConditions x \<Rightarrow> Some x | _ \<Rightarrow> None)"

definition as_backupJobs :: "cell \<Rightarrow> (BackupJobStatus list) option" where
  "as_backupJobs c = (case c of CBackupJobs x \<Rightarrow> Some x | _ \<Rightarrow> None)"

definition as_restoreJobs :: "cell \<Rightarrow> (RestoreJobStatus list) option" where
  "as_restoreJobs c = (case c of CRestoreJobs x \<Rightarrow> Some x | _ \<Rightarrow> None)"

definition as_selector :: "cell \<Rightarrow> (gSelector) option" where
  "as_selector c = (case c of CSelector x \<Rightarrow> Some x | _ \<Rightarrow> None)"

definition as_backupJob :: "cell \<Rightarrow> (BackupJobStatus) option" where
  "as_backupJob c = (case c of CBackupJob x \<Rightarrow> Some x | _ \<Rightarrow> None)"

definition as_restoreJob :: "cell \<Rightarrow> (RestoreJobStatus) option" where
  "as_restoreJob c = (case c of CRestoreJob x \<Rightarrow> Some x | _ \<Rightarrow> None)"

definition as_secretRef :: "cell \<Rightarrow> (secret_ref) option" where
  "as_secretRef c = (case c of CSecretRef x \<Rightarrow> Some x | _ \<Rightarrow> None)"

definition as_repoSpec :: "cell \<Rightarrow> (PBSRepoSpec) option" where
  "as_repoSpec c = (case c of CRepoSpec x \<Rightarrow> Some x | _ \<Rightarrow> None)"

definition as_backupSpec :: "cell \<Rightarrow> (gBackupSpec) option" where
  "as_backupSpec c = (case c of CBackupSpec x \<Rightarrow> Some x | _ \<Rightarrow> None)"

definition as_backupStatus :: "cell \<Rightarrow> (gBackupStatus) option" where
  "as_backupStatus c = (case c of CBackupStatus x \<Rightarrow> Some x | _ \<Rightarrow> None)"

definition as_backup :: "cell \<Rightarrow> (gBackup) option" where
  "as_backup c = (case c of CBackup x \<Rightarrow> Some x | _ \<Rightarrow> None)"

definition as_backupTemplate :: "cell \<Rightarrow> (gBackupTemplate) option" where
  "as_backupTemplate c = (case c of CBackupTemplate x \<Rightarrow> Some x | _ \<Rightarrow> None)"

definition as_repoStatus :: "cell \<Rightarrow> (gRepoStatus) option" where
  "as_repoStatus c = (case c of CRepoStatus x \<Rightarrow> Some x | _ \<Rightarrow> None)"

definition as_repo :: "cell \<Rightarrow> (gRepo) option" where
  "as_repo c = (case c of CRepo x \<Rightarrow> Some x | _ \<Rightarrow> None)"

definition as_restoreSpec :: "cell \<Rightarrow> (gRestoreSpec) option" where
  "as_restoreSpec c = (case c of CRestoreSpec x \<Rightarrow> Some x | _ \<Rightarrow> None)"

definition as_restoreStatus :: "cell \<Rightarrow> (gRestoreStatus) option" where
  "as_restoreStatus c = (case c of CRestoreStatus x \<Rightarrow> Some x | _ \<Rightarrow> None)"

definition as_restore :: "cell \<Rightarrow> (gRestore) option" where
  "as_restore c = (case c of CRestore x \<Rightarrow> Some x | _ \<Rightarrow> None)"

definition as_scheduleSpec :: "cell \<Rightarrow> (gScheduleSpec) option" where
  "as_scheduleSpec c = (case c of CScheduleSpec x \<Rightarrow> Some x | _ \<Rightarrow> None)"

definition as_scheduleStatus :: "cell \<Rightarrow> (gScheduleStatus) option" where
  "as_scheduleStatus c = (case c of CScheduleStatus x \<Rightarrow> Some x | _ \<Rightarrow> None)"

definition as_schedule :: "cell \<Rightarrow> (gSchedule) option" where
  "as_schedule c = (case c of CSchedule x \<Rightarrow> Some x | _ \<Rightarrow> None)"

definition as_backups :: "cell \<Rightarrow> (gBackup list) option" where
  "as_backups c = (case c of CBackups x \<Rightarrow> Some x | _ \<Rightarrow> None)"

definition as_backupList :: "cell \<Rightarrow> (gBackupList) option" where
  "as_backupList c = (case c of CBackupList x \<Rightarrow> Some x | _ \<Rightarrow> None)"

definition as_repos :: "cell \<Rightarrow> (gRepo list) option" where
  "as_repos c = (case c of CRepos x \<Rightarrow> Some x | _ \<Rightarrow> None)"

definition as_repoList :: "cell \<Rightarrow> (gRepoList) option" where
  "as_repoList c = (case c of CRepoList x \<Rightarrow> Some x | _ \<Rightarrow> None)"

definition as_restores :: "cell \<Rightarrow> (gRestore list) option" where
  "as_restores c = (case c of CRestores x \<Rightarrow> Some x | _ \<Rightarrow> None)"

definition as_restoreList :: "cell \<Rightarrow> (gRestoreList) option" where
  "as_restoreList c = (case c of CRestoreList x \<Rightarrow> Some x | _ \<Rightarrow> None)"

definition as_schedules :: "cell \<Rightarrow> (gSchedule list) option" where
  "as_schedules c = (case c of CSchedules x \<Rightarrow> Some x | _ \<Rightarrow> None)"

definition as_scheduleList :: "cell \<Rightarrow> (gScheduleList) option" where
  "as_scheduleList c = (case c of CScheduleList x \<Rightarrow> Some x | _ \<Rightarrow> None)"

lemmas as_defs =
  as_strings_def as_stringMap_def as_owners_def as_requirements_def as_int64_def as_time_def as_conditions_def as_backupJobs_def as_restoreJobs_def as_selector_def as_backupJob_def as_restoreJob_def as_secretRef_def as_repoSpec_def as_backupSpec_def as_backupStatus_def as_backup_def as_backupTemplate_def as_repoStatus_def as_repo_def as_restoreSpec_def as_restoreStatus_def as_restore_def as_scheduleSpec_def as_scheduleStatus_def as_schedule_def as_backups_def as_backupList_def as_repos_def as_repoList_def as_restores_def as_restoreList_def as_schedules_def as_scheduleList_def

section \<open>The library\<close>

text \<open>The deep copies of \<open>metav1\<close>: of the metadata of an object and of a list, of a label selector and
  of a condition into a given struct, and of a time behind a pointer.\<close>

record library =
  l_meta :: "gMeta \<Rightarrow> (cell, gMeta) mem"
  l_listMeta :: "gListMeta \<Rightarrow> (cell, gListMeta) mem"
  l_selector :: "gSelector \<Rightarrow> (cell, gSelector) mem"
  l_condition :: "condition \<Rightarrow> (cell, condition) mem"
  l_time :: "nat \<Rightarrow> (cell, nat) mem"

section \<open>\<open>DeepCopyInto\<close>\<close>

text \<open>The kinds of reference fields: a slice of times, conditions, selectors.  Every copy starts from
  the assignment \<open>*out = *in\<close>, which the record update stands for.\<close>

definition copy_time :: "library \<Rightarrow> nat option \<Rightarrow> (cell, nat option) mem" where
  "copy_time L p = (case p of None \<Rightarrow> State_Monad.return None
     | Some a \<Rightarrow> do { b \<leftarrow> l_time L a; State_Monad.return (Some b) })"

definition copy_conditions :: "library \<Rightarrow> nat option \<Rightarrow> (cell, nat option) mem" where
  "copy_conditions L = copy_items as_conditions CConditions (l_condition L)"

definition copy_selector :: "library \<Rightarrow> nat option \<Rightarrow> (cell, nat option) mem" where
  "copy_selector L = copy_new as_selector CSelector (l_selector L)"

text \<open>The types without references: the assignment alone.\<close>

definition BackupJobStatus_DeepCopyInto :: "BackupJobStatus \<Rightarrow> (cell, BackupJobStatus) mem" where
  "BackupJobStatus_DeepCopyInto i = State_Monad.return i"

definition NamespacedSecretRef_DeepCopyInto :: "secret_ref \<Rightarrow> (cell, secret_ref) mem" where
  "NamespacedSecretRef_DeepCopyInto i = State_Monad.return i"

definition PBSRepoSpec_DeepCopyInto :: "PBSRepoSpec \<Rightarrow> (cell, PBSRepoSpec) mem" where
  "PBSRepoSpec_DeepCopyInto i = State_Monad.return (i\<lparr>rp_secretRef := rp_secretRef i, rp_bootstrapRef := rp_bootstrapRef i\<rparr>)"

definition RestoreJobStatus_DeepCopyInto :: "RestoreJobStatus \<Rightarrow> (cell, RestoreJobStatus) mem" where
  "RestoreJobStatus_DeepCopyInto i = State_Monad.return i"

text \<open>The structs with references, field by field in the order of the code.\<close>

definition PBSBackupSpec_DeepCopyInto :: "library \<Rightarrow> gBackupSpec \<Rightarrow> (cell, gBackupSpec) mem" where
  "PBSBackupSpec_DeepCopyInto L i = do {
     pvcs \<leftarrow> copy_slice (gbs_pvcs i);
     selector \<leftarrow> copy_selector L (gbs_selector i);
     State_Monad.return (i\<lparr>gbs_pvcs := pvcs, gbs_selector := selector\<rparr>)
   }"

definition PBSBackupStatus_DeepCopyInto :: "library \<Rightarrow> gBackupStatus \<Rightarrow> (cell, gBackupStatus) mem" where
  "PBSBackupStatus_DeepCopyInto L i = do {
     jobs \<leftarrow> copy_slice (gbst_jobs i);
     startedAt \<leftarrow> copy_time L (gbst_startedAt i);
     completedAt \<leftarrow> copy_time L (gbst_completedAt i);
     conditions \<leftarrow> copy_conditions L (gbst_conditions i);
     State_Monad.return (i\<lparr>gbst_jobs := jobs, gbst_startedAt := startedAt, gbst_completedAt := completedAt, gbst_conditions := conditions\<rparr>)
   }"

definition PBSBackup_DeepCopyInto :: "library \<Rightarrow> gBackup \<Rightarrow> (cell, gBackup) mem" where
  "PBSBackup_DeepCopyInto L i = do {
     meta \<leftarrow> l_meta L (gb_meta i);
     spec \<leftarrow> PBSBackupSpec_DeepCopyInto L (gb_spec i);
     status \<leftarrow> PBSBackupStatus_DeepCopyInto L (gb_status i);
     State_Monad.return (i\<lparr>gb_meta := meta, gb_spec := spec, gb_status := status\<rparr>)
   }"

definition PBSBackupList_DeepCopyInto :: "library \<Rightarrow> gBackupList \<Rightarrow> (cell, gBackupList) mem" where
  "PBSBackupList_DeepCopyInto L i = do {
     meta \<leftarrow> l_listMeta L (gbl_meta i);
     items \<leftarrow> copy_items as_backups CBackups (PBSBackup_DeepCopyInto L) (gbl_items i);
     State_Monad.return (i\<lparr>gbl_meta := meta, gbl_items := items\<rparr>)
   }"

definition PBSBackupTemplate_DeepCopyInto :: "library \<Rightarrow> gBackupTemplate \<Rightarrow> (cell, gBackupTemplate) mem" where
  "PBSBackupTemplate_DeepCopyInto L i = do {
     pvcs \<leftarrow> copy_slice (gbt_pvcs i);
     selector \<leftarrow> copy_selector L (gbt_selector i);
     State_Monad.return (i\<lparr>gbt_pvcs := pvcs, gbt_selector := selector\<rparr>)
   }"

definition PBSRepoStatus_DeepCopyInto :: "library \<Rightarrow> gRepoStatus \<Rightarrow> (cell, gRepoStatus) mem" where
  "PBSRepoStatus_DeepCopyInto L i = do {
     conditions \<leftarrow> copy_conditions L (grps_conditions i);
     lastProbe \<leftarrow> copy_time L (grps_lastProbe i);
     State_Monad.return (i\<lparr>grps_conditions := conditions, grps_lastProbe := lastProbe\<rparr>)
   }"

definition PBSRepo_DeepCopyInto :: "library \<Rightarrow> gRepo \<Rightarrow> (cell, gRepo) mem" where
  "PBSRepo_DeepCopyInto L i = do {
     meta \<leftarrow> l_meta L (grp_meta i);
     status \<leftarrow> PBSRepoStatus_DeepCopyInto L (grp_status i);
     State_Monad.return (i\<lparr>grp_meta := meta, grp_status := status\<rparr>)
   }"

definition PBSRepoList_DeepCopyInto :: "library \<Rightarrow> gRepoList \<Rightarrow> (cell, gRepoList) mem" where
  "PBSRepoList_DeepCopyInto L i = do {
     meta \<leftarrow> l_listMeta L (grpl_meta i);
     items \<leftarrow> copy_items as_repos CRepos (PBSRepo_DeepCopyInto L) (grpl_items i);
     State_Monad.return (i\<lparr>grpl_meta := meta, grpl_items := items\<rparr>)
   }"

definition PBSRestoreSpec_DeepCopyInto :: "gRestoreSpec \<Rightarrow> (cell, gRestoreSpec) mem" where
  "PBSRestoreSpec_DeepCopyInto i = do {
     dropKinds \<leftarrow> copy_slice (grs_dropKinds i);
     keepKinds \<leftarrow> copy_slice (grs_keepKinds i);
     State_Monad.return (i\<lparr>grs_dropKinds := dropKinds, grs_keepKinds := keepKinds\<rparr>)
   }"

definition PBSRestoreStatus_DeepCopyInto :: "library \<Rightarrow> gRestoreStatus \<Rightarrow> (cell, gRestoreStatus) mem" where
  "PBSRestoreStatus_DeepCopyInto L i = do {
     conditions \<leftarrow> copy_conditions L (grst_conditions i);
     startedAt \<leftarrow> copy_time L (grst_startedAt i);
     completedAt \<leftarrow> copy_time L (grst_completedAt i);
     jobs \<leftarrow> copy_slice (grst_jobs i);
     State_Monad.return (i\<lparr>grst_conditions := conditions, grst_startedAt := startedAt, grst_completedAt := completedAt, grst_jobs := jobs\<rparr>)
   }"

definition PBSRestore_DeepCopyInto :: "library \<Rightarrow> gRestore \<Rightarrow> (cell, gRestore) mem" where
  "PBSRestore_DeepCopyInto L i = do {
     meta \<leftarrow> l_meta L (gr_meta i);
     spec \<leftarrow> PBSRestoreSpec_DeepCopyInto (gr_spec i);
     status \<leftarrow> PBSRestoreStatus_DeepCopyInto L (gr_status i);
     State_Monad.return (i\<lparr>gr_meta := meta, gr_spec := spec, gr_status := status\<rparr>)
   }"

definition PBSRestoreList_DeepCopyInto :: "library \<Rightarrow> gRestoreList \<Rightarrow> (cell, gRestoreList) mem" where
  "PBSRestoreList_DeepCopyInto L i = do {
     meta \<leftarrow> l_listMeta L (grl_meta i);
     items \<leftarrow> copy_items as_restores CRestores (PBSRestore_DeepCopyInto L) (grl_items i);
     State_Monad.return (i\<lparr>grl_meta := meta, grl_items := items\<rparr>)
   }"

definition PBSScheduleSpec_DeepCopyInto :: "library \<Rightarrow> gScheduleSpec \<Rightarrow> (cell, gScheduleSpec) mem" where
  "PBSScheduleSpec_DeepCopyInto L i = do {
     template \<leftarrow> PBSBackupTemplate_DeepCopyInto L (gsch_template i);
     State_Monad.return (i\<lparr>gsch_template := template\<rparr>)
   }"

definition PBSScheduleStatus_DeepCopyInto :: "library \<Rightarrow> gScheduleStatus \<Rightarrow> (cell, gScheduleStatus) mem" where
  "PBSScheduleStatus_DeepCopyInto L i = do {
     lastSchedule \<leftarrow> copy_time L (gscs_lastSchedule i);
     nextSchedule \<leftarrow> copy_time L (gscs_nextSchedule i);
     active \<leftarrow> copy_slice (gscs_active i);
     conditions \<leftarrow> copy_conditions L (gscs_conditions i);
     State_Monad.return (i\<lparr>gscs_lastSchedule := lastSchedule, gscs_nextSchedule := nextSchedule, gscs_active := active, gscs_conditions := conditions\<rparr>)
   }"

definition PBSSchedule_DeepCopyInto :: "library \<Rightarrow> gSchedule \<Rightarrow> (cell, gSchedule) mem" where
  "PBSSchedule_DeepCopyInto L i = do {
     meta \<leftarrow> l_meta L (gs_meta i);
     spec \<leftarrow> PBSScheduleSpec_DeepCopyInto L (gs_spec i);
     status \<leftarrow> PBSScheduleStatus_DeepCopyInto L (gs_status i);
     State_Monad.return (i\<lparr>gs_meta := meta, gs_spec := spec, gs_status := status\<rparr>)
   }"

definition PBSScheduleList_DeepCopyInto :: "library \<Rightarrow> gScheduleList \<Rightarrow> (cell, gScheduleList) mem" where
  "PBSScheduleList_DeepCopyInto L i = do {
     meta \<leftarrow> l_listMeta L (gsl_meta i);
     items \<leftarrow> copy_items as_schedules CSchedules (PBSSchedule_DeepCopyInto L) (gsl_items i);
     State_Monad.return (i\<lparr>gsl_meta := meta, gsl_items := items\<rparr>)
   }"

section \<open>\<open>DeepCopy\<close> and \<open>DeepCopyObject\<close>\<close>

text \<open>A nil receiver gives nil; otherwise the copy is a new struct.\<close>

definition BackupJobStatus_DeepCopy :: "nat option \<Rightarrow> (cell, nat option) mem" where
  "BackupJobStatus_DeepCopy = copy_new as_backupJob CBackupJob BackupJobStatus_DeepCopyInto"

definition NamespacedSecretRef_DeepCopy :: "nat option \<Rightarrow> (cell, nat option) mem" where
  "NamespacedSecretRef_DeepCopy = copy_new as_secretRef CSecretRef NamespacedSecretRef_DeepCopyInto"

definition PBSRepoSpec_DeepCopy :: "nat option \<Rightarrow> (cell, nat option) mem" where
  "PBSRepoSpec_DeepCopy = copy_new as_repoSpec CRepoSpec PBSRepoSpec_DeepCopyInto"

definition RestoreJobStatus_DeepCopy :: "nat option \<Rightarrow> (cell, nat option) mem" where
  "RestoreJobStatus_DeepCopy = copy_new as_restoreJob CRestoreJob RestoreJobStatus_DeepCopyInto"

definition PBSBackupSpec_DeepCopy :: "library \<Rightarrow> nat option \<Rightarrow> (cell, nat option) mem" where
  "PBSBackupSpec_DeepCopy L = copy_new as_backupSpec CBackupSpec (PBSBackupSpec_DeepCopyInto L)"

definition PBSBackupStatus_DeepCopy :: "library \<Rightarrow> nat option \<Rightarrow> (cell, nat option) mem" where
  "PBSBackupStatus_DeepCopy L = copy_new as_backupStatus CBackupStatus (PBSBackupStatus_DeepCopyInto L)"

definition PBSBackup_DeepCopy :: "library \<Rightarrow> nat option \<Rightarrow> (cell, nat option) mem" where
  "PBSBackup_DeepCopy L = copy_new as_backup CBackup (PBSBackup_DeepCopyInto L)"

definition PBSBackupTemplate_DeepCopy :: "library \<Rightarrow> nat option \<Rightarrow> (cell, nat option) mem" where
  "PBSBackupTemplate_DeepCopy L = copy_new as_backupTemplate CBackupTemplate (PBSBackupTemplate_DeepCopyInto L)"

definition PBSRepoStatus_DeepCopy :: "library \<Rightarrow> nat option \<Rightarrow> (cell, nat option) mem" where
  "PBSRepoStatus_DeepCopy L = copy_new as_repoStatus CRepoStatus (PBSRepoStatus_DeepCopyInto L)"

definition PBSRepo_DeepCopy :: "library \<Rightarrow> nat option \<Rightarrow> (cell, nat option) mem" where
  "PBSRepo_DeepCopy L = copy_new as_repo CRepo (PBSRepo_DeepCopyInto L)"

definition PBSRestoreSpec_DeepCopy :: "nat option \<Rightarrow> (cell, nat option) mem" where
  "PBSRestoreSpec_DeepCopy = copy_new as_restoreSpec CRestoreSpec PBSRestoreSpec_DeepCopyInto"

definition PBSRestoreStatus_DeepCopy :: "library \<Rightarrow> nat option \<Rightarrow> (cell, nat option) mem" where
  "PBSRestoreStatus_DeepCopy L = copy_new as_restoreStatus CRestoreStatus (PBSRestoreStatus_DeepCopyInto L)"

definition PBSRestore_DeepCopy :: "library \<Rightarrow> nat option \<Rightarrow> (cell, nat option) mem" where
  "PBSRestore_DeepCopy L = copy_new as_restore CRestore (PBSRestore_DeepCopyInto L)"

definition PBSScheduleSpec_DeepCopy :: "library \<Rightarrow> nat option \<Rightarrow> (cell, nat option) mem" where
  "PBSScheduleSpec_DeepCopy L = copy_new as_scheduleSpec CScheduleSpec (PBSScheduleSpec_DeepCopyInto L)"

definition PBSScheduleStatus_DeepCopy :: "library \<Rightarrow> nat option \<Rightarrow> (cell, nat option) mem" where
  "PBSScheduleStatus_DeepCopy L = copy_new as_scheduleStatus CScheduleStatus (PBSScheduleStatus_DeepCopyInto L)"

definition PBSSchedule_DeepCopy :: "library \<Rightarrow> nat option \<Rightarrow> (cell, nat option) mem" where
  "PBSSchedule_DeepCopy L = copy_new as_schedule CSchedule (PBSSchedule_DeepCopyInto L)"

definition PBSBackupList_DeepCopy :: "library \<Rightarrow> nat option \<Rightarrow> (cell, nat option) mem" where
  "PBSBackupList_DeepCopy L = copy_new as_backupList CBackupList (PBSBackupList_DeepCopyInto L)"

definition PBSRepoList_DeepCopy :: "library \<Rightarrow> nat option \<Rightarrow> (cell, nat option) mem" where
  "PBSRepoList_DeepCopy L = copy_new as_repoList CRepoList (PBSRepoList_DeepCopyInto L)"

definition PBSRestoreList_DeepCopy :: "library \<Rightarrow> nat option \<Rightarrow> (cell, nat option) mem" where
  "PBSRestoreList_DeepCopy L = copy_new as_restoreList CRestoreList (PBSRestoreList_DeepCopyInto L)"

definition PBSScheduleList_DeepCopy :: "library \<Rightarrow> nat option \<Rightarrow> (cell, nat option) mem" where
  "PBSScheduleList_DeepCopy L = copy_new as_scheduleList CScheduleList (PBSScheduleList_DeepCopyInto L)"

text \<open>An object behind the interface \<open>runtime.Object\<close>; the nil interface is \<open>None\<close>.\<close>

datatype runtime_object =
    ObjBackup nat
  | ObjBackupList nat
  | ObjRepo nat
  | ObjRepoList nat
  | ObjRestore nat
  | ObjRestoreList nat
  | ObjSchedule nat
  | ObjScheduleList nat

definition PBSBackup_DeepCopyObject :: "library \<Rightarrow> nat option \<Rightarrow> (cell, runtime_object option) mem" where
  "PBSBackup_DeepCopyObject L i = do {
     c \<leftarrow> PBSBackup_DeepCopy L i;
     case c of Some a \<Rightarrow> State_Monad.return (Some (ObjBackup a)) | None \<Rightarrow> State_Monad.return None
   }"

definition PBSBackupList_DeepCopyObject :: "library \<Rightarrow> nat option \<Rightarrow> (cell, runtime_object option) mem" where
  "PBSBackupList_DeepCopyObject L i = do {
     c \<leftarrow> PBSBackupList_DeepCopy L i;
     case c of Some a \<Rightarrow> State_Monad.return (Some (ObjBackupList a)) | None \<Rightarrow> State_Monad.return None
   }"

definition PBSRepo_DeepCopyObject :: "library \<Rightarrow> nat option \<Rightarrow> (cell, runtime_object option) mem" where
  "PBSRepo_DeepCopyObject L i = do {
     c \<leftarrow> PBSRepo_DeepCopy L i;
     case c of Some a \<Rightarrow> State_Monad.return (Some (ObjRepo a)) | None \<Rightarrow> State_Monad.return None
   }"

definition PBSRepoList_DeepCopyObject :: "library \<Rightarrow> nat option \<Rightarrow> (cell, runtime_object option) mem" where
  "PBSRepoList_DeepCopyObject L i = do {
     c \<leftarrow> PBSRepoList_DeepCopy L i;
     case c of Some a \<Rightarrow> State_Monad.return (Some (ObjRepoList a)) | None \<Rightarrow> State_Monad.return None
   }"

definition PBSRestore_DeepCopyObject :: "library \<Rightarrow> nat option \<Rightarrow> (cell, runtime_object option) mem" where
  "PBSRestore_DeepCopyObject L i = do {
     c \<leftarrow> PBSRestore_DeepCopy L i;
     case c of Some a \<Rightarrow> State_Monad.return (Some (ObjRestore a)) | None \<Rightarrow> State_Monad.return None
   }"

definition PBSRestoreList_DeepCopyObject :: "library \<Rightarrow> nat option \<Rightarrow> (cell, runtime_object option) mem" where
  "PBSRestoreList_DeepCopyObject L i = do {
     c \<leftarrow> PBSRestoreList_DeepCopy L i;
     case c of Some a \<Rightarrow> State_Monad.return (Some (ObjRestoreList a)) | None \<Rightarrow> State_Monad.return None
   }"

definition PBSSchedule_DeepCopyObject :: "library \<Rightarrow> nat option \<Rightarrow> (cell, runtime_object option) mem" where
  "PBSSchedule_DeepCopyObject L i = do {
     c \<leftarrow> PBSSchedule_DeepCopy L i;
     case c of Some a \<Rightarrow> State_Monad.return (Some (ObjSchedule a)) | None \<Rightarrow> State_Monad.return None
   }"

definition PBSScheduleList_DeepCopyObject :: "library \<Rightarrow> nat option \<Rightarrow> (cell, runtime_object option) mem" where
  "PBSScheduleList_DeepCopyObject L i = do {
     c \<leftarrow> PBSScheduleList_DeepCopy L i;
     case c of Some a \<Rightarrow> State_Monad.return (Some (ObjScheduleList a)) | None \<Rightarrow> State_Monad.return None
   }"

end
