(* ===== verification/Deep_Copy_Correct.thy ===== *)
theory Deep_Copy_Correct
  imports Deep_Copy
begin

text \<open>
  What the generated deep copies promise, if the library's do: a copy reads as the same value
  (nil and empty slices told apart), is made of new cells only, and nothing done to the original's
  memory changes it.  One lemma per type, composed from the combinators of \<open>Go_Memory\<close> along its
  fields.
\<close>

lemma as_simps [simp]:

  "as_strings (CStrings x0) = Some x0"
  "as_stringMap (CStringMap x1) = Some x1"
  "as_owners (COwners x2) = Some x2"
  "as_requirements (CRequirements x3) = Some x3"
  "as_int64 (CInt64 x4) = Some x4"
  "as_time (CTime x5) = Some x5"
  "as_conditions (CConditions x6) = Some x6"
  "as_backupJobs (CBackupJobs x7) = Some x7"
  "as_restoreJobs (CRestoreJobs x8) = Some x8"
  "as_selector (CSelector x9) = Some x9"
  "as_backupJob (CBackupJob x10) = Some x10"
  "as_restoreJob (CRestoreJob x11) = Some x11"
  "as_secretRef (CSecretRef x12) = Some x12"
  "as_repoSpec (CRepoSpec x13) = Some x13"
  "as_backupSpec (CBackupSpec x14) = Some x14"
  "as_backupStatus (CBackupStatus x15) = Some x15"
  "as_backup (CBackup x16) = Some x16"
  "as_backupTemplate (CBackupTemplate x17) = Some x17"
  "as_repoStatus (CRepoStatus x18) = Some x18"
  "as_repo (CRepo x19) = Some x19"
  "as_restoreSpec (CRestoreSpec x20) = Some x20"
  "as_restoreStatus (CRestoreStatus x21) = Some x21"
  "as_restore (CRestore x22) = Some x22"
  "as_scheduleSpec (CScheduleSpec x23) = Some x23"
  "as_scheduleStatus (CScheduleStatus x24) = Some x24"
  "as_schedule (CSchedule x25) = Some x25"
  "as_backups (CBackups x26) = Some x26"
  "as_backupList (CBackupList x27) = Some x27"
  "as_repos (CRepos x28) = Some x28"
  "as_repoList (CRepoList x29) = Some x29"
  "as_restores (CRestores x30) = Some x30"
  "as_restoreList (CRestoreList x31) = Some x31"
  "as_schedules (CSchedules x32) = Some x32"
  "as_scheduleList (CScheduleList x33) = Some x33"
  by (simp_all add: as_defs)

section \<open>The values of structs\<close>

text \<open>A value is the fields of the struct without references, with what the references hold.\<close>

abbreviation "time_val \<equiv> slice_val as_time"
abbreviation "conditions_val \<equiv> ptr_val as_conditions (list_val (\<lambda>m. Some))"
abbreviation "conditions_owns \<equiv> ptr_owns as_conditions (list_owns (\<lambda>m g. {}))"

definition meta_val where
  "meta_val m g = map_option (Pair (gm_name g, gm_namespace g, gm_uid g, gm_generation g, gm_creation g))
     (pair_val time_val (pair_val (slice_val as_stringMap) (pair_val (slice_val as_stringMap) (slice_val as_owners))) m
        (gm_deletion g, gm_labels g, gm_annotations g, gm_owners g))"

definition meta_owns where
  "meta_owns m g = pair_owns slice_owns (pair_owns slice_owns (pair_owns slice_owns slice_owns)) m
     (gm_deletion g, gm_labels g, gm_annotations g, gm_owners g)"

definition listMeta_val where
  "listMeta_val m g = map_option (Pair (glm_resourceVersion g, glm_continue g)) (slice_val as_int64 m (glm_remaining g))"

definition listMeta_owns where
  "listMeta_owns m g = slice_owns m (glm_remaining g)"

definition selector_val where
  "selector_val m g = pair_val (slice_val as_stringMap) (slice_val as_requirements) m
     (gsel_matchLabels g, gsel_matchExpressions g)"

definition selector_owns where
  "selector_owns m g = pair_owns slice_owns slice_owns m (gsel_matchLabels g, gsel_matchExpressions g)"

text \<open>The documented behaviour of the library's deep copies.\<close>

definition library_ok :: "library \<Rightarrow> bool" where
  "library_ok L \<longleftrightarrow> deep_copy (l_meta L) meta_val meta_owns \<and>
     deep_copy (l_listMeta L) listMeta_val listMeta_owns \<and>
     deep_copy (l_selector L) selector_val selector_owns \<and>
     deep_copy (l_condition L) (\<lambda>m. Some) (\<lambda>m c. {}) \<and>
     deep_copy (copy_time L) time_val slice_owns"

definition BackupSpec_val where
  "BackupSpec_val m g = map_option (Pair (gbs_repoRef g, gbs_notes g))
     (pair_val (slice_val as_strings) (ptr_val as_selector selector_val) m (gbs_pvcs g, gbs_selector g))"

definition BackupSpec_owns where
  "BackupSpec_owns m g = pair_owns slice_owns (ptr_owns as_selector selector_owns) m (gbs_pvcs g, gbs_selector g)"

definition BackupStatus_val where
  "BackupStatus_val m g = map_option (Pair (gbst_phase g, gbst_snapshotRef g, gbst_bytes g))
     (pair_val (slice_val as_backupJobs) (pair_val time_val (pair_val time_val conditions_val)) m (gbst_jobs g, gbst_startedAt g, gbst_completedAt g, gbst_conditions g))"

definition BackupStatus_owns where
  "BackupStatus_owns m g = pair_owns slice_owns (pair_owns slice_owns (pair_owns slice_owns conditions_owns)) m (gbst_jobs g, gbst_startedAt g, gbst_completedAt g, gbst_conditions g)"

definition Backup_val where
  "Backup_val m g = map_option (Pair (gb_type g))
     (pair_val meta_val (pair_val BackupSpec_val BackupStatus_val) m (gb_meta g, gb_spec g, gb_status g))"

definition Backup_owns where
  "Backup_owns m g = pair_owns meta_owns (pair_owns BackupSpec_owns BackupStatus_owns) m (gb_meta g, gb_spec g, gb_status g)"

definition BackupList_val where
  "BackupList_val m g = map_option (Pair (gbl_type g))
     (pair_val listMeta_val (ptr_val as_backups (list_val Backup_val)) m (gbl_meta g, gbl_items g))"

definition BackupList_owns where
  "BackupList_owns m g = pair_owns listMeta_owns (ptr_owns as_backups (list_owns Backup_owns)) m (gbl_meta g, gbl_items g)"

definition BackupTemplate_val where
  "BackupTemplate_val m g = map_option (Pair (gbt_notes g))
     (pair_val (slice_val as_strings) (ptr_val as_selector selector_val) m (gbt_pvcs g, gbt_selector g))"

definition BackupTemplate_owns where
  "BackupTemplate_owns m g = pair_owns slice_owns (ptr_owns as_selector selector_owns) m (gbt_pvcs g, gbt_selector g)"

definition RepoStatus_val where
  "RepoStatus_val m g = map_option (Pair ())
     (pair_val conditions_val time_val m (grps_conditions g, grps_lastProbe g))"

definition RepoStatus_owns where
  "RepoStatus_owns m g = pair_owns conditions_owns slice_owns m (grps_conditions g, grps_lastProbe g)"

definition Repo_val where
  "Repo_val m g = map_option (Pair (grp_type g, grp_spec g))
     (pair_val meta_val RepoStatus_val m (grp_meta g, grp_status g))"

definition Repo_owns where
  "Repo_owns m g = pair_owns meta_owns RepoStatus_owns m (grp_meta g, grp_status g)"

definition RepoList_val where
  "RepoList_val m g = map_option (Pair (grpl_type g))
     (pair_val listMeta_val (ptr_val as_repos (list_val Repo_val)) m (grpl_meta g, grpl_items g))"

definition RepoList_owns where
  "RepoList_owns m g = pair_owns listMeta_owns (ptr_owns as_repos (list_owns Repo_owns)) m (grpl_meta g, grpl_items g)"

definition RestoreSpec_val where
  "RestoreSpec_val m g = map_option (Pair (grs_repoRef g, grs_snapshotRef g, grs_targetNamespace g))
     (pair_val (slice_val as_strings) (slice_val as_strings) m (grs_dropKinds g, grs_keepKinds g))"

definition RestoreSpec_owns where
  "RestoreSpec_owns m g = pair_owns slice_owns slice_owns m (grs_dropKinds g, grs_keepKinds g)"

definition RestoreStatus_val where
  "RestoreStatus_val m g = map_option (Pair (grst_phase g))
     (pair_val conditions_val (pair_val time_val (pair_val time_val (slice_val as_restoreJobs))) m (grst_conditions g, grst_startedAt g, grst_completedAt g, grst_jobs g))"

definition RestoreStatus_owns where
  "RestoreStatus_owns m g = pair_owns conditions_owns (pair_owns slice_owns (pair_owns slice_owns slice_owns)) m (grst_conditions g, grst_startedAt g, grst_completedAt g, grst_jobs g)"

definition Restore_val where
  "Restore_val m g = map_option (Pair (gr_type g))
     (pair_val meta_val (pair_val RestoreSpec_val RestoreStatus_val) m (gr_meta g, gr_spec g, gr_status g))"

definition Restore_owns where
  "Restore_owns m g = pair_owns meta_owns (pair_owns RestoreSpec_owns RestoreStatus_owns) m (gr_meta g, gr_spec g, gr_status g)"

definition RestoreList_val where
  "RestoreList_val m g = map_option (Pair (grl_type g))
     (pair_val listMeta_val (ptr_val as_restores (list_val Restore_val)) m (grl_meta g, grl_items g))"

definition RestoreList_owns where
  "RestoreList_owns m g = pair_owns listMeta_owns (ptr_owns as_restores (list_owns Restore_owns)) m (grl_meta g, grl_items g)"

definition ScheduleSpec_val where
  "ScheduleSpec_val m g = map_option (Pair (gsch_repoRef g, gsch_schedule g, gsch_suspend g))
     (BackupTemplate_val m (gsch_template g))"

definition ScheduleSpec_owns where
  "ScheduleSpec_owns m g = BackupTemplate_owns m (gsch_template g)"

definition ScheduleStatus_val where
  "ScheduleStatus_val m g = map_option (Pair ())
     (pair_val time_val (pair_val time_val (pair_val (slice_val as_strings) conditions_val)) m (gscs_lastSchedule g, gscs_nextSchedule g, gscs_active g, gscs_conditions g))"

definition ScheduleStatus_owns where
  "ScheduleStatus_owns m g = pair_owns slice_owns (pair_owns slice_owns (pair_owns slice_owns conditions_owns)) m (gscs_lastSchedule g, gscs_nextSchedule g, gscs_active g, gscs_conditions g)"

definition Schedule_val where
  "Schedule_val m g = map_option (Pair (gs_type g))
     (pair_val meta_val (pair_val ScheduleSpec_val ScheduleStatus_val) m (gs_meta g, gs_spec g, gs_status g))"

definition Schedule_owns where
  "Schedule_owns m g = pair_owns meta_owns (pair_owns ScheduleSpec_owns ScheduleStatus_owns) m (gs_meta g, gs_spec g, gs_status g)"

definition ScheduleList_val where
  "ScheduleList_val m g = map_option (Pair (gsl_type g))
     (pair_val listMeta_val (ptr_val as_schedules (list_val Schedule_val)) m (gsl_meta g, gsl_items g))"

definition ScheduleList_owns where
  "ScheduleList_owns m g = pair_owns listMeta_owns (ptr_owns as_schedules (list_owns Schedule_owns)) m (gsl_meta g, gsl_items g)"

section \<open>Every generated copy is a deep copy\<close>

lemma library_laws:
  assumes "library_ok L"
  shows deep_meta: "deep_copy (l_meta L) meta_val meta_owns"
    and deep_listMeta: "deep_copy (l_listMeta L) listMeta_val listMeta_owns"
    and deep_time: "deep_copy (copy_time L) time_val slice_owns"
    and deep_selector: "deep_copy (copy_selector L) (ptr_val as_selector selector_val) (ptr_owns as_selector selector_owns)"
    and deep_conditions: "deep_copy (copy_conditions L) conditions_val conditions_owns"
  using assms unfolding library_ok_def copy_selector_def copy_conditions_def
  by (auto intro: deep_new deep_items)

text \<open>A copier written as in the code is the composition of the copiers of its fields.\<close>

lemma deep_code:
  assumes "deep_copy c v owns" "\<And>g x. flds (put g x) = x" "\<And>g x. mk (put g x) = mk g"
    and "\<And>g. copy g = do { x \<leftarrow> c (flds g); State_Monad.return (put g x) }"
    and "\<And>m g. val m g = map_option (mk g) (v m (flds g))" "\<And>m g. own m g = owns m (flds g)"
  shows "deep_copy copy val own"
proof -
  have "copy = (\<lambda>g. do { x \<leftarrow> c (flds g); State_Monad.return (put g x) })"
    "val = (\<lambda>m g. map_option (mk g) (v m (flds g)))" "own = (\<lambda>m g. owns m (flds g))"
    using assms(4-6) by (simp_all add: fun_eq_iff)
  then show ?thesis using deep_struct [of c v owns flds put mk, OF assms(1-3)] by simp
qed

lemma deep_BackupSpec:
  assumes "library_ok L"
  shows "deep_copy (PBSBackupSpec_DeepCopyInto L) BackupSpec_val BackupSpec_owns"
  by (rule deep_code [where flds = "\<lambda>g. (gbs_pvcs g, gbs_selector g)" and put = "\<lambda>g (x0, x1). g\<lparr>gbs_pvcs := x0, gbs_selector := x1\<rparr>"
        and mk = "\<lambda>g. Pair (gbs_repoRef g, gbs_notes g)", OF deep_pair [OF deep_slice deep_selector [OF assms]]])
    (auto simp: PBSBackupSpec_DeepCopyInto_def BackupSpec_val_def BackupSpec_owns_def copy_pair_def)

lemma deep_BackupStatus:
  assumes "library_ok L"
  shows "deep_copy (PBSBackupStatus_DeepCopyInto L) BackupStatus_val BackupStatus_owns"
  by (rule deep_code [where flds = "\<lambda>g. (gbst_jobs g, gbst_startedAt g, gbst_completedAt g, gbst_conditions g)" and put = "\<lambda>g (x0, x1, x2, x3). g\<lparr>gbst_jobs := x0, gbst_startedAt := x1, gbst_completedAt := x2, gbst_conditions := x3\<rparr>"
        and mk = "\<lambda>g. Pair (gbst_phase g, gbst_snapshotRef g, gbst_bytes g)", OF deep_pair [OF deep_slice deep_pair [OF deep_time [OF assms] deep_pair [OF deep_time [OF assms] deep_conditions [OF assms]]]]])
    (auto simp: PBSBackupStatus_DeepCopyInto_def BackupStatus_val_def BackupStatus_owns_def copy_pair_def)

lemma deep_Backup:
  assumes "library_ok L"
  shows "deep_copy (PBSBackup_DeepCopyInto L) Backup_val Backup_owns"
  by (rule deep_code [where flds = "\<lambda>g. (gb_meta g, gb_spec g, gb_status g)" and put = "\<lambda>g (x0, x1, x2). g\<lparr>gb_meta := x0, gb_spec := x1, gb_status := x2\<rparr>"
        and mk = "\<lambda>g. Pair (gb_type g)", OF deep_pair [OF deep_meta [OF assms] deep_pair [OF deep_BackupSpec [OF assms] deep_BackupStatus [OF assms]]]])
    (auto simp: PBSBackup_DeepCopyInto_def Backup_val_def Backup_owns_def copy_pair_def)

lemma deep_BackupList:
  assumes "library_ok L"
  shows "deep_copy (PBSBackupList_DeepCopyInto L) BackupList_val BackupList_owns"
  by (rule deep_code [where flds = "\<lambda>g. (gbl_meta g, gbl_items g)" and put = "\<lambda>g (x0, x1). g\<lparr>gbl_meta := x0, gbl_items := x1\<rparr>"
        and mk = "\<lambda>g. Pair (gbl_type g)", OF deep_pair [OF deep_listMeta [OF assms] deep_items [OF deep_Backup [OF assms]]]])
    (auto simp: PBSBackupList_DeepCopyInto_def BackupList_val_def BackupList_owns_def copy_pair_def)

lemma deep_BackupTemplate:
  assumes "library_ok L"
  shows "deep_copy (PBSBackupTemplate_DeepCopyInto L) BackupTemplate_val BackupTemplate_owns"
  by (rule deep_code [where flds = "\<lambda>g. (gbt_pvcs g, gbt_selector g)" and put = "\<lambda>g (x0, x1). g\<lparr>gbt_pvcs := x0, gbt_selector := x1\<rparr>"
        and mk = "\<lambda>g. Pair (gbt_notes g)", OF deep_pair [OF deep_slice deep_selector [OF assms]]])
    (auto simp: PBSBackupTemplate_DeepCopyInto_def BackupTemplate_val_def BackupTemplate_owns_def copy_pair_def)

lemma deep_RepoStatus:
  assumes "library_ok L"
  shows "deep_copy (PBSRepoStatus_DeepCopyInto L) RepoStatus_val RepoStatus_owns"
  by (rule deep_code [where flds = "\<lambda>g. (grps_conditions g, grps_lastProbe g)" and put = "\<lambda>g (x0, x1). g\<lparr>grps_conditions := x0, grps_lastProbe := x1\<rparr>"
        and mk = "\<lambda>g. Pair ()", OF deep_pair [OF deep_conditions [OF assms] deep_time [OF assms]]])
    (auto simp: PBSRepoStatus_DeepCopyInto_def RepoStatus_val_def RepoStatus_owns_def copy_pair_def)

lemma deep_Repo:
  assumes "library_ok L"
  shows "deep_copy (PBSRepo_DeepCopyInto L) Repo_val Repo_owns"
  by (rule deep_code [where flds = "\<lambda>g. (grp_meta g, grp_status g)" and put = "\<lambda>g (x0, x1). g\<lparr>grp_meta := x0, grp_status := x1\<rparr>"
        and mk = "\<lambda>g. Pair (grp_type g, grp_spec g)", OF deep_pair [OF deep_meta [OF assms] deep_RepoStatus [OF assms]]])
    (auto simp: PBSRepo_DeepCopyInto_def Repo_val_def Repo_owns_def copy_pair_def)

lemma deep_RepoList:
  assumes "library_ok L"
  shows "deep_copy (PBSRepoList_DeepCopyInto L) RepoList_val RepoList_owns"
  by (rule deep_code [where flds = "\<lambda>g. (grpl_meta g, grpl_items g)" and put = "\<lambda>g (x0, x1). g\<lparr>grpl_meta := x0, grpl_items := x1\<rparr>"
        and mk = "\<lambda>g. Pair (grpl_type g)", OF deep_pair [OF deep_listMeta [OF assms] deep_items [OF deep_Repo [OF assms]]]])
    (auto simp: PBSRepoList_DeepCopyInto_def RepoList_val_def RepoList_owns_def copy_pair_def)

lemma deep_RestoreSpec:
  "deep_copy PBSRestoreSpec_DeepCopyInto RestoreSpec_val RestoreSpec_owns"
  by (rule deep_code [where flds = "\<lambda>g. (grs_dropKinds g, grs_keepKinds g)" and put = "\<lambda>g (x0, x1). g\<lparr>grs_dropKinds := x0, grs_keepKinds := x1\<rparr>"
        and mk = "\<lambda>g. Pair (grs_repoRef g, grs_snapshotRef g, grs_targetNamespace g)", OF deep_pair [OF deep_slice deep_slice]])
    (auto simp: PBSRestoreSpec_DeepCopyInto_def RestoreSpec_val_def RestoreSpec_owns_def copy_pair_def)

lemma deep_RestoreStatus:
  assumes "library_ok L"
  shows "deep_copy (PBSRestoreStatus_DeepCopyInto L) RestoreStatus_val RestoreStatus_owns"
  by (rule deep_code [where flds = "\<lambda>g. (grst_conditions g, grst_startedAt g, grst_completedAt g, grst_jobs g)" and put = "\<lambda>g (x0, x1, x2, x3). g\<lparr>grst_conditions := x0, grst_startedAt := x1, grst_completedAt := x2, grst_jobs := x3\<rparr>"
        and mk = "\<lambda>g. Pair (grst_phase g)", OF deep_pair [OF deep_conditions [OF assms] deep_pair [OF deep_time [OF assms] deep_pair [OF deep_time [OF assms] deep_slice]]]])
    (auto simp: PBSRestoreStatus_DeepCopyInto_def RestoreStatus_val_def RestoreStatus_owns_def copy_pair_def)

lemma deep_Restore:
  assumes "library_ok L"
  shows "deep_copy (PBSRestore_DeepCopyInto L) Restore_val Restore_owns"
  by (rule deep_code [where flds = "\<lambda>g. (gr_meta g, gr_spec g, gr_status g)" and put = "\<lambda>g (x0, x1, x2). g\<lparr>gr_meta := x0, gr_spec := x1, gr_status := x2\<rparr>"
        and mk = "\<lambda>g. Pair (gr_type g)", OF deep_pair [OF deep_meta [OF assms] deep_pair [OF deep_RestoreSpec deep_RestoreStatus [OF assms]]]])
    (auto simp: PBSRestore_DeepCopyInto_def Restore_val_def Restore_owns_def copy_pair_def)

lemma deep_RestoreList:
  assumes "library_ok L"
  shows "deep_copy (PBSRestoreList_DeepCopyInto L) RestoreList_val RestoreList_owns"
  by (rule deep_code [where flds = "\<lambda>g. (grl_meta g, grl_items g)" and put = "\<lambda>g (x0, x1). g\<lparr>grl_meta := x0, grl_items := x1\<rparr>"
        and mk = "\<lambda>g. Pair (grl_type g)", OF deep_pair [OF deep_listMeta [OF assms] deep_items [OF deep_Restore [OF assms]]]])
    (auto simp: PBSRestoreList_DeepCopyInto_def RestoreList_val_def RestoreList_owns_def copy_pair_def)

lemma deep_ScheduleSpec:
  assumes "library_ok L"
  shows "deep_copy (PBSScheduleSpec_DeepCopyInto L) ScheduleSpec_val ScheduleSpec_owns"
  by (rule deep_code [where flds = "\<lambda>g. gsch_template g" and put = "\<lambda>g x0. g\<lparr>gsch_template := x0\<rparr>"
        and mk = "\<lambda>g. Pair (gsch_repoRef g, gsch_schedule g, gsch_suspend g)", OF deep_BackupTemplate [OF assms]])
    (auto simp: PBSScheduleSpec_DeepCopyInto_def ScheduleSpec_val_def ScheduleSpec_owns_def copy_pair_def)

lemma deep_ScheduleStatus:
  assumes "library_ok L"
  shows "deep_copy (PBSScheduleStatus_DeepCopyInto L) ScheduleStatus_val ScheduleStatus_owns"
  by (rule deep_code [where flds = "\<lambda>g. (gscs_lastSchedule g, gscs_nextSchedule g, gscs_active g, gscs_conditions g)" and put = "\<lambda>g (x0, x1, x2, x3). g\<lparr>gscs_lastSchedule := x0, gscs_nextSchedule := x1, gscs_active := x2, gscs_conditions := x3\<rparr>"
        and mk = "\<lambda>g. Pair ()", OF deep_pair [OF deep_time [OF assms] deep_pair [OF deep_time [OF assms] deep_pair [OF deep_slice deep_conditions [OF assms]]]]])
    (auto simp: PBSScheduleStatus_DeepCopyInto_def ScheduleStatus_val_def ScheduleStatus_owns_def copy_pair_def)

lemma deep_Schedule:
  assumes "library_ok L"
  shows "deep_copy (PBSSchedule_DeepCopyInto L) Schedule_val Schedule_owns"
  by (rule deep_code [where flds = "\<lambda>g. (gs_meta g, gs_spec g, gs_status g)" and put = "\<lambda>g (x0, x1, x2). g\<lparr>gs_meta := x0, gs_spec := x1, gs_status := x2\<rparr>"
        and mk = "\<lambda>g. Pair (gs_type g)", OF deep_pair [OF deep_meta [OF assms] deep_pair [OF deep_ScheduleSpec [OF assms] deep_ScheduleStatus [OF assms]]]])
    (auto simp: PBSSchedule_DeepCopyInto_def Schedule_val_def Schedule_owns_def copy_pair_def)

lemma deep_ScheduleList:
  assumes "library_ok L"
  shows "deep_copy (PBSScheduleList_DeepCopyInto L) ScheduleList_val ScheduleList_owns"
  by (rule deep_code [where flds = "\<lambda>g. (gsl_meta g, gsl_items g)" and put = "\<lambda>g (x0, x1). g\<lparr>gsl_meta := x0, gsl_items := x1\<rparr>"
        and mk = "\<lambda>g. Pair (gsl_type g)", OF deep_pair [OF deep_listMeta [OF assms] deep_items [OF deep_Schedule [OF assms]]]])
    (auto simp: PBSScheduleList_DeepCopyInto_def ScheduleList_val_def ScheduleList_owns_def copy_pair_def)

section \<open>Objects behind pointers\<close>

text \<open>A \<open>DeepCopy\<close> of a pointer.\<close>

lemma deep_BackupSpec_pointer:
  assumes "library_ok L"
  shows "deep_copy (PBSBackupSpec_DeepCopy L) (ptr_val as_backupSpec BackupSpec_val) (ptr_owns as_backupSpec BackupSpec_owns)"
  unfolding PBSBackupSpec_DeepCopy_def by (rule deep_new [OF deep_BackupSpec [OF assms]]) simp

lemma deep_BackupStatus_pointer:
  assumes "library_ok L"
  shows "deep_copy (PBSBackupStatus_DeepCopy L) (ptr_val as_backupStatus BackupStatus_val) (ptr_owns as_backupStatus BackupStatus_owns)"
  unfolding PBSBackupStatus_DeepCopy_def by (rule deep_new [OF deep_BackupStatus [OF assms]]) simp

lemma deep_Backup_pointer:
  assumes "library_ok L"
  shows "deep_copy (PBSBackup_DeepCopy L) (ptr_val as_backup Backup_val) (ptr_owns as_backup Backup_owns)"
  unfolding PBSBackup_DeepCopy_def by (rule deep_new [OF deep_Backup [OF assms]]) simp

lemma deep_BackupList_pointer:
  assumes "library_ok L"
  shows "deep_copy (PBSBackupList_DeepCopy L) (ptr_val as_backupList BackupList_val) (ptr_owns as_backupList BackupList_owns)"
  unfolding PBSBackupList_DeepCopy_def by (rule deep_new [OF deep_BackupList [OF assms]]) simp

lemma deep_BackupTemplate_pointer:
  assumes "library_ok L"
  shows "deep_copy (PBSBackupTemplate_DeepCopy L) (ptr_val as_backupTemplate BackupTemplate_val) (ptr_owns as_backupTemplate BackupTemplate_owns)"
  unfolding PBSBackupTemplate_DeepCopy_def by (rule deep_new [OF deep_BackupTemplate [OF assms]]) simp

lemma deep_RepoStatus_pointer:
  assumes "library_ok L"
  shows "deep_copy (PBSRepoStatus_DeepCopy L) (ptr_val as_repoStatus RepoStatus_val) (ptr_owns as_repoStatus RepoStatus_owns)"
  unfolding PBSRepoStatus_DeepCopy_def by (rule deep_new [OF deep_RepoStatus [OF assms]]) simp

lemma deep_Repo_pointer:
  assumes "library_ok L"
  shows "deep_copy (PBSRepo_DeepCopy L) (ptr_val as_repo Repo_val) (ptr_owns as_repo Repo_owns)"
  unfolding PBSRepo_DeepCopy_def by (rule deep_new [OF deep_Repo [OF assms]]) simp

lemma deep_RepoList_pointer:
  assumes "library_ok L"
  shows "deep_copy (PBSRepoList_DeepCopy L) (ptr_val as_repoList RepoList_val) (ptr_owns as_repoList RepoList_owns)"
  unfolding PBSRepoList_DeepCopy_def by (rule deep_new [OF deep_RepoList [OF assms]]) simp

lemma deep_RestoreSpec_pointer:
  "deep_copy PBSRestoreSpec_DeepCopy (ptr_val as_restoreSpec RestoreSpec_val) (ptr_owns as_restoreSpec RestoreSpec_owns)"
  unfolding PBSRestoreSpec_DeepCopy_def by (rule deep_new [OF deep_RestoreSpec]) simp

lemma deep_RestoreStatus_pointer:
  assumes "library_ok L"
  shows "deep_copy (PBSRestoreStatus_DeepCopy L) (ptr_val as_restoreStatus RestoreStatus_val) (ptr_owns as_restoreStatus RestoreStatus_owns)"
  unfolding PBSRestoreStatus_DeepCopy_def by (rule deep_new [OF deep_RestoreStatus [OF assms]]) simp

lemma deep_Restore_pointer:
  assumes "library_ok L"
  shows "deep_copy (PBSRestore_DeepCopy L) (ptr_val as_restore Restore_val) (ptr_owns as_restore Restore_owns)"
  unfolding PBSRestore_DeepCopy_def by (rule deep_new [OF deep_Restore [OF assms]]) simp

lemma deep_RestoreList_pointer:
  assumes "library_ok L"
  shows "deep_copy (PBSRestoreList_DeepCopy L) (ptr_val as_restoreList RestoreList_val) (ptr_owns as_restoreList RestoreList_owns)"
  unfolding PBSRestoreList_DeepCopy_def by (rule deep_new [OF deep_RestoreList [OF assms]]) simp

lemma deep_ScheduleSpec_pointer:
  assumes "library_ok L"
  shows "deep_copy (PBSScheduleSpec_DeepCopy L) (ptr_val as_scheduleSpec ScheduleSpec_val) (ptr_owns as_scheduleSpec ScheduleSpec_owns)"
  unfolding PBSScheduleSpec_DeepCopy_def by (rule deep_new [OF deep_ScheduleSpec [OF assms]]) simp

lemma deep_ScheduleStatus_pointer:
  assumes "library_ok L"
  shows "deep_copy (PBSScheduleStatus_DeepCopy L) (ptr_val as_scheduleStatus ScheduleStatus_val) (ptr_owns as_scheduleStatus ScheduleStatus_owns)"
  unfolding PBSScheduleStatus_DeepCopy_def by (rule deep_new [OF deep_ScheduleStatus [OF assms]]) simp

lemma deep_Schedule_pointer:
  assumes "library_ok L"
  shows "deep_copy (PBSSchedule_DeepCopy L) (ptr_val as_schedule Schedule_val) (ptr_owns as_schedule Schedule_owns)"
  unfolding PBSSchedule_DeepCopy_def by (rule deep_new [OF deep_Schedule [OF assms]]) simp

lemma deep_ScheduleList_pointer:
  assumes "library_ok L"
  shows "deep_copy (PBSScheduleList_DeepCopy L) (ptr_val as_scheduleList ScheduleList_val) (ptr_owns as_scheduleList ScheduleList_owns)"
  unfolding PBSScheduleList_DeepCopy_def by (rule deep_new [OF deep_ScheduleList [OF assms]]) simp

text \<open>The copies that need nothing of the library are deep copies as they are.\<close>

interpretation restore_spec: deep_copy PBSRestoreSpec_DeepCopyInto RestoreSpec_val RestoreSpec_owns
  by (rule deep_RestoreSpec)

interpretation backup_job: deep_copy BackupJobStatus_DeepCopyInto "\<lambda>m. Some" "\<lambda>m g. {}"
  unfolding BackupJobStatus_DeepCopyInto_def [abs_def] by (rule deep_flat)

interpretation restore_job: deep_copy RestoreJobStatus_DeepCopyInto "\<lambda>m. Some" "\<lambda>m g. {}"
  unfolding RestoreJobStatus_DeepCopyInto_def [abs_def] by (rule deep_flat)

interpretation secret_reference: deep_copy NamespacedSecretRef_DeepCopyInto "\<lambda>m. Some" "\<lambda>m g. {}"
  unfolding NamespacedSecretRef_DeepCopyInto_def [abs_def] by (rule deep_flat)

interpretation repo_spec: deep_copy PBSRepoSpec_DeepCopyInto "\<lambda>m. Some" "\<lambda>m g. {}"
  unfolding PBSRepoSpec_DeepCopyInto_def [abs_def] by (simp add: deep_flat)

section \<open>The contract of a copy\<close>

text \<open>A well-typed pointer is copied to a well-typed one of the same value, which shares nothing with
  it; the original is untouched; whatever is written later to the memory that was there before the
  copy, or allocated after it, the copy keeps its value; and whatever is written to the memory the
  copy allocated, or allocated after it, the original keeps its own.\<close>

definition independent_copy :: "(nat option \<Rightarrow> ('c, nat option) mem) \<Rightarrow> ('c list \<Rightarrow> nat option \<Rightarrow> 'v option) \<Rightarrow>
    ('c list \<Rightarrow> nat option \<Rightarrow> nat set) \<Rightarrow> bool" where
  "independent_copy copy val owns \<longleftrightarrow> (\<forall>m p v q m'. val m p = Some v \<longrightarrow> run_state (copy p) m = (q, m') \<longrightarrow>
     val m' p = Some v \<and> val m' q = Some v \<and> owns m' q \<inter> owns m' p = {} \<and>
     (\<forall>m''. length m' \<le> length m'' \<longrightarrow>
        ((\<forall>a. length m \<le> a \<longrightarrow> a < length m' \<longrightarrow> m'' ! a = m' ! a) \<longrightarrow> val m'' q = Some v) \<and>
        ((\<forall>a < length m. m'' ! a = m ! a) \<longrightarrow> val m'' p = Some v)))"

lemma deep_independent:
  fixes copy :: "nat option \<Rightarrow> ('c, nat option) mem"
  assumes d: "deep_copy copy val owns"
  shows "independent_copy copy val owns"
  unfolding independent_copy_def
proof (intro allI impI conjI)
  fix m p v q m' assume v: "val m p = Some v" "run_state (copy p) m = (q, m')"
  show "val m' p = Some v" using deep_copy.original_kept [OF d v] ..
  show "val m' q = Some v" using deep_copy.copies [OF d v] by simp
  show "owns m' q \<inter> owns m' p = {}" by (rule deep_copy.disjoint [OF d v])
  fix m'' :: "'c list" assume len: "length m' \<le> length m''"
  show "val m'' q = Some v" if "\<forall>a. length m \<le> a \<longrightarrow> a < length m' \<longrightarrow> m'' ! a = m' ! a"
    using deep_copy.independent [OF d v len] that by blast
  show "val m'' p = Some v" if "\<forall>a < length m. m'' ! a = m ! a"
    using deep_copy.original_independent [OF d v len] that by blast
qed

text \<open>C36: the generated copies are deep.  Given the documented behaviour of the library's copies,
  \<open>DeepCopy\<close> of every root type and of every list type copies a well-typed object to a well-typed one
  with the same value, nil and empty slices told apart, made of new memory only: no later write
  through the original can change the copy, nor one through the copy the original.\<close>

theorem DeepCopy_independent:
  assumes "library_ok L"
  shows "independent_copy (PBSBackup_DeepCopy L) (ptr_val as_backup Backup_val) (ptr_owns as_backup Backup_owns) \<and>
    independent_copy (PBSRepo_DeepCopy L) (ptr_val as_repo Repo_val) (ptr_owns as_repo Repo_owns) \<and>
    independent_copy (PBSRestore_DeepCopy L) (ptr_val as_restore Restore_val) (ptr_owns as_restore Restore_owns) \<and>
    independent_copy (PBSSchedule_DeepCopy L) (ptr_val as_schedule Schedule_val) (ptr_owns as_schedule Schedule_owns) \<and>
    independent_copy (PBSBackupList_DeepCopy L) (ptr_val as_backupList BackupList_val) (ptr_owns as_backupList BackupList_owns) \<and>
    independent_copy (PBSRepoList_DeepCopy L) (ptr_val as_repoList RepoList_val) (ptr_owns as_repoList RepoList_owns) \<and>
    independent_copy (PBSRestoreList_DeepCopy L) (ptr_val as_restoreList RestoreList_val) (ptr_owns as_restoreList RestoreList_owns) \<and>
    independent_copy (PBSScheduleList_DeepCopy L) (ptr_val as_scheduleList ScheduleList_val) (ptr_owns as_scheduleList ScheduleList_owns)"
  by (intro conjI deep_independent deep_Backup_pointer deep_Repo_pointer deep_Restore_pointer deep_Schedule_pointer
      deep_BackupList_pointer deep_RepoList_pointer deep_RestoreList_pointer deep_ScheduleList_pointer assms)

text \<open>The interface method never hides a nil pointer in a non-nil object.\<close>

lemma DeepCopyObject_nil:
  "run_state (PBSBackup_DeepCopyObject L None) m = (None, m)" "run_state (PBSRepo_DeepCopyObject L None) m = (None, m)"
  "run_state (PBSRestore_DeepCopyObject L None) m = (None, m)" "run_state (PBSSchedule_DeepCopyObject L None) m = (None, m)"
  by (simp_all add: PBSBackup_DeepCopyObject_def PBSRepo_DeepCopyObject_def PBSRestore_DeepCopyObject_def
      PBSSchedule_DeepCopyObject_def PBSBackup_DeepCopy_def PBSRepo_DeepCopy_def PBSRestore_DeepCopy_def
      PBSSchedule_DeepCopy_def copy_new_def)

end
