(* ===== verification/Status_Memory.thy ===== *)
theory Status_Memory
  imports Deep_Copy_Correct Backup_Controller
begin

text \<open>
  \<open>recordOutcome\<close> of the backup controller on Go's memory.  The function changes the status in place
  (\<open>SetStatusCondition\<close> writes through a pointer into the conditions) and then compares it with a
  copy taken before, so it rests on the copy being deep.  The lemmas show that the model of
  \<open>Backup_Controller\<close>, which passes statuses by value, is what this code computes.
\<close>

section \<open>The function\<close>

text \<open>\<open>extra\<close> is given the status behind its pointer and gives what it leaves there.  The result is the
  copy taken before, the flag, and whether the function returns without a patch.\<close>

definition deep_equal_statuses :: "nat option \<Rightarrow> nat \<Rightarrow> (cell, bool) mem" where
  "deep_equal_statuses before b = State (\<lambda>m.
     (BackupStatus_val m (gb_status (the (as_backup (m ! the before)))) =
      BackupStatus_val m (gb_status (the (as_backup (m ! b)))), m))"

definition recordOutcome_mem :: "library \<Rightarrow> (nat option \<Rightarrow> condition \<Rightarrow> (cell, nat option \<times> bool) mem) \<Rightarrow>
    (gBackupStatus \<Rightarrow> (cell, gBackupStatus) mem) \<Rightarrow> nat \<Rightarrow> backup_phase \<Rightarrow> condition \<Rightarrow>
    (cell, nat option \<times> bool \<times> bool) mem" where
  "recordOutcome_mem L setc extra b phase cond = do {
     before \<leftarrow> PBSBackup_DeepCopy L (Some b);
     c \<leftarrow> load b;
     (conds, transitioned) \<leftarrow> setc (gbst_conditions (gb_status (the (as_backup c))))
        (cond\<lparr>cond_generation := gm_generation (gb_meta (the (as_backup c)))\<rparr>);
     store b (CBackup ((the (as_backup c))\<lparr>gb_status :=
        (gb_status (the (as_backup c)))\<lparr>gbst_conditions := conds, gbst_phase := phase\<rparr>\<rparr>));
     c \<leftarrow> load b;
     st \<leftarrow> extra (gb_status (the (as_backup c)));
     store b (CBackup ((the (as_backup c))\<lparr>gb_status := st\<rparr>));
     same \<leftarrow> deep_equal_statuses before b;
     State_Monad.return (before, transitioned, same)
   }"

text \<open>The mutations of the status the callers pass.\<close>

definition jobStatuses_mem :: "placedJob list \<Rightarrow> (cell, nat option) mem" where
  "jobStatuses_mem placed = do { a \<leftarrow> new_cell (CBackupJobs (jobStatuses placed)); State_Monad.return (Some a) }"

definition stamp_time :: "time \<Rightarrow> nat option \<Rightarrow> (cell, nat option) mem" where
  "stamp_time now p = (case p of Some a \<Rightarrow> State_Monad.return p
     | None \<Rightarrow> do { a \<leftarrow> new_cell (CTime now); State_Monad.return (Some a) })"

definition running_mem :: "placedJob list \<Rightarrow> time \<Rightarrow> gBackupStatus \<Rightarrow> (cell, gBackupStatus) mem" where
  "running_mem placed now s = do {
     t \<leftarrow> stamp_time now (gbst_startedAt s);
     jobs \<leftarrow> jobStatuses_mem placed;
     State_Monad.return (s\<lparr>gbst_startedAt := t, gbst_jobs := jobs\<rparr>)
   }"

definition failed_mem :: "placedJob list \<Rightarrow> time \<Rightarrow> gBackupStatus \<Rightarrow> (cell, gBackupStatus) mem" where
  "failed_mem placed now s = do {
     jobs \<leftarrow> jobStatuses_mem placed;
     t \<leftarrow> stamp_time now (gbst_completedAt s);
     State_Monad.return (s\<lparr>gbst_jobs := jobs, gbst_completedAt := t\<rparr>)
   }"

definition completed_mem :: "nat \<Rightarrow> BackupJobStatus list \<Rightarrow> int \<Rightarrow> string \<Rightarrow> time \<Rightarrow> gBackupStatus \<Rightarrow> (cell, gBackupStatus) mem" where
  "completed_mem n statuses bytes singleRef now s = do {
     jobs \<leftarrow> new_cell (CBackupJobs statuses);
     t \<leftarrow> stamp_time now (gbst_completedAt s);
     State_Monad.return (s\<lparr>gbst_jobs := Some jobs, gbst_bytes := bytes,
       gbst_snapshotRef := (if n = 1 then singleRef else gbst_snapshotRef s), gbst_completedAt := t\<rparr>)
   }"

section \<open>Values\<close>

text \<open>The status of the model: a nil and an empty slice are both the empty list.\<close>

type_synonym status_value = "(backup_phase \<times> string \<times> int) \<times> BackupJobStatus list option \<times> time option \<times>
  time option \<times> condition list option"

definition olist :: "'a list option \<Rightarrow> 'a list" where
  "olist x = (case x of None \<Rightarrow> [] | Some xs \<Rightarrow> xs)"

definition abs_status :: "status_value \<Rightarrow> PBSBackupStatus" where
  "abs_status = (\<lambda>((phase, snap, bytes), jobs, started, completed, conds).
     \<lparr>bst_phase = phase, bst_snapshotRef = snap, bst_jobs = olist jobs, bst_startedAt = started,
      bst_completedAt = completed, bst_bytes = bytes, bst_conditions = olist conds\<rparr>)"

text \<open>\<open>meta.SetStatusCondition\<close>: it writes to the conditions it is given and to new memory only, and
  leaves what the value function gives; the conditions are not nil then.\<close>

definition sets_in_place :: "(nat option \<Rightarrow> condition \<Rightarrow> (cell, nat option \<times> bool) mem) \<Rightarrow>
    (condition list \<Rightarrow> condition \<Rightarrow> condition list \<times> bool) \<Rightarrow> bool" where
  "sets_in_place setc f \<longleftrightarrow> (\<forall>m p cs c q t m'. conditions_val m p = Some cs \<longrightarrow> run_state (setc p c) m = ((q, t), m') \<longrightarrow>
     length m \<le> length m' \<and> (\<forall>a < length m. p \<noteq> Some a \<longrightarrow> m' ! a = m ! a) \<and>
     conditions_val m' q = Some (Some (fst (f (olist cs) c))) \<and> t = snd (f (olist cs) c))"

text \<open>A mutation of the status allocates at most, and does what the value function does.\<close>

definition refines_extra :: "(gBackupStatus \<Rightarrow> (cell, gBackupStatus) mem) \<Rightarrow> (PBSBackupStatus \<Rightarrow> PBSBackupStatus) \<Rightarrow> bool" where
  "refines_extra extra e \<longleftrightarrow> (\<forall>m g v g' m'. BackupStatus_val m g = Some v \<longrightarrow> run_state (extra g) m = (g', m') \<longrightarrow>
     extends m' m \<and> (\<exists>v'. BackupStatus_val m' g' = Some v' \<and> abs_status v' = e (abs_status v)))"

section \<open>The mutations of the callers\<close>

lemma BackupStatus_val_Some:
  "BackupStatus_val m g = Some v \<longleftrightarrow> (\<exists>jobs started completed conds.
     slice_val as_backupJobs m (gbst_jobs g) = Some jobs \<and> time_val m (gbst_startedAt g) = Some started \<and>
     time_val m (gbst_completedAt g) = Some completed \<and> conditions_val m (gbst_conditions g) = Some conds \<and>
     v = ((gbst_phase g, gbst_snapshotRef g, gbst_bytes g), jobs, started, completed, conds))"
  by (auto simp: BackupStatus_val_def pair_val_Some)

lemma slice_val_extends:
  "slice_val get m p = Some x \<Longrightarrow> extends m' m \<Longrightarrow> slice_val get m' p = Some x"
  by (rule deep_copy.frame_extends [OF deep_slice, THEN conjunct1])

lemma conditions_val_slice: "conditions_val = slice_val as_conditions"
proof -
  have "list_val (\<lambda>m. Some) m cs = Some cs" for m :: "cell list" and cs :: "condition list"
    by (induction cs) auto
  then show ?thesis
    by (auto simp: fun_eq_iff ptr_val_def slice_val_def split: option.splits)
qed

lemma slice_val_new [simp]: "slice_val get (m @ [c]) (Some (length m)) = map_option Some (get c)"
  by (simp add: slice_val_def)

lemma extends_new [simp]: "extends (m @ [c]) m" "extends (m @ [c, d]) m" "extends m m"
  by (auto simp: extends_def)

lemma slice_val_append: "slice_val get m p = Some x \<Longrightarrow> slice_val get (m @ k) p = Some x"
  by (rule slice_val_extends) (auto simp: extends_def)

lemma slice_val_two [simp]:
  "slice_val get (m @ [c, d]) (Some (length m)) = map_option Some (get c)"
  "slice_val get (m @ [c, d]) (Some (Suc (length m))) = map_option Some (get d)"
  by (simp_all add: slice_val_def nth_append)

text \<open>Stamping a time.\<close>

definition stamped_time :: "time \<Rightarrow> time option \<Rightarrow> time option" where
  "stamped_time now t = (case t of None \<Rightarrow> Some now | Some _ \<Rightarrow> t)"

lemmas mutation_simps =
  BackupStatus_val_Some running_mem_def failed_mem_def completed_mem_def stamp_time_def jobStatuses_mem_def
  abs_status_def olist_def stamped_time_def conditions_val_slice slice_val_append

lemma running_refines: "refines_extra (running_mem placed now)
  (\<lambda>s. s\<lparr>bst_startedAt := stamped_time now (bst_startedAt s), bst_jobs := jobStatuses placed\<rparr>)"
  unfolding refines_extra_def by (auto simp: mutation_simps split: option.splits prod.splits)

lemma failed_refines: "refines_extra (failed_mem placed now)
  (\<lambda>s. s\<lparr>bst_jobs := jobStatuses placed, bst_completedAt := stamped_time now (bst_completedAt s)\<rparr>)"
  unfolding refines_extra_def by (auto simp: mutation_simps split: option.splits prod.splits)

lemma completed_refines: "refines_extra (completed_mem n statuses bytes singleRef now)
  (\<lambda>s. s\<lparr>bst_jobs := statuses, bst_bytes := bytes, bst_snapshotRef := (if n = 1 then singleRef else bst_snapshotRef s),
     bst_completedAt := stamped_time now (bst_completedAt s)\<rparr>)"
  unfolding refines_extra_def by (auto simp: mutation_simps split: option.splits prod.splits)

lemma unchanged_refines: "refines_extra State_Monad.return (\<lambda>s. s)"
  by (auto simp: refines_extra_def)

section \<open>The refinement\<close>

text \<open>Cells of different types are different: a write to a cell of another type leaves a slice alone.\<close>

lemma slice_val_store: "slice_val get m p = Some x \<Longrightarrow> get (m ! a) = None \<Longrightarrow> slice_val get (m[a := c]) p = Some x"
  by (cases "p = Some a") (auto simp: slice_val_def split: option.splits if_splits)

lemma slice_val_elsewhere:
  assumes "slice_val get m p = Some x" "slice_val other m p' = Some y" "\<And>c. other c \<noteq> None \<Longrightarrow> get c = None"
    and "length m \<le> length m'" "\<forall>a < length m. p' \<noteq> Some a \<longrightarrow> m' ! a = m ! a"
  shows "slice_val get m' p = Some x"
  using assms by (fastforce simp: slice_val_def split: option.splits if_splits)

lemma status_store:
  assumes "BackupStatus_val m g = Some v" "as_backup (m ! a) \<noteq> None"
  shows "BackupStatus_val (m[a := c]) g = Some v"
proof -
  have "as_backupJobs (m ! a) = None" "as_time (m ! a) = None" "as_conditions (m ! a) = None"
    using assms(2) by (auto simp: as_defs split: cell.splits)
  with assms(1) show ?thesis
    unfolding BackupStatus_val_Some conditions_val_slice by (metis slice_val_store)
qed

lemma status_set:
  assumes "BackupStatus_val m g = Some ((ph, snap, bytes), jobs, started, completed, conds)"
    and "sets_in_place setc f" "run_state (setc (gbst_conditions g) c) m = ((q, t), m')"
  shows "BackupStatus_val m' (g\<lparr>gbst_conditions := q, gbst_phase := phase\<rparr>) =
    Some ((phase, snap, bytes), jobs, started, completed, Some (fst (f (olist conds) c)))"
proof -
  have v: "slice_val as_backupJobs m (gbst_jobs g) = Some jobs" "time_val m (gbst_startedAt g) = Some started"
    "time_val m (gbst_completedAt g) = Some completed" "conditions_val m (gbst_conditions g) = Some conds"
    "ph = gbst_phase g" "snap = gbst_snapshotRef g" "bytes = gbst_bytes g"
    using assms(1) by (auto simp: BackupStatus_val_Some)
  have s: "length m \<le> length m'" "\<forall>a < length m. gbst_conditions g \<noteq> Some a \<longrightarrow> m' ! a = m ! a"
    "conditions_val m' q = Some (Some (fst (f (olist conds) c)))"
    using assms(2,3) v(4) unfolding sets_in_place_def by blast+
  have "as_conditions c \<noteq> None \<Longrightarrow> as_backupJobs c = None" "as_conditions c \<noteq> None \<Longrightarrow> as_time c = None" for c
    by (auto simp: as_defs split: cell.splits)
  note away = slice_val_elsewhere [OF _ v(4) [unfolded conditions_val_slice] _ s(1,2)]
  show ?thesis
    using away [OF v(1)] away [OF v(2)] away [OF v(3)] s(3) v(5-)
    by (simp add: BackupStatus_val_Some \<open>\<And>c. as_conditions c \<noteq> None \<Longrightarrow> as_backupJobs c = None\<close>
        \<open>\<And>c. as_conditions c \<noteq> None \<Longrightarrow> as_time c = None\<close>)
qed

text \<open>What the function reads of the object, as a value.\<close>

definition object_status :: "'t \<times> 'o \<times> 's \<times> status_value \<Rightarrow> status_value" where
  "object_status = (\<lambda>(ty, meta, spec, st). st)"

definition object_generation :: "'t \<times> ((string \<times> string \<times> string \<times> int \<times> time) \<times> 'r) \<times> 's \<times> 'v \<Rightarrow> int" where
  "object_generation = (\<lambda>(ty, ((name, ns, uid, gen, created), refs), spec, st). gen)"

lemma Backup_val_Some:
  "Backup_val m g = Some v \<longleftrightarrow> (\<exists>me sp st. meta_val m (gb_meta g) = Some me \<and> BackupSpec_val m (gb_spec g) = Some sp \<and>
     BackupStatus_val m (gb_status g) = Some st \<and> v = (gb_type g, me, sp, st))"
  by (auto simp: Backup_val_def pair_val_Some)

lemma meta_generation: "meta_val m g = Some me \<Longrightarrow> object_generation (ty, me, sp, st) = gm_generation g"
  by (auto simp: meta_val_def object_generation_def)

text \<open>One run of the function, step by step: the copy, the condition and the phase, the mutation.\<close>

lemma recordOutcome_mem_run:
  assumes L: "library_ok L" and setc: "sets_in_place setc f" and extra: "refines_extra extra e"
    and b: "ptr_val as_backup Backup_val m (Some a) = Some (Some v)"
    and run: "run_state (recordOutcome_mem L setc extra a phase cond) m = ((before, transitioned, same), m')"
    and old: "s = abs_status (object_status v)" and c': "c = cond\<lparr>cond_generation := object_generation v\<rparr>"
  shows "ptr_val as_backup Backup_val m' before = Some (Some v) \<and>
    transitioned = snd (f (bst_conditions s) c) \<and>
    (\<exists>st. BackupStatus_val m' (gb_status (the (as_backup (m' ! a)))) = Some st \<and>
       abs_status st = e (s\<lparr>bst_conditions := fst (f (bst_conditions s) c), bst_phase := phase\<rparr>) \<and>
       (same \<longleftrightarrow> st = object_status v))"
proof -
  note copy = deep_Backup_pointer [OF L]
  obtain g me sp sv where g: "a < length m" "as_backup (m ! a) = Some g" "v = (gb_type g, me, sp, sv)"
    "meta_val m (gb_meta g) = Some me" "BackupStatus_val m (gb_status g) = Some sv"
    using b by (auto simp: ptr_val_Some Backup_val_Some)
  obtain ph snap bytes jobs started completed conds
    where sv: "sv = ((ph, snap, bytes), jobs, started, completed, conds)" by (metis surj_pair)
  obtain q m1 where m1: "run_state (PBSBackup_DeepCopy L (Some a)) m = (q, m1)" by fastforce
  have ext: "extends m1 m" using deep_copy.copies [OF copy b m1] by simp
  have a1: "a < length m1" "m1 ! a = m ! a" "length m \<le> length m1"
    using ext g(1) by (auto simp: extends_def nth_append)
  have st1: "BackupStatus_val m1 (gb_status g) = Some sv"
    using deep_copy.frame_extends [OF deep_BackupStatus [OF L] g(5) ext] by simp
  let ?c = "cond\<lparr>cond_generation := gm_generation (gb_meta g)\<rparr>"
  obtain cs t m2 where m2: "run_state (setc (gbst_conditions (gb_status g)) ?c) m1 = ((cs, t), m2)"
    by (metis surj_pair)
  have c1: "conditions_val m1 (gbst_conditions (gb_status g)) = Some conds"
    using st1 by (auto simp: sv BackupStatus_val_Some)
  have set2: "length m1 \<le> length m2" "\<forall>x < length m1. gbst_conditions (gb_status g) \<noteq> Some x \<longrightarrow> m2 ! x = m1 ! x"
    "t = snd (f (olist conds) ?c)"
    using setc m2 c1 unfolding sets_in_place_def by blast+
  have cond_at: "x < length m \<and> as_conditions (m ! x) \<noteq> None" if "gbst_conditions (gb_status g) = Some x" for x
    using g(5) that by (auto simp: BackupStatus_val_Some conditions_val_slice slice_val_def split: if_splits)
  have a2: "a < length m2" "m2 ! a = m ! a"
  proof -
    show "a < length m2" using a1 set2 by simp
    have "gbst_conditions (gb_status g) \<noteq> Some a"
      using cond_at [of a] g(2) by (auto simp: as_defs split: cell.splits)
    then show "m2 ! a = m ! a" using set2(2) a1 by simp
  qed
  let ?s2 = "(gb_status g)\<lparr>gbst_conditions := cs, gbst_phase := phase\<rparr>"
  let ?v2 = "((phase, snap, bytes), jobs, started, completed, Some (fst (f (olist conds) ?c)))"
  let ?m3 = "m2[a := CBackup (g\<lparr>gb_status := ?s2\<rparr>)]"
  have st2: "BackupStatus_val m2 ?s2 = Some ?v2"
    using status_set [OF st1 [unfolded sv] setc m2] by simp
  have st3: "BackupStatus_val ?m3 ?s2 = Some ?v2"
    using status_store [OF st2] a2(2) g(2) by simp
  obtain s4 m4 where m4: "run_state (extra ?s2) ?m3 = (s4, m4)" by fastforce
  obtain st where st4: "extends m4 ?m3" "BackupStatus_val m4 s4 = Some st" "abs_status st = e (abs_status ?v2)"
    using extra st3 m4 unfolding refines_extra_def by blast
  have a4: "a < length m4" "length m2 \<le> length m4" "\<forall>x < length m2. m4 ! x = ?m3 ! x"
    using st4(1) a2(1) by (auto simp: extends_def nth_append)
  let ?m5 = "m4[a := CBackup (g\<lparr>gb_status := s4\<rparr>)]"
  have st5: "BackupStatus_val ?m5 s4 = Some st"
    by (rule status_store [OF st4(2)]) (simp add: a4 a2(1))
  have before: "ptr_val as_backup Backup_val ?m5 q = Some (Some v)"
  proof (rule deep_copy.independent [OF copy b m1])
    show "length m1 \<le> length ?m5" using set2(1) a4(2) by simp
    fix x assume x: "length m \<le> x" "x < length m1"
    then have "x \<noteq> a" "gbst_conditions (gb_status g) \<noteq> Some x" using g(1) cond_at by force+
    then show "?m5 ! x = m1 ! x" using x set2 a4(3) by simp
  qed
  obtain q' where q': "q = Some q'"
    using before by (cases q) (auto simp: ptr_val_def)
  have unchanged: "BackupStatus_val ?m5 (gb_status (the (as_backup (?m5 ! q')))) = Some sv"
    using before g(3) by (auto simp: q' ptr_val_Some Backup_val_Some)
  have r: "before = q" "transitioned = t" "m' = ?m5"
    "same \<longleftrightarrow> BackupStatus_val ?m5 (gb_status (the (as_backup (?m5 ! q')))) = BackupStatus_val ?m5 s4"
    using run a2 g(2) a4(1)
    by (auto simp: recordOutcome_mem_def m1 m2 m4 a1(2) a4(3) deep_equal_statuses_def q' split: prod.splits)
  have gen: "object_generation v = gm_generation (gb_meta g)"
    unfolding g(3) by (rule meta_generation [OF g(4)])
  have abs: "object_status v = sv" "abs_status ?v2 = s\<lparr>bst_conditions := fst (f (bst_conditions s) c), bst_phase := phase\<rparr>"
    "olist conds = bst_conditions s"
    by (simp_all add: old c' meta_generation [OF g(4)] object_status_def g(3) sv abs_status_def olist_def)
  show ?thesis
    unfolding r(1-3) abs(1)
    using before set2(3) st5 st4(3) [unfolded abs(2)] r(4) unchanged a4(1)
    by (simp add: abs(3) gen c' eq_commute [of sv])
qed

text \<open>C37: the model of \<open>recordOutcome\<close> is what the code computes on its memory.  Given library
  functions as documented, the copy taken before still reads as the object that was read, although
  the conditions were written in place; the function patches exactly when the new status differs
  from the old one (a nil slice being another than an empty one); and the model records that same
  status: where the two differ as lists of values it patches with it, from the same transition.\<close>

theorem recordOutcome_mem_refines:
  assumes "library_ok L" and "sets_in_place setc (k_setCondition K l)" and "refines_extra extra e"
    and extraK: "\<And>s. run_state (extraK s) l = (e s, l' s)"
    and "ptr_val as_backup Backup_val m (Some a) = Some (Some v)"
    and v: "abs_status (object_status v) = b_status b" "object_generation v = om_generation (b_meta b)"
    and "run_state (recordOutcome_mem L setc extra a phase cond) m = ((before, transitioned, same), m')"
  shows "ptr_val as_backup Backup_val m' before = Some (Some v) \<and>
    (\<exists>st l''. BackupStatus_val m' (gb_status (the (as_backup (m' ! a)))) = Some st \<and> (same \<longleftrightarrow> st = object_status v) \<and>
       run_state (recordOutcome K b phase cond extraK) l =
         (if abs_status st = b_status b then (Inr (transitioned, b), l'')
          else run_state (skipE (do_write K (PatchBackupStatus (b_ns b) (b_name b) (abs_status st)))
            (State_Monad.return (Inr (transitioned, b\<lparr>b_status := stored_backup_status (abs_status st)\<rparr>)))) l''))"
proof -
  let ?c = "cond\<lparr>cond_generation := object_generation v\<rparr>"
  let ?s = "(b_status b)\<lparr>bst_conditions := fst (k_setCondition K l (bst_conditions (b_status b)) ?c), bst_phase := phase\<rparr>"
  note run = recordOutcome_mem_run [OF assms(1-3,5,8) v(1) [symmetric] refl]
  then obtain st where st:
    "BackupStatus_val m' (gb_status (the (as_backup (m' ! a)))) = Some st" "same \<longleftrightarrow> st = object_status v"
    "abs_status st = e ?s" by blast
  have t: "transitioned = snd (k_setCondition K l (bst_conditions (b_status b)) ?c)" using run by blast
  show ?thesis
    using run st(1,2) unfolding v(2)
    by (intro conjI exI [of _ st] exI [of _ "l' ?s"])
      (auto simp: recordOutcome_def extraK st(3) t v(2) split: prod.splits)
qed

end
