(* ===== verification/Deep_Copy_Examples.thy ===== *)
theory Deep_Copy_Examples
  imports Status_Memory Sample_World
begin

text \<open>
  A library that copies cell by cell and a condition setter that writes in place: both behave as
  documented, whatever the value function of the setter.  The examples run the copies and
  \<open>recordOutcome\<close> on a memory with one backup.
\<close>

section \<open>A library\<close>

definition sample_library :: library where
  "sample_library = \<lparr>
     l_meta = (\<lambda>g. do {
       d \<leftarrow> copy_slice (gm_deletion g); ls \<leftarrow> copy_slice (gm_labels g);
       an \<leftarrow> copy_slice (gm_annotations g); os \<leftarrow> copy_slice (gm_owners g);
       State_Monad.return (g\<lparr>gm_deletion := d, gm_labels := ls, gm_annotations := an, gm_owners := os\<rparr>) }),
     l_listMeta = (\<lambda>g. do { r \<leftarrow> copy_slice (glm_remaining g); State_Monad.return (g\<lparr>glm_remaining := r\<rparr>) }),
     l_selector = (\<lambda>g. do {
       ls \<leftarrow> copy_slice (gsel_matchLabels g); es \<leftarrow> copy_slice (gsel_matchExpressions g);
       State_Monad.return (g\<lparr>gsel_matchLabels := ls, gsel_matchExpressions := es\<rparr>) }),
     l_condition = State_Monad.return,
     l_time = (\<lambda>a. do { c \<leftarrow> load a; new_cell c })\<rparr>"

lemma sample_time: "copy_time sample_library = copy_slice"
  by (auto simp: fun_eq_iff copy_time_def copy_slice_def sample_library_def State_Monad.bind_def State_Monad.return_def
      load_def new_cell_def split: option.splits)

lemma sample_meta: "deep_copy (l_meta sample_library) meta_val meta_owns"
  by (rule deep_code [where flds = "\<lambda>g. (gm_deletion g, gm_labels g, gm_annotations g, gm_owners g)"
        and put = "\<lambda>g (d, ls, an, os). g\<lparr>gm_deletion := d, gm_labels := ls, gm_annotations := an, gm_owners := os\<rparr>"
        and mk = "\<lambda>g. Pair (gm_name g, gm_namespace g, gm_uid g, gm_generation g, gm_creation g)",
        OF deep_pair [OF deep_slice deep_pair [OF deep_slice deep_pair [OF deep_slice deep_slice]]]])
    (auto simp: sample_library_def meta_val_def meta_owns_def copy_pair_def)

lemma sample_listMeta: "deep_copy (l_listMeta sample_library) listMeta_val listMeta_owns"
  by (rule deep_code [where flds = glm_remaining and put = "\<lambda>g r. g\<lparr>glm_remaining := r\<rparr>"
        and mk = "\<lambda>g. Pair (glm_resourceVersion g, glm_continue g)", OF deep_slice])
    (auto simp: sample_library_def listMeta_val_def listMeta_owns_def)

lemma sample_selector: "deep_copy (l_selector sample_library) selector_val selector_owns"
  by (rule deep_code [where flds = "\<lambda>g. (gsel_matchLabels g, gsel_matchExpressions g)"
        and put = "\<lambda>g (ls, es). g\<lparr>gsel_matchLabels := ls, gsel_matchExpressions := es\<rparr>" and mk = "\<lambda>g. \<lambda>x. x",
        OF deep_pair [OF deep_slice [of as_stringMap] deep_slice [of as_requirements]]])
    (auto simp: sample_library_def selector_val_def selector_owns_def copy_pair_def option.map_ident)

lemma sample_library_ok: "library_ok sample_library"
  unfolding library_ok_def sample_time
proof (intro conjI sample_meta sample_listMeta sample_selector deep_slice)
  show "deep_copy (l_condition sample_library) (\<lambda>m. Some) (\<lambda>m c. {})"
    using deep_flat by (simp add: sample_library_def)
qed

definition sample_set :: "(condition list \<Rightarrow> condition \<Rightarrow> condition list \<times> bool) \<Rightarrow>
    nat option \<Rightarrow> condition \<Rightarrow> (cell, nat option \<times> bool) mem" where
  "sample_set f p c = (case p of
       None \<Rightarrow> do { a \<leftarrow> new_cell (CConditions (fst (f [] c))); State_Monad.return (Some a, snd (f [] c)) }
     | Some a \<Rightarrow> do {
         x \<leftarrow> load a;
         store a (CConditions (fst (f (the (as_conditions x)) c)));
         State_Monad.return (Some a, snd (f (the (as_conditions x)) c)) })"

lemma sample_set_in_place: "sets_in_place (sample_set f) f"
  unfolding sets_in_place_def conditions_val_slice
  by (auto simp: sample_set_def slice_val_def olist_def nth_append split: option.splits if_splits)

section \<open>A memory with one backup\<close>

definition sample_memory :: "cell list" where
  "sample_memory = [CConditions [(new_condition CondFalse reasonRunning ''backup jobs running'')\<lparr>cond_generation := 3\<rparr>],
     CBackupJobs [], CTime 5, CStringMap Map.empty, CStrings [''data''],
     CBackup \<lparr>gb_type = (''PBSBackup'', ''pbs.io/v1''),
       gb_meta = \<lparr>gm_name = ''nightly'', gm_namespace = ''app'', gm_uid = ''u'', gm_generation = 3, gm_creation = 0,
         gm_deletion = None, gm_labels = Some 3, gm_annotations = None, gm_owners = None\<rparr>,
       gb_spec = \<lparr>gbs_repoRef = ''main'', gbs_pvcs = Some 4, gbs_selector = None, gbs_notes = ''''\<rparr>,
       gb_status = \<lparr>gbst_phase = BackupPhaseRunning, gbst_snapshotRef = '''', gbst_jobs = Some 1, gbst_startedAt = Some 2,
         gbst_completedAt = None, gbst_bytes = 0, gbst_conditions = Some 0\<rparr>\<rparr>]"

definition sample_value where
  "sample_value = the (the (ptr_val as_backup Backup_val sample_memory (Some 5)))"

lemmas value_simps = ptr_val_def Backup_val_def meta_val_def BackupSpec_val_def BackupStatus_val_def pair_val_def
  slice_val_def list_val_def as_defs

lemma sample_reads: "ptr_val as_backup Backup_val sample_memory (Some 5) = Some (Some sample_value)"
  by (simp add: sample_value_def sample_memory_def value_simps)

text \<open>The copy of the backup is a new struct with a slice of claims, labels, a start, jobs and
  conditions of its own.\<close>

lemma sample_deep_copy:
  "fst (run_state (PBSBackup_DeepCopy sample_library (Some 5)) sample_memory) = Some 11 \<and>
   length (snd (run_state (PBSBackup_DeepCopy sample_library (Some 5)) sample_memory)) = 12"
  by code_simp

section \<open>The properties there\<close>

definition copied :: "nat option \<times> cell list" where
  "copied = run_state (PBSBackup_DeepCopy sample_library (Some 5)) sample_memory"

theorem DeepCopy_independent_witness:
  "ptr_val as_backup Backup_val (snd copied) (fst copied) = Some (Some sample_value) \<and>
   ptr_val as_backup Backup_val ((snd copied)[0 := CConditions []]) (fst copied) = Some (Some sample_value)"
proof -
  obtain q m' where run: "run_state (PBSBackup_DeepCopy sample_library (Some 5)) sample_memory = (q, m')" by fastforce
  note c = DeepCopy_independent [OF sample_library_ok, THEN conjunct1, unfolded independent_copy_def,
      rule_format, OF sample_reads run]
  have "\<forall>x. length sample_memory \<le> x \<longrightarrow> x < length m' \<longrightarrow> m'[0 := CConditions []] ! x = m' ! x"
    by (auto simp: sample_memory_def nth_list_update)
  then have "ptr_val as_backup Backup_val (m'[0 := CConditions []]) q = Some (Some sample_value)"
    using c by simp
  then show ?thesis using c run by (simp add: copied_def)
qed

text \<open>The second reconcile of a running backup: the condition is there already, the list of jobs is
  written anew with the same content, and nothing is patched.  A failure is patched, from a copy
  whose conditions still are those of before.\<close>

definition sample_object :: PBSBackup where
  "sample_object = \<lparr>b_meta = (new_meta ''nightly'' ''app'' Map.empty)\<lparr>om_generation := 3\<rparr>,
     b_spec = \<lparr>bs_repoRef = ''main'', bs_pvcs = [''data''], bs_selector = None, bs_notes = ''''\<rparr>,
     b_status = abs_status (object_status sample_value)\<rparr>"

definition sample_outcome :: "backup_phase \<Rightarrow> condition \<Rightarrow> (gBackupStatus \<Rightarrow> (cell, gBackupStatus) mem) \<Rightarrow>
    (nat option \<times> bool \<times> bool) \<times> cell list" where
  "sample_outcome phase c extra =
     run_state (recordOutcome_mem sample_library (sample_set set_condition) extra 5 phase c) sample_memory"

lemma sample_outcomes:
  "snd (fst (sample_outcome BackupPhaseRunning (new_condition CondFalse reasonRunning ''backup jobs running'')
     (running_mem [] 9))) = (False, True)"
  "fst (sample_outcome BackupPhaseFailed (new_condition CondFalse reasonBadResult ''no result'') (failed_mem [] 9))
     = (Some 11, True, False)"
  by code_simp+

theorem recordOutcome_mem_refines_witness:
  "ptr_val as_backup Backup_val
     (snd (sample_outcome BackupPhaseFailed (new_condition CondFalse reasonBadResult ''no result'') (failed_mem [] 9)))
     (Some 11) = Some (Some sample_value)"
proof -
  let ?c = "new_condition CondFalse reasonBadResult ''no result''"
  obtain m' where run: "run_state (recordOutcome_mem sample_library (sample_set set_condition) (failed_mem [] 9) 5
      BackupPhaseFailed ?c) sample_memory = ((Some 11, True, False), m')"
    using sample_outcomes(2) unfolding sample_outcome_def by (metis prod.collapse)
  have "object_generation sample_value = om_generation (b_meta sample_object)"
    by (simp add: sample_object_def sample_value_def sample_memory_def value_simps object_generation_def)
  then have "ptr_val as_backup Backup_val m' (Some 11) = Some (Some sample_value)"
    using recordOutcome_mem_refines [of sample_library "sample_set set_condition" empty_world "[]" "failed_mem [] 9"
        "\<lambda>s. s\<lparr>bst_jobs := jobStatuses [], bst_completedAt := stamped_time 9 (bst_completedAt s)\<rparr>"
        "\<lambda>s. State_Monad.return (s\<lparr>bst_jobs := jobStatuses [], bst_completedAt := stamped_time 9 (bst_completedAt s)\<rparr>)"
        "\<lambda>_. []" sample_memory 5 sample_value sample_object,
        OF sample_library_ok _ failed_refines _ sample_reads _ _ run]
    by (simp add: empty_world_def sample_set_in_place sample_object_def)
  then show ?thesis by (simp add: sample_outcome_def run)
qed

end
