(* ===== verification/Hook_Exec.thy ===== *)
theory Hook_Exec
  imports Backup_Controller Sample_World
begin

text \<open>
  The executor of pre-backup hooks (\<open>spdyExecutor\<close> of \<open>internal/hooks/exec.go\<close>), and what the
  backup controller makes of it: the hooks of a backup run in order up to the first problem, whose
  message names the pod and the container and carries a bounded piece of what the command wrote to
  its standard error.  The SPDY library is a parameter: whether an executor can be set up for a
  request, and how the stream of the command ends within its time.
\<close>

section \<open>The executor\<close>

text \<open>The request: a POST to \<open>pods/exec\<close> with its options (\<open>PodExecOptions\<close>).\<close>

record exec_request =
  xr_namespace :: string
  xr_pod :: string
  xr_container :: string
  xr_command :: "string list"
  xr_stdout :: bool
  xr_stderr :: bool

record stream_result =
  sr_stderr :: string
  sr_error :: "string option"

record spdy =
  sp_setup :: "exec_request \<Rightarrow> string option"
  sp_stream :: "kcall list \<Rightarrow> exec_request \<Rightarrow> int \<Rightarrow> stream_result"

definition exec_target :: "string \<Rightarrow> string \<Rightarrow> string \<Rightarrow> string" where
  "exec_target ns pod container = ''pod '' @ ns @ ''/'' @ pod @ '' container '' @ container @ '': ''"

text \<open>The piece of standard error in the message: trimmed, and cut at 512 bytes.\<close>

definition stderr_cut :: "string \<Rightarrow> string" where
  "stderr_cut err = (let msg = TrimSpace err in if length msg > 512 then take 512 msg @ ''...'' else msg)"

definition Exec :: "spdy \<Rightarrow> kcall list \<Rightarrow> string \<Rightarrow> string \<Rightarrow> string \<Rightarrow> string list \<Rightarrow> int \<Rightarrow> string option" where
  "Exec sp l ns pod container command timeout =
     (let req = \<lparr>xr_namespace = ns, xr_pod = pod, xr_container = container, xr_command = command,
        xr_stdout = True, xr_stderr = True\<rparr>
      in case sp_setup sp req of
           Some err \<Rightarrow> Some (exec_target ns pod container @ ''set up exec: '' @ err)
         | None \<Rightarrow>
             let res = sp_stream sp l req timeout
             in (case sr_error res of
                   None \<Rightarrow> None
                 | Some err \<Rightarrow>
                     if TrimSpace (sr_stderr res) \<noteq> ''''
                     then Some (exec_target ns pod container @ err @ '' (stderr: '' @ stderr_cut (sr_stderr res) @ '')'')
                     else Some (exec_target ns pod container @ err)))"

text \<open>The environment of the controllers with this executor (\<open>NewExecutor\<close>).\<close>

definition with_executor :: "spdy \<Rightarrow> kube \<Rightarrow> kube" where
  "with_executor sp K = K\<lparr>k_exec := Exec sp\<rparr>"

lemma with_executor_simps [simp]:
  "k_exec (with_executor sp K) = Exec sp" "k_jsonError (with_executor sp K) = k_jsonError K"
  by (simp_all add: with_executor_def)

section \<open>What an error says\<close>

lemma stderr_cut_bounded: "length (stderr_cut err) \<le> 515"
  by (simp add: stderr_cut_def Let_def)

lemma stderr_cut_prefix: "take (min 512 (length (TrimSpace err))) (stderr_cut err) = take 512 (TrimSpace err)"
  by (simp add: stderr_cut_def Let_def)

text \<open>An error names the pod and the container, then the cause, then at most 515 bytes of standard
  error between brackets.\<close>

definition exec_report :: "string \<Rightarrow> string \<Rightarrow> string \<Rightarrow> string \<Rightarrow> bool" where
  "exec_report ns pod container msg \<longleftrightarrow> (\<exists>cause tail. msg = exec_target ns pod container @ cause @ tail \<and>
     (tail = [] \<or> (\<exists>s. tail = '' (stderr: '' @ s @ '')'' \<and> length s \<le> 515)))"

lemma Exec_report:
  assumes "Exec sp l ns pod container command timeout = Some msg"
  shows "exec_report ns pod container msg"
proof -
  have plain: "exec_report ns pod container (exec_target ns pod container @ cause)" for cause
    unfolding exec_report_def by (intro exI [of _ cause] exI [of _ "[]"]) simp
  have piece: "exec_report ns pod container (exec_target ns pod container @ cause @ '' (stderr: '' @ stderr_cut err @ '')'')"
    for cause err
    unfolding exec_report_def by (intro exI [of _ cause] exI) (use stderr_cut_bounded in auto)
  show ?thesis
    using assms plain piece
    by (auto simp: Exec_def Let_def split: option.splits if_splits)
qed

section \<open>The hooks of a backup\<close>

text \<open>The calls for the hooks of some pods, and that all of them ended well when they were made.\<close>

fun hook_calls :: "kube \<Rightarrow> pod list \<Rightarrow> kcall list" where
  "hook_calls K [] = []"
| "hook_calls K (p # ps) = (case ParseHook (k_jsonError K) p of
     Hook c cmd \<Rightarrow> ExecHook (om_namespace (pod_meta p)) (pod_name p) c cmd HookTimeout # hook_calls K ps
   | _ \<Rightarrow> hook_calls K ps)"

fun hooks_ok :: "spdy \<Rightarrow> kube \<Rightarrow> kcall list \<Rightarrow> pod list \<Rightarrow> bool" where
  "hooks_ok sp K l [] \<longleftrightarrow> True"
| "hooks_ok sp K l (p # ps) \<longleftrightarrow> (case ParseHook (k_jsonError K) p of
     NoHook \<Rightarrow> hooks_ok sp K l ps
   | BadHook e \<Rightarrow> False
   | Hook c cmd \<Rightarrow> Exec sp l (om_namespace (pod_meta p)) (pod_name p) c cmd HookTimeout = None \<and>
       hooks_ok sp K (l @ [ExecHook (om_namespace (pod_meta p)) (pod_name p) c cmd HookTimeout]) ps)"

text \<open>The first problem: an annotation, or a command that did not end well.\<close>

definition hook_stops :: "spdy \<Rightarrow> kube \<Rightarrow> kcall list \<Rightarrow> pod \<Rightarrow> string \<Rightarrow> string \<Rightarrow> kcall list \<Rightarrow> bool" where
  "hook_stops sp K l p msg reason new \<longleftrightarrow> (case ParseHook (k_jsonError K) p of
     NoHook \<Rightarrow> False
   | BadHook e \<Rightarrow> msg = ''pod '' @ pod_name p @ '': '' @ e \<and> reason = reasonHookInvalid \<and> new = []
   | Hook c cmd \<Rightarrow> reason = reasonHookFailed \<and>
       new = [ExecHook (om_namespace (pod_meta p)) (pod_name p) c cmd HookTimeout] \<and>
       (\<exists>e. Exec sp l (om_namespace (pod_meta p)) (pod_name p) c cmd HookTimeout = Some e \<and>
          exec_report (om_namespace (pod_meta p)) (pod_name p) c e \<and>
          msg = ''pre-hook in pod '' @ pod_name p @ '' failed: '' @ e))"

definition hooks_outcome :: "spdy \<Rightarrow> kube \<Rightarrow> kcall list \<Rightarrow> pod list \<Rightarrow> (string \<times> string) option \<Rightarrow> kcall list \<Rightarrow> bool" where
  "hooks_outcome sp K l ps r l' \<longleftrightarrow> (case r of
     None \<Rightarrow> hooks_ok sp K l ps \<and> l' = l @ hook_calls K ps
   | Some (msg, reason) \<Rightarrow> (\<exists>ran p rest new. ps = ran @ p # rest \<and> hooks_ok sp K l ran \<and>
       hook_stops sp K (l @ hook_calls K ran) p msg reason new \<and> l' = l @ hook_calls K ran @ new))"

lemma hooks_outcome_stop: "hook_stops sp K l p msg reason new \<Longrightarrow> hooks_outcome sp K l (p # ps) (Some (msg, reason)) (l @ new)"
  unfolding hooks_outcome_def by (simp, rule exI [of _ "[]"]) auto

lemma hooks_outcome_more:
  assumes "hooks_outcome sp K (l @ hook_calls K [p]) ps r l'" "hooks_ok sp K l [p]"
  shows "hooks_outcome sp K l (p # ps) r l'"
proof (cases r)
  case None
  with assms show ?thesis by (auto simp: hooks_outcome_def split: hook.splits)
next
  case (Some z)
  then obtain msg reason where r: "r = Some (msg, reason)" by (cases z) simp
  with assms(1) obtain ran q rest new where w: "ps = ran @ q # rest" "hooks_ok sp K (l @ hook_calls K [p]) ran"
    "hook_stops sp K ((l @ hook_calls K [p]) @ hook_calls K ran) q msg reason new"
    "l' = (l @ hook_calls K [p]) @ hook_calls K ran @ new"
    by (auto simp: hooks_outcome_def)
  have "hook_calls K (p # ran) = hook_calls K [p] @ hook_calls K ran" by (simp split: hook.splits)
  moreover have "hooks_ok sp K l (p # ran)" using assms(2) w(2) by (auto split: hook.splits)
  ultimately show ?thesis
    using w unfolding r hooks_outcome_def by (simp, intro exI [of _ "p # ran"]) auto
qed

lemma run_hooks_outcome:
  assumes "br_HookExecutor R" and "run_state (run_hooks R (with_executor sp K) ps) l = (r, l')"
  shows "hooks_outcome sp K l ps r l'"
  using assms
proof (induction ps arbitrary: l)
  case (Cons p ps)
  show ?case
  proof (cases "ParseHook (k_jsonError K) p")
    case NoHook
    with Cons show ?thesis by (intro hooks_outcome_more) auto
  next
    case (BadHook e)
    with Cons.prems have "r = Some (''pod '' @ pod_name p @ '': '' @ e, reasonHookInvalid)" "l' = l @ []" by auto
    then show ?thesis
      using hooks_outcome_stop [of sp K l p _ _ "[]"] BadHook by (simp add: hook_stops_def)
  next
    case (Hook c cmd)
    let ?r = "Exec sp l (om_namespace (pod_meta p)) (pod_name p) c cmd HookTimeout"
    show ?thesis
    proof (cases ?r)
      case None
      with Hook Cons.prems show ?thesis
        by (intro hooks_outcome_more Cons.IH) (auto simp: exec_hook_def)
    next
      case (Some e)
      with Hook Cons.prems have "r = Some (''pre-hook in pod '' @ pod_name p @ '' failed: '' @ e, reasonHookFailed)"
        "l' = l @ [ExecHook (om_namespace (pod_meta p)) (pod_name p) c cmd HookTimeout]"
        by (auto simp: exec_hook_def)
      then show ?thesis
        using hooks_outcome_stop [of sp K l p] Some Exec_report [OF Some] Hook by (simp add: hook_stops_def)
    qed
  qed
qed (simp add: hooks_outcome_def)

lemma hooked_pods_names:
  "map pod_name (hooked_pods pvcs pods) = sort (map pod_name (filter (mounts_selected pvcs) pods))"
proof -
  let ?hit = "filter (mounts_selected pvcs) pods"
  have "pod_name (the (map_of (rev (map (\<lambda>p. (pod_name p, p)) ?hit)) n)) = n" if "n \<in> set (map pod_name ?hit)" for n
  proof -
    have "n \<in> fst ` set (rev (map (\<lambda>p. (pod_name p, p)) ?hit))" using that by force
    then obtain p where "map_of (rev (map (\<lambda>p. (pod_name p, p)) ?hit)) n = Some p"
      by (metis map_of_eq_None_iff not_None_eq)
    then show ?thesis by (auto dest!: map_of_SomeD)
  qed
  then show ?thesis unfolding hooked_pods_def Let_def map_map comp_def by (intro map_idI) simp
qed


definition sample_spdy :: spdy where
  "sample_spdy = \<lparr>sp_setup = (\<lambda>_. None), sp_stream = (\<lambda>l req t.
     if xr_pod req = ''db-0'' then \<lparr>sr_stderr = '' pg_dump: no space '', sr_error = Some ''exit code 1''\<rparr>
     else \<lparr>sr_stderr = '''', sr_error = None\<rparr>)\<rparr>"

definition sample_hooks where
  "sample_hooks = runPreHooks \<lparr>br_AgentImage = '''', br_Serializer = None, br_Metrics = True, br_HookExecutor = True\<rparr>
     (with_executor sample_spdy empty_world)
     [\<lparr>pvc_meta = new_meta ''data'' ''app'' Map.empty, pvc_volumeName = ''pv-1''\<rparr>]
     [hooked_pod, hooked_pod\<lparr>pod_meta := (pod_meta hooked_pod)\<lparr>om_name := ''aux''\<rparr>\<rparr>]"

fun exec_pod :: "kcall \<Rightarrow> string" where
  "exec_pod (ExecHook ns p c cmd t) = p"
| "exec_pod _ = ''''"


end
