(* ===== verification/Manager_Setup.thy ===== *)
theory Manager_Setup
  imports Backup_Controller
begin

text \<open>
  The operator's \<open>main\<close> (\<open>cmd/main.go\<close>), the registration of its API types (\<open>api/v1\<close>), of its
  metrics (\<open>NewBackupMetrics\<close>) and of its four controllers (\<open>SetupWithManager\<close>): the flags with
  Go's rules of parsing, the options made of them, and the calls of the controller runtime in
  order, each of which may fail.  The runtime is a parameter: the flags it adds to the command line
  and what it answers to every call.
\<close>

section \<open>Flags\<close>

text \<open>The kinds of flags; \<open>LibFlag b\<close> is a flag a library added, boolean or not.\<close>

datatype flag_kind = StringFlag | BoolFlag | IntFlag | LibFlag bool

definition ParseBool :: "string \<Rightarrow> bool option" where
  "ParseBool s =
     (if s \<in> set [''1'', ''t'', ''T'', ''true'', ''TRUE'', ''True''] then Some True
      else if s \<in> set [''0'', ''f'', ''F'', ''false'', ''FALSE'', ''False''] then Some False else None)"

text \<open>\<open>strconv.ParseInt(s, 0, 64)\<close>: a base prefix, and underscores between digits.\<close>

definition digit_value :: "char \<Rightarrow> int option" where
  "digit_value c = (let n = of_char (ascii_lower c) :: int
     in if 48 \<le> n \<and> n \<le> 57 then Some (n - 48) else if 97 \<le> n \<and> n \<le> 122 then Some (n - 87) else None)"

fun based_value :: "int \<Rightarrow> int \<Rightarrow> string \<Rightarrow> int option" where
  "based_value base acc [] = Some acc"
| "based_value base acc (c # cs) =
     (if c = CHR ''_'' then based_value base acc cs
      else case digit_value c of
        None \<Rightarrow> None
      | Some d \<Rightarrow> if d < base then based_value base (base * acc + d) cs else None)"

fun underscores_ok :: "bool \<Rightarrow> char \<Rightarrow> string \<Rightarrow> bool" where
  "underscores_ok hex i [] \<longleftrightarrow> i \<noteq> CHR ''_''"
| "underscores_ok hex i (c # cs) \<longleftrightarrow>
     (if is_digit c \<or> hex \<and> ascii_lower c \<in> set ''abcdef'' then underscores_ok hex (CHR ''0'') cs
      else if c = CHR ''_'' then i = CHR ''0'' \<and> underscores_ok hex (CHR ''_'') cs
      else i \<noteq> CHR ''_'' \<and> underscores_ok hex (CHR ''!'') cs)"

definition base_prefix :: "string \<Rightarrow> int \<times> string" where
  "base_prefix s =
     (if s = [] \<or> hd s \<noteq> CHR ''0'' then (10, s)
      else let b = (if length s \<ge> 3 then ascii_lower (s ! 1) else CHR ''0'')
        in if b = CHR ''b'' then (2, drop 2 s) else if b = CHR ''o'' then (8, drop 2 s)
           else if b = CHR ''x'' then (16, drop 2 s) else (8, drop 1 s))"

definition underscoreOK :: "string \<Rightarrow> bool" where
  "underscoreOK s =
     (let pre = length s \<ge> 2 \<and> hd s = CHR ''0'' \<and> ascii_lower (s ! 1) \<in> set ''box''
      in if pre then underscores_ok (ascii_lower (s ! 1) = CHR ''x'') (CHR ''0'') (drop 2 s)
         else underscores_ok False (CHR ''^'') s)"

definition ParseInt :: "string \<Rightarrow> int option" where
  "ParseInt s =
     (let (neg, ds) = (case s of [] \<Rightarrow> (False, [])
            | c # cs \<Rightarrow> if c = CHR ''-'' then (True, cs) else if c = CHR ''+'' then (False, cs) else (False, s));
          (base, digits) = base_prefix ds
      in if ds = [] then None
         else case based_value base 0 digits of
           None \<Rightarrow> None
         | Some n \<Rightarrow>
             let v = (if neg then - n else n)
             in if (CHR ''_'' \<in> set digits \<longrightarrow> underscoreOK ds) \<and> - (2 ^ 63) \<le> v \<and> v < 2 ^ 63 then Some v else None)"

text \<open>\<open>flag.Parse\<close> on the command line (\<open>parseOne\<close>): a boolean flag takes no argument of its own.
  The settings in order, a request for help, or an error, whose text is printed
  with the usage.\<close>

datatype parsed = Settings "(string \<times> string) list" | HelpRequested | BadFlags

definition is_bool_flag :: "flag_kind \<Rightarrow> bool" where
  "is_bool_flag k = (case k of BoolFlag \<Rightarrow> True | LibFlag b \<Rightarrow> b | _ \<Rightarrow> False)"

definition flag_accepts :: "(string \<Rightarrow> string \<Rightarrow> bool) \<Rightarrow> flag_kind \<Rightarrow> string \<Rightarrow> string \<Rightarrow> bool" where
  "flag_accepts lib k n v = (case k of
     StringFlag \<Rightarrow> True | BoolFlag \<Rightarrow> ParseBool v \<noteq> None | IntFlag \<Rightarrow> ParseInt v \<noteq> None | LibFlag b \<Rightarrow> lib n v)"

definition add_setting :: "string \<times> string \<Rightarrow> parsed \<Rightarrow> parsed" where
  "add_setting p r = (case r of Settings st \<Rightarrow> Settings (p # st) | _ \<Rightarrow> r)"

fun parse_flags :: "(string \<Rightarrow> flag_kind option) \<Rightarrow> (string \<Rightarrow> string \<Rightarrow> bool) \<Rightarrow> string list \<Rightarrow> parsed" where
  "parse_flags known lib [] = Settings []"
| "parse_flags known lib (s # args) =
     (if length s < 2 \<or> hd s \<noteq> CHR ''-'' \<or> s = ''--'' then Settings []
      else
        let name = (if s ! 1 = CHR ''-'' then drop 2 s else drop 1 s);
            n = takeWhile (\<lambda>c. c \<noteq> CHR ''='') name;
            v = dropWhile (\<lambda>c. c \<noteq> CHR ''='') name
        in if name = [] \<or> hd name = CHR ''-'' \<or> hd name = CHR ''='' then BadFlags
           else case known n of
             None \<Rightarrow> if n = ''help'' \<or> n = ''h'' then HelpRequested
                     else BadFlags
           | Some k \<Rightarrow>
               if is_bool_flag k then
                 (let b = (if v = [] then ''true'' else tl v)
                  in if flag_accepts lib k n b then add_setting (n, b) (parse_flags known lib args)
                     else BadFlags)
               else if v \<noteq> [] then
                 (if flag_accepts lib k n (tl v) then add_setting (n, tl v) (parse_flags known lib args)
                  else BadFlags)
               else (case args of
                   [] \<Rightarrow> BadFlags
                 | a # args' \<Rightarrow>
                     if flag_accepts lib k n a then add_setting (n, a) (parse_flags known lib args')
                     else BadFlags))"

text \<open>The flags of \<open>main\<close>.\<close>

definition main_flags :: "(string \<times> flag_kind) list" where
  "main_flags = [(''metrics-bind-address'', StringFlag), (''health-probe-bind-address'', StringFlag),
     (''leader-elect'', BoolFlag), (''metrics-secure'', BoolFlag), (''webhook-cert-path'', StringFlag),
     (''webhook-cert-name'', StringFlag), (''webhook-cert-key'', StringFlag), (''webhook-port'', IntFlag),
     (''metrics-cert-path'', StringFlag), (''metrics-cert-name'', StringFlag), (''metrics-cert-key'', StringFlag),
     (''enable-http2'', BoolFlag), (''agent-image'', StringFlag)]"

record options =
  metricsAddr :: string
  probeAddr :: string
  enableLeaderElection :: bool
  secureMetrics :: bool
  webhookCertPath :: string
  webhookCertName :: string
  webhookCertKey :: string
  webhookPort :: int
  metricsCertPath :: string
  metricsCertName :: string
  metricsCertKey :: string
  enableHTTP2 :: bool
  agentImageFlag :: string

definition flag_bool :: "(string \<times> string) list \<Rightarrow> string \<Rightarrow> bool \<Rightarrow> bool" where
  "flag_bool st n dflt = (case map_of (rev st) n of None \<Rightarrow> dflt | Some v \<Rightarrow> ParseBool v = Some True)"

definition flag_int :: "(string \<times> string) list \<Rightarrow> string \<Rightarrow> int \<Rightarrow> int" where
  "flag_int st n dflt = (case map_of (rev st) n of None \<Rightarrow> dflt | Some v \<Rightarrow> (case ParseInt v of None \<Rightarrow> dflt | Some i \<Rightarrow> i))"

definition main_options :: "(string \<times> string) list \<Rightarrow> options" where
  "main_options st = \<lparr>metricsAddr = flag_string st ''metrics-bind-address'' ''0'',
     probeAddr = flag_string st ''health-probe-bind-address'' '':8081'',
     enableLeaderElection = flag_bool st ''leader-elect'' False,
     secureMetrics = flag_bool st ''metrics-secure'' True,
     webhookCertPath = flag_string st ''webhook-cert-path'' '''',
     webhookCertName = flag_string st ''webhook-cert-name'' ''tls.crt'',
     webhookCertKey = flag_string st ''webhook-cert-key'' ''tls.key'',
     webhookPort = flag_int st ''webhook-port'' 9443,
     metricsCertPath = flag_string st ''metrics-cert-path'' '''',
     metricsCertName = flag_string st ''metrics-cert-name'' ''tls.crt'',
     metricsCertKey = flag_string st ''metrics-cert-key'' ''tls.key'',
     enableHTTP2 = flag_bool st ''enable-http2'' False,
     agentImageFlag = flag_string st ''agent-image'' ''pbs-agent:dev''\<rparr>"

section \<open>The API types, the metrics and the controllers\<close>

definition SchemeGroupVersion :: "string \<times> string" where
  "SchemeGroupVersion = (''pbs.sharifmind.ir'', ''v1'')"

text \<open>The \<open>init\<close> functions of \<open>api/v1\<close> register the kinds, in the order of the files.\<close>

definition register_backup :: "((string \<times> string) \<times> string) list" where
  "register_backup = map (Pair SchemeGroupVersion) [''PBSBackup'', ''PBSBackupList'']"

definition register_repo :: "((string \<times> string) \<times> string) list" where
  "register_repo = map (Pair SchemeGroupVersion) [''PBSRepo'', ''PBSRepoList'']"

definition register_restore :: "((string \<times> string) \<times> string) list" where
  "register_restore = map (Pair SchemeGroupVersion) [''PBSRestore'', ''PBSRestoreList'']"

definition register_schedule :: "((string \<times> string) \<times> string) list" where
  "register_schedule = map (Pair SchemeGroupVersion) [''PBSSchedule'', ''PBSScheduleList'']"

definition AddToScheme :: "((string \<times> string) \<times> string) list" where
  "AddToScheme = register_backup @ register_repo @ register_restore @ register_schedule"

text \<open>\<open>NewBackupMetrics\<close>: a name, whether it is a counter, and the labels.\<close>

definition NewBackupMetrics :: "(string \<times> bool \<times> string list) list" where
  "NewBackupMetrics = [(''pbs_backup_last_success_timestamp_seconds'', False, [''namespace'']),
     (''pbs_backup_duration_seconds'', False, [''namespace'']), (''pbs_backup_errors_total'', True, [''namespace''])]"

text \<open>What a controller is named, reconciles, and owns.\<close>

record watch =
  w_name :: string
  w_for :: string
  w_owns :: "string list"

definition SetupWithManager_repo :: watch where
  "SetupWithManager_repo = \<lparr>w_name = ''pbsrepo'', w_for = ''PBSRepo'', w_owns = []\<rparr>"

definition SetupWithManager_backup :: watch where
  "SetupWithManager_backup = \<lparr>w_name = ''pbsbackup'', w_for = ''PBSBackup'', w_owns = [''Job'']\<rparr>"

definition SetupWithManager_schedule :: watch where
  "SetupWithManager_schedule = \<lparr>w_name = ''pbsschedule'', w_for = ''PBSSchedule'', w_owns = [''PBSBackup'']\<rparr>"

definition SetupWithManager_restore :: watch where
  "SetupWithManager_restore = \<lparr>w_name = ''pbsrestore'', w_for = ''PBSRestore'', w_owns = [''Job'']\<rparr>"

text \<open>A reconciler with its event recorder and its own fields.\<close>

datatype reconciler =
    RepoReconciler string
  | BackupReconciler string PBSBackupReconciler
  | ScheduleReconciler string
  | RestoreReconciler string string

section \<open>The servers and the manager\<close>

text \<open>A TLS option changes the configuration of a server; \<open>main\<close> has one.\<close>

record tls_config =
  tls_NextProtos :: "string list"

datatype tls_option = DisableHTTP2

definition apply_tls :: "tls_config \<Rightarrow> tls_option \<Rightarrow> tls_config" where
  "apply_tls c opt = (case opt of DisableHTTP2 \<Rightarrow> c\<lparr>tls_NextProtos := [''http/1.1'']\<rparr>)"

record server_options =
  so_TLSOpts :: "tls_option list"
  so_CertDir :: string
  so_CertName :: string
  so_KeyName :: string

record webhook_options = server_options +
  wo_Port :: int

record metrics_options = server_options +
  mo_BindAddress :: string
  mo_SecureServing :: bool
  mo_FilterProvider :: bool

record manager_options =
  mg_Scheme :: "((string \<times> string) \<times> string) list"
  mg_Metrics :: metrics_options
  mg_WebhookServer :: webhook_options
  mg_HealthProbe :: string
  mg_LeaderElection :: bool
  mg_LeaderElectionID :: string

definition tlsOpts :: "options \<Rightarrow> tls_option list" where
  "tlsOpts o1 = (if \<not> enableHTTP2 o1 then [DisableHTTP2] else [])"

definition webhookServerOptions :: "options \<Rightarrow> webhook_options" where
  "webhookServerOptions o1 =
     (let w = \<lparr>so_TLSOpts = tlsOpts o1, so_CertDir = '''', so_CertName = '''', so_KeyName = '''', wo_Port = webhookPort o1\<rparr>
      in if length (webhookCertPath o1) > 0
         then w\<lparr>so_CertDir := webhookCertPath o1, so_CertName := webhookCertName o1, so_KeyName := webhookCertKey o1\<rparr>
         else w)"

definition metricsServerOptions :: "options \<Rightarrow> metrics_options" where
  "metricsServerOptions o1 =
     (let m = \<lparr>so_TLSOpts = tlsOpts o1, so_CertDir = '''', so_CertName = '''', so_KeyName = '''',
            mo_BindAddress = metricsAddr o1, mo_SecureServing = secureMetrics o1, mo_FilterProvider = False\<rparr>;
          m = (if secureMetrics o1 then m\<lparr>mo_FilterProvider := True\<rparr> else m)
      in if length (metricsCertPath o1) > 0
         then m\<lparr>so_CertDir := metricsCertPath o1, so_CertName := metricsCertName o1, so_KeyName := metricsCertKey o1\<rparr>
         else m)"

definition managerOptions :: "options \<Rightarrow> manager_options" where
  "managerOptions o1 = \<lparr>mg_Scheme = AddToScheme, mg_Metrics = metricsServerOptions o1,
     mg_WebhookServer = webhookServerOptions o1, mg_HealthProbe = probeAddr o1,
     mg_LeaderElection = enableLeaderElection o1, mg_LeaderElectionID = ''e932101d.pbs.sharifmind.ir''\<rparr>"

section \<open>\<open>main\<close>\<close>

datatype mcall =
    SetLogger
  | Info string
  | LogError string string
  | GetConfig
  | NewManager manager_options
  | NewDynamicClient
  | NewDiscoveryClient
  | MustRegister "(string \<times> bool \<times> string list) list"
  | NewExecutor
  | Complete watch reconciler
  | AddHealthzCheck string
  | AddReadyzCheck string
  | StartManager

text \<open>The runtime: the flags of the libraries, what it answers to a call, and the machinery of a
  serializer.\<close>

record runtime =
  rt_flags :: "(string \<times> flag_kind) list"
  rt_accepts :: "string \<Rightarrow> string \<Rightarrow> bool"
  rt_answer :: "mcall list \<Rightarrow> mcall \<Rightarrow> string option"
  rt_machinery :: apimachinery

type_synonym 'a mop = "(mcall, 'a) oper"

definition ask :: "runtime \<Rightarrow> mcall \<Rightarrow> string option mop" where
  "ask E c = invoke c (\<lambda>l. rt_answer E l c)"

text \<open>\<open>if err := ...; err != nil { setupLog.Error(err, msg); os.Exit(1) }\<close>; the \<open>OrDie\<close> functions exit
  by themselves (\<open>GetConfigOrDie\<close>) or panic, which ends the process with 2.\<close>

definition orExit :: "runtime \<Rightarrow> mcall \<Rightarrow> string \<Rightarrow> int mop \<Rightarrow> int mop" where
  "orExit E c msg rest = do {
     err \<leftarrow> ask E c;
     case err of
       Some e \<Rightarrow> do { ask E (LogError e msg); State_Monad.return 1 }
     | None \<Rightarrow> rest
   }"

definition orDie :: "runtime \<Rightarrow> mcall \<Rightarrow> int \<Rightarrow> int mop \<Rightarrow> int mop" where
  "orDie E c code rest = do {
     err \<leftarrow> ask E c;
     case err of Some e \<Rightarrow> State_Monad.return code | None \<Rightarrow> rest
   }"

definition info :: "runtime \<Rightarrow> bool \<Rightarrow> string \<Rightarrow> int mop \<Rightarrow> int mop" where
  "info E b msg rest = (if b then do { ask E (Info msg); rest } else rest)"

definition backupReconciler :: "runtime \<Rightarrow> options \<Rightarrow> PBSBackupReconciler" where
  "backupReconciler E o1 = \<lparr>br_AgentImage = agentImageFlag o1, br_Serializer = Some (rt_machinery E),
     br_Metrics = True, br_HookExecutor = True\<rparr>"

definition main_with :: "runtime \<Rightarrow> options \<Rightarrow> int mop" where
  "main_with E o1 = do {
     ask E SetLogger;
     info E (length (webhookCertPath o1) > 0) ''Initializing webhook certificate watcher using provided certificates'' (
     info E (length (metricsCertPath o1) > 0) ''Initializing metrics certificate watcher using provided certificates'' (
     orDie E GetConfig 1 (
     orExit E (NewManager (managerOptions o1)) ''Failed to start manager'' (
     orExit E (Complete SetupWithManager_repo (RepoReconciler ''pbsrepo'')) ''Failed to create controller'' (
     orExit E NewDynamicClient ''Failed to create dynamic client'' (
     orExit E NewDiscoveryClient ''Failed to create discovery client'' (
     orDie E (MustRegister NewBackupMetrics) 2 (
     orDie E NewExecutor 2 (
     orExit E (Complete SetupWithManager_backup (BackupReconciler ''pbsbackup'' (backupReconciler E o1))) ''Failed to create controller'' (
     orExit E (Complete SetupWithManager_schedule (ScheduleReconciler ''pbsschedule'')) ''Failed to create controller'' (
     orExit E (Complete SetupWithManager_restore (RestoreReconciler ''pbsrestore'' (agentImageFlag o1))) ''Failed to create controller'' (
     orExit E (AddHealthzCheck ''healthz'') ''Failed to set up health check'' (
     orExit E (AddReadyzCheck ''readyz'') ''Failed to set up ready check'' (
     info E True ''Starting manager'' (
     orExit E StartManager ''Failed to run manager'' (
     State_Monad.return 0))))))))))))))))
   }"

text \<open>The process: its exit code. A request for help ends it with 0, a bad command line with 2.\<close>

definition operator_main :: "runtime \<Rightarrow> string list \<Rightarrow> int mop" where
  "operator_main E args =
     (case parse_flags (map_of (main_flags @ rt_flags E)) (rt_accepts E) args of
        Settings st \<Rightarrow> main_with E (main_options st)
      | HelpRequested \<Rightarrow> State_Monad.return 0
      | BadFlags \<Rightarrow> State_Monad.return 2)"

section \<open>The plan of \<open>main\<close>\<close>

text \<open>The calls \<open>main\<close> makes, in order: information, or a call whose failure ends the process with a
  code, after the calls that report it.\<close>

datatype step = Say (call: mcall) | Try (call: mcall) (report: "string \<Rightarrow> mcall list") (code: int)

definition reported :: "string \<Rightarrow> string \<Rightarrow> mcall list" where
  "reported msg e = [LogError e msg]"

definition setup_plan :: "runtime \<Rightarrow> options \<Rightarrow> step list" where
  "setup_plan E o1 =
     [Say SetLogger] @
     (if webhookCertPath o1 \<noteq> '''' then [Say (Info ''Initializing webhook certificate watcher using provided certificates'')] else []) @
     (if metricsCertPath o1 \<noteq> '''' then [Say (Info ''Initializing metrics certificate watcher using provided certificates'')] else []) @
     [Try GetConfig (\<lambda>e. []) 1,
      Try (NewManager (managerOptions o1)) (reported ''Failed to start manager'') 1,
      Try (Complete SetupWithManager_repo (RepoReconciler ''pbsrepo'')) (reported ''Failed to create controller'') 1,
      Try NewDynamicClient (reported ''Failed to create dynamic client'') 1,
      Try NewDiscoveryClient (reported ''Failed to create discovery client'') 1,
      Try (MustRegister NewBackupMetrics) (\<lambda>e. []) 2,
      Try NewExecutor (\<lambda>e. []) 2,
      Try (Complete SetupWithManager_backup (BackupReconciler ''pbsbackup'' (backupReconciler E o1))) (reported ''Failed to create controller'') 1,
      Try (Complete SetupWithManager_schedule (ScheduleReconciler ''pbsschedule'')) (reported ''Failed to create controller'') 1,
      Try (Complete SetupWithManager_restore (RestoreReconciler ''pbsrestore'' (agentImageFlag o1))) (reported ''Failed to create controller'') 1,
      Try (AddHealthzCheck ''healthz'') (reported ''Failed to set up health check'') 1,
      Try (AddReadyzCheck ''readyz'') (reported ''Failed to set up ready check'') 1,
      Say (Info ''Starting manager'')]"

definition main_plan :: "runtime \<Rightarrow> options \<Rightarrow> step list" where
  "main_plan E o1 = setup_plan E o1 @ [Try StartManager (reported ''Failed to run manager'') 1]"

fun log_all :: "runtime \<Rightarrow> mcall list \<Rightarrow> unit mop" where
  "log_all E [] = State_Monad.return ()"
| "log_all E (c # cs) = do { ask E c; log_all E cs }"

fun run_steps :: "runtime \<Rightarrow> step list \<Rightarrow> int mop" where
  "run_steps E [] = State_Monad.return 0"
| "run_steps E (Say c # ss) = do { ask E c; run_steps E ss }"
| "run_steps E (Try c h k # ss) = do {
     err \<leftarrow> ask E c;
     case err of Some e \<Rightarrow> do { log_all E (h e); State_Monad.return k } | None \<Rightarrow> run_steps E ss }"

lemma main_with_plan: "main_with E o1 = run_steps E (main_plan E o1)"
  by (simp add: main_with_def main_plan_def setup_plan_def orExit_def orDie_def info_def reported_def)

subsection \<open>Running a plan\<close>

text \<open>All calls of some steps are answered without an error when they are made.\<close>

definition all_answered :: "runtime \<Rightarrow> mcall list \<Rightarrow> step list \<Rightarrow> bool" where
  "all_answered E l ss \<longleftrightarrow> (\<forall>pre c h k post. ss = pre @ Try c h k # post \<longrightarrow> rt_answer E (l @ map call pre) c = None)"

lemma all_answered_Nil [simp]: "all_answered E l []"
  by (simp add: all_answered_def)

lemma all_answered_Cons:
  "all_answered E l (s # ss) \<longleftrightarrow> (\<forall>c h k. s = Try c h k \<longrightarrow> rt_answer E l c = None) \<and> all_answered E (l @ [call s]) ss"
  (is "?l \<longleftrightarrow> ?r")
proof
  show ?l if ?r
    unfolding all_answered_def
  proof (intro allI impI)
    fix pre c h k post assume "s # ss = pre @ Try c h k # post"
    with that show "rt_answer E (l @ map call pre) c = None"
      by (cases pre) (auto simp: all_answered_def)
  qed
  show ?r if ?l
    using that unfolding all_answered_def
    by (metis Cons_eq_appendI append_Nil append_Nil2 append_assoc list.simps(8,9))
qed

lemma run_log_all: "run_state (log_all E cs) l = ((), l @ cs)"
  by (induction cs arbitrary: l) (simp_all add: ask_def)

text \<open>A plan runs to its end with code 0, or up to the first call that fails, which is reported.\<close>

definition stops_at :: "runtime \<Rightarrow> mcall list \<Rightarrow> step list \<Rightarrow> int \<Rightarrow> mcall list \<Rightarrow> bool" where
  "stops_at E l ss n l' \<longleftrightarrow> (\<exists>pre c h post e. ss = pre @ Try c h n # post \<and> all_answered E l pre \<and>
     rt_answer E (l @ map call pre) c = Some e \<and> l' = l @ map call pre @ c # h e)"

lemma stops_at_later:
  assumes "stops_at E (l @ [call s]) ss n l'" "all_answered E l [s]"
  shows "stops_at E l (s # ss) n l'"
proof -
  obtain pre c h post e where w: "ss = pre @ Try c h n # post" "all_answered E (l @ [call s]) pre"
    "rt_answer E ((l @ [call s]) @ map call pre) c = Some e" "l' = (l @ [call s]) @ map call pre @ c # h e"
    using assms(1) unfolding stops_at_def by blast
  then show ?thesis
    unfolding stops_at_def using assms(2)
    by (intro exI [of _ "s # pre"] exI [of _ c] exI [of _ h] exI [of _ post] exI [of _ e]) (auto simp: all_answered_Cons)
qed

lemma run_steps_outcome:
  "run_state (run_steps E ss) l = (n, l') \<Longrightarrow>
   (n = 0 \<and> all_answered E l ss \<and> l' = l @ map call ss) \<or> stops_at E l ss n l'"
proof (induction ss arbitrary: l)
  case (Cons s ss)
  show ?case
  proof (cases s)
    case (Say c)
    with Cons.prems have "run_state (run_steps E ss) (l @ [call s]) = (n, l')" by (simp add: ask_def)
    from Cons.IH [OF this] Say show ?thesis
      using stops_at_later [of E l s ss n l'] by (auto simp: all_answered_Cons)
  next
    case (Try c h k)
    show ?thesis
    proof (cases "rt_answer E l c")
      case None
      with Try Cons.prems have "run_state (run_steps E ss) (l @ [call s]) = (n, l')" by (simp add: ask_def)
      from Cons.IH [OF this] Try None show ?thesis
        using stops_at_later [of E l s ss n l'] by (auto simp: all_answered_Cons)
    next
      case (Some e)
      with Try Cons.prems have "n = k" "l' = l @ c # h e" by (auto simp: ask_def run_log_all)
      then show ?thesis
        using Some unfolding Try stops_at_def
        by (intro disjI2 exI [of _ "[]"] exI [of _ c] exI [of _ h] exI [of _ ss] exI [of _ e]) simp
    qed
  qed
qed simp

text \<open>The process of the operator.  A help request ends it with 0 and a bad command line with 2,
  before anything is done.  Otherwise it makes the calls of its plan in order: the manager with the
  options of the flags, the four controllers, the checks, the start.  It ends with 0 exactly when
  every call succeeded, and else at the first call that failed, with that call's code (1, or 2 of a
  panic), after reporting the error.\<close>

theorem operator_main_outcome:
  "case parse_flags (map_of (main_flags @ rt_flags E)) (rt_accepts E) args of
     Settings st \<Rightarrow> (let plan = main_plan E (main_options st); (n, log) = run_state (operator_main E args) []
       in if n = 0 then all_answered E [] plan \<and> log = map call plan else n \<in> {1, 2} \<and> stops_at E [] plan n log)
   | HelpRequested \<Rightarrow> run_state (operator_main E args) [] = (0, [])
   | BadFlags \<Rightarrow> run_state (operator_main E args) [] = (2, [])"
proof (cases "parse_flags (map_of (main_flags @ rt_flags E)) (rt_accepts E) args")
  case (Settings st)
  let ?plan = "main_plan E (main_options st)"
  obtain n log where run: "run_state (run_steps E ?plan) [] = (n, log)" by fastforce
  have "n \<in> {1, 2}" if "stops_at E [] ?plan n log"
  proof -
    from that obtain c h where "Try c h n \<in> set ?plan" unfolding stops_at_def by force
    then show ?thesis by (auto simp: main_plan_def setup_plan_def split: if_splits)
  qed
  then show ?thesis
    using run_steps_outcome [OF run] run Settings by (auto simp: operator_main_def main_with_plan)
qed (simp_all add: operator_main_def)

definition http1_only :: "tls_option list \<Rightarrow> bool" where
  "http1_only opts \<longleftrightarrow> (\<forall>c. tls_NextProtos (foldl apply_tls c opts) = [''http/1.1''])"

lemma setup_plan_no_start:
  "StartManager \<notin> call ` set (setup_plan E o1)"
  "Try c h k \<in> set (main_plan E o1) \<Longrightarrow> StartManager \<notin> set (h e)"
  by (auto simp: main_plan_def setup_plan_def reported_def)

lemma first_start:
  assumes "pre @ x # post = as @ x # bs" "x \<notin> set as" "x \<notin> set bs"
  shows "pre = as"
proof -
  have "x \<notin> set pre"
    using assms by (metis append_Cons_eq_iff)
  with assms show ?thesis by (metis append_Cons_eq_iff)
qed

lemma started_after_setup:
  assumes "run_state (main_with E o1) [] = (n, pre @ StartManager # post)"
  shows "pre = map call (setup_plan E o1)"
proof -
  have start: "StartManager \<notin> set (map call (setup_plan E o1))" using setup_plan_no_start(1) by auto
  consider "pre @ StartManager # post = map call (setup_plan E o1) @ StartManager # []"
    | "stops_at E [] (main_plan E o1) n (pre @ StartManager # post)"
    using run_steps_outcome [OF assms [unfolded main_with_plan]] by (auto simp: main_plan_def)
  then show ?thesis
  proof cases
    case 1
    from first_start [OF this start] show ?thesis by simp
  next
    case 2
    then obtain p c h q e where w: "main_plan E o1 = p @ Try c h n # q"
      "pre @ StartManager # post = map call p @ c # h e" unfolding stops_at_def by auto
    have h: "StartManager \<notin> set (h e)" by (rule setup_plan_no_start(2) [of c h n E o1]) (simp add: w(1))
    show ?thesis
    proof (cases q rule: rev_cases)
      case Nil
      with w have "p = setup_plan E o1" "c = StartManager" by (auto simp: main_plan_def)
      with w(2) first_start [OF _ start h] show ?thesis by simp
    next
      case (snoc q' s)
      with w(1) have "setup_plan E o1 = p @ Try c h n # q'" by (auto simp: main_plan_def)
      then have "StartManager \<notin> set (map call p @ c # h e)" using start h by auto
      moreover have "StartManager \<in> set (pre @ StartManager # post)" by simp
      ultimately show ?thesis using w(2) by metis
    qed
  qed
qed

text \<open>C38: what a started manager consists of.  When the manager is started, the types of the API are
  in its scheme, the four controllers were set up before, each for its kind with the kinds it owns,
  all of them registered or built in; the backup controller has the serializer, the metrics and the
  hook executor, and both Job-making controllers the image of the flag (\<open>pbs-agent:dev\<close> by default);
  the metrics endpoint is behind authentication when it is served over TLS; and unless
  \<open>enable-http2\<close> was given, both servers offer HTTP/1.1 only.\<close>

theorem manager_started_complete:
  assumes "run_state (operator_main E args) [] = (n, pre @ StartManager # post)"
  shows "\<exists>st opts. parse_flags (map_of (main_flags @ rt_flags E)) (rt_accepts E) args = Settings st \<and>
     NewManager opts \<in> set pre \<and>
     (flag_bool st ''enable-http2'' False \<or>
        http1_only (so_TLSOpts (mg_Metrics opts)) \<and> http1_only (so_TLSOpts (mg_WebhookServer opts))) \<and>
     (mo_FilterProvider (mg_Metrics opts) \<longleftrightarrow> mo_SecureServing (mg_Metrics opts)) \<and>
     {Complete SetupWithManager_repo (RepoReconciler ''pbsrepo''),
      Complete SetupWithManager_backup (BackupReconciler ''pbsbackup''
        \<lparr>br_AgentImage = flag_string st ''agent-image'' ''pbs-agent:dev'', br_Serializer = Some (rt_machinery E),
         br_Metrics = True, br_HookExecutor = True\<rparr>),
      Complete SetupWithManager_schedule (ScheduleReconciler ''pbsschedule''),
      Complete SetupWithManager_restore (RestoreReconciler ''pbsrestore'' (flag_string st ''agent-image'' ''pbs-agent:dev''))}
       \<subseteq> set pre \<and>
     (\<forall>w r. Complete w r \<in> set pre \<longrightarrow> (\<forall>k\<in>set (w_for w # w_owns w). k = ''Job'' \<or> (SchemeGroupVersion, k) \<in> set (mg_Scheme opts)))"
proof (cases "parse_flags (map_of (main_flags @ rt_flags E)) (rt_accepts E) args")
  case (Settings st)
  let ?o = "main_options st"
  have pre: "pre = map call (setup_plan E ?o)"
    by (rule started_after_setup [OF assms [unfolded operator_main_def Settings parsed.case]])
  have http1: "flag_bool st ''enable-http2'' False \<or>
      http1_only (so_TLSOpts (mg_Metrics (managerOptions ?o))) \<and> http1_only (so_TLSOpts (mg_WebhookServer (managerOptions ?o)))"
    by (auto simp: http1_only_def managerOptions_def metricsServerOptions_def webhookServerOptions_def tlsOpts_def
        main_options_def apply_tls_def Let_def)
  have auth: "mo_FilterProvider (mg_Metrics (managerOptions ?o)) \<longleftrightarrow> mo_SecureServing (mg_Metrics (managerOptions ?o))"
    by (auto simp: managerOptions_def metricsServerOptions_def Let_def)
  have kinds: "\<forall>w r. Complete w r \<in> set pre \<longrightarrow>
      (\<forall>k\<in>set (w_for w # w_owns w). k = ''Job'' \<or> (SchemeGroupVersion, k) \<in> set (mg_Scheme (managerOptions ?o)))"
    by (auto simp: pre setup_plan_def managerOptions_def AddToScheme_def register_backup_def register_repo_def
        register_restore_def register_schedule_def SetupWithManager_repo_def SetupWithManager_backup_def
        SetupWithManager_schedule_def SetupWithManager_restore_def)
  have "NewManager (managerOptions ?o) \<in> set pre" by (simp add: pre setup_plan_def)
  moreover have "agentImageFlag ?o = flag_string st ''agent-image'' ''pbs-agent:dev''" by (simp add: main_options_def)
  ultimately show ?thesis
    using http1 auth kinds Settings
    by (intro exI [of _ st] exI [of _ "managerOptions ?o"]) (simp add: pre setup_plan_def backupReconciler_def)
qed (use assms in \<open>simp_all add: operator_main_def\<close>)

definition sample_runtime :: "(mcall \<Rightarrow> string option) \<Rightarrow> runtime" where
  "sample_runtime answer = \<lparr>rt_flags = [(''zap-devel'', LibFlag True), (''kubeconfig'', LibFlag False)],
     rt_accepts = (\<lambda>_ _. True), rt_answer = (\<lambda>_. answer), rt_machinery = named_yaml\<rparr>"

definition sample_flags :: "string list" where
  "sample_flags = [''--leader-elect'', ''--agent-image=registry/agent:1'', ''-webhook-port'', ''0x23_83'', ''--zap-devel'']"

definition sample_main :: "int \<times> mcall list" where
  "sample_main = run_state (operator_main (sample_runtime (\<lambda>_. None)) sample_flags) []"

text \<open>A command line: the flags, the options they make, and a start that succeeds.\<close>

lemma sample_flags:
  "parse_flags (map_of (main_flags @ rt_flags (sample_runtime ans))) (rt_accepts (sample_runtime ans)) sample_flags =
     Settings [(''leader-elect'', ''true''), (''agent-image'', ''registry/agent:1''), (''webhook-port'', ''0x23_83''), (''zap-devel'', ''true'')]"
  by code_simp

lemma sample_options:
  "agentImageFlag (main_options [(''leader-elect'', ''true''), (''agent-image'', ''registry/agent:1''), (''webhook-port'', ''0x23_83'')]) = ''registry/agent:1''"
  "webhookPort (main_options [(''leader-elect'', ''true''), (''agent-image'', ''registry/agent:1''), (''webhook-port'', ''0x23_83'')]) = 9091"
  "enableLeaderElection (main_options [(''leader-elect'', ''true'')])"
  by code_simp+

lemma sample_run:
  "sample_main = (0, map call (setup_plan (sample_runtime (\<lambda>_. None)) (main_options
     [(''leader-elect'', ''true''), (''agent-image'', ''registry/agent:1''), (''webhook-port'', ''0x23_83''), (''zap-devel'', ''true'')]))
     @ StartManager # [])"
  unfolding sample_main_def operator_main_def sample_flags parsed.case main_with_plan main_plan_def
  by (simp add: setup_plan_def ask_def sample_runtime_def)

theorem manager_started_complete_witness:
  "\<exists>r. Complete SetupWithManager_restore (RestoreReconciler ''pbsrestore'' ''registry/agent:1'') \<in> set (snd sample_main) \<and>
     Complete SetupWithManager_backup (BackupReconciler ''pbsbackup'' r) \<in> set (snd sample_main) \<and> br_HookExecutor r"
proof -
  obtain pre where run: "run_state (operator_main (sample_runtime (\<lambda>_. None)) sample_flags) [] = (0, pre @ StartManager # [])"
    using sample_run unfolding sample_main_def by blast
  have image: "flag_string [(''leader-elect'', ''true''), (''agent-image'', ''registry/agent:1''),
      (''webhook-port'', ''0x23_83''), (''zap-devel'', ''true'')] ''agent-image'' ''pbs-agent:dev'' = ''registry/agent:1''"
    by code_simp
  show ?thesis
    using manager_started_complete [OF run] unfolding sample_flags sample_main_def run
    by (auto simp: image)
qed

end
