(* ===== verification/Fake_Server.thy ===== *)
theory Fake_Server
  imports Pbs_Correct Agent_Backup Sample_World
begin

text \<open>
  The fake backup server of the tests (\<open>internal/pbs/pbstest\<close>): the other end of the client of
  \<open>Pbs_Client\<close>.  Composing the two shows that the requests the client builds are the ones a server
  understands, and that the client reads the answers back as they were meant.  The server's state is
  a function of the calls made so far.
\<close>

section \<open>Requests as a server reads them\<close>

text \<open>The decoded path of a request target (\<open>r.URL.Path\<close>); \<open>None\<close> is a bad escape.\<close>

fun PathUnescape :: "string \<Rightarrow> string option" where
  "PathUnescape [] = Some []"
| "PathUnescape (c # cs) =
     (if c = CHR ''%'' then
        (case cs of
           a # b # r \<Rightarrow> (case (hex_val a, hex_val b) of
               (Some x, Some y) \<Rightarrow> map_option (Cons (char_of (nat (16 * x + y)))) (PathUnescape r)
             | _ \<Rightarrow> None)
         | _ \<Rightarrow> None)
      else map_option (Cons c) (PathUnescape cs))"

definition url_path :: "string \<Rightarrow> string option" where
  "url_path target = PathUnescape (takeWhile (\<lambda>c. c \<noteq> CHR ''?'') target)"

definition HasSuffix :: "string \<Rightarrow> string \<Rightarrow> bool" where
  "HasSuffix s suffix \<longleftrightarrow> length suffix \<le> length s \<and> drop (length s - length suffix) s = suffix"

text \<open>A path the mux takes as it is: no empty segment inside, none of dots.  Others it redirects.\<close>

definition clean_url :: "string \<Rightarrow> bool" where
  "clean_url p \<longleftrightarrow> (case Split CHR ''/'' p of
     [] \<Rightarrow> False
   | s # ss \<Rightarrow> s = '''' \<and> ss \<noteq> [] \<and> list_all (\<lambda>x. x \<noteq> '''') (butlast ss) \<and> list_all (\<lambda>x. x \<noteq> ''.'' \<and> x \<noteq> ''..'') ss)"

section \<open>The server\<close>

record Server =
  s_addr :: string
  s_cert :: string
  s_snapshots :: jval
  s_nsStatus :: int
  s_nsAuths :: "string list"

definition Start :: "string \<Rightarrow> string \<Rightarrow> Server" where
  "Start addr cert = \<lparr>s_addr = addr, s_cert = cert, s_snapshots = JvArr [], s_nsStatus = 0, s_nsAuths = []\<rparr>"

definition Fingerprint :: "(string \<Rightarrow> string) \<Rightarrow> Server \<Rightarrow> string" where
  "Fingerprint sha256 S = Join (map (\<lambda>c. ToUpper (hex_byte c)) (sha256 (s_cert S))) '':''"

text \<open>\<open>net.SplitHostPort\<close> of an address without brackets; an error leaves both empty.\<close>

definition SplitHostPort :: "string \<Rightarrow> string \<times> string" where
  "SplitHostPort a =
     (let h = takeWhile (\<lambda>c. c \<noteq> CHR '':'') a; p = dropWhile (\<lambda>c. c \<noteq> CHR '':'') a
      in if p = [] \<or> CHR '':'' \<in> set (tl p) then ('''', '''') else (h, tl p))"

definition Host :: "Server \<Rightarrow> string" where
  "Host S = fst (SplitHostPort (s_addr S))"

definition Port :: "Server \<Rightarrow> int" where
  "Port S = (case Atoi (snd (SplitHostPort (s_addr S))) of None \<Rightarrow> 0 | Some p \<Rightarrow> p)"

definition SetSnapshots :: "jval \<Rightarrow> Server \<Rightarrow> Server" where
  "SetSnapshots snaps S = S\<lparr>s_snapshots := snaps\<rparr>"

definition SetNamespaceStatus :: "int \<Rightarrow> Server \<Rightarrow> Server" where
  "SetNamespaceStatus code S = S\<lparr>s_nsStatus := code\<rparr>"

definition NamespaceAuthHeaders :: "Server \<Rightarrow> string list" where
  "NamespaceAuthHeaders S = s_nsAuths S"

definition writeJSON :: "int \<Rightarrow> jval \<Rightarrow> int \<times> string" where
  "writeJSON code v = (code, enc_val v @ [CHR 0x0A])"

definition http_Error :: "string \<Rightarrow> int \<Rightarrow> int \<times> string" where
  "http_Error body status = (status, body @ [CHR 0x0A])"

text \<open>The handler, by method and decoded path.\<close>

definition serve :: "Server \<Rightarrow> string \<Rightarrow> string \<Rightarrow> string \<Rightarrow> Server \<times> int \<times> string" where
  "serve S meth path auth =
     (if meth = ''GET'' \<and> HasSuffix path ''/snapshots'' then
        (S, writeJSON 200 (JvObj [(''data'', s_snapshots S)]))
      else if meth = ''POST'' \<and> HasSuffix path ''/namespace'' then
        (let S' = S\<lparr>s_nsAuths := s_nsAuths S @ [auth]\<rparr>; status = s_nsStatus S
         in if status = 0 then (S', writeJSON 200 (JvObj [(''data'', JvNull)]))
            else (S', http_Error (if status = 400 then ''namespace already exists'' else ''boom'') status))
      else (S, http_Error ''not found'' 404))"

text \<open>The mux: the one pattern, a subtree.\<close>

definition datastore_prefix :: string where
  "datastore_prefix = ''/api2/json/admin/datastore/''"

definition mux :: "Server \<Rightarrow> string \<Rightarrow> string \<Rightarrow> string \<Rightarrow> Server \<times> int \<times> string" where
  "mux S meth path auth = (if HasPrefix path datastore_prefix then serve S meth path auth
     else (S, http_Error ''404 page not found'' 404))"

section \<open>The network\<close>

text \<open>A request to the server's address: the handshake runs the client's pin on the certificate (the
  \<open>VerifyPeerCertificate\<close> of \<open>NewClient\<close>), then the mux answers.  Requests to other addresses, with
  a path that does not decode or that the mux redirects, are answered by the rest of the world.\<close>

definition reaches :: "Server \<Rightarrow> http_request \<Rightarrow> bool" where
  "reaches S r \<longleftrightarrow> hr_baseURL r = ''https://'' @ s_addr S \<and>
     (case url_path (hr_path r) of None \<Rightarrow> False | Some p \<Rightarrow> clean_url p)"

definition handshake :: "(string \<Rightarrow> string) \<Rightarrow> Server \<Rightarrow> http_request \<Rightarrow> string option" where
  "handshake sha256 S r = verifyFingerprint sha256 [s_cert S] (hr_fingerprint r)"

definition exchange :: "(string \<Rightarrow> string) \<Rightarrow> Server \<Rightarrow> http_request \<Rightarrow> Server \<times> http_response" where
  "exchange sha256 S r = (case handshake sha256 S r of
     Some e \<Rightarrow> (S, TransportError e)
   | None \<Rightarrow> (case mux S (hr_method r) (the (url_path (hr_path r))) (hr_auth r) of
       (S', status, body) \<Rightarrow> (S', Response status body)))"

fun served_all :: "(string \<Rightarrow> string) \<Rightarrow> Server \<Rightarrow> kcall list \<Rightarrow> Server" where
  "served_all sha256 S [] = S"
| "served_all sha256 S (c # cs) = served_all sha256
     (case c of Http r \<Rightarrow> if reaches S r then fst (exchange sha256 S r) else S | _ \<Rightarrow> S) cs"

definition with_server :: "(string \<Rightarrow> string) \<Rightarrow> Server \<Rightarrow> kube \<Rightarrow> kube" where
  "with_server sha256 S K = K\<lparr>k_http := (\<lambda>l r.
     let S' = served_all sha256 S l in if reaches S' r then snd (exchange sha256 S' r) else k_http K l r)\<rparr>"

section \<open>Paths\<close>

lemma hex_val_upper: "n < 16 \<Longrightarrow> hex_val (upper_digit n) = Some (int n)"
  using upper_digit by blast

lemma byte_join: "char_of (nat (16 * int ((of_char c :: nat) div 16) + int ((of_char c :: nat) mod 16))) = c"
proof -
  have "nat (16 * int ((of_char c :: nat) div 16) + int ((of_char c :: nat) mod 16)) = of_char c"
    by (simp add: nat_add_distrib nat_mult_distrib)
  then show ?thesis by (metis char_of_char)
qed

lemma PathUnescape_percent: "PathUnescape (percent c @ r) = map_option (Cons c) (PathUnescape r)"
  using byte_digits [of c] by (simp add: percent_upper upper_hex_def hex_val_upper byte_join)

lemma PathUnescape_escape: "PathUnescape (PathEscape s @ r) = map_option (append s) (PathUnescape r)"
proof (induction s)
  case (Cons c s)
  have "PathUnescape (PathEscape (c # s) @ r) = map_option (Cons c) (PathUnescape (PathEscape s @ r))"
  proof (cases "unreserved c \<or> (of_char c :: nat) \<in> {36, 38, 43, 58, 61, 64}")
    case True
    then have "c \<noteq> CHR ''%''" by (auto simp: unreserved_def)
    with True show ?thesis by (simp add: PathEscape_def)
  next
    case False
    then show ?thesis by (simp add: PathEscape_def PathUnescape_percent)
  qed
  with Cons show ?case by (simp add: option.map_comp comp_def)
qed (simp add: PathEscape_def option.map_ident)

text \<open>What the client escapes the server reads back: for every name of a datastore.\<close>

lemma PathUnescape_plain: "CHR ''%'' \<notin> set s \<Longrightarrow> PathUnescape (s @ r) = map_option (append s) (PathUnescape r)"
  by (induction s) (cases "PathUnescape r"; auto)+

lemma upper_digit_no_query: "n < 16 \<Longrightarrow> CHR ''?'' \<noteq> upper_digit n"
proof -
  have "hex_val (CHR ''?'') = None" by code_simp
  then show "n < 16 \<Longrightarrow> CHR ''?'' \<noteq> upper_digit n" using hex_val_upper [of n] by (metis option.distinct(1))
qed

lemma PathEscape_no_query: "CHR ''?'' \<notin> set (PathEscape s)"
proof -
  have "CHR ''?'' \<notin> set (percent c)" for c
    using upper_digit_no_query byte_digits [of c] by (simp add: percent_upper upper_hex_def)
  moreover have "\<not> unreserved (CHR ''?'')" by code_simp
  ultimately show ?thesis by (auto simp: PathEscape_def)
qed

lemma takeWhile_stop: "x \<notin> set s \<Longrightarrow> takeWhile (\<lambda>c. c \<noteq> x) (s @ x # r) = s"
  "x \<notin> set s \<Longrightarrow> takeWhile (\<lambda>c. c \<noteq> x) s = s"
  by (induction s) auto

lemma namespace_url: "url_path (namespace_path store) = Some (datastore_prefix @ store @ ''/namespace'')"
proof -
  have "takeWhile (\<lambda>c. c \<noteq> CHR ''?'') (namespace_path store) = datastore_prefix @ PathEscape store @ ''/namespace''"
    unfolding namespace_path_def datastore_prefix_def
    by (rule takeWhile_stop(2)) (use PathEscape_no_query in auto)
  moreover have "PathUnescape (datastore_prefix @ PathEscape store @ ''/namespace'') =
      Some (datastore_prefix @ store @ ''/namespace'')"
    by (subst PathUnescape_plain) (simp_all add: datastore_prefix_def PathUnescape_escape)
  ultimately show ?thesis by (simp add: url_path_def)
qed

lemma snapshots_url: "url_path (snapshots_path store ns) = Some (datastore_prefix @ store @ ''/snapshots'')"
proof -
  have "snapshots_path store ns = (datastore_prefix @ PathEscape store @ ''/snapshots'') @ CHR ''?'' # ''ns='' @ QueryEscape ns"
    by (simp add: snapshots_path_def datastore_prefix_def)
  then have "takeWhile (\<lambda>c. c \<noteq> CHR ''?'') (snapshots_path store ns) = datastore_prefix @ PathEscape store @ ''/snapshots''"
    using takeWhile_stop(1) [of "CHR ''?''" "datastore_prefix @ PathEscape store @ ''/snapshots''" "''ns='' @ QueryEscape ns"]
      PathEscape_no_query [of store] by (simp add: datastore_prefix_def)
  moreover have "PathUnescape (datastore_prefix @ PathEscape store @ ''/snapshots'') =
      Some (datastore_prefix @ store @ ''/snapshots'')"
    by (subst PathUnescape_plain) (simp_all add: datastore_prefix_def PathUnescape_escape)
  ultimately show ?thesis by (simp add: url_path_def)
qed

lemma HasSuffix_append [simp]: "HasSuffix (a @ b) b"
  by (simp add: HasSuffix_def)

lemma HasSuffix_mid [simp]: "HasSuffix (a @ b @ c) c"
  using HasSuffix_append [of "a @ b" c] by simp

section \<open>Snapshots on the wire\<close>

definition snapshot_json :: "string \<times> string \<times> int \<times> int \<Rightarrow> jval" where
  "snapshot_json = (\<lambda>(ty, i, time, size). JvObj [(''backup-id'', JvStr i), (''backup-time'', JvNum (Itoa time)),
     (''backup-type'', JvStr ty), (''size'', JvNum (Itoa size))])"

definition snapshot_value :: "string \<times> string \<times> int \<times> int \<Rightarrow> Snapshot" where
  "snapshot_value = (\<lambda>(ty, i, time, size). \<lparr>BackupType = ty, BackupID = i, BackupTime = of_int time, Size = size\<rparr>)"

lemma marks_no_digit: "\<not> is_digit (CHR ''e'')" "\<not> is_digit (CHR ''E'')" "\<not> is_digit (CHR ''.'')" "\<not> is_digit (CHR ''-'')"
  by code_simp+

lemma digits_no_mark: "list_all is_digit s \<Longrightarrow> CHR ''e'' \<notin> set s \<and> CHR ''E'' \<notin> set s \<and> CHR ''.'' \<notin> set s \<and> CHR ''-'' \<notin> set s"
  using marks_no_digit unfolding list_all_iff by blast

lemma literal_digits:
  assumes d: "list_all is_digit ds"
  shows "literal_value ds = of_int (digits_value ds)" "literal_value (CHR ''-'' # ds) = - of_int (digits_value ds)"
proof -
  have plain: "\<not> (ds \<noteq> [] \<and> hd ds = CHR ''-'')"
    using digits_no_mark [OF d] by (metis list.set_sel(1))
  have whole: "takeWhile (\<lambda>c. c \<noteq> CHR ''e'' \<and> c \<noteq> CHR ''E'') ds = ds" "takeWhile (\<lambda>c. c \<noteq> CHR ''.'') ds = ds"
    using digits_no_mark [OF d] by (auto simp: takeWhile_eq_all_conv)
  have none: "Atoi [] = None" by (simp add: Atoi_def)
  show "literal_value ds = of_int (digits_value ds)"
    unfolding literal_value_def Let_def if_not_P [OF plain] whole
    by (simp add: none)
  show "literal_value (CHR ''-'' # ds) = - of_int (digits_value ds)"
    by (simp add: literal_value_def Let_def whole none)
qed

lemma literal_Itoa: "literal_value (Itoa n) = of_int n"
  using digits_value_dec [of n] digits_value_dec [of "- n"] literal_digits by (auto simp: Itoa_def)

text \<open>A list of snapshots, rendered by the server, is what the client decodes.\<close>

lemma ascii_fold_names:
  "ToLower ''backup-id'' = ''backup-id''" "ToLower ''backup-time'' = ''backup-time''"
  "ToLower ''backup-type'' = ''backup-type''" "ToLower ''size'' = ''size''" "ToLower ''data'' = ''data''"
  by code_simp+

lemma un_snapshot_json:
  assumes "int64 (snd (snd (snd x)))"
  shows "un_snapshot (snapshot_json x) = Some (snapshot_value x)"
proof -
  obtain ty i time size where x: "x = (ty, i, time, size)" by (metis prod.collapse)
  show ?thesis
    using assms by (simp add: x un_snapshot_def snapshot_json_def snapshot_value_def un_members_def ascii_fold_names
        un_string_def un_float64_def un_int64_def literal_Itoa Atoi_Itoa int64_def)
qed

lemma un_snapshots_json:
  "list_all (\<lambda>x. int64 (snd (snd (snd x)))) xs \<Longrightarrow> un_snapshots (JvArr (map snapshot_json xs)) old = Some (map snapshot_value xs)"
  by (induction xs) (auto simp: un_snapshots_def un_snapshot_json)

lemma wf_snapshot_json: "int64 (fst (snd (snd x))) \<Longrightarrow> int64 (snd (snd (snd x))) \<Longrightarrow> wf_jval (snapshot_json x)"
  by (cases x) (auto simp: snapshot_json_def int_text_def int64_def Atoi_Itoa)

section \<open>The client against the server\<close>

lemma unwrap_data:
  assumes "wf_jval v" "decode v = Some x"
  shows "unwrap err decode (enc_val (JvObj [(''data'', v)]) @ [CHR 0x0A]) = Inr x"
proof -
  have "parse_json (enc_val (JvObj [(''data'', v)]) @ [CHR 0x0A]) = Some (JvObj [(''data'', v)])"
    by (rule parse_json_enc_ws) (use assms(1) in \<open>auto simp: is_ws_def\<close>)
  then show ?thesis
    using assms(2) unfolding unwrap_def
    by (simp add: envelope_data_def un_members_def ascii_fold_names del: enc_val.simps)
qed

text \<open>The server's configuration is not changed by serving; only the recorded tokens grow.\<close>

lemma exchange_state: "\<exists>xs. fst (exchange sha S r) = S\<lparr>s_nsAuths := xs\<rparr>"
proof -
  have same: "\<exists>xs. S = S\<lparr>s_nsAuths := xs\<rparr>" by (intro exI [of _ "s_nsAuths S"]) simp
  show ?thesis
  proof (cases "handshake sha S r")
    case None
    obtain S' a b where m: "mux S (hr_method r) (the (url_path (hr_path r))) (hr_auth r) = (S', a, b)" by (metis prod.collapse)
    then have "\<exists>xs. S' = S\<lparr>s_nsAuths := xs\<rparr>"
      using same by (auto simp: mux_def serve_def Let_def split: if_splits)
    with None m show ?thesis by (simp add: exchange_def)
  qed (use same in \<open>simp add: exchange_def\<close>)
qed

lemma exchange_config:
  "s_addr (fst (exchange sha S r)) = s_addr S" "s_cert (fst (exchange sha S r)) = s_cert S"
  "s_snapshots (fst (exchange sha S r)) = s_snapshots S" "s_nsStatus (fst (exchange sha S r)) = s_nsStatus S"
  using exchange_state [of sha S r] by auto

lemma served_config:
  "s_addr (served_all sha S l) = s_addr S" "s_cert (served_all sha S l) = s_cert S"
  "s_snapshots (served_all sha S l) = s_snapshots S" "s_nsStatus (served_all sha S l) = s_nsStatus S"
  by (induction sha S l rule: served_all.induct) (auto simp: exchange_config split: kcall.split)

lemma served_append: "served_all sha S (l @ l') = served_all sha (served_all sha S l) l'"
  by (induction sha S l rule: served_all.induct) simp_all

text \<open>A client made for the server: its address and the fingerprint it presents.\<close>

definition client_of :: "(string \<Rightarrow> string) \<Rightarrow> Server \<Rightarrow> string \<Rightarrow> string \<Rightarrow> pbs_client" where
  "client_of sha S tokenID tokenSecret = NewClient (Host S) (Port S) tokenID tokenSecret (Fingerprint sha S)"

definition listens :: "Server \<Rightarrow> bool" where
  "listens S \<longleftrightarrow> (\<exists>h p. s_addr S = h @ '':'' @ Itoa p \<and> CHR '':'' \<notin> set h \<and> - (2 ^ 63) \<le> p \<and> p < 2 ^ 63)"

definition clean_store :: "string \<Rightarrow> bool" where
  "clean_store store \<longleftrightarrow> clean_url (datastore_prefix @ store @ ''/namespace'') \<and> clean_url (datastore_prefix @ store @ ''/snapshots'')"

lemma SplitHostPort_addr:
  assumes "CHR '':'' \<notin> set h" shows "SplitHostPort (h @ CHR '':'' # Itoa p) = (h, Itoa p)"
proof -
  have "CHR '':'' \<notin> set (Itoa p)" using Itoa_set [of p] by auto
  moreover have "dropWhile (\<lambda>c. c \<noteq> CHR '':'') (h @ CHR '':'' # Itoa p) = CHR '':'' # Itoa p"
    using assms by (induction h) auto
  ultimately show ?thesis
    using takeWhile_stop(1) [OF assms] by (simp add: SplitHostPort_def Let_def)
qed

lemma client_base: "listens S \<Longrightarrow> pc_baseURL (client_of sha S t s) = ''https://'' @ s_addr S"
  by (auto simp: listens_def client_of_def NewClient_def Host_def Port_def SplitHostPort_addr Atoi_Itoa)

lemma client_token: "pc_authToken (client_of sha S t s) = ''PBSAPIToken='' @ t @ '':'' @ s"
  "pc_fingerprint (client_of sha S t s) = Fingerprint sha S"
  by (simp_all add: client_of_def NewClient_def)

lemma Fingerprint_accepted: "verifyFingerprint sha [s_cert S] (Fingerprint sha S) = None"
  by (simp add: verifyFingerprint_def Fingerprint_def colonHex_def Let_def)

lemma with_server_http:
  "k_http (with_server sha S K) l r = (let S' = served_all sha S l in if reaches S' r then snd (exchange sha S' r) else k_http K l r)"
  "k_jsonError (with_server sha S K) = k_jsonError K"
  by (simp_all add: with_server_def)

lemma requests_reach:
  assumes "listens S" "clean_store store"
  shows "reaches (served_all sha S l) (namespace_request (client_of sha S t s) store ns)"
    "reaches (served_all sha S l) (snapshots_request (client_of sha S t s) store ns)"
  using assms client_base [OF assms(1)]
  by (simp_all add: reaches_def namespace_request_def snapshots_request_def pbs_request_def served_config
      namespace_url snapshots_url clean_store_def)

lemma pin_accepted:
  "handshake sha (served_all sha S l) (namespace_request (client_of sha S t s) store ns) = None"
  "handshake sha (served_all sha S l) (snapshots_request (client_of sha S t s) store ns) = None"
  by (simp_all add: handshake_def namespace_request_def snapshots_request_def pbs_request_def served_config client_token
      Fingerprint_accepted)

lemma snapshots_answer:
  assumes "listens S" "clean_store store"
  shows "k_http (with_server sha S K) l (snapshots_request (client_of sha S t s) store ns) =
    Response 200 (enc_val (JvObj [(''data'', s_snapshots S)]) @ [CHR 0x0A])"
  using requests_reach(2) [OF assms] pin_accepted(2)
  by (simp add: with_server_http Let_def exchange_def mux_def serve_def snapshots_request_def pbs_request_def
      snapshots_url writeJSON_def served_config del: enc_val.simps)

lemma namespace_answer:
  assumes "listens S" "clean_store store"
  shows "k_http (with_server sha S K) l (namespace_request (client_of sha S t s) store ns) =
    (if s_nsStatus S = 0 then Response 200 (enc_val (JvObj [(''data'', JvNull)]) @ [CHR 0x0A])
     else Response (s_nsStatus S) ((if s_nsStatus S = 400 then ''namespace already exists'' else ''boom'') @ [CHR 0x0A]))"
    "served_all sha S (l @ [Http (namespace_request (client_of sha S t s) store ns)]) =
      (served_all sha S l)\<lparr>s_nsAuths := s_nsAuths (served_all sha S l) @ [''PBSAPIToken='' @ t @ '':'' @ s]\<rparr>"
  using requests_reach(1) [OF assms] pin_accepted(1)
  by (simp_all add: with_server_http Let_def exchange_def mux_def serve_def namespace_request_def pbs_request_def
      namespace_url writeJSON_def http_Error_def served_config served_append client_token del: enc_val.simps)

text \<open>The namespace is there exactly when the server was not told to fail.\<close>

lemma exists_message: "Contains (ToLower (''namespace already exists'' @ [CHR 0x0A])) ''already exist''"
  by code_simp

lemma EnsureNamespace_served:
  assumes "listens S" "clean_store store"
  shows "result (EnsureNamespace (with_server sha S K) (client_of sha S t s) store ns) l = None \<longleftrightarrow>
    s_nsStatus S = 0 \<or> s_nsStatus S \<le> 400"
  using exists_message
  by (auto simp: EnsureNamespace_run(2) namespace_answer(1) [OF assms] namespace_present_def accepted_def del: enc_val.simps)

lemma ListSnapshots_served:
  assumes "listens S" "clean_store store" "un_snapshots (s_snapshots S) [] = Some xs" "wf_jval (s_snapshots S)"
  shows "result (ListSnapshots (with_server sha S K) (client_of sha S t s) store ns) l = Inr xs"
  using snapshots_answer [OF assms(1,2)] unwrap_data [OF assms(4), where decode = "\<lambda>v. un_snapshots v []", OF assms(3)]
  by (simp add: ListSnapshots_def pbs_do_def http_do_def result_def snapshots_request_def with_server_http
      del: enc_val.simps)


text \<open>A client that pins another certificate reaches no handler: the server records nothing.\<close>

lemma other_pin_refused:
  assumes "fingerprintKey (hr_fingerprint r) \<noteq> fingerprintKey (Fingerprint sha S)"
  shows "fst (exchange sha S r) = S \<and> (\<exists>e. snd (exchange sha S r) = TransportError e)"
  using assms by (auto simp: exchange_def handshake_def verifyFingerprint_def Fingerprint_def colonHex_def Let_def)

definition sample_server :: Server where
  "sample_server = Start ''127.0.0.1:8007'' ''certificate''"

definition sample_digest :: "string \<Rightarrow> string" where
  "sample_digest cert = take 4 cert"


end
