(* ===== verification/Spec2Isabelle.thy ===== *)
theory Spec2Isabelle
  imports Manifest_Examples Backup_Examples Result_Contract Schedule_Examples Repo_Examples
    Backup_Loop Restore_Loop Agent_Restore_Examples Agent_Files_Examples Volume_Examples Deep_Copy_Examples Hook_Exec Manager_Setup Fake_Server
begin

text \<open>
  A verification library for \<open>pbs-operator\<close>, a Kubernetes operator in Go that backs namespaces up
  into a Proxmox Backup Server (PBS) and restores them.

  \<^bold>\<open>The program.\<close>  Four reconcilers run in the manager (\<open>internal/controller\<close>): a \<open>PBSRepo\<close> describes
  a server and is probed; a \<open>PBSSchedule\<close> creates a \<open>PBSBackup\<close> per cron slot; a \<open>PBSBackup\<close>
  becomes one Job per node that holds a claim; a \<open>PBSRestore\<close> becomes the pipeline fetch, pre apply,
  volume Jobs, workload apply.  The Jobs, built by \<open>internal/backup\<close>, run \<open>pbs-agent\<close>
  (\<open>cmd/agent\<close>, \<open>internal/agent\<close>), which drives \<open>proxmox-backup-client\<close> and \<open>kubectl\<close> and reports
  on its termination log, where the backup controller reads the result.  The restore stages the
  archive the backup serialized, decodes it again in the controller (for the volume plan) and in
  the agent (for the apply).

  \<^bold>\<open>How effects are modelled.\<close>  An operation is a function in a state monad whose state is the
  history of calls made so far (\<open>Op_Prelude\<close>).  Every call through an interface of the code (API
  client, recorder, metrics, hook executor, HTTP exchange, clock: \<open>kcall\<close> in \<open>Kube_Env\<close>; child
  processes and files: \<open>acall\<close> in \<open>Agent_Env\<close>) is logged and answered by a function of the history,
  a field of the record \<open>kube\<close> or \<open>proc\<close> that every theorem is about for all values: any API server,
  any stale cache, any error, any interleaving of other writers.  Go errors are the left of a sum, a
  \<open>problem\<close> string the left of an inner sum; maps are partial functions, grouping maps association
  lists, machine integers are words or have their wrap-around written out (\<open>add64\<close>, \<open>fnv32a\<close>), JSON
  numbers are exact rationals.  A record of the API is passed by value; \<open>Deep_Copy\<close> and
  \<open>Status_Memory\<close> show on an explicit Go memory, for the generated copies and for \<open>recordOutcome\<close> of
  the backup controller, that the code's copying makes this right.

  \<^bold>\<open>Theories and code.\<close>
  \<^item> \<open>Op_Prelude\<close>, \<open>History_Logic\<close>: the monad; the logics \<open>emits\<close>, \<open>gives\<close>, \<open>wp\<close>, \<open>emits_ordered\<close> on
    the calls of an operation and \<open>walks\<close>, where each call is judged with the history before it.
  \<^item> \<open>Go_Strings\<close>, \<open>Go_Json\<close>, \<open>Json_Object\<close>: the standard library the code computes with
    (\<open>strings\<close>, \<open>strconv\<close>, \<open>hash/fnv\<close>, RFC 3339, \<open>flag\<close>, \<open>encoding/json\<close>, unstructured objects).
  \<^item> \<open>Kube_Objects\<close> (\<open>api/v1\<close> and the Kubernetes fields in use), \<open>Kube_Env\<close>, \<open>Sample_World\<close>.
  \<^item> \<open>Job_Name\<close>, \<open>Placement\<close>, \<open>Snapshot_Ref\<close>, \<open>Job_Builder\<close>, \<open>Restore_Plan\<close>, \<open>Serialize\<close>:
    \<open>internal/backup\<close> (and \<open>jobName\<close> of the controllers).  Job names are labels of at most 63
    characters; placement is first match; a built Job mounts and runs what its specification says;
    the buckets of an apply partition the documents; serialization is deterministic and reads only.
  \<^item> \<open>Archive_Roundtrip\<close>: what \<open>SerializeNamespace\<close> writes \<open>ParseAPIManifests\<close> reads back.
  \<^item> \<open>Hooks\<close>, \<open>Hook_Exec\<close>: \<open>internal/hooks/exec.go\<close>: \<open>ParseHook\<close> with a round trip; the executor, its
    error texts, and the outcome of the hooks of a backup in terms of what each stream gave.
  \<^item> \<open>Pbs_Client\<close>, \<open>Pbs_Correct\<close>: \<open>internal/pbs\<close>: pinning, requests and envelope, namespaces, snapshots
    and the task poll, which ends with its context.  \<open>Fake_Server\<close>: the server of
    \<open>internal/pbs/pbstest\<close> with its state, composed with the client over a network that runs the
    handshake check: what the server holds is what the client reads.
  \<^item> \<open>Agent_Args\<close>, \<open>Agent_Env\<close>, \<open>Agent_Backup\<close>, \<open>Agent_Restore\<close>, \<open>Agent_Restore_Correct\<close>: the agent.  The
    locale \<open>agent_command\<close> is the contract of a Job builder with the subcommand that runs in the
    Job; the three builders interpret it.  \<open>Result_Contract\<close> is the contract of the agent's result
    line with the controller that reads it.
  \<^item> \<open>Agent_Files\<close>, \<open>Agent_Targets\<close>: the files of the agent on an explicit file system: emptying a
    target is confined and complete, extraction starts in an empty target, the key never outlives a
    backup run.
  \<^item> \<open>Volume_Roundtrip\<close>: the data of the claims through both Jobs: builders, parsers and runs of the
    agent composed over the documented behaviour of the client; what was backed up is restored.
    \<open>Manifest_Roundtrip\<close>: the same for the API archive, from the reconcile that stages it through
    the backup Job and the fetch Job (\<open>uploadConfigMap\<close> and what \<open>kubectl\<close> does with its files) to
    the documents the restore decodes.
  \<^item> \<open>Controller_Common\<close>, \<open>Controller_Logic\<close>: constants and helpers of all controllers, and the
    locales \<open>status_machine\<close>, \<open>remembering_machine\<close>, \<open>forward_machine\<close>: a status that moves by
    steps, with a final phase, interpreted by the life of a backup and of a restore.
  \<^item> \<open>Backup_Controller\<close>, \<open>Backup_Correct\<close>: one reconcile of a backup is characterised by the
    calls it may make (\<open>backup_call\<close>), the steps of its status (\<open>backup_step\<close>) and how it ends
    (\<open>lawful\<close>); over all reconciles the phase moves forward and a terminal status is final.
    \<open>Backup_Evidence\<close> judges every created Job and every terminal patch with the history of its
    reconcile: Completed rests on the complete Job and the reported result of every selected claim's
    node, Failed on a cause that was read.  \<open>Backup_Progress\<close>: in a cluster that answers, a
    reconcile creates the Job of every node that has none, and completes the backup when all are
    complete and reported.
  \<^item> \<open>Restore_Controller\<close>, \<open>Restore_Contract\<close>, \<open>Restore_Correct\<close>, \<open>Restore_Progress\<close>: the same for the
    restore, with evidence in the history for every created Job and recorded phase; in a cluster
    that answers, a reconcile completes a restore whose pipeline is finished, and otherwise creates
    the next Job.
  \<^item> \<open>Rounds\<close>, \<open>Cluster_Jobs\<close>, \<open>Backup_Loop\<close>, \<open>Restore_Loop\<close>: the loops closed.  A record (\<open>backup_cluster\<close>,
    \<open>cluster\<close>) keeps the status, the Jobs and, for the restore, whether the manifest is uploaded.
    Reconciles read it as it was when they began (the client of the manager reads from its cache)
    and their writes change it; they are cut off at any call, Jobs finish and vanish.  What is kept
    through all that is an invariant over reachable clusters, and the locale \<open>converging\<close> (an
    invariant and a measure each round makes smaller), interpreted by both, bounds the rounds of
    finishing Jobs and one undisturbed reconcile that end it: two for a backup, the number of nodes
    plus four for a restore.  A cache that lags behind the operator's own writes of an earlier
    reconcile is outside these two theories; every other property holds for it too.
  \<^item> \<open>Schedule_Controller\<close>, \<open>Schedule_Correct\<close>, \<open>Repo_Controller\<close>, \<open>Repo_Correct\<close>: the other two.
  \<^item> \<open>Go_Memory\<close>, \<open>Deep_Copy\<close>, \<open>Deep_Copy_Correct\<close>, \<open>Status_Memory\<close>: structs, slices, maps and
    pointers in a store, the generated copies of \<open>api/v1/zz_generated.deepcopy.go\<close> on it (type
    preserved, value preserved, no memory shared), and \<open>recordOutcome\<close> with its writes in place.
  \<^item> \<open>Manager_Setup\<close>: \<open>cmd/main.go\<close> with its flags, the options of the servers, scheme and metric
    registration and the \<open>SetupWithManager\<close> functions, as calls in order with their exit codes.
  \<^item> \<open>*_Examples\<close>: concrete worlds at which the properties are applied.

  \<^bold>\<open>Loops.\<close>  No fuel is used.  Loops over lists are structural recursion.  The catch-up loop of the
  schedule (\<open>catch_up\<close>) and the task poll (\<open>WaitTask\<close>) may run for ever and are partial functions
  with \<open>None\<close> for not returning: for a cron timetable the first is proved to return the latest
  missed slot, for an expression that never fires it is proved not to return; the second returns
  whenever its context ends.  \<open>CreateTemp\<close> tries 10000 names, the bound of the Go library.

  \<^bold>\<open>Parameters.\<close>  The cron library (parsing gives an error or \<open>Next\<close>), the YAML reader and
  marshaller and the label, name and group-version functions of apimachinery, the keeping of
  conditions, owner references and selectors, what the operating
  system refuses, and every answer of the environment.  Where a
  property needs their documented behaviour it is a named hypothesis, with a witness.

  \<^bold>\<open>Not modelled.\<close>  The SPDY stream of a hook beyond its outcome, the connections and timeouts of
  the HTTP exchange (the handshake check is modelled), the controller runtime behind the manager (the
  calls to it and their errors are), log lines, the listener and the lock of \<open>pbstest\<close>, the
  \<open>recordOutcome\<close> functions of the other controllers on Go memory (they are modelled by value), the
  processes a child starts, the tests, and the manifests, charts and provisioning.
\<close>

end
